(* ===== verification/Prelude.thy ===== *)
theory Prelude
  imports Main "HOL-Library.Word" "HOL-Library.Char_ord" "HOL-Library.List_Lexorder"
    "HOL-Library.Multiset"
begin

text \<open>
  Shared vocabulary of the development: the exception classes of \<open>src/flame2/exceptions\<close>,
  the two build profiles of \<open>src/configure.ac\<close>, computations that may throw while they
  change a state, and the two ordered containers the sources iterate over
  (\<open>std::set\<close> and \<open>std::map\<close>, kept as strictly sorted lists so that iteration order
  is the order of the keys), with the lemmas the component theories use.
\<close>

section \<open>Machine types and builds\<close>

text \<open>\<open>size_t\<close> of the 64 bit targets. Sums, products and decrements wrap around.\<close>

type_synonym size_t = "64 word"

lemma size_t_bound: "unat (x :: size_t) < 18446744073709551616"
  using unsigned_less [of x, where ?'a = nat] by simp

lemma unat_size_t: "n < 18446744073709551616 \<Longrightarrow> unat (of_nat n :: size_t) = n"
  by (simp add: unat_of_nat)

lemma unat_plus_size_t:
  "unat (a :: size_t) + unat b < 18446744073709551616 \<Longrightarrow> unat (a + b) = unat a + unat b"
  using unat_add_lem [of a b] by simp

text \<open>
  \<open>configure.ac\<close> compiles either with \<open>-DDEBUG\<close> (debug and test builds) or with
  \<open>-DNDEBUG -DDISABLE_RUNTIME_TYPE_CHECKING\<close> (production build). A definition whose
  source has such a conditional takes the build as its first argument.
\<close>

datatype build = Debug | Production

section \<open>Exceptions\<close>

text \<open>
  The classes the modelled code throws, with the message of the throw site.
  \<open>UB\<close> is not an exception: it marks a path on which the C++ standard gives the
  program no meaning (a null dereference, an index past the end, a cast to another
  type). The theorems that speak about error paths show where it can and cannot occur.
\<close>

datatype exn =
    flame_exception string
  | logic_error string
  | invalid_argument string
  | invalid_operation string
  | out_of_range string
  | invalid_type string
  | invalid_variable string
  | not_implemented string
  | file_not_found string
  | flame_mem_exception string
  | invalid_agent string
  | flame_exe_exception string
  | none_available string
  | flame_task_exception string string exn
  | flame_model_exception string
  | flame_sim_exception string
  | flame_io_exception string
  | inaccessable_file string
  | unparseable_file string
  | invalid_model_file string
  | invalid_pop_file string
  | flame_api_invalid_type string string
  | flame_api_invalid_operation string string
  | flame_api_not_implemented string string
  | flame_api_out_of_range string string
  | flame_api_unknown_param string string
  | flame_api_access_denied string string
  | std_invalid_argument string
  | std_out_of_range string
  | UB string

section \<open>Computations that throw and change a state\<close>

text \<open>
  A throw does not undo the assignments made before it, so the state is returned in
  both cases.
\<close>

type_synonym ('s, 'a) exec = "'s \<Rightarrow> (exn + 'a) \<times> 's"

definition returnE :: "'a \<Rightarrow> ('s, 'a) exec" where
  "returnE a = (\<lambda>s. (Inr a, s))"

definition throwE :: "exn \<Rightarrow> ('s, 'a) exec" where
  "throwE e = (\<lambda>s. (Inl e, s))"

definition bindE :: "('s, 'a) exec \<Rightarrow> ('a \<Rightarrow> ('s, 'b) exec) \<Rightarrow> ('s, 'b) exec" where
  "bindE m f = (\<lambda>s. case m s of (Inl e, s') \<Rightarrow> (Inl e, s') | (Inr a, s') \<Rightarrow> f a s')"

fun forE :: "('x \<Rightarrow> ('s, unit) exec) \<Rightarrow> 'x list \<Rightarrow> ('s, unit) exec" where
  "forE f [] = returnE ()"
| "forE f (x # xs) = bindE (f x) (\<lambda>_. forE f xs)"

definition bindR :: "exn + 'a \<Rightarrow> ('a \<Rightarrow> exn + 'b) \<Rightarrow> exn + 'b" where
  "bindR r f = (case r of Inl e \<Rightarrow> Inl e | Inr a \<Rightarrow> f a)"

named_theorems exec_simps \<open>unfolding of computations on a given state\<close>

lemma returnE_apply [exec_simps]: "returnE a s = (Inr a, s)"
  by (simp add: returnE_def)

lemma throwE_apply [exec_simps]: "throwE e s = (Inl e, s)"
  by (simp add: throwE_def)

lemma bindE_Inl [exec_simps]: "m s = (Inl e, s') \<Longrightarrow> bindE m f s = (Inl e, s')"
  by (simp add: bindE_def)

lemma bindE_Inr [exec_simps]: "m s = (Inr a, s') \<Longrightarrow> bindE m f s = f a s'"
  by (simp add: bindE_def)

lemma bindR_simps [exec_simps]:
  "bindR (Inl e) f = Inl e" "bindR (Inr a) f = f a"
  by (simp_all add: bindR_def)

lemma bindE_eq_Inr_iff:
  "bindE m f s = (Inr b, s'') \<longleftrightarrow> (\<exists>a s'. m s = (Inr a, s') \<and> f a s' = (Inr b, s''))"
  by (auto simp: bindE_def split: prod.splits sum.splits)

lemma forE_append: "forE f (xs @ ys) = bindE (forE f xs) (\<lambda>_. forE f ys)"
proof (induction xs)
  case Nil
  then show ?case by (auto simp: bindE_def returnE_def)
next
  case (Cons x xs)
  then show ?case by (auto simp: bindE_def fun_eq_iff split: prod.splits sum.splits)
qed

text \<open>An invariant kept by the body of a loop is kept by the loop, also when it throws.\<close>

lemma forE_invariant:
  assumes "P s" and "\<And>x s. x \<in> set xs \<Longrightarrow> P s \<Longrightarrow> P (snd (f x s))"
  shows "P (snd (forE f xs s))"
  using assms
proof (induction xs arbitrary: s)
  case Nil
  then show ?case by (simp add: returnE_apply)
next
  case (Cons x xs)
  obtain r s' where x: "f x s = (r, s')" by (cases "f x s")
  with Cons.prems have "P s'" by (metis list.set_intros(1) snd_conv)
  with Cons x show ?case by (cases r) (simp_all add: bindE_def)
qed

section \<open>Ordered sets (std::set)\<close>

definition oset_ok :: "'a::linorder list \<Rightarrow> bool" where
  "oset_ok xs \<longleftrightarrow> sorted_wrt (<) xs"

definition oset_insert :: "'a::linorder \<Rightarrow> 'a list \<Rightarrow> 'a list" where
  "oset_insert x xs = filter (\<lambda>a. a < x) xs @ x # filter (\<lambda>a. x < a) xs"

definition oset_erase :: "'a \<Rightarrow> 'a list \<Rightarrow> 'a list" where
  "oset_erase x xs = filter (\<lambda>a. a \<noteq> x) xs"

lemma oset_ok_Nil [simp]: "oset_ok []"
  by (simp add: oset_ok_def)

lemma set_oset_insert [simp]: "set (oset_insert x xs) = insert x (set xs)"
  by (auto simp: oset_insert_def)

lemma set_oset_erase [simp]: "set (oset_erase x xs) = set xs - {x}"
  by (auto simp: oset_erase_def)

lemma oset_ok_insert [simp]: "oset_ok xs \<Longrightarrow> oset_ok (oset_insert x xs)"
  by (auto simp: oset_ok_def oset_insert_def sorted_wrt_append sorted_wrt_filter)

lemma oset_ok_erase [simp]: "oset_ok xs \<Longrightarrow> oset_ok (oset_erase x xs)"
  by (auto simp: oset_ok_def oset_erase_def sorted_wrt_filter)

lemma oset_ok_distinct: "oset_ok xs \<Longrightarrow> distinct xs"
  unfolding oset_ok_def by (rule strict_sorted_iff [THEN iffD1, THEN conjunct2])

lemma oset_erase_notin [simp]: "x \<notin> set xs \<Longrightarrow> oset_erase x xs = xs"
  by (induction xs) (auto simp: oset_erase_def)

lemma oset_ok_ext: "oset_ok xs \<Longrightarrow> oset_ok ys \<Longrightarrow> set xs = set ys \<Longrightarrow> xs = ys"
  unfolding oset_ok_def by (metis strict_sorted_equal)

section \<open>Ordered maps (std::map, boost::ptr_map)\<close>

definition omap_ok :: "('k::linorder \<times> 'v) list \<Rightarrow> bool" where
  "omap_ok m \<longleftrightarrow> sorted_wrt (<) (map fst m)"

definition omap_put :: "'k::linorder \<Rightarrow> 'v \<Rightarrow> ('k \<times> 'v) list \<Rightarrow> ('k \<times> 'v) list" where
  "omap_put k v m = filter (\<lambda>p. fst p < k) m @ (k, v) # filter (\<lambda>p. k < fst p) m"

definition omap_erase :: "'k \<Rightarrow> ('k \<times> 'v) list \<Rightarrow> ('k \<times> 'v) list" where
  "omap_erase k m = filter (\<lambda>p. fst p \<noteq> k) m"

definition omap_has :: "('k \<times> 'v) list \<Rightarrow> 'k \<Rightarrow> bool" where
  "omap_has m k \<longleftrightarrow> map_of m k \<noteq> None"

lemma omap_ok_Nil [simp]: "omap_ok []"
  by (simp add: omap_ok_def)

lemma map_of_filter_fst:
  "map_of (filter (\<lambda>p. P (fst p)) m) k = (if P k then map_of m k else None)"
  by (induction m) auto

lemma map_of_omap_put [simp]: "map_of (omap_put k v m) = (map_of m)(k \<mapsto> v)"
proof
  fix x
  show "map_of (omap_put k v m) x = ((map_of m)(k \<mapsto> v)) x"
    using map_of_filter_fst [of "\<lambda>a. a < k" m] map_of_filter_fst [of "\<lambda>a. k < a" m]
    by (cases x k rule: linorder_cases)
      (auto simp: omap_put_def map_add_def split: option.splits)
qed

lemma map_of_omap_erase [simp]: "map_of (omap_erase k m) = (map_of m)(k := None)"
  using map_of_filter_fst [of "\<lambda>a. a \<noteq> k" m] by (auto simp: omap_erase_def fun_eq_iff)

lemma fst_set_omap_put [simp]: "fst ` set (omap_put k v m) = insert k (fst ` set m)"
  by (force simp: omap_put_def)

lemma omap_ok_put [simp]: "omap_ok m \<Longrightarrow> omap_ok (omap_put k v m)"
proof -
  assume "omap_ok m"
  then have "sorted_wrt (<) (map fst (filter (\<lambda>p. P (fst p)) m))" for P
    by (simp add: omap_ok_def sorted_wrt_map sorted_wrt_filter)
  then show ?thesis
    by (auto simp: omap_ok_def omap_put_def sorted_wrt_append)
qed

lemma omap_ok_erase [simp]: "omap_ok m \<Longrightarrow> omap_ok (omap_erase k m)"
  by (simp add: omap_ok_def omap_erase_def sorted_wrt_map sorted_wrt_filter)

lemma omap_has_put [simp]: "omap_has (omap_put k v m) x \<longleftrightarrow> x = k \<or> omap_has m x"
  by (auto simp: omap_has_def)

lemma omap_has_iff: "omap_has m k \<longleftrightarrow> k \<in> fst ` set m"
  by (simp add: omap_has_def map_of_eq_None_iff)

lemma omap_ok_distinct: "omap_ok m \<Longrightarrow> distinct (map fst m)"
  unfolding omap_ok_def by (rule strict_sorted_iff [THEN iffD1, THEN conjunct2])

lemma omap_ok_keys: "omap_ok m \<Longrightarrow> oset_ok (map fst m)"
  by (simp add: omap_ok_def oset_ok_def)

lemma length_omap_put:
  assumes "omap_ok m"
  shows "length (omap_put k v m) = (if omap_has m k then length m else Suc (length m))"
proof -
  have d: "distinct (map fst m)" "distinct (map fst (omap_put k v m))"
    using assms by (simp_all add: omap_ok_distinct)
  have "length (omap_put k v m) = card (fst ` set (omap_put k v m))"
    using d(2) by (metis distinct_card length_map set_map)
  also have "\<dots> = card (insert k (fst ` set m))" by simp
  also have "\<dots> = (if omap_has m k then length m else Suc (length m))"
    using d(1) by (auto simp: omap_has_iff insert_absorb)
      (metis distinct_card length_map set_map)+
  finally show ?thesis .
qed

lemma set_omap_put: "k \<notin> fst ` set m \<Longrightarrow> set (omap_put k v m) = insert (k, v) (set m)"
  by (auto simp: omap_put_def) (metis fst_conv image_eqI linorder_neqE)

lemma omap_ok_ext:
  assumes "omap_ok m" "omap_ok m'" "map_of m = map_of m'" shows "m = m'"
proof -
  have d: "distinct (map fst m)" "distinct (map fst m')" using assms by (simp_all add: omap_ok_distinct)
  then have "set m = set m'" using assms(3) by (simp add: map_of_inject_set)
  moreover have "sorted (map fst m)" "sorted (map fst m')"
    using assms unfolding omap_ok_def by (simp_all add: strict_sorted_iff)
  ultimately show ?thesis using d map_sorted_distinct_set_unique [of fst m m']
    by (simp add: distinct_map)
qed

lemma omap_put_same: "omap_ok m \<Longrightarrow> map_of m k = Some v \<Longrightarrow> omap_put k v m = m"
  by (rule omap_ok_ext) auto

section \<open>Registries\<close>

text \<open>
  Four components keep a table of names that is filled once while the model is loaded:
  agents in the memory manager, variables in an agent memory, boards in the message
  board manager and tasks in the task manager. They promise the same: registering an
  unknown name adds exactly that name, registering a known one throws a
  \<open>logic_error\<close> and changes nothing.
\<close>

locale registry =
  fixes register :: "string \<Rightarrow> ('s, unit) exec"
    and known :: "'s \<Rightarrow> string set"
    and ready :: "'s \<Rightarrow> bool"
  assumes register_fresh:
      "ready s \<Longrightarrow> k \<notin> known s \<Longrightarrow> \<exists>s'. register k s = (Inr (), s') \<and> known s' = insert k (known s) \<and> ready s'"
    and register_twice:
      "ready s \<Longrightarrow> k \<in> known s \<Longrightarrow> \<exists>m. register k s = (Inl (logic_error m), s)"
begin

text \<open>
  Registering a list of names succeeds exactly when the names are pairwise different
  and new, and then the table holds the old and the new names.
\<close>

lemma register_all:
  assumes "ready s"
  shows "(\<exists>s'. forE register ks s = (Inr (), s')) \<longleftrightarrow> distinct ks \<and> set ks \<inter> known s = {}"
  using assms
proof (induction ks arbitrary: s)
  case Nil
  then show ?case by (simp add: returnE_apply)
next
  case (Cons k ks)
  show ?case
  proof (cases "k \<in> known s")
    case True
    with Cons.prems obtain m where "register k s = (Inl (logic_error m), s)"
      using register_twice by blast
    with True show ?thesis by (simp add: bindE_def)
  next
    case False
    with Cons.prems obtain s' where s': "register k s = (Inr (), s')"
      "known s' = insert k (known s)" "ready s'"
      using register_fresh by blast
    with Cons.IH [OF s'(3)] False show ?thesis by (auto simp: bindE_def)
  qed
qed

lemma register_all_known:
  assumes "ready s" and "forE register ks s = (Inr (), s')"
  shows "known s' = known s \<union> set ks \<and> ready s'"
  using assms
proof (induction ks arbitrary: s)
  case Nil
  then show ?case by (simp add: returnE_apply)
next
  case (Cons k ks)
  from Cons.prems obtain t where t: "register k s = (Inr (), t)" "forE register ks t = (Inr (), s')"
    by (auto simp: bindE_eq_Inr_iff)
  have "k \<notin> known s"
  proof
    assume "k \<in> known s"
    with Cons.prems(1) show False using register_twice t(1) by fastforce
  qed
  with Cons.prems(1) t(1) have "known t = insert k (known s)" "ready t"
    using register_fresh by fastforce+
  with Cons.IH [OF this(2) t(2)] show ?case by auto
qed

end

end
