(* ===== verification/Vector_Wrapper.thy ===== *)
theory Vector_Wrapper
  imports Prelude
begin

text \<open>
  \<open>src/flame2/mem/vector_wrapper.hpp\<close>: the type-erased wrapper around a
  \<open>std::vector<T>\<close> that stores agent variables and messages. The element type is the
  tag \<open>vw_type\<close> (the \<open>type_info\<close>), the elements are values of an arbitrary
  HOL type. A raw pointer into the vector is \<open>None\<close> (NULL) or \<open>Some i\<close>
  (the address of element \<open>i\<close>); a \<open>boost::any\<close> is a tag with a value.
  \<open>reserve\<close> only changes the capacity, which nothing in the sources observes.
\<close>

type_synonym dtype = string
type_synonym raw_ptr = "nat option"
type_synonym 'v any = "dtype \<times> 'v"

record 'v vector_wrapper =
  vw_type :: dtype
  vw_data :: "'v list"

definition VectorWrapper_new :: "dtype \<Rightarrow> 'v vector_wrapper" where
  "VectorWrapper_new t = \<lparr>vw_type = t, vw_data = []\<rparr>"

definition VectorWrapper_reserve :: "'v vector_wrapper \<Rightarrow> nat \<Rightarrow> 'v vector_wrapper" where
  "VectorWrapper_reserve w n = w"

definition VectorWrapper_size :: "'v vector_wrapper \<Rightarrow> size_t" where
  "VectorWrapper_size w = of_nat (length (vw_data w))"

definition VectorWrapper_empty :: "'v vector_wrapper \<Rightarrow> bool" where
  "VectorWrapper_empty w \<longleftrightarrow> vw_data w = []"

definition VectorWrapper_clear :: "'v vector_wrapper \<Rightarrow> 'v vector_wrapper" where
  "VectorWrapper_clear w = w\<lparr>vw_data := []\<rparr>"

definition VectorWrapper_Extend ::
    "'v vector_wrapper \<Rightarrow> 'v vector_wrapper \<Rightarrow> exn + 'v vector_wrapper" where
  "VectorWrapper_Extend w vec =
     (if vw_type w \<noteq> vw_type vec then Inl (invalid_type ''mismatching type'')
      else Inr (w\<lparr>vw_data := vw_data w @ vw_data vec\<rparr>))"

definition VectorWrapper_GetRawPtr :: "'v vector_wrapper \<Rightarrow> size_t \<Rightarrow> exn + raw_ptr" where
  "VectorWrapper_GetRawPtr w offset =
     (if offset = 0 then Inr (if VectorWrapper_empty w then None else Some 0)
      else if offset \<ge> VectorWrapper_size w then Inl (invalid_argument ''invalid offset'')
      else Inr (Some (unat offset)))"

text \<open>
  \<open>&(v_.back())\<close> is evaluated for every pointer that is not NULL and has no meaning
  on an empty vector.
\<close>

definition VectorWrapper_StepRawPtr :: "'v vector_wrapper \<Rightarrow> raw_ptr \<Rightarrow> exn + raw_ptr" where
  "VectorWrapper_StepRawPtr w ptr =
     (case ptr of
        None \<Rightarrow> Inr None
      | Some i \<Rightarrow>
          if VectorWrapper_empty w then Inl (UB ''back() of an empty vector'')
          else if i = length (vw_data w) - 1 then Inr None
          else Inr (Some (Suc i)))"

definition VectorWrapper_ConvertToBoostAny :: "'v vector_wrapper \<Rightarrow> raw_ptr \<Rightarrow> exn + 'v any" where
  "VectorWrapper_ConvertToBoostAny w ptr =
     (case ptr of
        None \<Rightarrow> Inl (UB ''null pointer'')
      | Some i \<Rightarrow>
          if i < length (vw_data w) then Inr (vw_type w, vw_data w ! i)
          else Inl (UB ''pointer past the end''))"

text \<open>The text of an element is the \<open>operator<<\<close> of its type, an argument here.\<close>

fun VectorWrapper_OutputToStream :: "('v \<Rightarrow> string) \<Rightarrow> string \<Rightarrow> 'v list \<Rightarrow> string" where
  "VectorWrapper_OutputToStream show_elem delim [] = []"
| "VectorWrapper_OutputToStream show_elem delim [x] = show_elem x"
| "VectorWrapper_OutputToStream show_elem delim (x # y # xs) =
     show_elem x @ delim @ VectorWrapper_OutputToStream show_elem delim (y # xs)"

definition VectorWrapper_push_back ::
    "'v vector_wrapper \<Rightarrow> 'v any \<Rightarrow> exn + 'v vector_wrapper" where
  "VectorWrapper_push_back w value =
     (if fst value \<noteq> vw_type w then Inl (invalid_type ''mismatching type'')
      else Inr (w\<lparr>vw_data := vw_data w @ [snd value]\<rparr>))"

definition VectorWrapper_clone_empty :: "'v vector_wrapper \<Rightarrow> 'v vector_wrapper" where
  "VectorWrapper_clone_empty w = VectorWrapper_new (vw_type w)"

definition VectorWrapper_clone :: "'v vector_wrapper \<Rightarrow> 'v vector_wrapper" where
  "VectorWrapper_clone w = \<lparr>vw_type = vw_type w, vw_data = vw_data w\<rparr>"

section \<open>Facts\<close>

text \<open>
  The number of elements of a \<open>std::vector\<close> is a non-negative \<open>ptrdiff_t\<close>; this is the
  only assumption on vectors the development makes.
\<close>

definition vw_fits :: "'v vector_wrapper \<Rightarrow> bool" where
  "vw_fits w \<longleftrightarrow> length (vw_data w) < 2 ^ 63"

lemma unat_VectorWrapper_size [simp]:
  "vw_fits w \<Longrightarrow> unat (VectorWrapper_size w) = length (vw_data w)"
  by (simp add: vw_fits_def VectorWrapper_size_def unat_of_nat)

lemma vw_simps [simp]:
  "vw_data (VectorWrapper_new t) = []" "vw_type (VectorWrapper_new t) = t"
  "vw_data (VectorWrapper_clear w) = []" "vw_type (VectorWrapper_clear w) = vw_type w"
  "VectorWrapper_clone w = w" "VectorWrapper_reserve w n = w"
  by (simp_all add: VectorWrapper_new_def VectorWrapper_clear_def VectorWrapper_clone_def
      VectorWrapper_reserve_def)

lemma Extend_same_type [simp]:
  "vw_type w = vw_type w' \<Longrightarrow>
    VectorWrapper_Extend w w' = Inr (w\<lparr>vw_data := vw_data w @ vw_data w'\<rparr>)"
  by (simp add: VectorWrapper_Extend_def)

lemma GetRawPtr_in_range:
  assumes "vw_fits w" and "unat offset < length (vw_data w)"
  shows "VectorWrapper_GetRawPtr w offset = Inr (Some (unat offset))"
  using assms by (auto simp: VectorWrapper_GetRawPtr_def VectorWrapper_empty_def word_le_nat_alt)

lemma GetRawPtr_empty: "vw_data w = [] \<Longrightarrow> VectorWrapper_GetRawPtr w 0 = Inr None"
  by (simp add: VectorWrapper_GetRawPtr_def VectorWrapper_empty_def)

text \<open>Stepping a pointer through a vector reaches each element once and then NULL.\<close>

lemma StepRawPtr_next:
  "Suc i < length (vw_data w) \<Longrightarrow> VectorWrapper_StepRawPtr w (Some i) = Inr (Some (Suc i))"
  by (auto simp: VectorWrapper_StepRawPtr_def VectorWrapper_empty_def)

lemma StepRawPtr_last:
  "Suc i = length (vw_data w) \<Longrightarrow> VectorWrapper_StepRawPtr w (Some i) = Inr None"
  by (auto simp: VectorWrapper_StepRawPtr_def VectorWrapper_empty_def)

lemma StepRawPtr_null [simp]: "VectorWrapper_StepRawPtr w None = Inr None"
  by (simp add: VectorWrapper_StepRawPtr_def)

end
