(* ===== verification/Agent_Memory.thy ===== *)
theory Agent_Memory
  imports Vector_Wrapper
begin

text \<open>
  \<open>src/flame2/mem/agent_memory.{hpp,cpp}\<close> and \<open>memory_manager.{hpp,cpp}\<close>: the named
  vectors that hold the variables of one agent type, and the manager that owns one such
  memory per agent type. A pointer to a vector wrapper owned by an agent memory is the
  name under which the \<open>boost::ptr_map\<close> owns it: entries are never removed while the
  model runs.
\<close>

section \<open>Agent memory\<close>

record 'v agent_memory =
  am_name :: string
  mem_map :: "(string \<times> 'v vector_wrapper) list"
  cached_size :: size_t
  registration_closed :: bool

definition AgentMemory_new :: "string \<Rightarrow> 'v agent_memory" where
  "AgentMemory_new agent_name =
     \<lparr>am_name = agent_name, mem_map = [], cached_size = 0, registration_closed = False\<rparr>"

definition AgentMemory_RegisterVar :: "dtype \<Rightarrow> string \<Rightarrow> ('v agent_memory, unit) exec" where
  "AgentMemory_RegisterVar t var_name am =
     (if registration_closed am then
        (Inl (logic_error ''variables can no longer be registered''), am)
      else if omap_has (mem_map am) var_name then
        (Inl (logic_error ''variable already registered''), am)
      else
        (Inr (), am\<lparr>mem_map := omap_put var_name (VectorWrapper_new t) (mem_map am)\<rparr>))"

definition AgentMemory_HintPopulationSize :: "nat \<Rightarrow> ('v agent_memory, unit) exec" where
  "AgentMemory_HintPopulationSize size_hint am =
     (if mem_map am = [] then
        (Inl (invalid_agent ''no agent memory variables registered''), am)
      else
        (Inr (), am\<lparr>registration_closed := True,
          mem_map := map (\<lambda>(n, w). (n, VectorWrapper_reserve w size_hint)) (mem_map am)\<rparr>))"

definition AgentMemory_GetVectorWrapper :: "string \<Rightarrow> ('v agent_memory, string) exec" where
  "AgentMemory_GetVectorWrapper var_name am =
     (let am' = am\<lparr>registration_closed := True\<rparr> in
      case map_of (mem_map am) var_name of
        None \<Rightarrow> (Inl (invalid_variable ''Invalid agent memory variable''), am')
      | Some w \<Rightarrow> (Inr var_name, am'))"

definition AgentMemory_GetVector ::
    "build \<Rightarrow> dtype \<Rightarrow> string \<Rightarrow> ('v agent_memory, string) exec" where
  "AgentMemory_GetVector b t var_name am =
     (let am' = am\<lparr>registration_closed := True\<rparr> in
      case map_of (mem_map am) var_name of
        None \<Rightarrow> (Inl (invalid_variable ''Invalid agent memory variable''), am')
      | Some w \<Rightarrow>
          if vw_type w \<noteq> t then
            (Inl (case b of Debug \<Rightarrow> invalid_type ''Invalid data type specified''
                          | Production \<Rightarrow> UB ''cast to a vector of another type''), am')
          else (Inr var_name, am'))"

definition AgentMemory_IsRegistered :: "'v agent_memory \<Rightarrow> string \<Rightarrow> bool" where
  "AgentMemory_IsRegistered am var_name \<longleftrightarrow> omap_has (mem_map am) var_name"

definition AgentMemory_GetPopulationSize :: "build \<Rightarrow> ('v agent_memory, size_t) exec" where
  "AgentMemory_GetPopulationSize b am =
     (case mem_map am of
        [] \<Rightarrow> (Inr 0, if b = Debug then am\<lparr>cached_size := 0\<rparr> else am)
      | (_, w) # rest \<Rightarrow>
          let size = VectorWrapper_size w in
          if b = Debug \<and> size \<noteq> cached_size am then
            if list_all (\<lambda>(_, w'). VectorWrapper_size w' = size) rest
            then (Inr size, am\<lparr>cached_size := size\<rparr>)
            else (Inl (flame_mem_exception ''inconsistent vector sizes''), am)
          else (Inr size, am))"

text \<open>
  Writing through a wrapper pointer: \<open>f\<close> is what is done to the vector
  (\<open>push_back\<close> while a population is read, an element assignment while agents run).
\<close>

definition AgentMemory_modify ::
    "string \<Rightarrow> ('v vector_wrapper \<Rightarrow> 'v vector_wrapper) \<Rightarrow> 'v agent_memory \<Rightarrow> 'v agent_memory" where
  "AgentMemory_modify var_name f am =
     (case map_of (mem_map am) var_name of
        None \<Rightarrow> am
      | Some w \<Rightarrow> am\<lparr>mem_map := omap_put var_name (f w) (mem_map am)\<rparr>)"

section \<open>Memory manager\<close>

record 'v memory_manager =
  agent_map :: "(string \<times> 'v agent_memory) list"

definition MemoryManager_new :: "'v memory_manager" where
  "MemoryManager_new = \<lparr>agent_map = []\<rparr>"

definition MemoryManager_RegisterAgent :: "string \<Rightarrow> ('v memory_manager, unit) exec" where
  "MemoryManager_RegisterAgent agent_name mm =
     (if omap_has (agent_map mm) agent_name then
        (Inl (logic_error ''Agent with that name already exists''), mm)
      else
        (Inr (), mm\<lparr>agent_map := omap_put agent_name (AgentMemory_new agent_name) (agent_map mm)\<rparr>))"

text \<open>
  \<open>GetAgentMemory(agent_name).op(...)\<close>: the private accessor and the operation on
  the object it refers to.
\<close>

definition MemoryManager_GetAgentMemory ::
    "string \<Rightarrow> ('v agent_memory, 'a) exec \<Rightarrow> ('v memory_manager, 'a) exec" where
  "MemoryManager_GetAgentMemory agent_name action mm =
     (case map_of (agent_map mm) agent_name of
        None \<Rightarrow> (Inl (invalid_agent ''unknown agent name''), mm)
      | Some am \<Rightarrow>
          (case action am of
             (r, am') \<Rightarrow> (r, mm\<lparr>agent_map := omap_put agent_name am' (agent_map mm)\<rparr>)))"

definition MemoryManager_RegisterAgentVar ::
    "dtype \<Rightarrow> string \<Rightarrow> string \<Rightarrow> ('v memory_manager, unit) exec" where
  "MemoryManager_RegisterAgentVar t agent_name var_name =
     MemoryManager_GetAgentMemory agent_name (AgentMemory_RegisterVar t var_name)"

definition MemoryManager_RegisterAgentVars ::
    "dtype \<Rightarrow> string \<Rightarrow> string list \<Rightarrow> ('v memory_manager, unit) exec" where
  "MemoryManager_RegisterAgentVars t agent_name var_names =
     MemoryManager_GetAgentMemory agent_name (forE (AgentMemory_RegisterVar t) var_names)"

definition MemoryManager_GetVectorWrapper ::
    "string \<Rightarrow> string \<Rightarrow> ('v memory_manager, string) exec" where
  "MemoryManager_GetVectorWrapper agent_name var_name =
     MemoryManager_GetAgentMemory agent_name (AgentMemory_GetVectorWrapper var_name)"

definition MemoryManager_GetVector ::
    "build \<Rightarrow> dtype \<Rightarrow> string \<Rightarrow> string \<Rightarrow> ('v memory_manager, string) exec" where
  "MemoryManager_GetVector b t agent_name var_name =
     MemoryManager_GetAgentMemory agent_name (AgentMemory_GetVector b t var_name)"

definition MemoryManager_HintPopulationSize ::
    "string \<Rightarrow> nat \<Rightarrow> ('v memory_manager, unit) exec" where
  "MemoryManager_HintPopulationSize agent_name size_hint =
     MemoryManager_GetAgentMemory agent_name (AgentMemory_HintPopulationSize size_hint)"

definition MemoryManager_GetAgentCount :: "'v memory_manager \<Rightarrow> nat" where
  "MemoryManager_GetAgentCount mm = length (agent_map mm)"

definition MemoryManager_IsRegisteredAgent :: "'v memory_manager \<Rightarrow> string \<Rightarrow> bool" where
  "MemoryManager_IsRegisteredAgent mm agent_name \<longleftrightarrow> omap_has (agent_map mm) agent_name"

definition MemoryManager_AssertVarRegistered ::
    "'v memory_manager \<Rightarrow> string \<Rightarrow> string \<Rightarrow> exn + unit" where
  "MemoryManager_AssertVarRegistered mm agent_name var_name =
     (case map_of (agent_map mm) agent_name of
        None \<Rightarrow> Inl (invalid_agent ''unknown agent name'')
      | Some am \<Rightarrow>
          if \<not> AgentMemory_IsRegistered am var_name
          then Inl (invalid_variable ''unknown memory variable name'') else Inr ())"

definition MemoryManager_Reset :: "'v memory_manager \<Rightarrow> 'v memory_manager" where
  "MemoryManager_Reset mm = mm\<lparr>agent_map := []\<rparr>"

section \<open>Well-formedness\<close>

definition am_ok :: "'v agent_memory \<Rightarrow> bool" where
  "am_ok am \<longleftrightarrow> omap_ok (mem_map am) \<and> list_all (\<lambda>(_, w). vw_fits w) (mem_map am)"

definition mm_ok :: "'v memory_manager \<Rightarrow> bool" where
  "mm_ok mm \<longleftrightarrow> omap_ok (agent_map mm) \<and> list_all (\<lambda>(n, am). am_ok am \<and> am_name am = n) (agent_map mm)"

abbreviation am_vars :: "'v agent_memory \<Rightarrow> string set" where
  "am_vars am \<equiv> fst ` set (mem_map am)"

lemma am_ok_lookup: "am_ok am \<Longrightarrow> map_of (mem_map am) v = Some w \<Longrightarrow> vw_fits w"
  by (auto simp: am_ok_def list_all_iff dest: map_of_SomeD)

lemma list_all_omap_put:
  "list_all P m \<Longrightarrow> P (k, v) \<Longrightarrow> list_all P (omap_put k v m)"
  by (auto simp: list_all_iff omap_put_def)

lemma am_ok_new [simp]: "am_ok (AgentMemory_new n)" "am_name (AgentMemory_new n) = n"
  by (simp_all add: am_ok_def AgentMemory_new_def)

lemma am_ok_modify:
  assumes "am_ok am" and "\<And>w. vw_fits w \<Longrightarrow> vw_fits (f w)"
  shows "am_ok (AgentMemory_modify n f am)"
  using assms am_ok_lookup [OF assms(1)]
  by (auto simp: am_ok_def AgentMemory_modify_def list_all_omap_put split: option.splits)

text \<open>Every operation of an agent memory keeps it well-formed and keeps its name.\<close>

lemma RegisterVar_ok: "am_ok am \<Longrightarrow> am_ok (snd (AgentMemory_RegisterVar t n am))"
  by (auto simp: AgentMemory_RegisterVar_def am_ok_def list_all_omap_put vw_fits_def)

lemma HintPopulationSize_ok: "am_ok am \<Longrightarrow> am_ok (snd (AgentMemory_HintPopulationSize n am))"
  by (auto simp: AgentMemory_HintPopulationSize_def am_ok_def omap_ok_def list_all_iff case_prod_unfold)

lemma GetVectorWrapper_ok: "am_ok am \<Longrightarrow> am_ok (snd (AgentMemory_GetVectorWrapper n am))"
  by (auto simp: AgentMemory_GetVectorWrapper_def am_ok_def Let_def split: option.splits)

lemma GetVector_ok: "am_ok am \<Longrightarrow> am_ok (snd (AgentMemory_GetVector b t n am))"
  by (auto simp: AgentMemory_GetVector_def am_ok_def Let_def split: option.splits)

lemma GetPopulationSize_ok: "am_ok am \<Longrightarrow> am_ok (snd (AgentMemory_GetPopulationSize b am))"
  by (auto simp: AgentMemory_GetPopulationSize_def am_ok_def Let_def split: list.splits)

lemmas am_op_ok = RegisterVar_ok HintPopulationSize_ok GetVectorWrapper_ok GetVector_ok
  GetPopulationSize_ok


lemma mm_ok_lookup:
  "mm_ok mm \<Longrightarrow> map_of (agent_map mm) n = Some am \<Longrightarrow> am_ok am \<and> am_name am = n"
  by (auto simp: mm_ok_def list_all_iff dest: map_of_SomeD)

lemma GetAgentMemory_ok:
  assumes "mm_ok mm"
    and "\<And>am. am_ok am \<Longrightarrow> am_ok (snd (action am)) \<and> am_name (snd (action am)) = am_name am"
  shows "mm_ok (snd (MemoryManager_GetAgentMemory n action mm))"
proof (cases "map_of (agent_map mm) n")
  case None
  with assms(1) show ?thesis by (simp add: MemoryManager_GetAgentMemory_def)
next
  case (Some am)
  obtain r am' where am': "action am = (r, am')" by (cases "action am")
  have "am_ok am \<and> am_name am = n" using mm_ok_lookup [OF assms(1) Some] .
  with assms(2) [of am] am' have "am_ok am' \<and> am_name am' = n" by simp
  with assms(1) Some am' show ?thesis
    by (auto simp: MemoryManager_GetAgentMemory_def mm_ok_def intro!: list_all_omap_put)
qed

lemma am_op_name [simp]:
  "am_name (snd (AgentMemory_RegisterVar t n am)) = am_name am"
  "am_name (snd (AgentMemory_HintPopulationSize k am)) = am_name am"
  "am_name (snd (AgentMemory_GetVectorWrapper n am)) = am_name am"
  "am_name (snd (AgentMemory_GetVector b t n am)) = am_name am"
  "am_name (snd (AgentMemory_GetPopulationSize b am)) = am_name am"
  by (auto simp: AgentMemory_RegisterVar_def AgentMemory_HintPopulationSize_def
      AgentMemory_GetVectorWrapper_def AgentMemory_GetVector_def
      AgentMemory_GetPopulationSize_def Let_def split: option.splits list.splits)

lemma mm_ok_RegisterAgent: "mm_ok mm \<Longrightarrow> mm_ok (snd (MemoryManager_RegisterAgent n mm))"
  by (auto simp: MemoryManager_RegisterAgent_def mm_ok_def intro!: list_all_omap_put)

lemma mm_ok_RegisterAgentVar:
  "mm_ok mm \<Longrightarrow> mm_ok (snd (MemoryManager_RegisterAgentVar t a n mm))"
  unfolding MemoryManager_RegisterAgentVar_def by (rule GetAgentMemory_ok) (simp_all add: am_op_ok)

section \<open>The registries\<close>

interpretation var_registry: registry "AgentMemory_RegisterVar t" "\<lambda>am. fst ` set (mem_map am)"
    "\<lambda>am. \<not> registration_closed am" for t
  by unfold_locales (auto simp: AgentMemory_RegisterVar_def omap_has_iff)

interpretation agent_registry: registry MemoryManager_RegisterAgent
    "\<lambda>mm. fst ` set (agent_map mm)" "\<lambda>_. True"
  by unfold_locales (auto simp: MemoryManager_RegisterAgent_def omap_has_iff)

section \<open>Sequences of calls\<close>

text \<open>The calls other components make on an agent memory, in any order.\<close>

datatype 'v am_call =
    CallRegisterVar dtype string
  | CallHintPopulationSize nat
  | CallGetVectorWrapper string
  | CallGetVector dtype string
  | CallGetPopulationSize
  | CallWrite string "'v list"

fun do_call :: "build \<Rightarrow> 'v am_call \<Rightarrow> 'v agent_memory \<Rightarrow> 'v agent_memory" where
  "do_call b (CallRegisterVar t n) am = snd (AgentMemory_RegisterVar t n am)"
| "do_call b (CallHintPopulationSize k) am = snd (AgentMemory_HintPopulationSize k am)"
| "do_call b (CallGetVectorWrapper n) am = snd (AgentMemory_GetVectorWrapper n am)"
| "do_call b (CallGetVector t n) am = snd (AgentMemory_GetVector b t n am)"
| "do_call b CallGetPopulationSize am = snd (AgentMemory_GetPopulationSize b am)"
| "do_call b (CallWrite n vs) am = AgentMemory_modify n (\<lambda>w. w\<lparr>vw_data := vs\<rparr>) am"

definition am_calls :: "build \<Rightarrow> 'v am_call list \<Rightarrow> 'v agent_memory \<Rightarrow> 'v agent_memory" where
  "am_calls b cs am = fold (do_call b) cs am"

text \<open>The schema of a memory: the type of each variable.\<close>

definition am_schema :: "'v agent_memory \<Rightarrow> string \<Rightarrow> dtype option" where
  "am_schema am n = map_option vw_type (map_of (mem_map am) n)"

lemma map_of_map_snd: "map_of (map (\<lambda>(n, w). (n, f w)) m) k = map_option f (map_of m k)"
  by (induction m) auto

lemma do_call_closed:
  assumes "registration_closed am"
  shows "registration_closed (do_call b c am) \<and> am_schema (do_call b c am) = am_schema am"
  using assms
  by (cases c) (auto simp: AgentMemory_RegisterVar_def AgentMemory_HintPopulationSize_def
      AgentMemory_GetVectorWrapper_def AgentMemory_GetVector_def AgentMemory_GetPopulationSize_def
      AgentMemory_modify_def am_schema_def Let_def fun_eq_iff map_of_map_snd
      split: option.splits list.splits)

lemma am_calls_closed:
  "registration_closed am \<Longrightarrow>
    registration_closed (am_calls b cs am) \<and> am_schema (am_calls b cs am) = am_schema am"
  unfolding am_calls_def using do_call_closed [of _ b]
  by (induction cs arbitrary: am) auto

section \<open>Properties\<close>

text \<open>
  The list form of \<open>RegisterAgentVar\<close> on a known agent type whose registration is
  still open succeeds exactly when the names are pairwise different and none of them is
  already a variable of the agent; otherwise it throws.
\<close>

theorem RegisterAgentVars_succeeds_iff:
  assumes "map_of (agent_map mm) a = Some am" and "\<not> registration_closed am"
  shows "(\<exists>mm'. MemoryManager_RegisterAgentVars t a ns mm = (Inr (), mm')) \<longleftrightarrow>
    distinct ns \<and> set ns \<inter> am_vars am = {}"
proof -
  have "(\<exists>mm'. MemoryManager_RegisterAgentVars t a ns mm = (Inr (), mm')) \<longleftrightarrow>
      (\<exists>am'. forE (AgentMemory_RegisterVar t) ns am = (Inr (), am'))"
    using assms(1) by (auto simp: MemoryManager_RegisterAgentVars_def
        MemoryManager_GetAgentMemory_def split: prod.splits)
  then show ?thesis using var_registry.register_all [of am t ns] assms(2) by simp
qed

theorem RegisterAgentVars_succeeds_iff_witness:
  "(\<exists>mm'. MemoryManager_RegisterAgentVars ''int'' ''a'' [''x'', ''y'']
      \<lparr>agent_map = [(''a'', AgentMemory_new ''a'' :: nat agent_memory)]\<rparr> = (Inr (), mm'))"
  using RegisterAgentVars_succeeds_iff [of "\<lparr>agent_map = [(''a'', AgentMemory_new ''a'' :: nat agent_memory)]\<rparr>"
      "''a''" "AgentMemory_new ''a''" "''int''" "[''x'', ''y'']"]
  by (simp add: AgentMemory_new_def)

text \<open>
  Once a vector of an agent memory has been handed out (or asked for in vain), no
  sequence of calls changes the set of variables or their types, and registering another
  variable throws a \<open>logic_error\<close>.
\<close>

theorem schema_frozen_after_access:
  "am_schema (am_calls b cs (snd (AgentMemory_GetVectorWrapper v am))) = am_schema am \<and>
   fst (AgentMemory_RegisterVar t n (am_calls b cs (snd (AgentMemory_GetVectorWrapper v am)))) =
     Inl (logic_error ''variables can no longer be registered'')"
proof -
  let ?am = "snd (AgentMemory_GetVectorWrapper v am)"
  have "registration_closed ?am" "am_schema ?am = am_schema am"
    by (auto simp: AgentMemory_GetVectorWrapper_def Let_def am_schema_def fun_eq_iff split: option.splits)
  with am_calls_closed [of ?am b cs] show ?thesis by (simp add: AgentMemory_RegisterVar_def)
qed



end
