(* ===== verification/Memory_Iterator.thy ===== *)
theory Memory_Iterator
  imports Agent_Memory
begin

text \<open>
  \<open>src/flame2/mem/agent_shadow.{hpp,cpp}\<close> and \<open>memory_iterator.{hpp,cpp}\<close>: the
  access permissions a task has on the memory of one agent type, and the cursor with
  which the task visits the agents. A shadow and an iterator hold pointers to the agent
  memory, so the operations take the memory (and the iterator operations the shadow) as
  arguments.
\<close>

section \<open>Agent shadow\<close>

record agent_shadow =
  sh_agent :: string
  rw_set :: "string list"
  vec_map :: "string list"

definition AgentShadow_new :: "string \<Rightarrow> agent_shadow" where
  "AgentShadow_new agent = \<lparr>sh_agent = agent, rw_set = [], vec_map = []\<rparr>"

definition AgentShadow_AllowAccess ::
    "string \<Rightarrow> bool \<Rightarrow> ('v agent_memory \<times> agent_shadow, unit) exec" where
  "AgentShadow_AllowAccess var_name writeable = (\<lambda>(am, sh).
     case AgentMemory_GetVectorWrapper var_name am of
       (Inl e, am') \<Rightarrow> (Inl e, am', sh)
     | (Inr _, am') \<Rightarrow>
         if var_name \<in> set (vec_map sh) then
           (Inl (logic_error ''variable already registered''), am', sh)
         else
           (Inr (), am', sh\<lparr>vec_map := oset_insert var_name (vec_map sh),
              rw_set := (if writeable then oset_insert var_name (rw_set sh) else rw_set sh)\<rparr>))"

definition AgentShadow_get_size :: "build \<Rightarrow> ('v agent_memory, size_t) exec" where
  "AgentShadow_get_size b = AgentMemory_GetPopulationSize b"

definition AgentShadow_IsRegistered :: "'v agent_memory \<Rightarrow> string \<Rightarrow> bool" where
  "AgentShadow_IsRegistered am var_name = AgentMemory_IsRegistered am var_name"

definition MemoryManager_GetAgentShadow :: "'v memory_manager \<Rightarrow> string \<Rightarrow> exn + agent_shadow" where
  "MemoryManager_GetAgentShadow mm agent_name =
     (case map_of (agent_map mm) agent_name of
        None \<Rightarrow> Inl (invalid_agent ''unknown agent name'')
      | Some am \<Rightarrow> Inr (AgentShadow_new agent_name))"

section \<open>Memory iterator\<close>

record mem_iterator =
  mi_position :: size_t
  mi_size :: size_t
  mi_offset :: size_t
  mi_count :: size_t
  ptr_map :: "(string \<times> raw_ptr) list"

text \<open>The loop of both constructors over \<open>vec_map_\<close>.\<close>

fun init_ptrs ::
    "'v agent_memory \<Rightarrow> size_t \<Rightarrow> string list \<Rightarrow> (string \<times> raw_ptr) list \<Rightarrow>
      exn + (string \<times> raw_ptr) list" where
  "init_ptrs am offset [] ptrs = Inr ptrs"
| "init_ptrs am offset (n # ns) ptrs =
     (case map_of (mem_map am) n of
        None \<Rightarrow> Inl (UB ''dangling vector pointer'')
      | Some w \<Rightarrow>
          (case VectorWrapper_GetRawPtr w offset of
             Inl e \<Rightarrow> Inl e
           | Inr p \<Rightarrow> init_ptrs am offset ns (omap_put n p ptrs)))"

definition MemoryIterator_new ::
    "build \<Rightarrow> agent_shadow \<Rightarrow> ('v agent_memory, mem_iterator) exec" where
  "MemoryIterator_new b sh am =
     (case AgentShadow_get_size b am of
        (Inl e, am') \<Rightarrow> (Inl e, am')
      | (Inr n, am') \<Rightarrow>
          (case init_ptrs am' 0 (vec_map sh) [] of
             Inl e \<Rightarrow> (Inl e, am')
           | Inr ptrs \<Rightarrow>
               (Inr \<lparr>mi_position = 0, mi_size = n, mi_offset = 0, mi_count = n,
                     ptr_map = ptrs\<rparr>, am')))"

definition MemoryIterator_new_range ::
    "build \<Rightarrow> agent_shadow \<Rightarrow> size_t \<Rightarrow> size_t \<Rightarrow> ('v agent_memory, mem_iterator) exec" where
  "MemoryIterator_new_range b sh offset cnt am =
     (case AgentShadow_get_size b am of
        (Inl e, am') \<Rightarrow> (Inl e, am')
      | (Inr n, am') \<Rightarrow>
          if offset \<ge> n then (Inl (invalid_argument ''Invalid offset''), am')
          else if cnt = 0 \<or> offset + cnt > n then
            (Inl (invalid_argument ''Invalid count''), am')
          else
            (case init_ptrs am' offset (vec_map sh) [] of
               Inl e \<Rightarrow> (Inl e, am')
             | Inr ptrs \<Rightarrow>
                 (Inr \<lparr>mi_position = 0, mi_size = n, mi_offset = offset, mi_count = cnt,
                       ptr_map = ptrs\<rparr>, am')))"

text \<open>
  \<open>Rewind\<close> and \<open>Step\<close> walk \<open>vec_map_\<close> and \<open>ptr_map_\<close> in lockstep;
  \<open>upd\<close> is what is done to the pointer of one vector. Debug builds check that the
  two maps agree and that the vector has kept its size.
\<close>

fun walk_ptrs ::
    "build \<Rightarrow> 'v agent_memory \<Rightarrow> size_t \<Rightarrow> ('v vector_wrapper \<Rightarrow> raw_ptr \<Rightarrow> exn + raw_ptr) \<Rightarrow>
      string list \<Rightarrow> (string \<times> raw_ptr) list \<Rightarrow> (exn + unit) \<times> (string \<times> raw_ptr) list" where
  "walk_ptrs b am sz upd [] ptrs = (Inr (), ptrs)"
| "walk_ptrs b am sz upd (n # ns) [] = (Inl (UB ''ptr_map_ iterator past the end''), [])"
| "walk_ptrs b am sz upd (n # ns) ((k, p) # ptrs) =
     (if b = Debug \<and> n \<noteq> k then
        (Inl (flame_mem_exception ''internal maps out of sync''), (k, p) # ptrs)
      else
        (case map_of (mem_map am) n of
           None \<Rightarrow> (Inl (UB ''dangling vector pointer''), (k, p) # ptrs)
         | Some w \<Rightarrow>
             if b = Debug \<and> VectorWrapper_size w \<noteq> sz then
               (Inl (logic_error ''vector sizes have changed''), (k, p) # ptrs)
             else
               (case upd w p of
                  Inl e \<Rightarrow> (Inl e, (k, p) # ptrs)
                | Inr p' \<Rightarrow>
                    (case walk_ptrs b am sz upd ns ptrs of
                       (r, ptrs') \<Rightarrow> (r, (k, p') # ptrs')))))"

definition MemoryIterator_AtEnd :: "mem_iterator \<Rightarrow> bool" where
  "MemoryIterator_AtEnd it \<longleftrightarrow> mi_position it = mi_count it"

definition MemoryIterator_Rewind ::
    "build \<Rightarrow> 'v agent_memory \<Rightarrow> agent_shadow \<Rightarrow> (mem_iterator, unit) exec" where
  "MemoryIterator_Rewind b am sh it =
     (case walk_ptrs b am (mi_size it) (\<lambda>w _. VectorWrapper_GetRawPtr w (mi_offset it))
             (vec_map sh) (ptr_map it) of
        (Inl e, ptrs) \<Rightarrow> (Inl e, it\<lparr>ptr_map := ptrs\<rparr>)
      | (Inr _, ptrs) \<Rightarrow> (Inr (), it\<lparr>ptr_map := ptrs, mi_position := 0\<rparr>))"

definition MemoryIterator_Step ::
    "build \<Rightarrow> 'v agent_memory \<Rightarrow> agent_shadow \<Rightarrow> (mem_iterator, bool) exec" where
  "MemoryIterator_Step b am sh it =
     (if MemoryIterator_AtEnd it then (Inr False, it)
      else
        (case walk_ptrs b am (mi_size it) VectorWrapper_StepRawPtr (vec_map sh) (ptr_map it) of
           (Inl e, ptrs) \<Rightarrow> (Inl e, it\<lparr>ptr_map := ptrs\<rparr>)
         | (Inr _, ptrs) \<Rightarrow> (Inr True, it\<lparr>ptr_map := ptrs, mi_position := mi_position it + 1\<rparr>)))"

definition denied :: "'v agent_memory \<Rightarrow> string \<Rightarrow> string \<Rightarrow> exn" where
  "denied am var_name msg =
     (if \<not> AgentShadow_IsRegistered am var_name then invalid_variable ''invalid variable''
      else invalid_operation msg)"

definition MemoryIterator_GetReadPtr ::
    "build \<Rightarrow> 'v agent_memory \<Rightarrow> agent_shadow \<Rightarrow> mem_iterator \<Rightarrow> dtype \<Rightarrow> string \<Rightarrow> exn + raw_ptr" where
  "MemoryIterator_GetReadPtr b am sh it t var_name =
     (if b = Debug \<and> var_name \<notin> set (vec_map sh) then
        Inl (denied am var_name ''no read access to var'')
      else if b = Debug \<and> am_schema am var_name \<noteq> Some t then
        Inl (invalid_type ''invalid type'')
      else
        (case map_of (ptr_map it) var_name of
           None \<Rightarrow> Inl (denied am var_name ''no read access to var'')
         | Some p \<Rightarrow> Inr p))"

definition MemoryIterator_GetWritePtr ::
    "build \<Rightarrow> 'v agent_memory \<Rightarrow> agent_shadow \<Rightarrow> mem_iterator \<Rightarrow> dtype \<Rightarrow> string \<Rightarrow> exn + raw_ptr" where
  "MemoryIterator_GetWritePtr b am sh it t var_name =
     (if var_name \<notin> set (rw_set sh) then Inl (denied am var_name ''no write access to var'')
      else if b = Debug \<and> var_name \<notin> set (vec_map sh) then Inl (std_out_of_range ''map::at'')
      else if b = Debug \<and> am_schema am var_name \<noteq> Some t then
        Inl (invalid_type ''invalid type'')
      else
        (case map_of (ptr_map it) var_name of
           None \<Rightarrow> Inl (std_out_of_range ''map::at'')
         | Some p \<Rightarrow> Inr p))"

text \<open>Dereferencing a pointer obtained for variable \<open>var_name\<close> as a \<open>T*\<close>.\<close>

definition am_element :: "'v agent_memory \<Rightarrow> dtype \<Rightarrow> string \<Rightarrow> nat \<Rightarrow> exn + 'v" where
  "am_element am t var_name i =
     (case map_of (mem_map am) var_name of
        None \<Rightarrow> Inl (UB ''dangling vector pointer'')
      | Some w \<Rightarrow>
          if vw_type w \<noteq> t then Inl (UB ''access through a pointer of another type'')
          else if i < length (vw_data w) then Inr (vw_data w ! i)
          else Inl (UB ''pointer past the end''))"

definition null_access :: "build \<Rightarrow> exn" where
  "null_access b = (case b of Debug \<Rightarrow> out_of_range ''end of iterator met''
                            | Production \<Rightarrow> UB ''null pointer'')"

definition MemoryIterator_Get ::
    "build \<Rightarrow> 'v agent_memory \<Rightarrow> agent_shadow \<Rightarrow> mem_iterator \<Rightarrow> dtype \<Rightarrow> string \<Rightarrow> exn + 'v" where
  "MemoryIterator_Get b am sh it t var_name =
     (case MemoryIterator_GetReadPtr b am sh it t var_name of
        Inl e \<Rightarrow> Inl e
      | Inr None \<Rightarrow> Inl (null_access b)
      | Inr (Some i) \<Rightarrow> am_element am t var_name i)"

definition MemoryIterator_Set ::
    "build \<Rightarrow> agent_shadow \<Rightarrow> mem_iterator \<Rightarrow> dtype \<Rightarrow> string \<Rightarrow> 'v \<Rightarrow> ('v agent_memory, unit) exec" where
  "MemoryIterator_Set b sh it t var_name value am =
     (case MemoryIterator_GetWritePtr b am sh it t var_name of
        Inl e \<Rightarrow> (Inl e, am)
      | Inr None \<Rightarrow> (Inl (null_access b), am)
      | Inr (Some i) \<Rightarrow>
          (case am_element am t var_name i of
             Inl e \<Rightarrow> (Inl e, am)
           | Inr _ \<Rightarrow>
               (Inr (), AgentMemory_modify var_name (\<lambda>w. w\<lparr>vw_data := (vw_data w)[i := value]\<rparr>) am)))"


section \<open>The iterator invariant\<close>

text \<open>
  The population is consistent: every vector of the memory has one element per agent
  (what \<open>GetPopulationSize\<close> checks in debug builds).
\<close>

definition am_uniform :: "'v agent_memory \<Rightarrow> nat \<Rightarrow> bool" where
  "am_uniform am n \<longleftrightarrow> n < 2 ^ 63 \<and> list_all (\<lambda>(_, w). length (vw_data w) = n) (mem_map am)
     \<and> (mem_map am = [] \<longrightarrow> n = 0)"

definition shadow_ok :: "'v agent_memory \<Rightarrow> agent_shadow \<Rightarrow> bool" where
  "shadow_ok am sh \<longleftrightarrow> oset_ok (vec_map sh) \<and> oset_ok (rw_set sh) \<and>
     set (rw_set sh) \<subseteq> set (vec_map sh) \<and> set (vec_map sh) \<subseteq> am_vars am"

definition cursor :: "nat \<Rightarrow> nat \<Rightarrow> raw_ptr" where
  "cursor n i = (if i < n then Some i else None)"

definition mi_inv :: "'v agent_memory \<Rightarrow> agent_shadow \<Rightarrow> nat \<Rightarrow> mem_iterator \<Rightarrow> bool" where
  "mi_inv am sh n it \<longleftrightarrow>
     am_uniform am n \<and> shadow_ok am sh \<and> mi_size it = of_nat n \<and>
     unat (mi_offset it) + unat (mi_count it) \<le> n \<and> unat (mi_position it) \<le> unat (mi_count it) \<and>
     ptr_map it =
       map (\<lambda>v. (v, cursor n (unat (mi_offset it) + unat (mi_position it)))) (vec_map sh)"

abbreviation mi_agent :: "mem_iterator \<Rightarrow> nat" where
  "mi_agent it \<equiv> unat (mi_offset it) + unat (mi_position it)"

lemma am_uniform_lookup:
  assumes "am_uniform am n" "map_of (mem_map am) v = Some w"
  shows "length (vw_data w) = n" "vw_fits w" "VectorWrapper_size w = of_nat n"
proof -
  from assms show "length (vw_data w) = n"
    by (auto simp: am_uniform_def list_all_iff dest: map_of_SomeD)
  with assms show "vw_fits w" "VectorWrapper_size w = of_nat n"
    by (simp_all add: am_uniform_def vw_fits_def VectorWrapper_size_def)
qed

lemma shadow_ok_lookup:
  "shadow_ok am sh \<Longrightarrow> v \<in> set (vec_map sh) \<Longrightarrow> \<exists>w. map_of (mem_map am) v = Some w"
  by (metis map_of_eq_None_iff not_None_eq shadow_ok_def subset_iff)

lemma GetPopulationSize_uniform:
  assumes "am_uniform am n"
  shows "AgentMemory_GetPopulationSize b am =
    (Inr (of_nat n), if b = Debug then am\<lparr>cached_size := of_nat n\<rparr> else am)"
proof (cases "mem_map am")
  case Nil
  with assms show ?thesis by (simp add: AgentMemory_GetPopulationSize_def am_uniform_def)
next
  case (Cons p rest)
  obtain k w where p: "p = (k, w)" by (cases p)
  from assms Cons p have len: "length (vw_data w) = n"
    and rest: "list_all (\<lambda>(_, w). VectorWrapper_size w = of_nat n) rest"
    by (auto simp: am_uniform_def list_all_iff VectorWrapper_size_def)
  then have "VectorWrapper_size w = of_nat n" by (simp add: VectorWrapper_size_def)
  then show ?thesis using Cons p rest
    by (cases am) (auto simp: AgentMemory_GetPopulationSize_def Let_def)
qed

lemma frame_cached [simp]:
  "am_uniform (am\<lparr>cached_size := c\<rparr>) n = am_uniform am n"
  "shadow_ok (am\<lparr>cached_size := c\<rparr>) sh = shadow_ok am sh"
  "mi_inv (am\<lparr>cached_size := c\<rparr>) sh n it = mi_inv am sh n it"
  by (simp_all add: am_uniform_def shadow_ok_def mi_inv_def)

subsection \<open>The loops over the pointers\<close>

lemma omap_put_last: "(\<And>x. x \<in> fst ` set m \<Longrightarrow> x < k) \<Longrightarrow> omap_put k v m = m @ [(k, v)]"
proof -
  assume a: "\<And>x. x \<in> fst ` set m \<Longrightarrow> x < k"
  then have "filter (\<lambda>p. fst p < k) m = m" "filter (\<lambda>p. k < fst p) m = []"
    by (auto simp: filter_id_conv filter_empty_conv) (metis a imageI fst_conv less_asym)
  then show ?thesis by (simp add: omap_put_def)
qed

lemma init_ptrs_eq:
  assumes "sorted_wrt (<) (map fst ptrs @ ns)"
    and "\<And>v. v \<in> set ns \<Longrightarrow>
      \<exists>w. map_of (mem_map am) v = Some w \<and> VectorWrapper_GetRawPtr w offset = Inr c"
  shows "init_ptrs am offset ns ptrs = Inr (ptrs @ map (\<lambda>v. (v, c)) ns)"
  using assms
proof (induction ns arbitrary: ptrs)
  case Nil
  then show ?case by simp
next
  case (Cons v ns)
  from Cons.prems(2) [of v] obtain w where w: "map_of (mem_map am) v = Some w"
    "VectorWrapper_GetRawPtr w offset = Inr c" by auto
  have "omap_put v c ptrs = ptrs @ [(v, c)]"
    using Cons.prems(1) by (intro omap_put_last) (auto simp: sorted_wrt_append)
  with w Cons.IH [of "ptrs @ [(v, c)]"] Cons.prems show ?case by simp
qed

lemma walk_ptrs_eq:
  assumes "\<And>v. v \<in> set ns \<Longrightarrow>
      \<exists>w. map_of (mem_map am) v = Some w \<and> VectorWrapper_size w = sz \<and> upd w c = Inr c'"
  shows "walk_ptrs b am sz upd ns (map (\<lambda>v. (v, c)) ns) = (Inr (), map (\<lambda>v. (v, c')) ns)"
  using assms
proof (induction ns)
  case Nil
  then show ?case by simp
next
  case (Cons v ns)
  from Cons.prems [of v] obtain w where "map_of (mem_map am) v = Some w"
    "VectorWrapper_size w = sz" "upd w c = Inr c'" by auto
  with Cons show ?case by simp
qed

subsection \<open>The operations keep the invariant\<close>

lemma new_inv:
  assumes "am_uniform am n" "shadow_ok am sh"
  shows "\<exists>it am'. MemoryIterator_new b sh am = (Inr it, am') \<and> mi_inv am' sh n it \<and>
    mi_position it = 0 \<and> mi_offset it = 0 \<and> mi_count it = of_nat n \<and> mem_map am' = mem_map am"
proof -
  let ?am = "if b = Debug then am\<lparr>cached_size := of_nat n\<rparr> else am"
  have raw: "\<exists>w. map_of (mem_map ?am) v = Some w \<and> VectorWrapper_GetRawPtr w 0 = Inr (cursor n 0)"
    if v: "v \<in> set (vec_map sh)" for v
  proof -
    from shadow_ok_lookup [OF assms(2) v] obtain w where w: "map_of (mem_map am) v = Some w" ..
    with am_uniform_lookup [OF assms(1) w] show ?thesis
      by (auto simp: VectorWrapper_GetRawPtr_def VectorWrapper_empty_def cursor_def)
  qed
  have "oset_ok (vec_map sh)" using assms(2) by (simp add: shadow_ok_def)
  then have "init_ptrs ?am 0 (vec_map sh) [] = Inr (map (\<lambda>v. (v, cursor n 0)) (vec_map sh))"
    using init_ptrs_eq [where ptrs = "[]", OF _ raw] by (simp add: oset_ok_def)
  moreover have "unat (of_nat n :: size_t) = n"
    using assms(1) by (simp add: am_uniform_def unat_of_nat)
  ultimately show ?thesis using assms
    by (auto simp: MemoryIterator_new_def AgentShadow_get_size_def GetPopulationSize_uniform mi_inv_def)
qed

lemma new_range_inv:
  assumes "am_uniform am n" "shadow_ok am sh"
    and "unat offset + unat cnt \<le> n" "cnt \<noteq> 0"
  shows "\<exists>it am'. MemoryIterator_new_range b sh offset cnt am = (Inr it, am') \<and> mi_inv am' sh n it \<and>
    mi_position it = 0 \<and> mi_offset it = offset \<and> mi_count it = cnt \<and> mem_map am' = mem_map am"
proof -
  let ?am = "if b = Debug then am\<lparr>cached_size := of_nat n\<rparr> else am"
  have n: "unat (of_nat n :: size_t) = n" and n64: "n < 2 ^ 63"
    using assms(1) by (simp_all add: am_uniform_def unat_of_nat)
  have "0 < unat cnt" using assms(4) by (simp add: unat_gt_0)
  with assms(3) have less: "unat offset < n" by simp
  have raw: "\<exists>w. map_of (mem_map ?am) v = Some w \<and>
      VectorWrapper_GetRawPtr w offset = Inr (cursor n (unat offset))"
    if v: "v \<in> set (vec_map sh)" for v
  proof -
    from shadow_ok_lookup [OF assms(2) v] obtain w where w: "map_of (mem_map am) v = Some w" ..
    with am_uniform_lookup [OF assms(1) w] less GetRawPtr_in_range [of w offset] show ?thesis
      by (auto simp: cursor_def)
  qed
  have "unat (offset + cnt) = unat offset + unat cnt"
    using assms(3) n64 by (intro unat_add_lem [THEN iffD1]) simp
  then have guards: "\<not> offset \<ge> of_nat n" "\<not> offset + cnt > of_nat n"
    using less assms(3) n by (simp_all add: word_le_nat_alt word_less_nat_alt)
  have "oset_ok (vec_map sh)" using assms(2) by (simp add: shadow_ok_def)
  then have "init_ptrs ?am offset (vec_map sh) [] =
      Inr (map (\<lambda>v. (v, cursor n (unat offset))) (vec_map sh))"
    using init_ptrs_eq [where ptrs = "[]", OF _ raw] by (simp add: oset_ok_def)
  with guards assms show ?thesis
    by (auto simp: MemoryIterator_new_range_def AgentShadow_get_size_def GetPopulationSize_uniform
        mi_inv_def)
qed


lemma StepRawPtr_cursor:
  assumes "length (vw_data w) = n" "i < n \<or> n = 0"
  shows "VectorWrapper_StepRawPtr w (cursor n i) = Inr (cursor n (Suc i))"
  using assms StepRawPtr_next [of i w] StepRawPtr_last [of i w]
  by (auto simp: cursor_def dest: Suc_lessI)

lemma Step_inv:
  assumes inv: "mi_inv am sh n it" and "\<not> MemoryIterator_AtEnd it"
  shows "\<exists>it'. MemoryIterator_Step b am sh it = (Inr True, it') \<and> mi_inv am sh n it' \<and>
    unat (mi_position it') = Suc (unat (mi_position it)) \<and>
    mi_offset it' = mi_offset it \<and> mi_count it' = mi_count it"
proof -
  have uni: "am_uniform am n" and sh: "shadow_ok am sh" using inv by (simp_all add: mi_inv_def)
  have less: "unat (mi_position it) < unat (mi_count it)"
    using inv assms(2) unfolding mi_inv_def MemoryIterator_AtEnd_def
    by (metis le_neq_implies_less word_unat_eq_iff)
  with inv have i: "mi_agent it < n" by (simp add: mi_inv_def)
  have "unat (mi_position it) + 1 < 2 ^ 64"
    using less size_t_bound [of "mi_count it"] by simp
  then have pos: "unat (mi_position it + 1) = Suc (unat (mi_position it))"
    using unat_add_lem [of "mi_position it" 1] by simp
  have "walk_ptrs b am (mi_size it) VectorWrapper_StepRawPtr (vec_map sh) (ptr_map it) =
      (Inr (), map (\<lambda>v. (v, cursor n (Suc (mi_agent it)))) (vec_map sh))"
  proof -
    have "\<exists>w. map_of (mem_map am) v = Some w \<and> VectorWrapper_size w = mi_size it \<and>
        VectorWrapper_StepRawPtr w (cursor n (mi_agent it)) = Inr (cursor n (Suc (mi_agent it)))"
      if v: "v \<in> set (vec_map sh)" for v
    proof -
      from shadow_ok_lookup [OF sh v] obtain w where w: "map_of (mem_map am) v = Some w" ..
      with am_uniform_lookup [OF uni w] i inv StepRawPtr_cursor [of w n "mi_agent it"]
      show ?thesis by (auto simp: mi_inv_def)
    qed
    then show ?thesis
      using walk_ptrs_eq [of "vec_map sh" am "mi_size it" _ "cursor n (mi_agent it)"] inv
      by (simp add: mi_inv_def)
  qed
  with inv assms(2) less pos show ?thesis
    by (auto simp: MemoryIterator_Step_def mi_inv_def)
qed

lemma Rewind_inv:
  assumes inv: "mi_inv am sh n it" and cnt: "mi_count it \<noteq> 0 \<or> mi_offset it = 0"
  shows "\<exists>it'. MemoryIterator_Rewind b am sh it = (Inr (), it') \<and> mi_inv am sh n it' \<and>
    mi_position it' = 0 \<and> mi_offset it' = mi_offset it \<and> mi_count it' = mi_count it"
proof -
  have uni: "am_uniform am n" and sh: "shadow_ok am sh" using inv by (simp_all add: mi_inv_def)
  have raw: "VectorWrapper_GetRawPtr w (mi_offset it) = Inr (cursor n (unat (mi_offset it)))"
    if "length (vw_data w) = n" "vw_fits w" for w :: "'a vector_wrapper"
  proof (cases "mi_offset it = 0")
    case True
    with that show ?thesis
      by (auto simp: VectorWrapper_GetRawPtr_def VectorWrapper_empty_def cursor_def)
  next
    case False
    with cnt have "0 < unat (mi_count it)" by (simp add: unat_gt_0)
    with inv have "unat (mi_offset it) < n" by (simp add: mi_inv_def)
    with that show ?thesis using GetRawPtr_in_range [of w "mi_offset it"] by (simp add: cursor_def)
  qed
  have "walk_ptrs b am (mi_size it) (\<lambda>w _. VectorWrapper_GetRawPtr w (mi_offset it)) (vec_map sh)
      (ptr_map it) = (Inr (), map (\<lambda>v. (v, cursor n (unat (mi_offset it)))) (vec_map sh))"
  proof -
    have "\<exists>w. map_of (mem_map am) v = Some w \<and> VectorWrapper_size w = mi_size it \<and>
        VectorWrapper_GetRawPtr w (mi_offset it) = Inr (cursor n (unat (mi_offset it)))"
      if v: "v \<in> set (vec_map sh)" for v
    proof -
      from shadow_ok_lookup [OF sh v] obtain w where w: "map_of (mem_map am) v = Some w" ..
      with am_uniform_lookup [OF uni w] raw [of w] inv show ?thesis by (auto simp: mi_inv_def)
    qed
    then show ?thesis
      using walk_ptrs_eq [of "vec_map sh" am "mi_size it" _ "cursor n (mi_agent it)"] inv
      by (simp add: mi_inv_def)
  qed
  with inv show ?thesis by (auto simp: MemoryIterator_Rewind_def mi_inv_def)
qed

text \<open>A whole walk: \<open>k\<close> calls of \<open>Step\<close> that are all expected to move.\<close>

fun MemoryIterator_steps ::
    "build \<Rightarrow> 'v agent_memory \<Rightarrow> agent_shadow \<Rightarrow> nat \<Rightarrow> mem_iterator \<Rightarrow> (exn + bool) \<times> mem_iterator" where
  "MemoryIterator_steps b am sh 0 it = (Inr True, it)"
| "MemoryIterator_steps b am sh (Suc k) it =
     (case MemoryIterator_Step b am sh it of
        (Inr True, it') \<Rightarrow> MemoryIterator_steps b am sh k it'
      | (r, it') \<Rightarrow> (r, it'))"

lemma steps_inv:
  assumes "mi_inv am sh n it" "unat (mi_position it) + k \<le> unat (mi_count it)"
  shows "\<exists>it'. MemoryIterator_steps b am sh k it = (Inr True, it') \<and> mi_inv am sh n it' \<and>
    unat (mi_position it') = unat (mi_position it) + k \<and>
    mi_offset it' = mi_offset it \<and> mi_count it' = mi_count it"
  using assms
proof (induction k arbitrary: it)
  case 0
  then show ?case by simp
next
  case (Suc k)
  then have "\<not> MemoryIterator_AtEnd it" by (auto simp: MemoryIterator_AtEnd_def)
  from Step_inv [OF Suc.prems(1) this, of b] obtain it' where it':
    "MemoryIterator_Step b am sh it = (Inr True, it')" "mi_inv am sh n it'"
    "unat (mi_position it') = Suc (unat (mi_position it))"
    "mi_offset it' = mi_offset it" "mi_count it' = mi_count it" by blast
  with Suc.IH [of it'] Suc.prems show ?case by simp
qed

section \<open>Reading and writing\<close>

lemma mi_inv_ptr:
  "mi_inv am sh n it \<Longrightarrow>
    map_of (ptr_map it) v = (if v \<in> set (vec_map sh) then Some (cursor n (mi_agent it)) else None)"
  by (simp add: mi_inv_def map_of_map_restrict)

text \<open>
  What \<open>Get\<close> answers: the access classes in the order the code tests them, then the
  value of the agent under the cursor.
\<close>

lemma Get_eq:
  assumes inv: "mi_inv am sh n it"
    and t: "am_schema am v = Some t \<or> b = Debug \<or> v \<notin> set (vec_map sh)"
  shows "MemoryIterator_Get b am sh it t v =
    (if v \<notin> set (vec_map sh) then Inl (denied am v ''no read access to var'')
     else if am_schema am v \<noteq> Some t then Inl (invalid_type ''invalid type'')
     else if mi_agent it < n then Inr (vw_data (the (map_of (mem_map am) v)) ! mi_agent it)
     else Inl (null_access b))"
proof (cases "v \<in> set (vec_map sh)")
  case False
  with mi_inv_ptr [OF inv, of v] show ?thesis
    by (simp add: MemoryIterator_Get_def MemoryIterator_GetReadPtr_def)
next
  case True
  have uni: "am_uniform am n" and sh: "shadow_ok am sh" using inv by (simp_all add: mi_inv_def)
  from shadow_ok_lookup [OF sh True] obtain w where w: "map_of (mem_map am) v = Some w" ..
  with True t mi_inv_ptr [OF inv, of v] am_uniform_lookup [OF uni w] show ?thesis
    by (auto simp: MemoryIterator_Get_def MemoryIterator_GetReadPtr_def cursor_def am_schema_def
        am_element_def)
qed

lemma am_modify_simps [simp]:
  "map_of (mem_map (AgentMemory_modify v f am)) =
     (map_of (mem_map am))(v := map_option f (map_of (mem_map am) v))"
  by (auto simp: AgentMemory_modify_def fun_eq_iff split: option.splits)

lemma Set_eq:
  assumes inv: "mi_inv am sh n it" and v: "v \<in> set (rw_set sh)" and t: "am_schema am v = Some t"
    and i: "mi_agent it < n"
  shows "MemoryIterator_Set b sh it t v x am =
    (Inr (), AgentMemory_modify v (\<lambda>w. w\<lparr>vw_data := (vw_data w)[mi_agent it := x]\<rparr>) am)"
proof -
  have uni: "am_uniform am n" and sh: "shadow_ok am sh" using inv by (simp_all add: mi_inv_def)
  from sh v have v': "v \<in> set (vec_map sh)" by (auto simp: shadow_ok_def)
  from shadow_ok_lookup [OF sh v'] obtain w where w: "map_of (mem_map am) v = Some w" ..
  with v v' t i mi_inv_ptr [OF inv, of v] am_uniform_lookup [OF uni w] show ?thesis
    by (auto simp: MemoryIterator_Set_def MemoryIterator_GetWritePtr_def cursor_def am_schema_def
        am_element_def)
qed

lemma am_vars_modify [simp]: "am_vars (AgentMemory_modify v f am) = am_vars am"
  by (auto simp: AgentMemory_modify_def split: option.splits)
    (metis fst_conv image_eqI map_of_SomeD)

lemma modify_uniform:
  assumes "am_uniform am n" "\<And>w. length (vw_data (f w)) = length (vw_data w)"
  shows "am_uniform (AgentMemory_modify v f am) n"
proof (cases "map_of (mem_map am) v")
  case None
  with assms show ?thesis by (simp add: AgentMemory_modify_def)
next
  case (Some w)
  have "omap_put v (f w) (mem_map am) \<noteq> []" by (simp add: omap_put_def)
  with Some assms am_uniform_lookup(1) [OF assms(1) Some] show ?thesis
    by (auto simp: AgentMemory_modify_def am_uniform_def intro!: list_all_omap_put)
qed

lemma modify_mi_inv:
  assumes "mi_inv am sh n it" "\<And>w. length (vw_data (f w)) = length (vw_data w)"
  shows "mi_inv (AgentMemory_modify v f am) sh n it"
  using assms modify_uniform [of am n f v] by (simp add: mi_inv_def shadow_ok_def)

text \<open>A write that the permissions do not allow leaves the memory as it was.\<close>

lemma Set_denied:
  assumes "v \<notin> set (rw_set sh)"
  shows "MemoryIterator_Set b sh it t v x am = (Inl (denied am v ''no write access to var''), am)"
  using assms by (simp add: MemoryIterator_Set_def MemoryIterator_GetWritePtr_def)

section \<open>Granting access\<close>

lemma AllowAccess_ok:
  assumes "shadow_ok am sh"
  shows "case AgentShadow_AllowAccess v w (am, sh) of (r, am', sh') \<Rightarrow>
    shadow_ok am' sh' \<and> mem_map am' = mem_map am \<and>
    (r = Inr () \<longleftrightarrow> v \<in> am_vars am \<and> v \<notin> set (vec_map sh))"
proof (cases "map_of (mem_map am) v")
  case None
  then have "v \<notin> am_vars am" by (simp add: map_of_eq_None_iff)
  with None assms show ?thesis
    by (simp add: AgentShadow_AllowAccess_def AgentMemory_GetVectorWrapper_def shadow_ok_def)
next
  case (Some x)
  then have "v \<in> am_vars am" by (metis fst_conv image_eqI map_of_SomeD)
  with Some assms show ?thesis
    by (auto simp: AgentShadow_AllowAccess_def AgentMemory_GetVectorWrapper_def shadow_ok_def)
qed

section \<open>Properties\<close>

text \<open>A small memory for the witnesses.\<close>

definition sample_memory :: "nat agent_memory" where
  "sample_memory = \<lparr>am_name = ''a'', mem_map = [(''x'', \<lparr>vw_type = ''int'', vw_data = [10, 20, 30]\<rparr>)],
     cached_size = 3, registration_closed = True\<rparr>"

definition sample_shadow :: agent_shadow where
  "sample_shadow = \<lparr>sh_agent = ''a'', rw_set = [''x''], vec_map = [''x'']\<rparr>"

lemma sample_ok: "am_uniform sample_memory 3" "shadow_ok sample_memory sample_shadow"
  by (simp_all add: sample_memory_def sample_shadow_def am_uniform_def shadow_ok_def oset_ok_def)

text \<open>
  C33. An iterator over the slice of \<open>cnt\<close> agents that starts at agent \<open>off\<close> reads, after
  \<open>k\<close> steps, the value of agent \<open>off + k\<close>, and is at its end after exactly \<open>cnt\<close> steps.
\<close>

theorem iterator_walks_slice:
  assumes am: "am_uniform am n" "shadow_ok am sh"
    and slice: "unat off + unat cnt \<le> n" "k < unat cnt"
    and v: "v \<in> set (vec_map sh)" "map_of (mem_map am) v = Some w"
  shows "\<exists>it am' it' itn. MemoryIterator_new_range b sh off cnt am = (Inr it, am') \<and>
    MemoryIterator_steps b am' sh k it = (Inr True, it') \<and> \<not> MemoryIterator_AtEnd it' \<and>
    MemoryIterator_Get b am' sh it' (vw_type w) v = Inr (vw_data w ! (unat off + k)) \<and>
    MemoryIterator_steps b am' sh (unat cnt) it = (Inr True, itn) \<and> MemoryIterator_AtEnd itn"
proof -
  have "cnt \<noteq> 0" using slice(2) by auto
  from new_range_inv [OF am slice(1) this, of b] obtain it am' where it:
    "MemoryIterator_new_range b sh off cnt am = (Inr it, am')" "mi_inv am' sh n it"
    "mi_position it = 0" "mi_offset it = off" "mi_count it = cnt" "mem_map am' = mem_map am" by blast
  from steps_inv [OF it(2), of k b] it slice(2) obtain it' where it':
    "MemoryIterator_steps b am' sh k it = (Inr True, it')" "mi_inv am' sh n it'"
    "unat (mi_position it') = k" "mi_offset it' = off" "mi_count it' = cnt" by auto
  from steps_inv [OF it(2), of "unat cnt" b] it obtain itn where itn:
    "MemoryIterator_steps b am' sh (unat cnt) it = (Inr True, itn)"
    "unat (mi_position itn) = unat cnt" "mi_count itn = cnt" by auto
  have "am_schema am' v = Some (vw_type w)" using v(2) it(6) by (simp add: am_schema_def)
  with Get_eq [OF it'(2), of v "vw_type w" b] v it'(3,4) slice it(6)
  have "MemoryIterator_Get b am' sh it' (vw_type w) v = Inr (vw_data w ! (unat off + k))" by simp
  moreover have "\<not> MemoryIterator_AtEnd it'" using it'(3,5) slice(2) by (auto simp: MemoryIterator_AtEnd_def)
  moreover have "MemoryIterator_AtEnd itn" using itn(2,3) by (simp add: MemoryIterator_AtEnd_def word_unat_eq_iff)
  ultimately show ?thesis using it(1) it'(1) itn(1) by blast
qed

theorem iterator_walks_slice_witness:
  "\<exists>it am' it'. MemoryIterator_new_range Debug sample_shadow 1 2 sample_memory = (Inr it, am') \<and>
    MemoryIterator_steps Debug am' sample_shadow 1 it = (Inr True, it') \<and>
    MemoryIterator_Get Debug am' sample_shadow it' ''int'' ''x'' = Inr 30"
  using iterator_walks_slice [OF sample_ok, of 1 2 1 "''x''" _ Debug]
  by (auto simp: sample_memory_def sample_shadow_def)

text \<open>
  C34. A write through an iterator that stands on an agent, of a variable the task may write
  and with the right type, succeeds in both builds; reading it back gives the written value,
  and no other variable and no other agent changes.
\<close>

theorem iterator_set_get:
  assumes inv: "mi_inv am sh n it" and i: "mi_agent it < n"
    and v: "v \<in> set (rw_set sh)" "am_schema am v = Some t"
  shows "\<exists>am'. MemoryIterator_Set b sh it t v x am = (Inr (), am') \<and> mi_inv am' sh n it \<and>
    MemoryIterator_Get b am' sh it t v = Inr x \<and>
    (\<forall>u. u \<noteq> v \<longrightarrow> map_of (mem_map am') u = map_of (mem_map am) u) \<and>
    (\<forall>j. j \<noteq> mi_agent it \<longrightarrow>
       vw_data (the (map_of (mem_map am') v)) ! j = vw_data (the (map_of (mem_map am) v)) ! j)"
proof -
  let ?am = "AgentMemory_modify v (\<lambda>w. w\<lparr>vw_data := (vw_data w)[mi_agent it := x]\<rparr>) am"
  have inv': "mi_inv ?am sh n it" by (rule modify_mi_inv [OF inv]) simp
  have v': "v \<in> set (vec_map sh)" using inv v(1) by (auto simp: mi_inv_def shadow_ok_def)
  obtain w where w: "map_of (mem_map am) v = Some w" "vw_type w = t" using v(2) by (auto simp: am_schema_def)
  have len: "length (vw_data w) = n" using am_uniform_lookup(1) [OF _ w(1)] inv by (auto simp: mi_inv_def)
  have "am_schema ?am v = Some t" using w by (simp add: am_schema_def)
  with Get_eq [OF inv', of v t b] v' i w len have "MemoryIterator_Get b ?am sh it t v = Inr x" by simp
  with Set_eq [OF inv v i, of b x] inv' w show ?thesis by auto
qed

theorem iterator_set_get_witness:
  "\<exists>it am1 am2. MemoryIterator_new Production sample_shadow sample_memory = (Inr it, am1) \<and>
     MemoryIterator_Set Production sample_shadow it ''int'' ''x'' 7 am1 = (Inr (), am2) \<and>
     MemoryIterator_Get Production am2 sample_shadow it ''int'' ''x'' = Inr 7"
proof -
  obtain it am1 where it: "MemoryIterator_new Production sample_shadow sample_memory = (Inr it, am1)"
    "mi_inv am1 sample_shadow 3 it" "mi_position it = 0" "mi_offset it = 0" "mem_map am1 = mem_map sample_memory"
    using new_inv [OF sample_ok, of Production] by blast
  have "mi_agent it < 3" "''x'' \<in> set (rw_set sample_shadow)" "am_schema am1 ''x'' = Some ''int''"
    using it by (simp_all add: sample_shadow_def sample_memory_def am_schema_def)
  from iterator_set_get [OF it(2) this, of Production 7] it(1) show ?thesis by blast
qed

text \<open>
  Access control, in both builds: a write to a variable without write access and a read
  of a variable without read access throw \<open>invalid_operation\<close> when the agent has the
  variable and \<open>invalid_variable\<close> when it does not; a refused write changes nothing.
\<close>

theorem iterator_access_control:
  assumes inv: "mi_inv am sh n it"
  shows "(v \<notin> set (rw_set sh) \<longrightarrow> MemoryIterator_Set b sh it t v x am =
      (Inl (if v \<in> am_vars am then invalid_operation ''no write access to var''
            else invalid_variable ''invalid variable''), am)) \<and>
    (v \<notin> set (vec_map sh) \<longrightarrow> MemoryIterator_Get b am sh it t v =
      Inl (if v \<in> am_vars am then invalid_operation ''no read access to var''
           else invalid_variable ''invalid variable''))"
  using Set_denied [of v sh b it t x am] Get_eq [OF inv, of v t b]
  by (simp add: denied_def AgentShadow_IsRegistered_def AgentMemory_IsRegistered_def omap_has_iff)

theorem iterator_access_control_witness:
  "\<exists>it am1. MemoryIterator_new Debug (AgentShadow_new ''a'') sample_memory = (Inr it, am1) \<and>
     MemoryIterator_Get Debug am1 (AgentShadow_new ''a'') it ''int'' ''x'' =
       Inl (invalid_operation ''no read access to var'')"
proof -
  have "shadow_ok sample_memory (AgentShadow_new ''a'')" by (simp add: shadow_ok_def AgentShadow_new_def)
  from new_inv [OF sample_ok(1) this, of Debug] obtain it am1 where
    it: "MemoryIterator_new Debug (AgentShadow_new ''a'') sample_memory = (Inr it, am1)"
    "mi_inv am1 (AgentShadow_new ''a'') 3 it" "mem_map am1 = mem_map sample_memory" by blast
  from iterator_access_control [OF it(2), of "''x''" Debug "''int''" 0] it show ?thesis
    by (auto simp: AgentShadow_new_def sample_memory_def)
qed


end
