(* ===== verification/Message_Board.thy ===== *)
theory Message_Board
  imports Vector_Wrapper
begin

text \<open>
  \<open>src/flame2/mb/board_writer.{hpp,cpp}\<close>, \<open>message_board.{hpp,cpp}\<close>,
  \<open>message_iterator.hpp\<close> and \<open>message_iterator_backend{,_raw}.hpp\<close>. A board hands
  out writers by shared pointer, keeps them itself and collects what was posted to them
  when it is synchronised. Board and clients share the writers, so they live in a store:
  a list indexed by address. Posting to a writer changes only the writer.
\<close>

section \<open>Board writers\<close>

record 'v board_writer =
  bw_data :: "'v vector_wrapper"
  bw_connected :: bool

type_synonym 'v writer_store = "'v board_writer list"

definition BoardWriter_create :: "dtype \<Rightarrow> 'v board_writer" where
  "BoardWriter_create t = \<lparr>bw_data = VectorWrapper_new t, bw_connected = True\<rparr>"

definition BoardWriter_GetCount :: "'v board_writer \<Rightarrow> size_t" where
  "BoardWriter_GetCount bw = VectorWrapper_size (bw_data bw)"

definition BoardWriter_IsConnected :: "'v board_writer \<Rightarrow> bool" where
  "BoardWriter_IsConnected bw = bw_connected bw"

definition BoardWriter_Post :: "build \<Rightarrow> dtype \<Rightarrow> 'v \<Rightarrow> ('v board_writer, unit) exec" where
  "BoardWriter_Post b t msg bw =
     (if vw_type (bw_data bw) \<noteq> t then
        (Inl (case b of Debug \<Rightarrow> invalid_type ''mismatching type''
                      | Production \<Rightarrow> UB ''cast to a vector of another type''), bw)
      else if b = Debug \<and> \<not> BoardWriter_IsConnected bw then
        (Inl (invalid_operation ''No longer connected to board''), bw)
      else
        (Inr (), bw\<lparr>bw_data := (bw_data bw)\<lparr>vw_data := vw_data (bw_data bw) @ [msg]\<rparr>\<rparr>))"

definition BoardWriter_Disconnect :: "'v board_writer \<Rightarrow> 'v board_writer" where
  "BoardWriter_Disconnect bw = bw\<lparr>bw_connected := False\<rparr>"

definition BoardWriter_clone_empty :: "'v board_writer \<Rightarrow> 'v board_writer" where
  "BoardWriter_clone_empty bw =
     \<lparr>bw_data = VectorWrapper_clone_empty (bw_data bw), bw_connected = True\<rparr>"

section \<open>Message boards\<close>

record 'v message_board =
  mb_name :: string
  mb_writers :: "nat list"
  mb_template :: "'v board_writer"
  mb_data :: "'v vector_wrapper"

type_synonym 'v board_state = "'v writer_store \<times> 'v message_board"

definition MessageBoard_create :: "dtype \<Rightarrow> string \<Rightarrow> 'v message_board" where
  "MessageBoard_create t msg_name =
     \<lparr>mb_name = msg_name, mb_writers = [], mb_template = BoardWriter_create t,
      mb_data = VectorWrapper_new t\<rparr>"

definition store_modify ::
    "nat \<Rightarrow> ('v board_writer \<Rightarrow> 'v board_writer) \<Rightarrow> 'v writer_store \<Rightarrow> 'v writer_store" where
  "store_modify a f h = (if a < length h then h[a := f (h ! a)] else h)"

definition MessageBoard_DeleteWriters :: "'v board_state \<Rightarrow> 'v board_state" where
  "MessageBoard_DeleteWriters = (\<lambda>(h, mb).
     (fold (\<lambda>a. store_modify a BoardWriter_Disconnect) (mb_writers mb) h, mb\<lparr>mb_writers := []\<rparr>))"

definition MessageBoard_Clear :: "'v board_state \<Rightarrow> 'v board_state" where
  "MessageBoard_Clear s =
     (case MessageBoard_DeleteWriters s of
        (h, mb) \<Rightarrow> (h, mb\<lparr>mb_data := VectorWrapper_clear (mb_data mb)\<rparr>))"

definition MessageBoard_GetCount :: "'v message_board \<Rightarrow> size_t" where
  "MessageBoard_GetCount mb = VectorWrapper_size (mb_data mb)"

definition MessageBoard_GetBoardWriter :: "'v board_state \<Rightarrow> nat \<times> 'v board_state" where
  "MessageBoard_GetBoardWriter = (\<lambda>(h, mb).
     let w = length h in
     (w, h @ [BoardWriter_clone_empty (mb_template mb)], mb\<lparr>mb_writers := mb_writers mb @ [w]\<rparr>))"

text \<open>
  The two loops of \<open>Sync\<close>: disconnect every writer and add up the sizes for the
  \<open>reserve\<close>, then move the messages. An exception of \<open>Extend\<close> leaves the loop.
\<close>

fun Sync_disconnect :: "nat list \<Rightarrow> 'v writer_store \<Rightarrow> size_t \<Rightarrow> 'v writer_store \<times> size_t" where
  "Sync_disconnect [] h num_messages = (h, num_messages)"
| "Sync_disconnect (a # as) h num_messages =
     (let h' = store_modify a BoardWriter_Disconnect h
      in Sync_disconnect as h' (num_messages + BoardWriter_GetCount (h' ! a)))"

definition Sync_copy ::
    "nat \<Rightarrow> ('v writer_store \<times> 'v vector_wrapper, unit) exec" where
  "Sync_copy a = (\<lambda>(h, data).
     if a < length h then
       (case VectorWrapper_Extend data (bw_data (h ! a)) of
          Inl e \<Rightarrow> (Inl e, h, data)
        | Inr data' \<Rightarrow>
            (Inr (), store_modify a (\<lambda>w. w\<lparr>bw_data := VectorWrapper_clear (bw_data w)\<rparr>) h, data'))
     else (Inl (UB ''dangling writer pointer''), h, data))"

definition MessageBoard_Sync :: "('v board_state, unit) exec" where
  "MessageBoard_Sync = (\<lambda>(h, mb).
     case Sync_disconnect (mb_writers mb) h (MessageBoard_GetCount mb) of
       (h1, num_messages) \<Rightarrow>
         (case forE Sync_copy (mb_writers mb)
                 (h1, VectorWrapper_reserve (mb_data mb) (unat num_messages)) of
            (Inl e, h2, data) \<Rightarrow> (Inl e, h2, mb\<lparr>mb_data := data\<rparr>)
          | (Inr _, h2, data) \<Rightarrow> (Inr (), h2, mb\<lparr>mb_data := data, mb_writers := []\<rparr>)))"

section \<open>Message iterators\<close>

text \<open>
  The raw backend remembers how many messages the board had when it was created. The
  vector it points to belongs to the board and is an argument. A pointer is the index
  of the message, so the model covers the use the documentation asks for: the board is
  not cleared or reallocated while an iterator on it is in use.
\<close>

record msg_iterator =
  rb_type :: dtype
  rb_count :: size_t
  rb_pos :: size_t
  rb_current :: raw_ptr

definition MessageIterator_create :: "'v vector_wrapper \<Rightarrow> exn + msg_iterator" where
  "MessageIterator_create vw =
     (case VectorWrapper_GetRawPtr vw 0 of
        Inl e \<Rightarrow> Inl e
      | Inr p \<Rightarrow> Inr \<lparr>rb_type = vw_type vw, rb_count = VectorWrapper_size vw, rb_pos = 0,
                      rb_current = p\<rparr>)"

definition MessageBoard_GetMessages :: "'v message_board \<Rightarrow> exn + msg_iterator" where
  "MessageBoard_GetMessages mb = MessageIterator_create (mb_data mb)"

definition MessageIterator_AtEnd :: "msg_iterator \<Rightarrow> bool" where
  "MessageIterator_AtEnd it \<longleftrightarrow> rb_pos it \<ge> rb_count it"

definition MessageIterator_GetCount :: "msg_iterator \<Rightarrow> size_t" where
  "MessageIterator_GetCount it = rb_count it"

definition MessageIterator_Rewind :: "'v vector_wrapper \<Rightarrow> (msg_iterator, unit) exec" where
  "MessageIterator_Rewind vw it =
     (case VectorWrapper_GetRawPtr vw 0 of
        Inl e \<Rightarrow> (Inl e, it\<lparr>rb_pos := 0\<rparr>)
      | Inr p \<Rightarrow> (Inr (), it\<lparr>rb_pos := 0, rb_current := p\<rparr>))"

definition MessageIterator_Next :: "'v vector_wrapper \<Rightarrow> (msg_iterator, bool) exec" where
  "MessageIterator_Next vw it =
     (let it' = it\<lparr>rb_pos := rb_pos it + 1\<rparr> in
      if MessageIterator_AtEnd it' then
        (Inr False, it'\<lparr>rb_pos := rb_count it, rb_current := None\<rparr>)
      else
        (case VectorWrapper_StepRawPtr vw (rb_current it) of
           Inl e \<Rightarrow> (Inl e, it')
         | Inr p \<Rightarrow> (Inr True, it'\<lparr>rb_current := p\<rparr>)))"

text \<open>
  \<open>Randomise\<close> asks for a mutable backend first; the raw backend is immutable and has
  no mutable version, so the call throws before it rewinds.
\<close>

definition MessageIterator_Randomise :: "(msg_iterator, unit) exec" where
  "MessageIterator_Randomise it = (Inl (not_implemented ''not yet implemented''), it)"

definition MessageIterator_Get :: "build \<Rightarrow> 'v vector_wrapper \<Rightarrow> dtype \<Rightarrow> msg_iterator \<Rightarrow> exn + 'v" where
  "MessageIterator_Get b vw t it =
     (if b = Debug \<and> rb_type it \<noteq> t then Inl (invalid_type ''mismatching type'')
      else if MessageIterator_AtEnd it then Inl (out_of_range ''End of iteration'')
      else
        (case rb_current it of
           None \<Rightarrow> Inl (UB ''null pointer'')
         | Some i \<Rightarrow>
             if rb_type it \<noteq> t then Inl (UB ''access through a pointer of another type'')
             else if i < length (vw_data vw) then Inr (vw_data vw ! i)
             else Inl (UB ''pointer past the end'')))"

section \<open>Well-formed boards\<close>

text \<open>
  The writers of a board are different objects of the store and hold messages of the
  board's type. A writer is connected exactly while its board still lists it; this is
  the part of the invariant for this board, other writers belong to other boards.
\<close>

definition board_ok :: "'v board_state \<Rightarrow> bool" where
  "board_ok = (\<lambda>(h, mb). distinct (mb_writers mb) \<and>
     list_all (\<lambda>a. a < length h \<and> vw_type (bw_data (h ! a)) = vw_type (mb_data mb)
                 \<and> bw_connected (h ! a)) (mb_writers mb) \<and>
     vw_type (bw_data (mb_template mb)) = vw_type (mb_data mb))"

lemma board_ok_create [simp]: "board_ok (h, MessageBoard_create t n)"
  by (simp add: board_ok_def MessageBoard_create_def BoardWriter_create_def)

lemma length_store_modify [simp]: "length (store_modify a f h) = length h"
  by (simp add: store_modify_def)

lemma store_modify_nth:
  "c < length h \<Longrightarrow> store_modify a f h ! c = (if a = c then f (h ! c) else h ! c)"
  by (simp add: store_modify_def nth_list_update)

lemma fold_store_modify:
  assumes "distinct as"
  shows "length (fold (\<lambda>a. store_modify a f) as h) = length h \<and>
    (\<forall>c. c < length h \<longrightarrow>
      fold (\<lambda>a. store_modify a f) as h ! c = (if c \<in> set as then f (h ! c) else h ! c))"
  using assms
  by (induction as arbitrary: h) (auto simp: store_modify_nth)

lemma Sync_disconnect_store:
  "fst (Sync_disconnect as h k) = fold (\<lambda>a. store_modify a BoardWriter_Disconnect) as h"
  by (induction as arbitrary: h k) (simp_all add: Let_def)

lemma Sync_copy_loop:
  assumes "distinct as"
    and "list_all (\<lambda>a. a < length h \<and> vw_type (bw_data (h ! a)) = vw_type data) as"
  shows "forE Sync_copy as (h, data) =
    (Inr (), fold (\<lambda>a. store_modify a (\<lambda>w. w\<lparr>bw_data := VectorWrapper_clear (bw_data w)\<rparr>)) as h,
     data\<lparr>vw_data := vw_data data @ concat (map (\<lambda>a. vw_data (bw_data (h ! a))) as)\<rparr>)"
  using assms
proof (induction as arbitrary: h data)
  case Nil
  then show ?case by (simp add: returnE_apply)
next
  case (Cons a as)
  let ?h = "store_modify a (\<lambda>w. w\<lparr>bw_data := VectorWrapper_clear (bw_data w)\<rparr>) h"
  let ?d = "data\<lparr>vw_data := vw_data data @ vw_data (bw_data (h ! a))\<rparr>"
  have step: "Sync_copy a (h, data) = (Inr (), ?h, ?d)"
    using Cons.prems by (simp add: Sync_copy_def)
  have same: "?h ! c = h ! c" if "c \<in> set as" for c
    using Cons.prems that by (auto simp: store_modify_nth list_all_iff)
  then have "concat (map (\<lambda>a. vw_data (bw_data (?h ! a))) as) =
      concat (map (\<lambda>a. vw_data (bw_data (h ! a))) as)"
    by (metis (no_types, lifting) map_eq_conv)
  moreover have "list_all (\<lambda>a. a < length ?h \<and> vw_type (bw_data (?h ! a)) = vw_type ?d) as"
    using Cons.prems same by (simp add: list_all_iff)
  ultimately show ?case
    using Cons.IH [of ?h ?d] Cons.prems(1) step by (simp add: bindE_Inr)
qed

text \<open>
  What \<open>Sync\<close> does on a well-formed board: the board has its old messages followed by
  those of its writers in the order the writers were handed out; the writers are empty
  and disconnected and the board has forgotten them; no other writer changes.
\<close>

lemma Sync_eq:
  assumes ok: "board_ok (h, mb)"
  shows "\<exists>h'. MessageBoard_Sync (h, mb) =
      (Inr (), h', mb\<lparr>mb_data := (mb_data mb)\<lparr>vw_data := vw_data (mb_data mb) @
          concat (map (\<lambda>a. vw_data (bw_data (h ! a))) (mb_writers mb))\<rparr>, mb_writers := []\<rparr>) \<and>
    length h' = length h \<and>
    (\<forall>c < length h. h' ! c = (if c \<in> set (mb_writers mb)
       then \<lparr>bw_data = VectorWrapper_clear (bw_data (h ! c)), bw_connected = False\<rparr> else h ! c))"
proof -
  let ?ws = "mb_writers mb"
  let ?h1 = "fold (\<lambda>a. store_modify a BoardWriter_Disconnect) ?ws h"
  let ?clr = "\<lambda>w. w\<lparr>bw_data := VectorWrapper_clear (bw_data w)\<rparr>"
  let ?h2 = "fold (\<lambda>a. store_modify a ?clr) ?ws ?h1"
  have d: "distinct ?ws" using ok by (simp add: board_ok_def)
  note h1 = fold_store_modify [OF d, of BoardWriter_Disconnect h]
  note h2 = fold_store_modify [OF d, of ?clr ?h1]
  have ty: "list_all (\<lambda>a. a < length ?h1 \<and> vw_type (bw_data (?h1 ! a)) = vw_type (mb_data mb)) ?ws"
    using ok h1 by (auto simp: board_ok_def list_all_iff BoardWriter_Disconnect_def)
  have "vw_data (bw_data (?h1 ! a)) = vw_data (bw_data (h ! a))" if "a \<in> set ?ws" for a
    using that ok h1 by (auto simp: board_ok_def list_all_iff BoardWriter_Disconnect_def)
  then have data: "concat (map (\<lambda>a. vw_data (bw_data (?h1 ! a))) ?ws) =
      concat (map (\<lambda>a. vw_data (bw_data (h ! a))) ?ws)"
    by (metis (no_types, lifting) map_eq_conv)
  obtain k where k: "Sync_disconnect ?ws h (MessageBoard_GetCount mb) = (?h1, k)"
    using Sync_disconnect_store [of ?ws h "MessageBoard_GetCount mb"] by (metis prod.collapse)
  have eq: "MessageBoard_Sync (h, mb) =
      (Inr (), ?h2, mb\<lparr>mb_data := (mb_data mb)\<lparr>vw_data := vw_data (mb_data mb) @
          concat (map (\<lambda>a. vw_data (bw_data (h ! a))) ?ws)\<rparr>, mb_writers := []\<rparr>)"
    using Sync_copy_loop [OF d ty] data by (simp add: MessageBoard_Sync_def k)
  have "?h2 ! c = (if c \<in> set ?ws
      then \<lparr>bw_data = VectorWrapper_clear (bw_data (h ! c)), bw_connected = False\<rparr> else h ! c)"
    if "c < length h" for c
    using that h1 h2 by (cases "h ! c") (simp add: BoardWriter_Disconnect_def)
  with eq h1 h2 show ?thesis by auto
qed


section \<open>Calls on a board and their specification\<close>

text \<open>
  The calls that reach a board: the scheduler's sync and clear tasks, clients that ask
  for a writer, and posts to a writer by its address.
\<close>

datatype 'v board_call = CallGetBoardWriter | CallPost nat 'v | CallSync | CallClear

definition post_to :: "build \<Rightarrow> dtype \<Rightarrow> nat \<Rightarrow> 'v \<Rightarrow> ('v writer_store, unit) exec" where
  "post_to b t a m h =
     (if a < length h then
        (case BoardWriter_Post b t m (h ! a) of (r, bw) \<Rightarrow> (r, h[a := bw]))
      else (Inl (UB ''dangling writer pointer''), h))"

fun mb_call :: "build \<Rightarrow> dtype \<Rightarrow> 'v board_call \<Rightarrow> ('v board_state, unit) exec" where
  "mb_call b t CallGetBoardWriter s = (Inr (), snd (MessageBoard_GetBoardWriter s))"
| "mb_call b t (CallPost a m) (h, mb) = (case post_to b t a m h of (r, h') \<Rightarrow> (r, h', mb))"
| "mb_call b t CallSync s = MessageBoard_Sync s"
| "mb_call b t CallClear s = (Inr (), MessageBoard_Clear s)"

text \<open>
  Specification: a board is a list of visible messages and, per open writer, a list of
  messages on their way.
\<close>

record 'v abs_board =
  ab_next :: nat
  ab_msgs :: "'v list"
  ab_open :: "(nat \<times> 'v list) list"

definition board_abs :: "'v board_state \<Rightarrow> 'v abs_board" where
  "board_abs = (\<lambda>(h, mb).
     \<lparr>ab_next = length h, ab_msgs = vw_data (mb_data mb),
      ab_open = map (\<lambda>a. (a, vw_data (bw_data (h ! a)))) (mb_writers mb)\<rparr>)"

fun abs_call :: "'v board_call \<Rightarrow> 'v abs_board \<Rightarrow> 'v abs_board" where
  "abs_call CallGetBoardWriter ab =
     ab\<lparr>ab_next := Suc (ab_next ab), ab_open := ab_open ab @ [(ab_next ab, [])]\<rparr>"
| "abs_call (CallPost a m) ab =
     ab\<lparr>ab_open := map (\<lambda>(c, ms). (c, if c = a then ms @ [m] else ms)) (ab_open ab)\<rparr>"
| "abs_call CallSync ab = ab\<lparr>ab_msgs := ab_msgs ab @ concat (map snd (ab_open ab)), ab_open := []\<rparr>"
| "abs_call CallClear ab = ab\<lparr>ab_msgs := [], ab_open := []\<rparr>"

definition board_type :: "'v board_state \<Rightarrow> dtype" where
  "board_type s = vw_type (mb_data (snd s))"

lemma GetBoardWriter_refines:
  assumes "board_ok (h, mb)"
  shows "board_ok (snd (MessageBoard_GetBoardWriter (h, mb))) \<and>
    board_abs (snd (MessageBoard_GetBoardWriter (h, mb))) = abs_call CallGetBoardWriter (board_abs (h, mb))"
  using assms
  by (auto simp: MessageBoard_GetBoardWriter_def Let_def board_ok_def board_abs_def list_all_iff
      nth_append BoardWriter_clone_empty_def VectorWrapper_clone_empty_def)

lemma post_to_store:
  assumes "post_to b t a m h = (r, h')"
  shows "length h' = length h \<and> (\<forall>c < length h. c \<noteq> a \<longrightarrow> h' ! c = h ! c) \<and>
    (a < length h \<longrightarrow> bw_connected (h' ! a) = bw_connected (h ! a) \<and>
      vw_type (bw_data (h' ! a)) = vw_type (bw_data (h ! a)) \<and>
      vw_data (bw_data (h' ! a)) = vw_data (bw_data (h ! a)) @ (if r = Inr () then [m] else []))"
  using assms
  by (auto simp: post_to_def BoardWriter_Post_def nth_list_update split: if_splits prod.splits)

lemma post_to_open:
  assumes "a < length h" "bw_connected (h ! a)" "vw_type (bw_data (h ! a)) = t"
  shows "fst (post_to b t a m h) = Inr ()"
  using assms by (simp add: post_to_def BoardWriter_Post_def BoardWriter_IsConnected_def)

lemma CallPost_refines:
  assumes ok: "board_ok (h, mb)" and t: "t = vw_type (mb_data mb)"
  shows "board_ok (snd (mb_call b t (CallPost a m) (h, mb))) \<and>
    board_abs (snd (mb_call b t (CallPost a m) (h, mb))) = abs_call (CallPost a m) (board_abs (h, mb))"
proof -
  obtain r h' where p: "post_to b t a m h = (r, h')" by (cases "post_to b t a m h")
  note st = post_to_store [OF p]
  have ws: "c < length h" "vw_type (bw_data (h ! c)) = t" "bw_connected (h ! c)"
    if "c \<in> set (mb_writers mb)" for c
    using that ok t by (auto simp: board_ok_def list_all_iff)
  have "r = Inr ()" if "a \<in> set (mb_writers mb)"
    using post_to_open [OF ws(1) [OF that] ws(3) [OF that] ws(2) [OF that], of b m] p by simp
  then have "vw_data (bw_data (h' ! c)) = vw_data (bw_data (h ! c)) @ (if c = a then [m] else [])"
    if "c \<in> set (mb_writers mb)" for c
    using that st ws(1) [OF that] by auto
  then have "board_abs (h', mb) = abs_call (CallPost a m) (board_abs (h, mb))"
    using st by (auto simp: board_abs_def)
  moreover have "board_ok (h', mb)"
    using ok st by (fastforce simp: board_ok_def list_all_iff)
  ultimately show ?thesis using p by simp
qed

lemma CallSync_refines:
  assumes ok: "board_ok (h, mb)"
  shows "fst (MessageBoard_Sync (h, mb)) = Inr () \<and> board_ok (snd (MessageBoard_Sync (h, mb))) \<and>
    board_abs (snd (MessageBoard_Sync (h, mb))) = abs_call CallSync (board_abs (h, mb))"
  using Sync_eq [OF ok] ok by (auto simp: board_ok_def board_abs_def comp_def)

lemma CallClear_refines:
  assumes ok: "board_ok (h, mb)"
  shows "board_ok (MessageBoard_Clear (h, mb)) \<and>
    board_abs (MessageBoard_Clear (h, mb)) = abs_call CallClear (board_abs (h, mb))"
proof -
  have "distinct (mb_writers mb)" using ok by (simp add: board_ok_def)
  from fold_store_modify [OF this, of BoardWriter_Disconnect h] ok show ?thesis
    by (simp add: MessageBoard_Clear_def MessageBoard_DeleteWriters_def board_ok_def board_abs_def)
qed

lemma mb_call_type: "board_ok s \<Longrightarrow> board_type (snd (mb_call b t c s)) = board_type s"
proof -
  assume ok: "board_ok s"
  obtain h mb where s: "s = (h, mb)" by (cases s)
  show ?thesis
  proof (cases c)
    case CallSync
    with Sync_eq [of h mb] ok s show ?thesis by (auto simp: board_type_def)
  qed (auto simp: s board_type_def MessageBoard_GetBoardWriter_def Let_def MessageBoard_Clear_def
      MessageBoard_DeleteWriters_def split: prod.splits)
qed

lemma mb_call_refines:
  assumes "board_ok s" "t = board_type s"
  shows "board_ok (snd (mb_call b t c s)) \<and> board_abs (snd (mb_call b t c s)) = abs_call c (board_abs s)"
proof -
  obtain h mb where s: "s = (h, mb)" by (cases s)
  show ?thesis
  proof (cases c)
    case CallGetBoardWriter
    with GetBoardWriter_refines [of h mb] assms s show ?thesis by simp
  next
    case (CallPost a m)
    with CallPost_refines [of h mb t b a m] assms s show ?thesis by (simp add: board_type_def)
  next
    case CallSync
    with CallSync_refines [of h mb] assms s show ?thesis by simp
  next
    case CallClear
    with CallClear_refines [of h mb] assms s show ?thesis by simp
  qed
qed

definition mb_calls :: "build \<Rightarrow> dtype \<Rightarrow> 'v board_call list \<Rightarrow> 'v board_state \<Rightarrow> 'v board_state" where
  "mb_calls b t cs s = fold (\<lambda>c s. snd (mb_call b t c s)) cs s"

lemma mb_calls_refines:
  assumes "board_ok s" "t = board_type s"
  shows "board_ok (mb_calls b t cs s) \<and> board_abs (mb_calls b t cs s) = fold abs_call cs (board_abs s)"
  using assms
proof (induction cs arbitrary: s)
  case Nil
  then show ?case by (simp add: mb_calls_def)
next
  case (Cons c cs)
  have "board_type (snd (mb_call b t c s)) = t" using mb_call_type [OF Cons.prems(1)] Cons.prems(2) by simp
  with Cons.IH [of "snd (mb_call b t c s)"] mb_call_refines [OF Cons.prems, of b c] show ?case
    by (simp add: mb_calls_def)
qed

subsection \<open>Interleavings of posts\<close>

definition posts :: "build \<Rightarrow> dtype \<Rightarrow> (nat \<times> 'v) list \<Rightarrow> 'v writer_store \<Rightarrow> 'v writer_store" where
  "posts b t ps h = fold (\<lambda>(a, m) h. snd (post_to b t a m h)) ps h"

lemma posts_effect:
  assumes "\<And>a m. (a, m) \<in> set ps \<Longrightarrow>
      a < length h \<and> bw_connected (h ! a) \<and> vw_type (bw_data (h ! a)) = t"
  shows "length (posts b t ps h) = length h \<and>
    (\<forall>c < length h. posts b t ps h ! c =
      (h ! c)\<lparr>bw_data := (bw_data (h ! c))\<lparr>vw_data := vw_data (bw_data (h ! c)) @
          map snd (filter (\<lambda>p. fst p = c) ps)\<rparr>\<rparr>)"
  using assms
proof (induction ps arbitrary: h)
  case Nil
  then show ?case by (simp add: posts_def)
next
  case (Cons p ps)
  obtain a m where p: "p = (a, m)" by (cases p)
  from Cons.prems [of a m] p have a: "a < length h" "bw_connected (h ! a)"
    "vw_type (bw_data (h ! a)) = t" by auto
  let ?h = "snd (post_to b t a m h)"
  have h: "?h = h[a := (h ! a)\<lparr>bw_data := (bw_data (h ! a))\<lparr>vw_data := vw_data (bw_data (h ! a)) @ [m]\<rparr>\<rparr>]"
    using a by (simp add: post_to_def BoardWriter_Post_def BoardWriter_IsConnected_def)
  have "(c, k) \<in> set ps \<Longrightarrow> c < length ?h \<and> bw_connected (?h ! c) \<and> vw_type (bw_data (?h ! c)) = t"
    for c k
    using Cons.prems [of c k] a unfolding h by (auto simp: nth_list_update)
  from Cons.IH [of ?h, OF this] show ?case
    using a unfolding p h by (auto simp: posts_def h nth_list_update)
qed

section \<open>Iterating over a board\<close>

fun MessageIterator_nexts ::
    "'v vector_wrapper \<Rightarrow> nat \<Rightarrow> msg_iterator \<Rightarrow> msg_iterator" where
  "MessageIterator_nexts vw 0 it = it"
| "MessageIterator_nexts vw (Suc k) it = snd (MessageIterator_Next vw (MessageIterator_nexts vw k it))"

lemma nexts_state:
  assumes fits: "vw_fits vw" and it: "MessageIterator_create vw = Inr it"
  shows "MessageIterator_nexts vw k it =
    \<lparr>rb_type = vw_type vw, rb_count = VectorWrapper_size vw,
     rb_pos = of_nat (min k (length (vw_data vw))),
     rb_current = (if k < length (vw_data vw) then Some k else None)\<rparr>"
proof (induction k)
  case 0
  with it show ?case
    by (auto simp: MessageIterator_create_def VectorWrapper_GetRawPtr_def VectorWrapper_empty_def
        split: if_splits)
next
  case (Suc k)
  let ?n = "length (vw_data vw)"
  have n: "?n < 2 ^ 63" using fits by (simp add: vw_fits_def)
  have pos: "(of_nat (min k ?n) :: size_t) + 1 = of_nat (Suc (min k ?n))" by simp
  have "unat (of_nat (Suc (min k ?n)) :: size_t) = Suc (min k ?n)"
    using n by (intro unat_size_t) simp
  then have le: "(VectorWrapper_size vw \<le> of_nat (Suc (min k ?n))) = (?n \<le> Suc k)"
    using fits by (auto simp: word_le_nat_alt)
  show ?case
  proof (cases "Suc k < ?n")
    case True
    then have "VectorWrapper_StepRawPtr vw (Some k) = Inr (Some (Suc k))" by (rule StepRawPtr_next)
    with True Suc le pos show ?thesis
      by (simp add: MessageIterator_Next_def MessageIterator_AtEnd_def Let_def add.commute)
  next
    case False
    with Suc le pos show ?thesis
      by (simp add: MessageIterator_Next_def MessageIterator_AtEnd_def Let_def VectorWrapper_size_def
          min_absorb2 add.commute)
  qed
qed

section \<open>Properties\<close>

text \<open>
  C10. A board with its writers refines its specification: for any sequence of calls
  (writers handed out, posts by address, synchronisations, clears) the visible messages and
  the messages on their way are those the specification computes, and the board stays
  well-formed.
\<close>

theorem board_refines_specification:
  assumes "board_ok s" "t = board_type s"
  shows "board_abs (mb_calls b t cs s) = fold abs_call cs (board_abs s) \<and> board_ok (mb_calls b t cs s)"
  using mb_calls_refines [OF assms] by blast

theorem board_refines_specification_witness:
  "ab_msgs (board_abs (mb_calls Debug ''int''
      [CallGetBoardWriter, CallGetBoardWriter, CallPost 1 (5::nat), CallPost 0 7, CallSync]
      ([], MessageBoard_create ''int'' ''m''))) = [7, 5]"
proof -
  let ?cs = "[CallGetBoardWriter, CallGetBoardWriter, CallPost 1 (5::nat), CallPost 0 7, CallSync]"
  let ?s = "([], MessageBoard_create ''int'' ''m'') :: nat board_state"
  have t: "''int'' = board_type ?s" by (simp add: board_type_def MessageBoard_create_def)
  have "board_abs (mb_calls Debug ''int'' ?cs ?s) = fold abs_call ?cs (board_abs ?s)"
    using board_refines_specification [OF board_ok_create t, of Debug ?cs] by blast
  also have "ab_msgs \<dots> = [7, 5]" by (simp add: board_abs_def MessageBoard_create_def)
  finally show ?thesis .
qed

text \<open>
  C17. Writers work without locks: however the posts to the open writers of a board are
  interleaved, \<open>Sync\<close> succeeds and gives the old messages followed, writer by writer in
  the order the writers were handed out, by what each writer held and what was posted to it
  in the order it was posted. Only the order of posts to the same writer matters.
\<close>

theorem sync_collects_interleaved_posts:
  assumes ok: "board_ok (h, mb)" and ps: "\<forall>(a, m) \<in> set ps. a \<in> set (mb_writers mb)"
  shows "\<exists>h' mb'. MessageBoard_Sync (posts b (vw_type (mb_data mb)) ps h, mb) = (Inr (), h', mb') \<and>
    vw_data (mb_data mb') = vw_data (mb_data mb) @ concat (map (\<lambda>a.
      vw_data (bw_data (h ! a)) @ map snd (filter (\<lambda>p. fst p = a) ps)) (mb_writers mb)) \<and>
    mb_writers mb' = []"
proof -
  let ?t = "vw_type (mb_data mb)" and ?h = "posts b (vw_type (mb_data mb)) ps h"
  have w: "a < length h" "bw_connected (h ! a)" "vw_type (bw_data (h ! a)) = ?t" if "a \<in> set (mb_writers mb)" for a
    using ok that by (auto simp: board_ok_def list_all_iff)
  have "length ?h = length h \<and> (\<forall>c < length h. ?h ! c = (h ! c)\<lparr>bw_data := (bw_data (h ! c))\<lparr>vw_data :=
       vw_data (bw_data (h ! c)) @ map snd (filter (\<lambda>p. fst p = c) ps)\<rparr>\<rparr>)"
    by (rule posts_effect) (use ps w in blast)
  then have e: "length ?h = length h" "\<And>c. c < length h \<Longrightarrow> ?h ! c = (h ! c)\<lparr>bw_data :=
      (bw_data (h ! c))\<lparr>vw_data := vw_data (bw_data (h ! c)) @ map snd (filter (\<lambda>p. fst p = c) ps)\<rparr>\<rparr>"
    by blast+
  have "board_ok (?h, mb)" using ok w e by (auto simp: board_ok_def list_all_iff)
  from Sync_eq [OF this] obtain h' where "MessageBoard_Sync (?h, mb) = (Inr (), h', mb\<lparr>mb_data :=
      (mb_data mb)\<lparr>vw_data := vw_data (mb_data mb) @ concat (map (\<lambda>a. vw_data (bw_data (?h ! a))) (mb_writers mb))\<rparr>,
      mb_writers := []\<rparr>)" by blast
  moreover have "map (\<lambda>a. vw_data (bw_data (?h ! a))) (mb_writers mb) = map (\<lambda>a.
      vw_data (bw_data (h ! a)) @ map snd (filter (\<lambda>p. fst p = a) ps)) (mb_writers mb)"
    using w(1) e(2) by (intro map_cong) auto
  ultimately show ?thesis by simp
qed

theorem sync_collects_interleaved_posts_witness:
  "\<exists>h' mb'. MessageBoard_Sync (posts Debug ''int'' [(1, 5), (0, 7), (1, 6)]
      (replicate 2 (BoardWriter_create ''int'')), (MessageBoard_create ''int'' ''m'')\<lparr>mb_writers := [0, 1]\<rparr>) =
      (Inr (), h', mb') \<and> vw_data (mb_data mb') = [7, 5, 6::nat]"
proof -
  let ?mb = "(MessageBoard_create ''int'' ''m'')\<lparr>mb_writers := [0, 1]\<rparr> :: nat message_board"
  let ?h = "replicate 2 (BoardWriter_create ''int'') :: nat writer_store"
  have t: "vw_type (mb_data ?mb) = ''int''" by (simp add: MessageBoard_create_def)
  have ok: "board_ok (?h, ?mb)"
    by (simp add: board_ok_def MessageBoard_create_def BoardWriter_create_def numeral_2_eq_2)
  show ?thesis
    using sync_collects_interleaved_posts [OF ok, of "[(1, 5), (0, 7), (1, 6)]" Debug]
    unfolding t by (auto simp: MessageBoard_create_def BoardWriter_create_def numeral_2_eq_2)
qed

text \<open>
  A message iterator reads the messages the board had when the iterator was created,
  each once and in order: after \<open>k\<close> calls of \<open>Next\<close> it gives message \<open>k\<close>, and it is at
  its end exactly when all messages have been passed; then \<open>Get\<close> throws
  \<open>out_of_range\<close>.
\<close>

theorem iterator_reads_all_messages:
  assumes fits: "vw_fits vw" and it: "MessageIterator_create vw = Inr it"
  shows "MessageIterator_Get b vw (vw_type vw) (MessageIterator_nexts vw k it) =
      (if k < length (vw_data vw) then Inr (vw_data vw ! k) else Inl (out_of_range ''End of iteration'')) \<and>
    (MessageIterator_AtEnd (MessageIterator_nexts vw k it) \<longleftrightarrow> length (vw_data vw) \<le> k) \<and>
    unat (MessageIterator_GetCount it) = length (vw_data vw)"
proof -
  have n: "length (vw_data vw) < 2 ^ 63" using fits by (simp add: vw_fits_def)
  then have "unat (of_nat (min k (length (vw_data vw))) :: size_t) = min k (length (vw_data vw))"
    by (intro unat_size_t) simp
  then have "MessageIterator_AtEnd (MessageIterator_nexts vw k it) \<longleftrightarrow> length (vw_data vw) \<le> k"
    using fits by (auto simp: nexts_state [OF fits it] MessageIterator_AtEnd_def word_le_nat_alt)
  moreover have "unat (MessageIterator_GetCount it) = length (vw_data vw)"
    using fits nexts_state [OF fits it, of 0] by (simp add: MessageIterator_GetCount_def)
  ultimately show ?thesis by (auto simp: nexts_state [OF fits it] MessageIterator_Get_def)
qed

theorem iterator_reads_all_messages_witness:
  "\<exists>it. MessageIterator_create \<lparr>vw_type = ''int'', vw_data = [4, 9::nat]\<rparr> = Inr it \<and>
     MessageIterator_Get Production \<lparr>vw_type = ''int'', vw_data = [4, 9::nat]\<rparr> ''int''
       (MessageIterator_nexts \<lparr>vw_type = ''int'', vw_data = [4, 9::nat]\<rparr> 1 it) = Inr 9"
proof -
  let ?vw = "\<lparr>vw_type = ''int'', vw_data = [4, 9::nat]\<rparr>"
  obtain it where it: "MessageIterator_create ?vw = Inr it"
    by (simp add: MessageIterator_create_def VectorWrapper_GetRawPtr_def)
  have "vw_fits ?vw" by (simp add: vw_fits_def)
  from iterator_reads_all_messages [OF this it, of Production 1] it show ?thesis by simp
qed

end
