(* ===== verification/Board_Manager.thy ===== *)
theory Board_Manager
  imports Message_Board
begin

text \<open>
  \<open>src/flame2/mb/message_board_manager.hpp\<close>, \<open>proxy.hpp\<close> and \<open>client.{hpp,cpp}\<close>:
  the singleton that owns the boards, the access list of a task and the handle through
  which a running task posts and reads. Writers are shared by boards and clients, so the
  manager's state carries the writer store next to the map of boards.
\<close>

section \<open>The manager\<close>

record 'v board_manager =
  bm_store :: "'v writer_store"
  bm_map :: "(string \<times> 'v message_board) list"

definition MessageBoardManager_new :: "'v board_manager" where
  "MessageBoardManager_new = \<lparr>bm_store = [], bm_map = []\<rparr>"

definition MessageBoardManager_RegisterMessage ::
    "dtype \<Rightarrow> string \<Rightarrow> ('v board_manager, unit) exec" where
  "MessageBoardManager_RegisterMessage t msg_name bm =
     (if omap_has (bm_map bm) msg_name then
        (Inl (logic_error ''Message with that name exists''), bm)
      else
        (Inr (), bm\<lparr>bm_map := omap_put msg_name (MessageBoard_create t msg_name) (bm_map bm)\<rparr>))"

text \<open>\<open>_GetMessageBoard(msg_name).op(...)\<close>: the accessor and the operation on the board.\<close>

definition GetMessageBoard ::
    "string \<Rightarrow> ('v board_state, 'a) exec \<Rightarrow> ('v board_manager, 'a) exec" where
  "GetMessageBoard msg_name action bm =
     (case map_of (bm_map bm) msg_name of
        None \<Rightarrow> (Inl (invalid_argument ''Unknown message name''), bm)
      | Some mb \<Rightarrow>
          (case action (bm_store bm, mb) of
             (r, h, mb') \<Rightarrow> (r, \<lparr>bm_store = h, bm_map = omap_put msg_name mb' (bm_map bm)\<rparr>)))"

definition MessageBoardManager_GetBoardWriter :: "string \<Rightarrow> ('v board_manager, nat) exec" where
  "MessageBoardManager_GetBoardWriter msg_name =
     GetMessageBoard msg_name (\<lambda>s. case MessageBoard_GetBoardWriter s of (w, s') \<Rightarrow> (Inr w, s'))"

definition MessageBoardManager_GetMessages :: "string \<Rightarrow> ('v board_manager, msg_iterator) exec" where
  "MessageBoardManager_GetMessages msg_name =
     GetMessageBoard msg_name (\<lambda>s. (MessageBoard_GetMessages (snd s), s))"

definition MessageBoardManager_Sync :: "string \<Rightarrow> ('v board_manager, unit) exec" where
  "MessageBoardManager_Sync msg_name = GetMessageBoard msg_name MessageBoard_Sync"

definition MessageBoardManager_Clear :: "string \<Rightarrow> ('v board_manager, unit) exec" where
  "MessageBoardManager_Clear msg_name =
     GetMessageBoard msg_name (\<lambda>s. (Inr (), MessageBoard_Clear s))"

definition MessageBoardManager_GetCount :: "string \<Rightarrow> ('v board_manager, size_t) exec" where
  "MessageBoardManager_GetCount msg_name =
     GetMessageBoard msg_name (\<lambda>s. (Inr (MessageBoard_GetCount (snd s)), s))"

definition MessageBoardManager_BoardExists :: "'v board_manager \<Rightarrow> string \<Rightarrow> bool" where
  "MessageBoardManager_BoardExists bm msg_name \<longleftrightarrow> omap_has (bm_map bm) msg_name"

definition MessageBoardManager_Reset :: "'v board_manager \<Rightarrow> 'v board_manager" where
  "MessageBoardManager_Reset bm = bm\<lparr>bm_map := []\<rparr>"

section \<open>Clients\<close>

record mb_client =
  cl_writers :: "(string \<times> nat) list"
  cl_acl_read :: "string list"

text \<open>The loop of the constructor over the names of \<open>acl_post\<close>.\<close>

fun Client_open ::
    "string list \<Rightarrow> (string \<times> nat) list \<Rightarrow> ('v board_manager, (string \<times> nat) list) exec" where
  "Client_open [] ws = returnE ws"
| "Client_open (n # ns) ws =
     bindE (MessageBoardManager_GetBoardWriter n) (\<lambda>w. Client_open ns (omap_put n w ws))"

definition Client_new :: "string list \<Rightarrow> string list \<Rightarrow> ('v board_manager, mb_client) exec" where
  "Client_new acl_read acl_post =
     bindE (Client_open acl_post []) (\<lambda>ws. returnE \<lparr>cl_writers = ws, cl_acl_read = acl_read\<rparr>)"

definition Client_GetBoardWriter :: "mb_client \<Rightarrow> 'v board_manager \<Rightarrow> string \<Rightarrow> exn + nat" where
  "Client_GetBoardWriter cl bm msg_name =
     (case map_of (cl_writers cl) msg_name of
        Some w \<Rightarrow> Inr w
      | None \<Rightarrow>
          if MessageBoardManager_BoardExists bm msg_name
          then Inl (invalid_operation ''No post access for this msg'')
          else Inl (invalid_argument ''Unknown message''))"

definition Client_GetMessages :: "mb_client \<Rightarrow> string \<Rightarrow> ('v board_manager, msg_iterator) exec" where
  "Client_GetMessages cl msg_name bm =
     (if msg_name \<notin> set (cl_acl_read cl) then
        (Inl (if MessageBoardManager_BoardExists bm msg_name
              then invalid_operation ''No read access for this msg''
              else invalid_argument ''Unknown message''), bm)
      else MessageBoardManager_GetMessages msg_name bm)"

section \<open>Proxies\<close>

record mb_proxy =
  acl_read :: "string list"
  acl_post :: "string list"

definition Proxy_new :: mb_proxy where
  "Proxy_new = \<lparr>acl_read = [], acl_post = []\<rparr>"

definition Proxy_can_read :: "mb_proxy \<Rightarrow> string \<Rightarrow> bool" where
  "Proxy_can_read px msg_name \<longleftrightarrow> msg_name \<in> set (acl_read px)"

definition Proxy_can_post :: "mb_proxy \<Rightarrow> string \<Rightarrow> bool" where
  "Proxy_can_post px msg_name \<longleftrightarrow> msg_name \<in> set (acl_post px)"

definition Proxy_GetClient :: "mb_proxy \<Rightarrow> ('v board_manager, mb_client) exec" where
  "Proxy_GetClient px = Client_new (acl_read px) (acl_post px)"

definition Proxy_AllowRead ::
    "build \<Rightarrow> 'v board_manager \<Rightarrow> string \<Rightarrow> (mb_proxy, unit) exec" where
  "Proxy_AllowRead b bm msg_name px =
     (if b = Debug \<and> Proxy_can_post px msg_name then
        (Inl (invalid_operation ''read and post to same msg''), px)
      else if b = Debug \<and> \<not> MessageBoardManager_BoardExists bm msg_name then
        (Inl (invalid_argument ''Unknown message name''), px)
      else (Inr (), px\<lparr>acl_read := oset_insert msg_name (acl_read px)\<rparr>))"

definition Proxy_AllowPost ::
    "build \<Rightarrow> 'v board_manager \<Rightarrow> string \<Rightarrow> (mb_proxy, unit) exec" where
  "Proxy_AllowPost b bm msg_name px =
     (if b = Debug \<and> Proxy_can_read px msg_name then
        (Inl (invalid_operation ''read and post to same msg''), px)
      else if b = Debug \<and> \<not> MessageBoardManager_BoardExists bm msg_name then
        (Inl (invalid_argument ''Unknown message name''), px)
      else (Inr (), px\<lparr>acl_post := oset_insert msg_name (acl_post px)\<rparr>))"

definition Proxy_assign :: "mb_proxy \<Rightarrow> mb_proxy \<Rightarrow> mb_proxy" where
  "Proxy_assign px source = px\<lparr>acl_read := acl_read source, acl_post := acl_post source\<rparr>"

section \<open>Well-formedness\<close>

text \<open>
  The boards are well-formed over the common store, carry the name they are registered
  under, and no writer belongs to two boards.
\<close>

definition bm_ok :: "'v board_manager \<Rightarrow> bool" where
  "bm_ok bm \<longleftrightarrow> omap_ok (bm_map bm) \<and>
     (\<forall>n mb. map_of (bm_map bm) n = Some mb \<longrightarrow> mb_name mb = n \<and> board_ok (bm_store bm, mb)) \<and>
     (\<forall>n mb n' mb'. map_of (bm_map bm) n = Some mb \<longrightarrow> map_of (bm_map bm) n' = Some mb' \<longrightarrow>
        n \<noteq> n' \<longrightarrow> set (mb_writers mb) \<inter> set (mb_writers mb') = {})"

text \<open>
  What a call on one board may do to the rest: writers of the store outside the board's
  list stay as they are, the store only grows, and the list of writers only gets new ones.
\<close>

definition board_frame :: "'v board_state \<Rightarrow> 'v board_state \<Rightarrow> bool" where
  "board_frame s s' \<longleftrightarrow> length (fst s) \<le> length (fst s') \<and> mb_name (snd s') = mb_name (snd s) \<and>
     (\<forall>c < length (fst s). c \<notin> set (mb_writers (snd s)) \<longrightarrow> fst s' ! c = fst s ! c) \<and>
     (\<forall>c \<in> set (mb_writers (snd s')). c \<in> set (mb_writers (snd s)) \<or> length (fst s) \<le> c)"

lemma board_frame_refl [simp]: "board_frame s s"
  by (simp add: board_frame_def)

lemma bm_ok_new [simp]: "bm_ok MessageBoardManager_new"
  by (simp add: bm_ok_def MessageBoardManager_new_def)

lemma bm_ok_RegisterMessage:
  "bm_ok bm \<Longrightarrow> bm_ok (snd (MessageBoardManager_RegisterMessage t n bm))"
  by (auto simp: bm_ok_def MessageBoardManager_RegisterMessage_def MessageBoard_create_def
      BoardWriter_create_def board_ok_def)

interpretation message_registry: registry "MessageBoardManager_RegisterMessage t"
    "\<lambda>bm. fst ` set (bm_map bm)" "\<lambda>_. True" for t
  by unfold_locales (auto simp: MessageBoardManager_RegisterMessage_def omap_has_iff)

lemma board_ok_frame:
  assumes "board_ok (h, mb')" and "board_frame (h, mb) (h', mb1)"
    and "set (mb_writers mb) \<inter> set (mb_writers mb') = {}"
  shows "board_ok (h', mb')"
proof -
  have "c < length h' \<and> h' ! c = h ! c" if "c \<in> set (mb_writers mb')" for c
    using that assms by (auto simp: board_ok_def board_frame_def list_all_iff)
  with assms(1) show ?thesis by (auto simp: board_ok_def list_all_iff)
qed

lemma bm_ok_step:
  assumes ok: "bm_ok bm" and at: "map_of (bm_map bm) n = Some mb"
    and ok': "board_ok (h, mb')" and frame: "board_frame (bm_store bm, mb) (h, mb')"
  shows "bm_ok \<lparr>bm_store = h, bm_map = omap_put n mb' (bm_map bm)\<rparr>"
proof -
  have disj: "set (mb_writers mb') \<inter> set (mb_writers mb2) = {}"
    if mb2: "map_of (bm_map bm) n2 = Some mb2" "n2 \<noteq> n" for n2 mb2
  proof -
    have "c < length (bm_store bm)" if "c \<in> set (mb_writers mb2)" for c
      using ok mb2(1) that by (fastforce simp: bm_ok_def board_ok_def list_all_iff)
    moreover have "set (mb_writers mb) \<inter> set (mb_writers mb2) = {}"
      using ok at mb2 by (metis bm_ok_def)
    ultimately show ?thesis using frame by (fastforce simp: board_frame_def)
  qed
  have keep: "mb_name mb2 = n2 \<and> board_ok (h, mb2)"
    if mb2: "map_of (bm_map bm) n2 = Some mb2" "n2 \<noteq> n" for n2 mb2
  proof -
    have "mb_name mb2 = n2" "board_ok (bm_store bm, mb2)"
      "set (mb_writers mb) \<inter> set (mb_writers mb2) = {}"
      using ok at mb2 by (metis bm_ok_def)+
    with board_ok_frame [OF _ frame] show ?thesis by blast
  qed
  have "omap_ok (bm_map bm)" "mb_name mb' = n"
    using ok at frame by (auto simp: bm_ok_def board_frame_def)
  moreover have "set (mb_writers mb2) \<inter> set (mb_writers mb3) = {}"
    if "map_of (bm_map bm) n2 = Some mb2" "map_of (bm_map bm) n3 = Some mb3" "n2 \<noteq> n3"
    for n2 mb2 n3 mb3
    using ok that by (metis bm_ok_def)
  ultimately show ?thesis
    using disj keep ok' unfolding bm_ok_def by (auto simp: Int_commute split: if_splits)
qed

text \<open>The frame of each call of a board.\<close>

lemma GetBoardWriter_frame: "board_frame s (snd (MessageBoard_GetBoardWriter s))"
  by (cases s) (auto simp: board_frame_def MessageBoard_GetBoardWriter_def Let_def nth_append)

lemma Sync_frame: "board_ok s \<Longrightarrow> board_frame s (snd (MessageBoard_Sync s))"
  using Sync_eq [of "fst s" "snd s"] by (auto simp: board_frame_def)

lemma Clear_frame: "board_ok s \<Longrightarrow> board_frame s (MessageBoard_Clear s)"
  using fold_store_modify [of "mb_writers (snd s)" BoardWriter_Disconnect "fst s"]
  by (cases s) (auto simp: board_frame_def MessageBoard_Clear_def MessageBoard_DeleteWriters_def
      board_ok_def)

section \<open>Calls on the manager\<close>

text \<open>
  What other threads may do while a task runs, in any order: register messages while the
  model is loaded, open writers, post through a writer, synchronise and clear boards.
\<close>

datatype 'v bm_call =
    BmRegister dtype string
  | BmGetBoardWriter string
  | BmPost dtype nat 'v
  | BmSync string
  | BmClear string

fun bm_do :: "build \<Rightarrow> 'v bm_call \<Rightarrow> 'v board_manager \<Rightarrow> 'v board_manager" where
  "bm_do b (BmRegister t n) bm = snd (MessageBoardManager_RegisterMessage t n bm)"
| "bm_do b (BmGetBoardWriter n) bm = snd (MessageBoardManager_GetBoardWriter n bm)"
| "bm_do b (BmPost t a m) bm = bm\<lparr>bm_store := snd (post_to b t a m (bm_store bm))\<rparr>"
| "bm_do b (BmSync n) bm = snd (MessageBoardManager_Sync n bm)"
| "bm_do b (BmClear n) bm = snd (MessageBoardManager_Clear n bm)"

definition bm_calls :: "build \<Rightarrow> 'v bm_call list \<Rightarrow> 'v board_manager \<Rightarrow> 'v board_manager" where
  "bm_calls b cs bm = fold (bm_do b) cs bm"

text \<open>The messages a reader of board \<open>n\<close> gets, and those on their way per writer.\<close>

definition bm_visible :: "'v board_manager \<Rightarrow> string \<Rightarrow> 'v list option" where
  "bm_visible bm n = map_option (\<lambda>mb. vw_data (mb_data mb)) (map_of (bm_map bm) n)"

definition bm_pending :: "'v board_manager \<Rightarrow> string \<Rightarrow> 'v list list option" where
  "bm_pending bm n =
     map_option (\<lambda>mb. map (\<lambda>a. vw_data (bw_data (bm_store bm ! a))) (mb_writers mb)) (map_of (bm_map bm) n)"

lemma bm_okD:
  assumes "bm_ok bm" "map_of (bm_map bm) n = Some mb"
  shows "board_ok (bm_store bm, mb)" "mb_name mb = n"
  using assms by (auto simp: bm_ok_def)

lemma bm_ok_at:
  assumes ok: "bm_ok bm" and op: "\<And>mb. board_ok (bm_store bm, mb) \<Longrightarrow>
    board_ok (snd (action (bm_store bm, mb))) \<and>
    board_frame (bm_store bm, mb) (snd (action (bm_store bm, mb)))"
  shows "bm_ok (snd (GetMessageBoard n action bm))"
proof (cases "map_of (bm_map bm) n")
  case None
  with ok show ?thesis by (simp add: GetMessageBoard_def)
next
  case (Some mb)
  obtain r h mb' where act: "action (bm_store bm, mb) = (r, h, mb')"
    by (cases "action (bm_store bm, mb)") auto
  with op [OF bm_okD(1) [OF ok Some]] bm_ok_step [OF ok Some, of h mb'] Some show ?thesis
    by (simp add: GetMessageBoard_def)
qed

lemma bm_ok_GetBoardWriter: "bm_ok bm \<Longrightarrow> bm_ok (snd (MessageBoardManager_GetBoardWriter n bm))"
  unfolding MessageBoardManager_GetBoardWriter_def
  by (rule bm_ok_at) (simp_all add: GetBoardWriter_refines GetBoardWriter_frame case_prod_unfold)

lemma bm_ok_Sync: "bm_ok bm \<Longrightarrow> bm_ok (snd (MessageBoardManager_Sync n bm))"
  unfolding MessageBoardManager_Sync_def
  by (rule bm_ok_at) (simp_all add: CallSync_refines Sync_frame)

lemma bm_ok_Clear: "bm_ok bm \<Longrightarrow> bm_ok (snd (MessageBoardManager_Clear n bm))"
  unfolding MessageBoardManager_Clear_def
  by (rule bm_ok_at) (simp_all add: CallClear_refines Clear_frame)

lemma board_ok_post:
  assumes "board_ok (h, mb)" "post_to b t a m h = (r, h')"
  shows "board_ok (h', mb)"
  using assms(1) post_to_store [OF assms(2)] by (fastforce simp: board_ok_def list_all_iff)

lemma bm_ok_Post: "bm_ok bm \<Longrightarrow> bm_ok (bm\<lparr>bm_store := snd (post_to b t a m (bm_store bm))\<rparr>)"
  using board_ok_post [of "bm_store bm" _ b t a m]
  by (cases "post_to b t a m (bm_store bm)") (auto simp: bm_ok_def)

lemmas bm_op_ok = bm_ok_RegisterMessage bm_ok_GetBoardWriter bm_ok_Sync bm_ok_Clear bm_ok_Post

lemma bm_do_ok: "bm_ok bm \<Longrightarrow> bm_ok (bm_do b c bm)"
  by (cases c) (simp_all add: bm_op_ok)

lemma bm_calls_ok: "bm_ok bm \<Longrightarrow> bm_ok (bm_calls b cs bm)"
  unfolding bm_calls_def by (induction cs arbitrary: bm) (simp_all add: bm_do_ok)

text \<open>Only \<open>Sync\<close> and \<open>Clear\<close> of a board change what its readers get.\<close>

fun bm_publishes :: "string \<Rightarrow> 'v bm_call \<Rightarrow> bool" where
  "bm_publishes n (BmSync n') \<longleftrightarrow> n' = n"
| "bm_publishes n (BmClear n') \<longleftrightarrow> n' = n"
| "bm_publishes n _ \<longleftrightarrow> False"

lemma GetMessageBoard_other:
  "n' \<noteq> n \<Longrightarrow> bm_visible (snd (GetMessageBoard n' action bm)) n = bm_visible bm n"
  by (auto simp: GetMessageBoard_def bm_visible_def split: option.splits prod.splits)

lemma GetBoardWriter_visible:
  "bm_visible (snd (MessageBoardManager_GetBoardWriter n' bm)) n = bm_visible bm n"
  by (cases "bm_store bm")
    (auto simp: MessageBoardManager_GetBoardWriter_def GetMessageBoard_def bm_visible_def
      MessageBoard_GetBoardWriter_def Let_def split: option.splits prod.splits)

lemma bm_do_visible:
  assumes "\<not> bm_publishes n c" "bm_visible bm n = Some ms"
  shows "bm_visible (bm_do b c bm) n = Some ms"
proof (cases c)
  case (BmRegister t n')
  with assms(2) show ?thesis
    by (auto simp: MessageBoardManager_RegisterMessage_def bm_visible_def omap_has_def)
next
  case (BmGetBoardWriter n')
  with assms(2) show ?thesis by (simp add: GetBoardWriter_visible)
next
  case (BmPost t a m)
  with assms(2) show ?thesis by (simp add: bm_visible_def)
next
  case (BmSync n')
  with assms show ?thesis by (simp add: MessageBoardManager_Sync_def GetMessageBoard_other)
next
  case (BmClear n')
  with assms show ?thesis by (simp add: MessageBoardManager_Clear_def GetMessageBoard_other)
qed

lemma bm_calls_visible:
  assumes "\<forall>c \<in> set cs. \<not> bm_publishes n c" "bm_visible bm n = Some ms"
  shows "bm_visible (bm_calls b cs bm) n = Some ms"
  using assms unfolding bm_calls_def
  by (induction cs arbitrary: bm) (simp_all add: bm_do_visible)

text \<open>\<open>Sync\<close> publishes the messages of all open writers of the board, in their order.\<close>

lemma Sync_publishes:
  assumes ok: "bm_ok bm" and at: "bm_visible bm n = Some ms" "bm_pending bm n = Some ps"
  shows "fst (MessageBoardManager_Sync n bm) = Inr () \<and>
    bm_visible (snd (MessageBoardManager_Sync n bm)) n = Some (ms @ concat ps) \<and>
    bm_pending (snd (MessageBoardManager_Sync n bm)) n = Some []"
proof -
  from at(1) obtain mb where mb: "map_of (bm_map bm) n = Some mb" "ms = vw_data (mb_data mb)"
    by (auto simp: bm_visible_def)
  with at(2) have ps: "ps = map (\<lambda>a. vw_data (bw_data (bm_store bm ! a))) (mb_writers mb)"
    by (simp add: bm_pending_def)
  from Sync_eq [OF bm_okD(1) [OF ok mb(1)]] obtain h' where
    "MessageBoard_Sync (bm_store bm, mb) = (Inr (), h', mb\<lparr>mb_data := (mb_data mb)\<lparr>vw_data :=
       vw_data (mb_data mb) @ concat (map (\<lambda>a. vw_data (bw_data (bm_store bm ! a))) (mb_writers mb))\<rparr>,
       mb_writers := []\<rparr>)" by blast
  with mb ps show ?thesis
    by (simp add: MessageBoardManager_Sync_def GetMessageBoard_def bm_visible_def bm_pending_def)
qed

section \<open>Clients and proxies\<close>

text \<open>
  In a debug build a proxy never grants both directions on one board and only grants
  access to boards that exist.
\<close>

definition proxy_ok :: "'v board_manager \<Rightarrow> mb_proxy \<Rightarrow> bool" where
  "proxy_ok bm px \<longleftrightarrow> oset_ok (acl_read px) \<and> oset_ok (acl_post px) \<and>
     set (acl_read px) \<inter> set (acl_post px) = {} \<and>
     set (acl_read px) \<union> set (acl_post px) \<subseteq> fst ` set (bm_map bm)"

datatype acl_call = AllowRead string | AllowPost string

fun acl_do :: "build \<Rightarrow> 'v board_manager \<Rightarrow> acl_call \<Rightarrow> (mb_proxy, unit) exec" where
  "acl_do b bm (AllowRead n) = Proxy_AllowRead b bm n"
| "acl_do b bm (AllowPost n) = Proxy_AllowPost b bm n"

lemma acl_do_ok: "proxy_ok bm px \<Longrightarrow> proxy_ok bm (snd (acl_do Debug bm c px))"
  by (cases c) (auto simp: proxy_ok_def Proxy_AllowRead_def Proxy_AllowPost_def Proxy_can_read_def
      Proxy_can_post_def MessageBoardManager_BoardExists_def omap_has_iff)

lemma acl_calls_ok: "proxy_ok bm px \<Longrightarrow> proxy_ok bm (snd (forE (acl_do Debug bm) cs px))"
  by (rule forE_invariant) (simp_all add: acl_do_ok)

text \<open>
  The state in which a client finds the manager: each name it may post to has a writer
  of its own, open, empty and of the type of the board.
\<close>

lemma GetBoardWriter_at:
  assumes ok: "bm_ok bm" and at: "map_of (bm_map bm) n = Some mb"
  shows "MessageBoardManager_GetBoardWriter n bm = (Inr (length (bm_store bm)),
    \<lparr>bm_store = bm_store bm @ [BoardWriter_clone_empty (mb_template mb)],
     bm_map = omap_put n (mb\<lparr>mb_writers := mb_writers mb @ [length (bm_store bm)]\<rparr>) (bm_map bm)\<rparr>)"
  using at by (simp add: MessageBoardManager_GetBoardWriter_def GetMessageBoard_def
      MessageBoard_GetBoardWriter_def Let_def)

definition writer_of :: "'v board_manager \<Rightarrow> string \<Rightarrow> nat \<Rightarrow> bool" where
  "writer_of bm n a \<longleftrightarrow> (\<exists>mb. map_of (bm_map bm) n = Some mb \<and> a \<in> set (mb_writers mb))"

lemma writer_of_open:
  assumes "bm_ok bm" "writer_of bm n a"
  shows "\<exists>mb. map_of (bm_map bm) n = Some mb \<and> a < length (bm_store bm) \<and>
    bw_connected (bm_store bm ! a) \<and> vw_type (bw_data (bm_store bm ! a)) = vw_type (mb_data mb)"
  using assms bm_okD [OF assms(1)] by (fastforce simp: writer_of_def board_ok_def list_all_iff)

lemma GetBoardWriter_writers:
  assumes "bm_ok bm" "map_of (bm_map bm) n = Some mb"
  shows "writer_of (snd (MessageBoardManager_GetBoardWriter n bm)) k a \<longleftrightarrow>
    writer_of bm k a \<or> (k = n \<and> a = length (bm_store bm))"
  using GetBoardWriter_at [OF assms] assms(2) by (auto simp: writer_of_def)

lemma Client_open_ok:
  assumes "bm_ok bm" "set ns \<subseteq> fst ` set (bm_map bm)"
  shows "\<exists>ws' bm'. Client_open ns ws bm = (Inr ws', bm') \<and> bm_ok bm' \<and>
    fst ` set (bm_map bm') = fst ` set (bm_map bm) \<and>
    (\<forall>k a. writer_of bm k a \<longrightarrow> writer_of bm' k a) \<and>
    (\<forall>k. k \<notin> set ns \<longrightarrow> map_of ws' k = map_of ws k) \<and>
    (\<forall>k \<in> set ns. \<exists>a. map_of ws' k = Some a \<and> writer_of bm' k a)"
  using assms
proof (induction ns arbitrary: ws bm)
  case Nil
  then show ?case by (simp add: returnE_apply)
next
  case (Cons n ns)
  from Cons.prems obtain mb where mb: "map_of (bm_map bm) n = Some mb"
    by (metis list.set_intros(1) map_of_eq_None_iff not_None_eq subsetD)
  note g = GetBoardWriter_at [OF Cons.prems(1) mb]
  let ?bm = "snd (MessageBoardManager_GetBoardWriter n bm)"
  have ok: "bm_ok ?bm" using Cons.prems(1) by (rule bm_ok_GetBoardWriter)
  have keys: "fst ` set (bm_map ?bm) = fst ` set (bm_map bm)"
    using g mb by (auto simp: insert_absorb map_of_eq_None_iff) (metis domI dom_map_of_conv_image_fst)
  have w: "writer_of ?bm k a \<longleftrightarrow> writer_of bm k a \<or> (k = n \<and> a = length (bm_store bm))" for k a
    by (rule GetBoardWriter_writers [OF Cons.prems(1) mb])
  obtain ws' bm' where IH: "Client_open ns (omap_put n (length (bm_store bm)) ws) ?bm = (Inr ws', bm')"
    "bm_ok bm'" "fst ` set (bm_map bm') = fst ` set (bm_map ?bm)"
    "\<forall>k a. writer_of ?bm k a \<longrightarrow> writer_of bm' k a"
    "\<forall>k. k \<notin> set ns \<longrightarrow> map_of ws' k = map_of (omap_put n (length (bm_store bm)) ws) k"
    "\<forall>k \<in> set ns. \<exists>a. map_of ws' k = Some a \<and> writer_of bm' k a"
    using Cons.IH [OF ok, of "omap_put n (length (bm_store bm)) ws"] Cons.prems(2) keys by auto
  have "Client_open (n # ns) ws bm = (Inr ws', bm')"
    using IH(1) g by (simp add: bindE_def)
  moreover have "\<exists>a. map_of ws' k = Some a \<and> writer_of bm' k a" if "k \<in> set (n # ns)" for k
    using that IH(4-6) w [of n "length (bm_store bm)"] by (cases "k \<in> set ns") auto
  ultimately show ?case using IH(2-5) keys w by auto
qed

lemma Client_new_ok:
  assumes "bm_ok bm" "set post \<subseteq> fst ` set (bm_map bm)"
  shows "\<exists>cl bm'. Client_new rd post bm = (Inr cl, bm') \<and> bm_ok bm' \<and>
    fst ` set (bm_map bm') = fst ` set (bm_map bm) \<and> cl_acl_read cl = rd \<and>
    (\<forall>k a. writer_of bm k a \<longrightarrow> writer_of bm' k a) \<and>
    (\<forall>k. k \<notin> set post \<longrightarrow> map_of (cl_writers cl) k = None) \<and>
    (\<forall>k \<in> set post. \<exists>a. map_of (cl_writers cl) k = Some a \<and> writer_of bm' k a)"
  using Client_open_ok [OF assms, of "[]"] by (auto simp: Client_new_def bindE_def returnE_apply)

section \<open>Properties\<close>

text \<open>A manager with one board for the witnesses.\<close>

definition sample_boards :: "nat board_manager" where
  "sample_boards = snd (MessageBoardManager_RegisterMessage ''int'' ''m'' MessageBoardManager_new)"

lemma sample_boards_ok: "bm_ok sample_boards" "fst ` set (bm_map sample_boards) = {''m''}"
  "bm_visible sample_boards ''m'' = Some []" "bm_pending sample_boards ''m'' = Some []"
  "map_of (bm_map sample_boards) ''m'' = Some (MessageBoard_create ''int'' ''m'')"
proof -
  show "bm_ok sample_boards" unfolding sample_boards_def by (rule bm_ok_RegisterMessage) simp
qed (simp_all add: sample_boards_def MessageBoardManager_RegisterMessage_def MessageBoardManager_new_def
    omap_has_def omap_put_def bm_visible_def bm_pending_def MessageBoard_create_def)

text \<open>
  C18. What readers of a board see changes only when that board is synchronised or cleared:
  no sequence of other calls (posts through any writer, new writers, new boards, \<open>Sync\<close> and
  \<open>Clear\<close> of other boards) changes the messages of the board.
\<close>

theorem messages_visible_only_after_sync:
  assumes "bm_visible bm n = Some ms" "\<forall>c \<in> set cs. \<not> bm_publishes n c"
  shows "bm_visible (bm_calls b cs bm) n = Some ms"
  using bm_calls_visible [OF assms(2,1)] .

theorem messages_visible_only_after_sync_witness:
  "bm_visible (bm_calls Debug [BmGetBoardWriter ''m'', BmPost ''int'' 0 5, BmSync ''other''] sample_boards) ''m'' =
    Some []"
  using messages_visible_only_after_sync [OF sample_boards_ok(3),
      of "[BmGetBoardWriter ''m'', BmPost ''int'' 0 5, BmSync ''other'']" Debug] by simp

text \<open>
  \<open>Sync\<close> of a registered board always succeeds, appends the messages of all its open
  writers to the messages readers see and leaves no message on its way; every sequence of
  calls keeps the manager well-formed, so this holds at any time.
\<close>

theorem sync_publishes_pending:
  assumes ok: "bm_ok bm"
    and at: "bm_visible (bm_calls b cs bm) n = Some ms" "bm_pending (bm_calls b cs bm) n = Some ps"
  shows "fst (MessageBoardManager_Sync n (bm_calls b cs bm)) = Inr () \<and>
    bm_visible (snd (MessageBoardManager_Sync n (bm_calls b cs bm))) n = Some (ms @ concat ps) \<and>
    bm_pending (snd (MessageBoardManager_Sync n (bm_calls b cs bm))) n = Some []"
  using Sync_publishes [OF bm_calls_ok [OF ok] at] .

theorem sync_publishes_pending_witness:
  "bm_visible (snd (MessageBoardManager_Sync ''m''
     (bm_calls Debug [BmGetBoardWriter ''m'', BmPost ''int'' 0 5] sample_boards))) ''m'' = Some [5]"
proof -
  let ?cs = "[BmGetBoardWriter ''m'', BmPost ''int'' 0 (5::nat)]"
  have v: "bm_visible (bm_calls Debug ?cs sample_boards) ''m'' = Some []"
    "bm_pending (bm_calls Debug ?cs sample_boards) ''m'' = Some [[5]]"
    by (simp_all add: bm_calls_def sample_boards_def MessageBoardManager_RegisterMessage_def
        MessageBoardManager_new_def omap_has_def omap_put_def MessageBoardManager_GetBoardWriter_def
        GetMessageBoard_def MessageBoard_GetBoardWriter_def MessageBoard_create_def BoardWriter_create_def
        BoardWriter_clone_empty_def VectorWrapper_clone_empty_def post_to_def BoardWriter_Post_def
        BoardWriter_IsConnected_def bm_visible_def bm_pending_def)
  from sync_publishes_pending [OF sample_boards_ok(1) v] show ?thesis by simp
qed

text \<open>
  A writer that a task kept over a \<open>Sync\<close> of its board is of no use: a later post
  through it throws \<open>invalid_operation\<close> in a debug build; in a production build the post
  returns normally, but the message is not delivered by the next \<open>Sync\<close> either.
\<close>

theorem post_after_sync_not_delivered:
  assumes ok: "bm_ok bm" and w: "writer_of bm n a" and mb: "map_of (bm_map bm) n = Some mb"
    and t: "t = vw_type (mb_data mb)"
  shows "fst (post_to Debug t a m (bm_store (snd (MessageBoardManager_Sync n bm)))) =
      Inl (invalid_operation ''No longer connected to board'') \<and>
    fst (post_to Production t a m (bm_store (snd (MessageBoardManager_Sync n bm)))) = Inr () \<and>
    bm_visible (snd (MessageBoardManager_Sync n
        (bm_do Production (BmPost t a m) (snd (MessageBoardManager_Sync n bm))))) n =
      bm_visible (snd (MessageBoardManager_Sync n bm)) n"
proof -
  let ?bm = "snd (MessageBoardManager_Sync n bm)"
  have a: "a \<in> set (mb_writers mb)" using w mb by (simp add: writer_of_def)
  have bok: "board_ok (bm_store bm, mb)" using bm_okD(1) [OF ok mb] .
  then have al: "a < length (bm_store bm)" "vw_type (bw_data (bm_store bm ! a)) = t"
    using a t by (auto simp: board_ok_def list_all_iff)
  from Sync_eq [OF bok] obtain h' where h': "MessageBoard_Sync (bm_store bm, mb) = (Inr (), h',
      mb\<lparr>mb_data := (mb_data mb)\<lparr>vw_data := vw_data (mb_data mb) @
        concat (map (\<lambda>a. vw_data (bw_data (bm_store bm ! a))) (mb_writers mb))\<rparr>, mb_writers := []\<rparr>)"
    "length h' = length (bm_store bm)" "h' ! a = \<lparr>bw_data = VectorWrapper_clear (bw_data (bm_store bm ! a)),
      bw_connected = False\<rparr>" using a al by auto
  have st: "bm_store ?bm = h'" using h'(1) mb by (simp add: MessageBoardManager_Sync_def GetMessageBoard_def)
  obtain ms where ms: "bm_visible ?bm n = Some ms" "bm_pending ?bm n = Some []"
    using h'(1) mb by (simp add: MessageBoardManager_Sync_def GetMessageBoard_def bm_visible_def bm_pending_def)
  let ?p = "bm_do Production (BmPost t a m) ?bm"
  have "bm_visible ?p n = Some ms" "bm_pending ?p n = Some []"
    using ms by (auto simp: bm_visible_def bm_pending_def)
  from Sync_publishes [OF bm_do_ok [OF bm_ok_Sync [OF ok]] this] ms(1)
  have "bm_visible (snd (MessageBoardManager_Sync n ?p)) n = bm_visible ?bm n" by simp
  moreover have "fst (post_to Debug t a m h') = Inl (invalid_operation ''No longer connected to board'')"
    "fst (post_to Production t a m h') = Inr ()"
    using h'(2,3) al by (simp_all add: post_to_def BoardWriter_Post_def BoardWriter_IsConnected_def)
  ultimately show ?thesis by (simp add: st)
qed

theorem post_after_sync_not_delivered_witness:
  "fst (post_to Debug ''int'' 0 5 (bm_store (snd (MessageBoardManager_Sync ''m''
     (snd (MessageBoardManager_GetBoardWriter ''m'' sample_boards)))))) =
   Inl (invalid_operation ''No longer connected to board'')"
proof -
  let ?bm = "snd (MessageBoardManager_GetBoardWriter ''m'' sample_boards)"
  have e: "bm_store sample_boards = []"
    by (simp add: sample_boards_def MessageBoardManager_RegisterMessage_def MessageBoardManager_new_def omap_has_def)
  have w: "writer_of ?bm ''m'' 0"
    using GetBoardWriter_writers [OF sample_boards_ok(1,5)] e by simp
  have mb: "map_of (bm_map ?bm) ''m'' = Some ((MessageBoard_create ''int'' ''m'')\<lparr>mb_writers := [0]\<rparr>)"
    using GetBoardWriter_at [OF sample_boards_ok(1,5)] e by (simp add: MessageBoard_create_def)
  from post_after_sync_not_delivered [OF bm_ok_GetBoardWriter [OF sample_boards_ok(1)] w mb, of "''int''" 5]
  show ?thesis by (simp add: MessageBoard_create_def)
qed

text \<open>
  In a debug build no sequence of grants gives one task both read and post access to a
  board, and access is only granted to boards that exist.
\<close>

theorem proxy_read_post_exclusive:
  "set (acl_read (snd (forE (acl_do Debug bm) cs Proxy_new))) \<inter>
     set (acl_post (snd (forE (acl_do Debug bm) cs Proxy_new))) = {} \<and>
   set (acl_read (snd (forE (acl_do Debug bm) cs Proxy_new))) \<union>
     set (acl_post (snd (forE (acl_do Debug bm) cs Proxy_new))) \<subseteq> fst ` set (bm_map bm)"
proof -
  have "proxy_ok bm Proxy_new" by (simp add: proxy_ok_def Proxy_new_def)
  from acl_calls_ok [OF this, of cs] show ?thesis by (simp add: proxy_ok_def)
qed

text \<open>
  A client made from a proxy whose boards exist can post to exactly the boards of its
  post list, each through a writer of its own that is open and listed by that board, and
  can read exactly the boards of its read list; any other access throws
  \<open>invalid_operation\<close> for a board that exists and \<open>invalid_argument\<close> for one that does not.
\<close>

theorem client_access_classes:
  assumes ok: "bm_ok bm" and px: "set (acl_post px) \<union> set (acl_read px) \<subseteq> fst ` set (bm_map bm)"
  shows "\<exists>cl bm'. Proxy_GetClient px bm = (Inr cl, bm') \<and> bm_ok bm' \<and>
    (\<forall>n. case Client_GetBoardWriter cl bm' n of
       Inr a \<Rightarrow> n \<in> set (acl_post px) \<and> writer_of bm' n a
     | Inl e \<Rightarrow> n \<notin> set (acl_post px) \<and>
         e = (if n \<in> fst ` set (bm_map bm) then invalid_operation ''No post access for this msg''
              else invalid_argument ''Unknown message'')) \<and>
    (\<forall>n. n \<notin> set (acl_read px) \<longrightarrow> fst (Client_GetMessages cl n bm') =
       Inl (if n \<in> fst ` set (bm_map bm) then invalid_operation ''No read access for this msg''
            else invalid_argument ''Unknown message'')) \<and>
    (\<forall>n. n \<in> set (acl_read px) \<longrightarrow> Client_GetMessages cl n bm' = MessageBoardManager_GetMessages n bm')"
proof -
  have "set (acl_post px) \<subseteq> fst ` set (bm_map bm)" using px by auto
  from Client_new_ok [OF ok this, of "acl_read px"] obtain cl bm' where c:
    "Client_new (acl_read px) (acl_post px) bm = (Inr cl, bm')" "bm_ok bm'"
    "fst ` set (bm_map bm') = fst ` set (bm_map bm)" "cl_acl_read cl = acl_read px"
    "\<forall>k. k \<notin> set (acl_post px) \<longrightarrow> map_of (cl_writers cl) k = None"
    "\<forall>k \<in> set (acl_post px). \<exists>a. map_of (cl_writers cl) k = Some a \<and> writer_of bm' k a" by blast
  have "case Client_GetBoardWriter cl bm' n of
       Inr a \<Rightarrow> n \<in> set (acl_post px) \<and> writer_of bm' n a
     | Inl e \<Rightarrow> n \<notin> set (acl_post px) \<and>
         e = (if n \<in> fst ` set (bm_map bm) then invalid_operation ''No post access for this msg''
              else invalid_argument ''Unknown message'')" for n
    using c(3,5,6) by (cases "n \<in> set (acl_post px)")
      (auto simp: Client_GetBoardWriter_def MessageBoardManager_BoardExists_def omap_has_iff)
  with c(1-4) show ?thesis
    by (auto simp: Proxy_GetClient_def Client_GetMessages_def MessageBoardManager_BoardExists_def omap_has_iff)
qed

theorem client_access_classes_witness:
  "\<exists>cl bm'. Proxy_GetClient \<lparr>acl_read = [], acl_post = [''m'']\<rparr> sample_boards = (Inr cl, bm') \<and>
     fst (Client_GetMessages cl ''m'' bm') = Inl (invalid_operation ''No read access for this msg'')"
  using client_access_classes [OF sample_boards_ok(1), of "\<lparr>acl_read = [], acl_post = [''m'']\<rparr>"]
  by (auto simp: sample_boards_ok(2))

end
