(* ===== verification/Agent_API.thy ===== *)
theory Agent_API
  imports Memory_Iterator Board_Manager
begin

text \<open>
  \<open>src/flame2/api/agent_api.hpp\<close> and \<open>message_iterator_wrapper.hpp\<close>: the object a
  transition function gets as its argument. Each call forwards to the memory iterator or
  the message board client and translates the framework's exceptions into API exceptions
  with the name of the call and an explanation for the user.
\<close>

section \<open>Texts of the API exceptions\<close>

definition msg_get_type :: string where
  "msg_get_type = ''Invalid type specified. Check that the type used when calling '' @ [CHR 0x27] @
     ''.GetMem<DATATYPE>()'' @ [CHR 0x27] @ '' matches the type of the agent memory variable.''"

definition msg_set_type :: string where
  "msg_set_type = ''Invalid type specified. Check that the type used when calling '' @ [CHR 0x27] @
     ''.SetMem<DATATYPE>()'' @ [CHR 0x27] @ '' matches the type of the agent memory variable.''"

definition msg_post_type :: string where
  "msg_post_type = ''Invalid type specified. Check that the type used when calling '' @ [CHR 0x27] @
     ''.PostMessage<DATATYPE>()'' @ [CHR 0x27] @ '' matches the message type.''"

definition msg_message_type :: string where
  "msg_message_type = ''Invalid type specified. Check that the type used when calling '' @ [CHR 0x27] @
     ''.GetMessage<MESSAGE_TYPE>()'' @ [CHR 0x27] @ '' matches the message type.''"

definition msg_unknown_var :: "string \<Rightarrow> string" where
  "msg_unknown_var v = ''Unknown memory variable. Agent does not have memory variable with name '' @
     [CHR 0x27] @ v @ [CHR 0x27] @ ''.''"

definition msg_no_access :: "string \<Rightarrow> string \<Rightarrow> string \<Rightarrow> string" where
  "msg_no_access mode what v = ''No access. This function has not been given '' @ mode @
     '' access to '' @ what @ '' '' @ [CHR 0x27] @ v @ [CHR 0x27] @ ''.''"

definition msg_unknown_message :: "string \<Rightarrow> string" where
  "msg_unknown_message n = ''Unknown message. The is no registered message with the name '' @
     [CHR 0x27] @ n @ [CHR 0x27] @ ''. Do check your that the name you specified matches the message '' @
     ''name provided in the model definition.''"

definition msg_end_of_iteration :: string where
  "msg_end_of_iteration = ''End of Iteration. GetMessage<MESSAGE_TYPE>() should not be called '' @
     ''once the iteration has completed or if the message board is empty. You can check using '' @
     [CHR 0x27] @ ''.AtEnd()'' @ [CHR 0x27] @ ''.''"

definition msg_unassigned :: string where
  "msg_unassigned = ''Iterators must be assigned using FLAME.GetMessages('' @ [CHR 0x22] @
     ''message_name'' @ [CHR 0x22] @ '') before it can be accessed.''"

section \<open>Translation of exceptions\<close>

text \<open>The \<open>catch\<close> clauses of each call; other exceptions pass through.\<close>

fun catch_mem :: "string \<Rightarrow> string \<Rightarrow> string \<Rightarrow> string \<Rightarrow> exn \<Rightarrow> exn" where
  "catch_mem func type_msg mode v (invalid_type _) = flame_api_invalid_type func type_msg"
| "catch_mem func type_msg mode v (invalid_variable _) = flame_api_unknown_param func (msg_unknown_var v)"
| "catch_mem func type_msg mode v (invalid_operation _) =
     flame_api_access_denied func (msg_no_access mode ''memory variable'' v)"
| "catch_mem func type_msg mode v e = e"

fun catch_post :: "string \<Rightarrow> exn \<Rightarrow> exn" where
  "catch_post n (invalid_type _) = flame_api_invalid_type ''PostMessage'' msg_post_type"
| "catch_post n (invalid_operation _) =
     flame_api_access_denied ''PostMessage'' (msg_no_access ''write'' ''message named'' n)"
| "catch_post n (invalid_argument _) = flame_api_unknown_param ''PostMessage'' (msg_unknown_message n)"
| "catch_post n e = e"

fun catch_iter :: "string \<Rightarrow> exn \<Rightarrow> exn" where
  "catch_iter n (invalid_operation _) =
     flame_api_access_denied ''GetMessageIterator'' (msg_no_access ''read'' ''message named'' n)"
| "catch_iter n (invalid_argument _) =
     flame_api_unknown_param ''GetMessageIterator'' (msg_unknown_message n)"
| "catch_iter n e = e"

fun catch_message :: "exn \<Rightarrow> exn" where
  "catch_message (invalid_type _) =
     flame_api_invalid_type ''MessageIterator::GetMessage'' msg_message_type"
| "catch_message (out_of_range _) =
     flame_api_out_of_range ''MessageIterator::GetMessage'' msg_end_of_iteration"
| "catch_message e = e"

definition translate :: "(exn \<Rightarrow> exn) \<Rightarrow> exn + 'a \<Rightarrow> exn + 'a" where
  "translate f r = (case r of Inl e \<Rightarrow> Inl (f e) | Inr a \<Rightarrow> Inr a)"

lemma translate_simps [simp]: "translate f (Inl e) = Inl (f e)" "translate f (Inr a) = Inr a"
  by (simp_all add: translate_def)

section \<open>Agent API\<close>

text \<open>The iterator refers to a shadow; both are fixed for the life of the API object.\<close>

record agent_api =
  api_mem :: mem_iterator
  api_shadow :: agent_shadow
  api_mb :: mb_client

definition AgentAPI_GetMem ::
    "build \<Rightarrow> agent_api \<Rightarrow> 'v agent_memory \<Rightarrow> dtype \<Rightarrow> string \<Rightarrow> exn + 'v" where
  "AgentAPI_GetMem b api am t var_name =
     translate (catch_mem ''GetMem'' msg_get_type ''read'' var_name)
       (MemoryIterator_Get b am (api_shadow api) (api_mem api) t var_name)"

definition AgentAPI_SetMem ::
    "build \<Rightarrow> agent_api \<Rightarrow> dtype \<Rightarrow> string \<Rightarrow> 'v \<Rightarrow> ('v agent_memory, unit) exec" where
  "AgentAPI_SetMem b api t var_name value am =
     (case MemoryIterator_Set b (api_shadow api) (api_mem api) t var_name value am of
        (r, am') \<Rightarrow> (translate (catch_mem ''SetMem'' msg_set_type ''write'' var_name) r, am'))"

definition AgentAPI_PostMessage ::
    "build \<Rightarrow> agent_api \<Rightarrow> dtype \<Rightarrow> string \<Rightarrow> 'v \<Rightarrow> ('v board_manager, unit) exec" where
  "AgentAPI_PostMessage b api t msg_name msg bm =
     (case Client_GetBoardWriter (api_mb api) bm msg_name of
        Inl e \<Rightarrow> (Inl (catch_post msg_name e), bm)
      | Inr w \<Rightarrow>
          (case post_to b t w msg (bm_store bm) of
             (r, h) \<Rightarrow> (translate (catch_post msg_name) r, bm\<lparr>bm_store := h\<rparr>)))"

text \<open>A wrapper is a shared pointer: \<open>None\<close> until it is assigned.\<close>

type_synonym iterator_wrapper = "msg_iterator option"

definition AgentAPI_GetMessageIterator ::
    "agent_api \<Rightarrow> string \<Rightarrow> ('v board_manager, iterator_wrapper) exec" where
  "AgentAPI_GetMessageIterator api msg_name bm =
     (case Client_GetMessages (api_mb api) msg_name bm of
        (r, bm') \<Rightarrow>
          (case r of Inl e \<Rightarrow> Inl (catch_iter msg_name e) | Inr it \<Rightarrow> Inr (Some it), bm'))"

section \<open>Message iterator wrapper\<close>

definition assert_not_null ::
    "build \<Rightarrow> iterator_wrapper \<Rightarrow> (msg_iterator \<Rightarrow> (exn + 'a) \<times> msg_iterator) \<Rightarrow>
      (exn + 'a) \<times> iterator_wrapper" where
  "assert_not_null b p k =
     (case p of
        None \<Rightarrow> (Inl (case b of Debug \<Rightarrow> flame_api_invalid_operation ''MessageIterator'' msg_unassigned
                             | Production \<Rightarrow> UB ''null pointer''), None)
      | Some it \<Rightarrow> (case k it of (r, it') \<Rightarrow> (r, Some it')))"

definition Wrapper_AtEnd :: "build \<Rightarrow> (iterator_wrapper, bool) exec" where
  "Wrapper_AtEnd b p = assert_not_null b p (\<lambda>it. (Inr (MessageIterator_AtEnd it), it))"

definition Wrapper_GetCount :: "build \<Rightarrow> (iterator_wrapper, size_t) exec" where
  "Wrapper_GetCount b p = assert_not_null b p (\<lambda>it. (Inr (MessageIterator_GetCount it), it))"

definition Wrapper_Rewind :: "build \<Rightarrow> 'v vector_wrapper \<Rightarrow> (iterator_wrapper, unit) exec" where
  "Wrapper_Rewind b vw p = assert_not_null b p (MessageIterator_Rewind vw)"

definition Wrapper_Next :: "build \<Rightarrow> 'v vector_wrapper \<Rightarrow> (iterator_wrapper, bool) exec" where
  "Wrapper_Next b vw p = assert_not_null b p (MessageIterator_Next vw)"

text \<open>The production build does not look at the pointer before it throws.\<close>

definition Wrapper_Randomise :: "build \<Rightarrow> (iterator_wrapper, unit) exec" where
  "Wrapper_Randomise b p =
     (if b = Debug \<and> p = None then
        (Inl (flame_api_invalid_operation ''MessageIterator'' msg_unassigned), p)
      else
        (Inl (flame_api_not_implemented ''MessageIterator::Randomise'' ''Not yet implemented, sorry.''), p))"

definition Wrapper_GetMessage :: "build \<Rightarrow> 'v vector_wrapper \<Rightarrow> dtype \<Rightarrow> (iterator_wrapper, 'v) exec" where
  "Wrapper_GetMessage b vw t p =
     assert_not_null b p (\<lambda>it. (translate catch_message (MessageIterator_Get b vw t it), it))"

section \<open>Facts\<close>

fun is_api_exception :: "exn \<Rightarrow> bool" where
  "is_api_exception (flame_api_invalid_type _ _) = True"
| "is_api_exception (flame_api_invalid_operation _ _) = True"
| "is_api_exception (flame_api_not_implemented _ _) = True"
| "is_api_exception (flame_api_out_of_range _ _) = True"
| "is_api_exception (flame_api_unknown_param _ _) = True"
| "is_api_exception (flame_api_access_denied _ _) = True"
| "is_api_exception _ = False"

lemma catch_mem_denied [simp]:
  "catch_mem f tm md v (denied am v m) =
    (if AgentShadow_IsRegistered am v then flame_api_access_denied f (msg_no_access md ''memory variable'' v)
     else flame_api_unknown_param f (msg_unknown_var v))"
  by (simp add: denied_def)

text \<open>What each memory call does while the cursor is on an agent, in a debug build.\<close>

lemma GetMem_eq:
  assumes "mi_inv am (api_shadow api) n (api_mem api)" "mi_agent (api_mem api) < n"
  shows "AgentAPI_GetMem Debug api am t v =
    (if v \<notin> set (vec_map (api_shadow api)) then
       Inl (if AgentShadow_IsRegistered am v
            then flame_api_access_denied ''GetMem'' (msg_no_access ''read'' ''memory variable'' v)
            else flame_api_unknown_param ''GetMem'' (msg_unknown_var v))
     else if am_schema am v \<noteq> Some t then Inl (flame_api_invalid_type ''GetMem'' msg_get_type)
     else Inr (vw_data (the (map_of (mem_map am) v)) ! mi_agent (api_mem api)))"
  using assms by (auto simp: AgentAPI_GetMem_def Get_eq)

lemma SetMem_eq:
  assumes inv: "mi_inv am (api_shadow api) n (api_mem api)" "mi_agent (api_mem api) < n"
  shows "AgentAPI_SetMem Debug api t v x am =
    (if v \<notin> set (rw_set (api_shadow api)) then
       (Inl (if AgentShadow_IsRegistered am v
             then flame_api_access_denied ''SetMem'' (msg_no_access ''write'' ''memory variable'' v)
             else flame_api_unknown_param ''SetMem'' (msg_unknown_var v)), am)
     else if am_schema am v \<noteq> Some t then (Inl (flame_api_invalid_type ''SetMem'' msg_set_type), am)
     else (Inr (), AgentMemory_modify v (\<lambda>w. w\<lparr>vw_data := (vw_data w)[mi_agent (api_mem api) := x]\<rparr>) am))"
proof (cases "v \<in> set (rw_set (api_shadow api))")
  case False
  then show ?thesis by (auto simp: AgentAPI_SetMem_def Set_denied)
next
  case True
  with inv have "v \<in> set (vec_map (api_shadow api))" by (auto simp: mi_inv_def shadow_ok_def)
  then have "am_schema am v \<noteq> Some t \<Longrightarrow>
      MemoryIterator_Set Debug (api_shadow api) (api_mem api) t v x am = (Inl (invalid_type ''invalid type''), am)"
    using True by (simp add: MemoryIterator_Set_def MemoryIterator_GetWritePtr_def)
  with True inv show ?thesis by (auto simp: AgentAPI_SetMem_def Set_eq)
qed

text \<open>
  Posting through a client whose writers are still open: a message of the right type is
  appended to the client's writer.
\<close>

lemma PostMessage_eq:
  assumes ok: "bm_ok bm"
    and w: "\<And>k a. map_of (cl_writers (api_mb api)) k = Some a \<Longrightarrow> writer_of bm k a"
  shows "AgentAPI_PostMessage Debug api t n m bm =
    (case map_of (cl_writers (api_mb api)) n of
       None \<Rightarrow>
         (Inl (if MessageBoardManager_BoardExists bm n
               then flame_api_access_denied ''PostMessage'' (msg_no_access ''write'' ''message named'' n)
               else flame_api_unknown_param ''PostMessage'' (msg_unknown_message n)), bm)
     | Some a \<Rightarrow>
         if vw_type (bw_data (bm_store bm ! a)) \<noteq> t
         then (Inl (flame_api_invalid_type ''PostMessage'' msg_post_type), bm)
         else (Inr (), bm\<lparr>bm_store := (bm_store bm)[a := (bm_store bm ! a)\<lparr>bw_data :=
                 (bw_data (bm_store bm ! a))\<lparr>vw_data := vw_data (bw_data (bm_store bm ! a)) @ [m]\<rparr>\<rparr>]\<rparr>))"
proof (cases "map_of (cl_writers (api_mb api)) n")
  case None
  then show ?thesis by (simp add: AgentAPI_PostMessage_def Client_GetBoardWriter_def)
next
  case (Some a)
  from writer_of_open [OF ok w [OF Some]] have "a < length (bm_store bm)"
    "bw_connected (bm_store bm ! a)" by auto
  with Some show ?thesis
    by (simp add: AgentAPI_PostMessage_def Client_GetBoardWriter_def post_to_def BoardWriter_Post_def
        BoardWriter_IsConnected_def)
qed

lemma GetMessageIterator_eq:
  "AgentAPI_GetMessageIterator api n bm =
    (if n \<notin> set (cl_acl_read (api_mb api)) then
       (Inl (if MessageBoardManager_BoardExists bm n
             then flame_api_access_denied ''GetMessageIterator'' (msg_no_access ''read'' ''message named'' n)
             else flame_api_unknown_param ''GetMessageIterator'' (msg_unknown_message n)), bm)
     else case MessageBoardManager_GetMessages n bm of
       (Inl e, bm') \<Rightarrow> (Inl (catch_iter n e), bm') | (Inr it, bm') \<Rightarrow> (Inr (Some it), bm'))"
  by (auto simp: AgentAPI_GetMessageIterator_def Client_GetMessages_def split: prod.splits sum.splits)

section \<open>Properties\<close>



text \<open>
  In a debug build \<open>PostMessage\<close> through a client whose writers are open appends the
  message to the client's own writer of that board, or throws the API exception for an
  unknown board, a board without post access or a wrong type and changes nothing.
\<close>

theorem post_message_outcomes:
  assumes ok: "bm_ok bm"
    and w: "\<forall>k a. map_of (cl_writers (api_mb api)) k = Some a \<longrightarrow> writer_of bm k a"
  shows "case AgentAPI_PostMessage Debug api t n m bm of
      (Inl e, bm') \<Rightarrow> is_api_exception e \<and> bm' = bm \<and>
        (case map_of (cl_writers (api_mb api)) n of
           None \<Rightarrow> e = (if MessageBoardManager_BoardExists bm n
               then flame_api_access_denied ''PostMessage'' (msg_no_access ''write'' ''message named'' n)
               else flame_api_unknown_param ''PostMessage'' (msg_unknown_message n))
         | Some a \<Rightarrow> vw_type (bw_data (bm_store bm ! a)) \<noteq> t)
    | (Inr _, bm') \<Rightarrow> (\<exists>a. map_of (cl_writers (api_mb api)) n = Some a \<and> bm_map bm' = bm_map bm \<and>
        vw_data (bw_data (bm_store bm' ! a)) = vw_data (bw_data (bm_store bm ! a)) @ [m] \<and>
        (\<forall>c. c \<noteq> a \<longrightarrow> bm_store bm' ! c = bm_store bm ! c))"
proof (cases "map_of (cl_writers (api_mb api)) n")
  case None
  then show ?thesis using PostMessage_eq [OF ok, of api t n m] w by simp
next
  case (Some a)
  then have "a < length (bm_store bm)" using writer_of_open [OF ok, of n a] w by auto
  then show ?thesis using Some PostMessage_eq [OF ok, of api t n m] w by simp
qed

theorem post_message_outcomes_witness:
  "\<exists>e. fst (AgentAPI_PostMessage Debug \<lparr>api_mem = \<lparr>mi_position = 0, mi_size = 0, mi_offset = 0,
      mi_count = 0, ptr_map = []\<rparr>, api_shadow = sample_shadow,
      api_mb = \<lparr>cl_writers = [], cl_acl_read = []\<rparr>\<rparr> ''int'' ''m'' 5 sample_boards) =
    Inl (flame_api_access_denied ''PostMessage'' e)"
proof -
  let ?api = "\<lparr>api_mem = \<lparr>mi_position = 0, mi_size = 0, mi_offset = 0, mi_count = 0, ptr_map = []\<rparr>,
    api_shadow = sample_shadow, api_mb = \<lparr>cl_writers = [], cl_acl_read = []\<rparr>\<rparr>"
  have "MessageBoardManager_BoardExists sample_boards ''m''"
    by (simp add: MessageBoardManager_BoardExists_def omap_has_iff sample_boards_ok(2))
  with post_message_outcomes [OF sample_boards_ok(1), where api = ?api and t = "''int''" and n = "''m''" and m = 5]
  show ?thesis by (auto split: prod.splits sum.splits)
qed

end
