(* ===== verification/Tasks.thy ===== *)
theory Tasks
  imports Agent_API
begin

text \<open>
  \<open>src/flame2/exe/task_interface.hpp\<close>, \<open>agent_task.{hpp,cpp}\<close>,
  \<open>message_board_task.{hpp,cpp}\<close>, \<open>io_task.{hpp,cpp}\<close> and
  \<open>task_splitter.{hpp,cpp}\<close>: the three kinds of tasks, the loop that runs a transition
  function over a slice of a population, and the division of that loop into sub-tasks.
  The virtual methods of \<open>Task\<close> are functions that branch on the kind of task.
\<close>

section \<open>Transition functions\<close>

text \<open>
  A transition function is user code that reaches the simulation only through its API
  argument. It is a tree of API calls: each node is a call, its continuation gets the
  value or the exception, so a function may catch exceptions, branch and loop as it likes;
  \<open>Throw\<close> leaves the function with an exception, \<open>Return\<close> with its return code.
  A node on a message iterator names the board whose vector the iterator points to.
\<close>

datatype 'v agent_fun =
    Return int
  | Throw exn
  | GetMem dtype string "exn + 'v \<Rightarrow> 'v agent_fun"
  | SetMem dtype string 'v "exn + unit \<Rightarrow> 'v agent_fun"
  | PostMessage dtype string 'v "exn + unit \<Rightarrow> 'v agent_fun"
  | GetMessageIterator string "exn + iterator_wrapper \<Rightarrow> 'v agent_fun"
  | IterNext string iterator_wrapper "(exn + bool) \<times> iterator_wrapper \<Rightarrow> 'v agent_fun"
  | IterRewind string iterator_wrapper "(exn + unit) \<times> iterator_wrapper \<Rightarrow> 'v agent_fun"
  | IterGetMessage string dtype iterator_wrapper "exn + 'v \<Rightarrow> 'v agent_fun"

type_synonym 'v agent_state = "'v agent_memory \<times> 'v board_manager"

definition board_vector :: "'v board_manager \<Rightarrow> string \<Rightarrow> 'v vector_wrapper" where
  "board_vector bm n =
     (case map_of (bm_map bm) n of None \<Rightarrow> VectorWrapper_new [] | Some mb \<Rightarrow> mb_data mb)"

text \<open>Calling a transition function with an API object.\<close>

primrec call_fun :: "build \<Rightarrow> agent_api \<Rightarrow> 'v agent_fun \<Rightarrow> ('v agent_state, int) exec" where
  "call_fun b api (Return rc) = (\<lambda>s. (Inr rc, s))"
| "call_fun b api (Throw e) = (\<lambda>s. (Inl e, s))"
| "call_fun b api (GetMem t v k) =
     (\<lambda>s. call_fun b api (k (AgentAPI_GetMem b api (fst s) t v)) s)"
| "call_fun b api (SetMem t v x k) =
     (\<lambda>s. call_fun b api (k (fst (AgentAPI_SetMem b api t v x (fst s))))
            (snd (AgentAPI_SetMem b api t v x (fst s)), snd s))"
| "call_fun b api (PostMessage t n x k) =
     (\<lambda>s. call_fun b api (k (fst (AgentAPI_PostMessage b api t n x (snd s))))
            (fst s, snd (AgentAPI_PostMessage b api t n x (snd s))))"
| "call_fun b api (GetMessageIterator n k) =
     (\<lambda>s. call_fun b api (k (fst (AgentAPI_GetMessageIterator api n (snd s))))
            (fst s, snd (AgentAPI_GetMessageIterator api n (snd s))))"
| "call_fun b api (IterNext n w k) =
     (\<lambda>s. call_fun b api (k (Wrapper_Next b (board_vector (snd s) n) w)) s)"
| "call_fun b api (IterRewind n w k) =
     (\<lambda>s. call_fun b api (k (Wrapper_Rewind b (board_vector (snd s) n) w)) s)"
| "call_fun b api (IterGetMessage n t w k) =
     (\<lambda>s. call_fun b api (k (fst (Wrapper_GetMessage b (board_vector (snd s) n) t w))) s)"

section \<open>Tasks\<close>

datatype mb_operation = OP_SYNC | OP_CLEAR

datatype io_operation = OP_INIT | OP_FIN | OP_OUTPUT

datatype task_type = AGENT_FUNCTION | IO_FUNCTION | MB_FUNCTION

text \<open>The fields of \<open>AgentTask\<close>; sub-tasks share their parent's function and shadow.\<close>

record 'v agent_part =
  at_agent :: string
  at_func :: "'v agent_fun"
  at_shadow :: agent_shadow
  at_is_split :: bool
  at_offset :: size_t
  at_count :: size_t

datatype 'v task_body =
    AgentTask "'v agent_part"
  | MessageBoardTask string mb_operation
  | IOTask string string io_operation

text \<open>
  \<open>tk_proxy\<close> is \<open>None\<close> while the handle is null. Task ids are positions in a vector;
  the largest \<open>size_t\<close> is the termination signal.
\<close>

record 'v task =
  tk_id :: nat
  tk_name :: string
  tk_proxy :: "mb_proxy option"
  tk_body :: "'v task_body"

definition GetTermTaskId :: nat where
  "GetTermTaskId = 2 ^ 64 - 1"

definition IsTermTask :: "nat \<Rightarrow> bool" where
  "IsTermTask task_id \<longleftrightarrow> task_id = GetTermTaskId"

fun body_type :: "'v task_body \<Rightarrow> task_type" where
  "body_type (AgentTask _) = AGENT_FUNCTION"
| "body_type (MessageBoardTask _ _) = MB_FUNCTION"
| "body_type (IOTask _ _ _) = IO_FUNCTION"

definition get_task_type :: "'v task \<Rightarrow> task_type" where
  "get_task_type tk = body_type (tk_body tk)"

text \<open>
  The constructors. The id of a new task is unspecified until the manager sets it; it is
  an argument. A null function pointer is \<open>None\<close>.
\<close>

definition AgentTask_new ::
    "nat \<Rightarrow> 'v memory_manager \<Rightarrow> string \<Rightarrow> string \<Rightarrow> 'v agent_fun option \<Rightarrow> exn + 'v task" where
  "AgentTask_new uninit mm task_name agent_name func =
     (if \<not> MemoryManager_IsRegisteredAgent mm agent_name then Inl (invalid_agent ''Invalid agent'')
      else
        (case func of
           None \<Rightarrow> Inl (invalid_argument ''NULL function provided'')
         | Some f \<Rightarrow>
             bindR (MemoryManager_GetAgentShadow mm agent_name) (\<lambda>sh.
               Inr \<lparr>tk_id = uninit, tk_name = task_name, tk_proxy = None,
                    tk_body = AgentTask \<lparr>at_agent = agent_name, at_func = f, at_shadow = sh,
                      at_is_split = False, at_offset = 0, at_count = 0\<rparr>\<rparr>)))"

definition AgentTask_split :: "'v task \<Rightarrow> 'v agent_part \<Rightarrow> size_t \<Rightarrow> size_t \<Rightarrow> 'v task" where
  "AgentTask_split parent ap offset cnt =
     \<lparr>tk_id = tk_id parent, tk_name = tk_name parent, tk_proxy = tk_proxy parent,
      tk_body = AgentTask \<lparr>at_agent = at_agent ap, at_func = at_func ap, at_shadow = at_shadow ap,
        at_is_split = True, at_offset = offset, at_count = cnt\<rparr>\<rparr>"

definition MessageBoardTask_new ::
    "nat \<Rightarrow> 'v board_manager \<Rightarrow> string \<Rightarrow> string \<Rightarrow> mb_operation \<Rightarrow> exn + 'v task" where
  "MessageBoardTask_new uninit bm task_name msg_name op =
     (if \<not> MessageBoardManager_BoardExists bm msg_name
      then Inl (invalid_argument ''Unknown message name'')
      else Inr \<lparr>tk_id = uninit, tk_name = task_name, tk_proxy = None,
                tk_body = MessageBoardTask msg_name op\<rparr>)"

definition IOTask_new ::
    "nat \<Rightarrow> 'v memory_manager \<Rightarrow> string \<Rightarrow> string \<Rightarrow> string \<Rightarrow> io_operation \<Rightarrow> exn + 'v task" where
  "IOTask_new uninit mm task_name agent_name var_name op =
     bindR (if op = OP_OUTPUT then MemoryManager_AssertVarRegistered mm agent_name var_name else Inr ())
       (\<lambda>_. Inr \<lparr>tk_id = uninit, tk_name = task_name, tk_proxy = None,
                 tk_body = IOTask agent_name var_name op\<rparr>)"

section \<open>Message board access\<close>

definition task_proxy :: "'v task \<Rightarrow> mb_proxy" where
  "task_proxy tk = (case tk_proxy tk of None \<Rightarrow> Proxy_new | Some px \<Rightarrow> px)"

definition Task_AllowMessageRead ::
    "build \<Rightarrow> 'v board_manager \<Rightarrow> string \<Rightarrow> ('v task, unit) exec" where
  "Task_AllowMessageRead b bm msg_name tk =
     (case Proxy_AllowRead b bm msg_name (task_proxy tk) of
        (r, px) \<Rightarrow> (r, tk\<lparr>tk_proxy := Some px\<rparr>))"

definition Task_AllowMessagePost ::
    "build \<Rightarrow> 'v board_manager \<Rightarrow> string \<Rightarrow> ('v task, unit) exec" where
  "Task_AllowMessagePost b bm msg_name tk =
     (case Proxy_AllowPost b bm msg_name (task_proxy tk) of
        (r, px) \<Rightarrow> (r, tk\<lparr>tk_proxy := Some px\<rparr>))"

definition Task_GetMessageBoardClient :: "'v task \<Rightarrow> ('v board_manager, mb_client) exec" where
  "Task_GetMessageBoardClient tk = Proxy_GetClient (task_proxy tk)"

text \<open>\<open>AllowAccess\<close> of an agent task changes its shadow; the other kinds refuse.\<close>

definition Task_AllowAccess ::
    "string \<Rightarrow> bool \<Rightarrow> ('v agent_memory \<times> 'v task, unit) exec" where
  "Task_AllowAccess var_name writeable = (\<lambda>(am, tk).
     case tk_body tk of
       AgentTask ap \<Rightarrow>
         (case AgentShadow_AllowAccess var_name writeable (am, at_shadow ap) of
            (r, am', sh) \<Rightarrow> (r, am', tk\<lparr>tk_body := AgentTask (ap\<lparr>at_shadow := sh\<rparr>)\<rparr>))
     | MessageBoardTask _ _ \<Rightarrow> (Inl (not_implemented ''method not applicable''), am, tk)
     | IOTask _ _ _ \<Rightarrow> (Inl (logic_error ''method not applicable''), am, tk))"

section \<open>Running an agent task\<close>

definition AgentTask_GetMemoryIterator ::
    "build \<Rightarrow> 'v agent_part \<Rightarrow> ('v agent_memory, mem_iterator) exec" where
  "AgentTask_GetMemoryIterator b ap =
     (if at_is_split ap then MemoryIterator_new_range b (at_shadow ap) (at_offset ap) (at_count ap)
      else MemoryIterator_new b (at_shadow ap))"

text \<open>
  The loop of \<open>Run\<close>. An API exception that leaves the function is replaced by a task
  exception; its text is the pending one's.
\<close>

function AgentTask_loop ::
    "build \<Rightarrow> string \<Rightarrow> 'v agent_part \<Rightarrow> mb_client \<Rightarrow> mem_iterator \<Rightarrow> ('v agent_state, mem_iterator) exec" where
  "AgentTask_loop b name ap cl m s =
     (if MemoryIterator_AtEnd m then (Inr m, s)
      else
        (case call_fun b \<lparr>api_mem = m, api_shadow = at_shadow ap, api_mb = cl\<rparr> (at_func ap) s of
           (Inl e, s') \<Rightarrow>
             (Inl (if is_api_exception e then flame_task_exception (at_agent ap) name e else e), s')
         | (Inr rc, s') \<Rightarrow>
             (case MemoryIterator_Step b (fst s') (at_shadow ap) m of
                (Inl e, m') \<Rightarrow> (Inl e, s')
              | (Inr _, m') \<Rightarrow> AgentTask_loop b name ap cl m' s')))"
  by pat_completeness auto

lemma Step_distance:
  assumes "MemoryIterator_Step b am sh m = (Inr r, m')" "\<not> MemoryIterator_AtEnd m"
  shows "unat (mi_count m' - mi_position m') < unat (mi_count m - mi_position m)"
proof -
  have m': "mi_count m' = mi_count m" "mi_position m' = mi_position m + 1"
    using assms by (auto simp: MemoryIterator_Step_def split: prod.splits sum.splits)
  have "mi_count m - mi_position m \<noteq> 0" using assms(2) by (auto simp: MemoryIterator_AtEnd_def)
  then have "unat (mi_count m - mi_position m - 1) < unat (mi_count m - mi_position m)"
    by (metis measure_unat)
  then show ?thesis by (simp add: m' diff_diff_eq)
qed

termination AgentTask_loop
  by (relation "measure (\<lambda>(b, name, ap, cl, m, s). unat (mi_count m - mi_position m))")
    (auto dest: Step_distance [OF sym])

declare AgentTask_loop.simps [simp del]

definition AgentTask_Run ::
    "build \<Rightarrow> 'v task \<Rightarrow> 'v agent_part \<Rightarrow> ('v agent_state, unit) exec" where
  "AgentTask_Run b tk ap = (\<lambda>(am, bm).
     case AgentTask_GetMemoryIterator b ap am of
       (Inl e, am') \<Rightarrow> (Inl e, am', bm)
     | (Inr m, am') \<Rightarrow>
         (case Task_GetMessageBoardClient tk bm of
            (Inl e, bm') \<Rightarrow> (Inl e, am', bm')
          | (Inr cl, bm') \<Rightarrow>
              (case AgentTask_loop b (tk_name tk) ap cl m (am', bm') of
                 (Inl e, s) \<Rightarrow> (Inl e, s)
               | (Inr _, s) \<Rightarrow> (Inr (), s))))"

section \<open>Running any task\<close>

text \<open>
  The state the tasks share, and the three operations of the population reader and writer
  (\<open>io::IOXMLPop\<close>, built on libxml2) that I/O tasks call, as arguments.
\<close>

record 'v world =
  w_mem :: "'v memory_manager"
  w_mb :: "'v board_manager"
  w_iteration :: size_t

record 'v io_backend =
  io_writePop :: "size_t \<Rightarrow> string \<Rightarrow> string \<Rightarrow> ('v memory_manager, unit) exec"
  io_initialiseData :: "size_t \<Rightarrow> ('v memory_manager, unit) exec"
  io_finaliseData :: "size_t \<Rightarrow> ('v memory_manager, unit) exec"

definition MessageBoardTask_Run :: "string \<Rightarrow> mb_operation \<Rightarrow> ('v board_manager, unit) exec" where
  "MessageBoardTask_Run msg_name op =
     (case op of
        OP_SYNC \<Rightarrow> MessageBoardManager_Sync msg_name
      | OP_CLEAR \<Rightarrow> MessageBoardManager_Clear msg_name)"

definition IOTask_Run ::
    "'v io_backend \<Rightarrow> size_t \<Rightarrow> string \<Rightarrow> string \<Rightarrow> io_operation \<Rightarrow> ('v memory_manager, unit) exec" where
  "IOTask_Run io iteration agent_name var_name op =
     (case op of
        OP_OUTPUT \<Rightarrow> io_writePop io iteration agent_name var_name
      | OP_INIT \<Rightarrow> io_initialiseData io iteration
      | OP_FIN \<Rightarrow> io_finaliseData io iteration)"

definition Task_Run :: "build \<Rightarrow> 'v io_backend \<Rightarrow> 'v task \<Rightarrow> ('v world, unit) exec" where
  "Task_Run b io tk w =
     (case tk_body tk of
        AgentTask ap \<Rightarrow>
          (case map_of (agent_map (w_mem w)) (sh_agent (at_shadow ap)) of
             None \<Rightarrow> (Inl (UB ''dangling agent memory''), w)
           | Some am \<Rightarrow>
               (case AgentTask_Run b tk ap (am, w_mb w) of
                  (r, am', bm) \<Rightarrow>
                    (r, \<lparr>w_mem = (w_mem w)\<lparr>agent_map :=
                           omap_put (sh_agent (at_shadow ap)) am' (agent_map (w_mem w))\<rparr>, w_mb = bm,
                         w_iteration = w_iteration w\<rparr>)))
      | MessageBoardTask msg_name op \<Rightarrow>
          (case MessageBoardTask_Run msg_name op (w_mb w) of (r, bm) \<Rightarrow> (r, w\<lparr>w_mb := bm\<rparr>))
      | IOTask agent_name var_name op \<Rightarrow>
          (case IOTask_Run io (w_iteration w) agent_name var_name op (w_mem w) of (r, mm) \<Rightarrow> (r, w\<lparr>w_mem := mm\<rparr>)))"

section \<open>Task splitter\<close>

record 'v task_splitter =
  ts_id :: nat
  ts_pending :: size_t
  ts_running :: size_t
  ts_next :: size_t
  ts_tasks :: "'v task list"

definition TaskSplitter_new :: "nat \<Rightarrow> 'v task list \<Rightarrow> 'v task_splitter" where
  "TaskSplitter_new task_id tasks =
     \<lparr>ts_id = task_id, ts_pending = of_nat (length tasks), ts_running = 0, ts_next = 0, ts_tasks = tasks\<rparr>"

definition TaskSplitter_IsComplete :: "'v task_splitter \<Rightarrow> bool" where
  "TaskSplitter_IsComplete ts \<longleftrightarrow> ts_running ts = 0 \<and> ts_pending ts = 0"

definition TaskSplitter_NonePending :: "'v task_splitter \<Rightarrow> bool" where
  "TaskSplitter_NonePending ts \<longleftrightarrow> ts_pending ts = 0"

definition TaskSplitter_OneTaskDone :: "build \<Rightarrow> ('v task_splitter, bool) exec" where
  "TaskSplitter_OneTaskDone b ts =
     (if b = Debug \<and> ts_running ts < 1 then (Inl (flame_exception ''None running''), ts)
      else
        (let ts' = ts\<lparr>ts_running := ts_running ts - 1\<rparr> in (Inr (TaskSplitter_IsComplete ts'), ts')))"

definition TaskSplitter_OneTaskAssigned :: "build \<Rightarrow> ('v task_splitter, bool) exec" where
  "TaskSplitter_OneTaskAssigned b ts =
     (if b = Debug \<and> ts_pending ts < 1 then (Inl (flame_exception ''None pending''), ts)
      else
        (let ts' = ts\<lparr>ts_pending := ts_pending ts - 1, ts_running := ts_running ts + 1\<rparr>
         in (Inr (TaskSplitter_NonePending ts'), ts')))"

definition TaskSplitter_GetTask :: "build \<Rightarrow> ('v task_splitter, 'v task) exec" where
  "TaskSplitter_GetTask b ts =
     (if unat (ts_next ts) \<ge> length (ts_tasks ts) then
        (case b of Debug \<Rightarrow> (Inl (flame_exception ''All taken''), ts)
                 | Production \<Rightarrow> (Inl (UB ''index past the end''), ts\<lparr>ts_next := ts_next ts + 1\<rparr>))
      else (Inr (ts_tasks ts ! unat (ts_next ts)), ts\<lparr>ts_next := ts_next ts + 1\<rparr>))"

definition TaskSplitter_GetNumTasks :: "'v task_splitter \<Rightarrow> size_t" where
  "TaskSplitter_GetNumTasks ts = of_nat (length (ts_tasks ts))"

section \<open>Splitting a task\<close>

text \<open>The loop that builds the sub-tasks.\<close>

function SplitTask_loop ::
    "'v task \<Rightarrow> 'v agent_part \<Rightarrow> size_t \<Rightarrow> size_t \<Rightarrow> size_t \<Rightarrow> size_t \<Rightarrow> size_t \<Rightarrow> 'v task list" where
  "SplitTask_loop tk ap num_splits size_per_task remainder i offset =
     (if i < num_splits then
        (let s = (if i < remainder then 1 else 0) + size_per_task
         in AgentTask_split tk ap offset s #
            SplitTask_loop tk ap num_splits size_per_task remainder (i + 1) (offset + s))
      else [])"
  by pat_completeness auto

lemma size_t_next_less: "(i :: size_t) < n \<Longrightarrow> unat (i + 1) = Suc (unat i)"
proof -
  assume "i < n"
  then have "unat i < unat n" by (simp add: word_less_nat_alt)
  then have "unat i + unat (1 :: size_t) < 18446744073709551616"
    using size_t_bound [of n] by simp
  then show ?thesis using unat_plus_size_t [of i 1] by simp
qed

termination SplitTask_loop
proof (relation "measure (\<lambda>(tk, ap, n, q, r, i, offset). unat n - unat i)", goal_cases)
  case 1
  then show ?case by simp
next
  case (2 tk ap n q r i offset s)
  then show ?case using size_t_next_less [of i n] by (simp add: word_less_nat_alt)
qed

declare SplitTask_loop.simps [simp del]

text \<open>
  \<open>SplitTask\<close>: a null handle is \<open>None\<close>. Sums and products are those of
  \<open>size_t\<close>; the division is guarded because a product that wraps can make the number
  of sub-tasks zero.
\<close>

definition AgentTask_SplitTask ::
    "build \<Rightarrow> 'v task \<Rightarrow> 'v agent_part \<Rightarrow> size_t \<Rightarrow> size_t \<Rightarrow>
      ('v agent_memory, 'v task_splitter option) exec" where
  "AgentTask_SplitTask b tk ap max_tasks min_task_size am =
     (if max_tasks < 2 then (Inr None, am)
      else
        (case (if at_is_split ap then (Inr (at_count ap), am) else AgentShadow_get_size b am) of
           (Inl e, am') \<Rightarrow> (Inl e, am')
         | (Inr population, am') \<Rightarrow>
             let offset = (if at_is_split ap then at_offset ap else 0) in
             if population < min_task_size * 2 then (Inr None, am')
             else
               (let num_splits = (if population \<ge> min_task_size * max_tasks then max_tasks
                                  else population div min_task_size)
                in if num_splits = 0 then (Inl (UB ''division by zero''), am')
                   else
                     (Inr (Some (TaskSplitter_new (tk_id tk)
                        (SplitTask_loop tk ap num_splits (population div num_splits)
                           (population mod num_splits) 0 offset))), am'))))"

definition Task_SplitTask ::
    "build \<Rightarrow> 'v task \<Rightarrow> size_t \<Rightarrow> size_t \<Rightarrow> ('v memory_manager, 'v task_splitter option) exec" where
  "Task_SplitTask b tk max_tasks min_task_size mm =
     (case tk_body tk of
        AgentTask ap \<Rightarrow>
          (case map_of (agent_map mm) (sh_agent (at_shadow ap)) of
             None \<Rightarrow> (Inl (UB ''dangling agent memory''), mm)
           | Some am \<Rightarrow>
               (case AgentTask_SplitTask b tk ap max_tasks min_task_size am of
                  (r, am') \<Rightarrow>
                    (r, mm\<lparr>agent_map := omap_put (sh_agent (at_shadow ap)) am' (agent_map mm)\<rparr>)))
      | MessageBoardTask _ _ \<Rightarrow> (Inl (not_implemented ''method not applicable''), mm)
      | IOTask _ _ _ \<Rightarrow> (Inl (not_implemented ''method not applicable''), mm))"

end
