(* ===== verification/Agent_Runs.thy ===== *)
theory Agent_Runs
  imports Tasks
begin

text \<open>
  What running an agent task does, for every transition function: the loop calls the
  function once for each agent of the task's slice, in order; the memory changes at most in
  those agents and in the variables the task may write; messages go to the task's own
  writers and stay invisible.
\<close>

section \<open>Frames\<close>

text \<open>
  \<open>am_frame A V\<close>: same variables with the same types and sizes, and equal values except
  for agents of \<open>A\<close> in variables of \<open>V\<close>.
\<close>

definition vw_keeps :: "nat set \<Rightarrow> 'v vector_wrapper \<Rightarrow> 'v vector_wrapper \<Rightarrow> bool" where
  "vw_keeps A w w' \<longleftrightarrow> vw_type w' = vw_type w \<and> length (vw_data w') = length (vw_data w) \<and>
     (\<forall>i < length (vw_data w). i \<notin> A \<longrightarrow> vw_data w' ! i = vw_data w ! i)"

definition am_frame :: "nat set \<Rightarrow> string set \<Rightarrow> 'v agent_memory \<Rightarrow> 'v agent_memory \<Rightarrow> bool" where
  "am_frame A V am am' \<longleftrightarrow>
     (\<forall>v. rel_option (vw_keeps (if v \<in> V then A else {})) (map_of (mem_map am) v) (map_of (mem_map am') v))"

lemma vw_keeps_refl [simp]: "vw_keeps A w w"
  by (simp add: vw_keeps_def)

lemma vw_keeps_trans: "vw_keeps A a b \<Longrightarrow> vw_keeps A b c \<Longrightarrow> vw_keeps A a c"
  by (simp add: vw_keeps_def)

lemma vw_keeps_mono: "vw_keeps A a b \<Longrightarrow> A \<subseteq> A' \<Longrightarrow> vw_keeps A' a b"
  by (auto simp: vw_keeps_def)

lemma am_frame_map: "mem_map am' = mem_map am \<Longrightarrow> am_frame A V am am'"
  by (simp add: am_frame_def option.rel_refl)

lemma am_frame_refl [simp]: "am_frame A V am am"
  by (rule am_frame_map) simp

lemma am_frame_trans:
  assumes "am_frame A V a b" "am_frame A V b c" shows "am_frame A V a c"
  unfolding am_frame_def
proof
  fix v
  let ?K = "vw_keeps (if v \<in> V then A else {})"
  have "rel_option ?K (map_of (mem_map a) v) (map_of (mem_map b) v)"
    "rel_option ?K (map_of (mem_map b) v) (map_of (mem_map c) v)"
    using assms by (simp_all add: am_frame_def)
  then show "rel_option ?K (map_of (mem_map a) v) (map_of (mem_map c) v)"
    by (auto elim!: option.rel_cases intro: vw_keeps_trans)
qed

lemma am_frame_mono:
  assumes "am_frame A V a b" "A \<subseteq> A'" "V \<subseteq> V'" shows "am_frame A' V' a b"
  unfolding am_frame_def
proof
  fix v
  have "rel_option (vw_keeps (if v \<in> V then A else {})) (map_of (mem_map a) v) (map_of (mem_map b) v)"
    using assms(1) by (simp add: am_frame_def)
  moreover have "(if v \<in> V then A else {}) \<subseteq> (if v \<in> V' then A' else {})" using assms(2,3) by auto
  ultimately show "rel_option (vw_keeps (if v \<in> V' then A' else {}))
      (map_of (mem_map a) v) (map_of (mem_map b) v)"
    by (auto elim!: option.rel_cases intro: vw_keeps_mono)
qed

lemma am_frame_schema:
  assumes "am_frame A V am am'" shows "am_schema am' v = am_schema am v"
proof -
  have "rel_option (vw_keeps (if v \<in> V then A else {})) (map_of (mem_map am) v) (map_of (mem_map am') v)"
    using assms by (simp add: am_frame_def)
  then show ?thesis by (auto simp: am_schema_def vw_keeps_def elim!: option.rel_cases)
qed

lemma am_frame_modify:
  "am_frame {i} {v} am (AgentMemory_modify v (\<lambda>w. w\<lparr>vw_data := (vw_data w)[i := x]\<rparr>) am)"
  by (auto simp: am_frame_def vw_keeps_def option.rel_refl rel_option_iff split: option.splits)

text \<open>The value of a variable of an agent outside the frame is the old one.\<close>

lemma am_frame_value:
  assumes "am_frame A V am am'" "map_of (mem_map am) v = Some w" "i \<notin> A \<or> v \<notin> V"
    "i < length (vw_data w)"
  shows "\<exists>w'. map_of (mem_map am') v = Some w' \<and> vw_type w' = vw_type w \<and>
    length (vw_data w') = length (vw_data w) \<and> vw_data w' ! i = vw_data w ! i"
proof -
  have "rel_option (vw_keeps (if v \<in> V then A else {})) (map_of (mem_map am) v) (map_of (mem_map am') v)"
    using assms(1) by (simp add: am_frame_def)
  with assms(2-4) show ?thesis by (auto simp: vw_keeps_def elim!: option.rel_cases split: if_splits)
qed

text \<open>
  A write through an iterator changes at most the agent under the cursor, in either build.
\<close>

lemma Set_frame:
  assumes inv: "mi_inv am sh n it" and i: "mi_agent it < n"
  shows "mi_inv (snd (MemoryIterator_Set b sh it t v x am)) sh n it \<and>
    am_frame {mi_agent it} (set (rw_set sh)) am (snd (MemoryIterator_Set b sh it t v x am))"
proof (cases "v \<in> set (rw_set sh)")
  case False
  then show ?thesis using inv by (simp add: Set_denied)
next
  case True
  let ?m = "AgentMemory_modify v (\<lambda>w. w\<lparr>vw_data := (vw_data w)[mi_agent it := x]\<rparr>) am"
  have "v \<in> set (vec_map sh)" using True inv by (auto simp: mi_inv_def shadow_ok_def)
  then have "map_of (ptr_map it) v = Some (Some (mi_agent it))"
    using mi_inv_ptr [OF inv, of v] i by (simp add: cursor_def)
  then have "MemoryIterator_GetWritePtr b am sh it t v = Inr (Some (mi_agent it)) \<or>
      (\<exists>e. MemoryIterator_GetWritePtr b am sh it t v = Inl e)"
    by (simp add: MemoryIterator_GetWritePtr_def)
  then have "snd (MemoryIterator_Set b sh it t v x am) = am \<or>
      snd (MemoryIterator_Set b sh it t v x am) = ?m"
    by (cases "am_element am t v (mi_agent it)") (auto simp: MemoryIterator_Set_def)
  moreover have "mi_inv ?m sh n it" by (rule modify_mi_inv [OF inv]) simp
  moreover have "am_frame {mi_agent it} (set (rw_set sh)) am ?m"
    by (rule am_frame_mono [OF am_frame_modify]) (simp_all add: True)
  ultimately show ?thesis using inv by auto
qed

text \<open>
  \<open>bm_frame W\<close>: same boards with the same messages and writers; only writers with an
  address of \<open>W\<close> may have got messages, and nothing was disconnected.
\<close>

definition bm_frame :: "nat set \<Rightarrow> 'v board_manager \<Rightarrow> 'v board_manager \<Rightarrow> bool" where
  "bm_frame W bm bm' \<longleftrightarrow> bm_map bm' = bm_map bm \<and> length (bm_store bm') = length (bm_store bm) \<and>
     (\<forall>a < length (bm_store bm).
        bw_connected (bm_store bm' ! a) = bw_connected (bm_store bm ! a) \<and>
        (a \<notin> W \<longrightarrow> bm_store bm' ! a = bm_store bm ! a))"

lemma bm_frame_refl [simp]: "bm_frame W bm bm"
  by (simp add: bm_frame_def)

lemma bm_frame_trans: "bm_frame W a b \<Longrightarrow> bm_frame W b c \<Longrightarrow> bm_frame W a c"
  by (simp add: bm_frame_def)

lemma post_frame:
  "a \<in> W \<Longrightarrow> bm_frame W bm (bm\<lparr>bm_store := snd (post_to b t a m (bm_store bm))\<rparr>)"
  using post_to_store [of b t a m "bm_store bm"]
  by (cases "post_to b t a m (bm_store bm)") (auto simp: bm_frame_def)

section \<open>One call of a transition function\<close>

abbreviation client_writers :: "mb_client \<Rightarrow> nat set" where
  "client_writers cl \<equiv> ran (map_of (cl_writers cl))"

lemma PostMessage_frame:
  assumes "bm_ok bm"
  shows "bm_ok (snd (AgentAPI_PostMessage b api t n x bm)) \<and>
    bm_frame (client_writers (api_mb api)) bm (snd (AgentAPI_PostMessage b api t n x bm))"
proof (cases "Client_GetBoardWriter (api_mb api) bm n")
  case (Inl e)
  with assms show ?thesis by (simp add: AgentAPI_PostMessage_def)
next
  case (Inr a)
  then have "a \<in> client_writers (api_mb api)"
    by (auto simp: Client_GetBoardWriter_def ran_def split: option.splits if_splits)
  moreover have "snd (AgentAPI_PostMessage b api t n x bm) =
      bm\<lparr>bm_store := snd (post_to b t a x (bm_store bm))\<rparr>"
    using Inr by (simp add: AgentAPI_PostMessage_def case_prod_unfold)
  ultimately show ?thesis using post_frame bm_ok_Post [OF assms] by metis
qed

lemma GetMessages_same:
  assumes "bm_ok bm" shows "snd (MessageBoardManager_GetMessages n bm) = bm"
  using assms omap_put_same [of "bm_map bm" n]
  by (auto simp: MessageBoardManager_GetMessages_def GetMessageBoard_def bm_ok_def split: option.splits)

lemma GetMessageIterator_same:
  assumes "bm_ok bm" shows "snd (AgentAPI_GetMessageIterator api n bm) = bm"
  using GetMessages_same [OF assms, of n]
  by (auto simp: GetMessageIterator_eq split: prod.splits sum.splits)

lemma call_fun_frame:
  assumes "mi_inv am (api_shadow api) n (api_mem api)" "mi_agent (api_mem api) < n" "bm_ok bm"
  shows "case call_fun b api f (am, bm) of (r, am', bm') \<Rightarrow>
    mi_inv am' (api_shadow api) n (api_mem api) \<and>
    am_frame {mi_agent (api_mem api)} (set (rw_set (api_shadow api))) am am' \<and>
    bm_ok bm' \<and> bm_frame (client_writers (api_mb api)) bm bm'"
  using assms
proof (induction f arbitrary: am bm)
  case (SetMem t v x k)
  obtain r am1 where s: "MemoryIterator_Set b (api_shadow api) (api_mem api) t v x am = (r, am1)"
    by (cases "MemoryIterator_Set b (api_shadow api) (api_mem api) t v x am")
  note fr = Set_frame [OF SetMem.prems(1,2), of b t v x]
  let ?r = "translate (catch_mem ''SetMem'' msg_set_type ''write'' v) r"
  have "call_fun b api (SetMem t v x k) (am, bm) = call_fun b api (k ?r) (am1, bm)"
    using s by (simp add: AgentAPI_SetMem_def)
  with SetMem.IH [of "k ?r" am1 bm] fr s SetMem.prems show ?case
    by (auto intro: am_frame_trans)
next
  case (PostMessage t n' x k)
  note fr = PostMessage_frame [OF PostMessage.prems(3), of b api t n' x]
  let ?p = "AgentAPI_PostMessage b api t n' x bm"
  from PostMessage.IH [of "k (fst ?p)" am "snd ?p"] fr PostMessage.prems show ?case
    by (auto intro: bm_frame_trans)
next
  case (GetMessageIterator n' k)
  then show ?case using GetMessageIterator_same [OF GetMessageIterator.prems(3), of api n'] by simp
qed simp_all

section \<open>The loop over the slice\<close>

text \<open>The iterator of a slice of a population of \<open>n\<close> agents when it stands at position \<open>p\<close>.\<close>

definition iter_at :: "agent_shadow \<Rightarrow> nat \<Rightarrow> size_t \<Rightarrow> size_t \<Rightarrow> nat \<Rightarrow> mem_iterator" where
  "iter_at sh n off cnt p =
     \<lparr>mi_position = of_nat p, mi_size = of_nat n, mi_offset = off, mi_count = cnt,
      ptr_map = map (\<lambda>v. (v, cursor n (unat off + p))) (vec_map sh)\<rparr>"

lemma mi_inv_iter_at: "mi_inv am sh n it \<Longrightarrow>
    it = iter_at sh n (mi_offset it) (mi_count it) (unat (mi_position it))"
  by (cases it) (simp add: mi_inv_def iter_at_def)

text \<open>The transition function on one agent of the slice, as \<open>Run\<close> calls it.\<close>

definition run_agent ::
    "build \<Rightarrow> string \<Rightarrow> 'v agent_part \<Rightarrow> mb_client \<Rightarrow> nat \<Rightarrow> size_t \<Rightarrow> size_t \<Rightarrow> nat \<Rightarrow>
      ('v agent_state, unit) exec" where
  "run_agent b name ap cl n off cnt p s =
     (case call_fun b \<lparr>api_mem = iter_at (at_shadow ap) n off cnt p, api_shadow = at_shadow ap,
              api_mb = cl\<rparr> (at_func ap) s of
        (Inl e, s') \<Rightarrow>
          (Inl (if is_api_exception e then flame_task_exception (at_agent ap) name e else e), s')
      | (Inr _, s') \<Rightarrow> (Inr (), s'))"

lemma AgentTask_loop_eq:
  assumes "mi_inv (fst s) (at_shadow ap) n m" "bm_ok (snd s)"
  shows "(case AgentTask_loop b name ap cl m s of (Inl e, s') \<Rightarrow> (Inl e, s') | (Inr _, s') \<Rightarrow> (Inr (), s')) =
    forE (run_agent b name ap cl n (mi_offset m) (mi_count m))
      [unat (mi_position m)..<unat (mi_count m)] s"
  using assms
proof (induction "unat (mi_count m) - unat (mi_position m)" arbitrary: m s)
  case 0
  then have "unat (mi_position m) = unat (mi_count m)" by (simp add: mi_inv_def)
  then have "MemoryIterator_AtEnd m" by (simp add: MemoryIterator_AtEnd_def word_unat_eq_iff)
  with 0 show ?case by (simp add: AgentTask_loop.simps returnE_apply)
next
  case (Suc d)
  let ?p = "unat (mi_position m)" and ?c = "unat (mi_count m)" and ?sh = "at_shadow ap"
  have less: "?p < ?c" using Suc.hyps(2) by simp
  then have ne: "\<not> MemoryIterator_AtEnd m" by (auto simp: MemoryIterator_AtEnd_def)
  have agent: "mi_agent m < n" using Suc.prems(1) less by (simp add: mi_inv_def)
  let ?api = "\<lparr>api_mem = m, api_shadow = ?sh, api_mb = cl\<rparr>"
  have it: "iter_at ?sh n (mi_offset m) (mi_count m) ?p = m"
    using mi_inv_iter_at [OF Suc.prems(1)] by simp
  have upt: "[?p..<?c] = ?p # [Suc ?p..<?c]" using less by (rule upt_conv_Cons)
  obtain r s' where call: "call_fun b ?api (at_func ap) s = (r, s')"
    by (cases "call_fun b ?api (at_func ap) s")
  from call_fun_frame [of "fst s" ?api n "snd s" b "at_func ap"] Suc.prems agent call
  have s': "mi_inv (fst s') ?sh n m" "bm_ok (snd s')" by (auto split: prod.splits)
  from Step_inv [OF s'(1) ne, of b] obtain m' where m':
    "MemoryIterator_Step b (fst s') ?sh m = (Inr True, m')" "mi_inv (fst s') ?sh n m'"
    "unat (mi_position m') = Suc ?p" "mi_offset m' = mi_offset m" "mi_count m' = mi_count m" by blast
  show ?case
  proof (cases r)
    case (Inl e)
    with call ne it show ?thesis
      by (subst AgentTask_loop.simps) (simp add: upt run_agent_def bindE_def)
  next
    case (Inr rc)
    with call ne m' have "AgentTask_loop b name ap cl m s = AgentTask_loop b name ap cl m' s'"
      by (subst AgentTask_loop.simps) simp
    moreover have "run_agent b name ap cl n (mi_offset m) (mi_count m) ?p s = (Inr (), s')"
      using Inr call it by (simp add: run_agent_def)
    ultimately show ?thesis
      using Suc.hyps(1) [of m' s'] Suc.hyps(2) m' s' by (simp add: upt bindE_def)
  qed
qed

section \<open>A whole run\<close>

text \<open>The slice of an agent task over a population of \<open>n\<close> agents, and when it is valid.\<close>

definition run_slice :: "'v agent_part \<Rightarrow> nat \<Rightarrow> size_t \<times> size_t" where
  "run_slice ap n = (if at_is_split ap then (at_offset ap, at_count ap) else (0, of_nat n))"

definition slice_ok :: "'v agent_part \<Rightarrow> nat \<Rightarrow> bool" where
  "slice_ok ap n \<longleftrightarrow>
     (at_is_split ap \<longrightarrow> unat (at_offset ap) + unat (at_count ap) \<le> n \<and> at_count ap \<noteq> 0)"

lemma GetMemoryIterator_inv:
  assumes "am_uniform am n" "shadow_ok am (at_shadow ap)" "slice_ok ap n"
  shows "\<exists>m am'. AgentTask_GetMemoryIterator b ap am = (Inr m, am') \<and> mi_inv am' (at_shadow ap) n m \<and>
    mi_position m = 0 \<and> (mi_offset m, mi_count m) = run_slice ap n \<and> mem_map am' = mem_map am"
  using assms new_inv [OF assms(1,2), of b] new_range_inv [OF assms(1,2), of "at_offset ap" "at_count ap" b]
  by (cases "at_is_split ap") (auto simp: AgentTask_GetMemoryIterator_def run_slice_def slice_ok_def)

lemma AgentTask_Run_eq:
  assumes am: "am_uniform am n" "shadow_ok am (at_shadow ap)" "slice_ok ap n"
    and bm: "bm_ok bm" and cl: "Task_GetMessageBoardClient tk bm = (Inr cl, bm')" "bm_ok bm'"
    and sl: "run_slice ap n = (off, cnt)"
  shows "\<exists>am'. mem_map am' = mem_map am \<and>
    AgentTask_Run b tk ap (am, bm) =
      forE (run_agent b (tk_name tk) ap cl n off cnt) [0..<unat cnt] (am', bm')"
proof -
  obtain m am' where m: "AgentTask_GetMemoryIterator b ap am = (Inr m, am')"
    "mi_inv am' (at_shadow ap) n m" "mi_position m = 0" "mi_offset m = off" "mi_count m = cnt"
    "mem_map am' = mem_map am"
    using GetMemoryIterator_inv [OF am, of b] sl by auto
  have "AgentTask_Run b tk ap (am, bm) =
      (case AgentTask_loop b (tk_name tk) ap cl m (am', bm') of
         (Inl e, s) \<Rightarrow> (Inl e, s) | (Inr _, s) \<Rightarrow> (Inr (), s))"
    using m(1) cl by (simp add: AgentTask_Run_def)
  also have "\<dots> = forE (run_agent b (tk_name tk) ap cl n off cnt) [0..<unat cnt] (am', bm')"
    using AgentTask_loop_eq [of "(am', bm')" ap n m] m cl(2) by simp
  finally show ?thesis using m(6) by blast
qed

text \<open>What the loop may change.\<close>

lemma run_agent_frame:
  assumes "am_uniform am n" "shadow_ok am (at_shadow ap)" "bm_ok bm"
    and "unat off + unat cnt \<le> n" "p < unat cnt"
  shows "case run_agent b name ap cl n off cnt p (am, bm) of (r, am', bm') \<Rightarrow>
    am_uniform am' n \<and> shadow_ok am' (at_shadow ap) \<and>
    am_frame {unat off + p} (set (rw_set (at_shadow ap))) am am' \<and>
    bm_ok bm' \<and> bm_frame (client_writers cl) bm bm'"
proof -
  let ?it = "iter_at (at_shadow ap) n off cnt p"
  have p: "unat (of_nat p :: size_t) = p"
    using assms(5) size_t_bound [of cnt] by (intro unat_size_t) simp
  then have inv: "mi_inv am (at_shadow ap) n ?it" "mi_agent ?it = unat off + p"
    using assms by (simp_all add: mi_inv_def iter_at_def)
  then have "mi_agent ?it < n" using assms(4,5) by simp
  from call_fun_frame [of am "\<lparr>api_mem = ?it, api_shadow = at_shadow ap, api_mb = cl\<rparr>" n bm b "at_func ap"]
    inv this assms(3)
  show ?thesis by (auto simp: run_agent_def mi_inv_def split: prod.splits sum.splits)
qed

lemma run_agents_frame:
  assumes "am_uniform am n" "shadow_ok am (at_shadow ap)" "bm_ok bm" "unat off + unat cnt \<le> n"
  shows "case forE (run_agent b name ap cl n off cnt) [0..<unat cnt] (am, bm) of (r, am', bm') \<Rightarrow>
    am_uniform am' n \<and> shadow_ok am' (at_shadow ap) \<and>
    am_frame {unat off..<unat off + unat cnt} (set (rw_set (at_shadow ap))) am am' \<and>
    bm_ok bm' \<and> bm_frame (client_writers cl) bm bm'"
proof -
  let ?P = "\<lambda>(am', bm'). am_uniform am' n \<and> shadow_ok am' (at_shadow ap) \<and>
    am_frame {unat off..<unat off + unat cnt} (set (rw_set (at_shadow ap))) am am' \<and>
    bm_ok bm' \<and> bm_frame (client_writers cl) bm bm'"
  have "?P (snd (forE (run_agent b name ap cl n off cnt) [0..<unat cnt] (am, bm)))"
  proof (rule forE_invariant)
    show "?P (am, bm)" using assms by simp
  next
    fix p s assume p: "p \<in> set [0..<unat cnt]" and s: "?P s"
    obtain am1 bm1 where s1: "s = (am1, bm1)" by (cases s)
    obtain r am2 bm2 where r: "run_agent b name ap cl n off cnt p s = (r, am2, bm2)"
      by (cases "run_agent b name ap cl n off cnt p s") auto
    have fr: "am_uniform am2 n" "shadow_ok am2 (at_shadow ap)"
      "am_frame {unat off + p} (set (rw_set (at_shadow ap))) am1 am2"
      "bm_ok bm2" "bm_frame (client_writers cl) bm1 bm2"
      using run_agent_frame [of am1 n ap bm1 off cnt p cl b name] s s1 p r assms(4) by auto
    have "am_frame {unat off..<unat off + unat cnt} (set (rw_set (at_shadow ap))) am1 am2"
      by (rule am_frame_mono [OF fr(3)]) (use p in auto)
    with fr s s1 r show "?P (snd (run_agent b name ap cl n off cnt p s))"
      by (auto intro: am_frame_trans bm_frame_trans)
  qed
  then show ?thesis by (auto split: prod.splits)
qed

text \<open>Opening a client only adds writers.\<close>

lemma Client_open_visible: "bm_visible (snd (Client_open ns ws bm)) n = bm_visible bm n"
proof (induction ns arbitrary: ws bm)
  case Nil
  then show ?case by (simp add: returnE_apply)
next
  case (Cons k ns)
  obtain r bm1 where g: "MessageBoardManager_GetBoardWriter k bm = (r, bm1)"
    by (cases "MessageBoardManager_GetBoardWriter k bm")
  have "bm_visible bm1 n = bm_visible bm n" using GetBoardWriter_visible [of k bm n] g by simp
  with Cons g show ?case by (cases r) (simp_all add: bindE_def)
qed

lemma Client_new_visible: "bm_visible (snd (Client_new rd post bm)) n = bm_visible bm n"
  using Client_open_visible [of post "[]" bm n]
  by (cases "Client_open post [] bm"; cases "fst (Client_open post [] bm)")
    (auto simp: Client_new_def bindE_def returnE_apply split: sum.splits)

lemma bm_frame_visible: "bm_frame W bm bm' \<Longrightarrow> bm_visible bm' n = bm_visible bm n"
  by (simp add: bm_frame_def bm_visible_def)

lemma GetMessageBoardClient_ok:
  assumes "bm_ok bm" "set (acl_post (task_proxy tk)) \<subseteq> fst ` set (bm_map bm)"
  shows "\<exists>cl bm'. Task_GetMessageBoardClient tk bm = (Inr cl, bm') \<and> bm_ok bm' \<and>
    (\<forall>n. bm_visible bm' n = bm_visible bm n)"
proof -
  obtain cl bm' where c: "Client_new (acl_read (task_proxy tk)) (acl_post (task_proxy tk)) bm = (Inr cl, bm')"
    "bm_ok bm'" using Client_new_ok [OF assms, of "acl_read (task_proxy tk)"] by blast
  then show ?thesis
    using Client_new_visible [of "acl_read (task_proxy tk)" "acl_post (task_proxy tk)" bm]
    by (simp add: Task_GetMessageBoardClient_def Proxy_GetClient_def)
qed

lemma run_slice_fits:
  assumes "am_uniform am n" "slice_ok ap n" "run_slice ap n = (off, cnt)"
  shows "unat off + unat cnt \<le> n"
proof (cases "at_is_split ap")
  case False
  have "unat (of_nat n :: size_t) = n" using assms(1) by (intro unat_size_t) (simp add: am_uniform_def)
  then show ?thesis using False assms(3) by (auto simp: run_slice_def)
qed (use assms in \<open>auto simp: run_slice_def slice_ok_def\<close>)

text \<open>What a run may change.\<close>

lemma AgentTask_Run_frame:
  assumes am: "am_uniform am n" "shadow_ok am (at_shadow ap)" "slice_ok ap n"
    and bm: "bm_ok bm" "set (acl_post (task_proxy tk)) \<subseteq> fst ` set (bm_map bm)"
    and sl: "run_slice ap n = (off, cnt)" and run: "AgentTask_Run b tk ap (am, bm) = (r, am', bm')"
  shows "am_uniform am' n \<and> shadow_ok am' (at_shadow ap) \<and> bm_ok bm' \<and>
    am_frame {unat off..<unat off + unat cnt} (set (rw_set (at_shadow ap))) am am' \<and>
    (\<forall>k. bm_visible bm' k = bm_visible bm k)"
proof -
  obtain cl bm1 where cl: "Task_GetMessageBoardClient tk bm = (Inr cl, bm1)" "bm_ok bm1"
    "\<forall>n. bm_visible bm1 n = bm_visible bm n" using GetMessageBoardClient_ok [OF bm] by blast
  from AgentTask_Run_eq [OF am bm(1) cl(1,2) sl, of b] obtain am1 where am1: "mem_map am1 = mem_map am"
    "AgentTask_Run b tk ap (am, bm) = forE (run_agent b (tk_name tk) ap cl n off cnt) [0..<unat cnt] (am1, bm1)"
    by blast
  have "am_uniform am1 n" "shadow_ok am1 (at_shadow ap)"
    using am am1(1) by (simp_all add: am_uniform_def shadow_ok_def)
  from run_agents_frame [OF this cl(2) run_slice_fits [OF am(1,3) sl], of cl b "tk_name tk"] run am1(2)
  have fr: "am_uniform am' n" "shadow_ok am' (at_shadow ap)" "bm_ok bm'"
    "am_frame {unat off..<unat off + unat cnt} (set (rw_set (at_shadow ap))) am1 am'"
    "bm_frame (client_writers cl) bm1 bm'" by simp_all
  have "am_frame {unat off..<unat off + unat cnt} (set (rw_set (at_shadow ap))) am am'"
    by (rule am_frame_trans [OF am_frame_map [OF am1(1)] fr(4)])
  with fr cl(3) bm_frame_visible [OF fr(5)] show ?thesis by simp
qed

section \<open>Properties\<close>

text \<open>A task that writes 7 to variable x of each agent of its slice, for the witnesses.\<close>

definition sample_part :: "nat agent_part" where
  "sample_part = \<lparr>at_agent = ''a'', at_func = SetMem ''int'' ''x'' 7 (\<lambda>_. Return 0), at_shadow = sample_shadow,
     at_is_split = True, at_offset = 1, at_count = 2\<rparr>"

definition sample_task :: "nat task" where
  "sample_task = \<lparr>tk_id = 0, tk_name = ''f'', tk_proxy = None, tk_body = AgentTask sample_part\<rparr>"

lemma sample_task_ok: "shadow_ok sample_memory (at_shadow sample_part)" "slice_ok sample_part 3"
  "run_slice sample_part 3 = (1, 2)" "set (acl_post (task_proxy sample_task)) \<subseteq> fst ` set (bm_map sample_boards)"
  using sample_ok
  by (simp_all add: sample_part_def sample_task_def slice_ok_def run_slice_def task_proxy_def Proxy_new_def)

text \<open>
  C16. Running an agent task calls the transition function once for each agent of the task's
  slice, in the order of the agents, with an iterator that stands on that agent, and stops
  at the first call that throws. Whatever the function does, the loop ends.
\<close>

theorem run_calls_function_once_per_agent:
  assumes "am_uniform am n" "shadow_ok am (at_shadow ap)" "slice_ok ap n" "bm_ok bm"
    and "set (acl_post (task_proxy tk)) \<subseteq> fst ` set (bm_map bm)" "run_slice ap n = (off, cnt)"
  shows "\<exists>cl bm' am'. Task_GetMessageBoardClient tk bm = (Inr cl, bm') \<and> mem_map am' = mem_map am \<and>
    AgentTask_Run b tk ap (am, bm) =
      forE (\<lambda>p s. case call_fun b \<lparr>api_mem = iter_at (at_shadow ap) n off cnt p, api_shadow = at_shadow ap,
              api_mb = cl\<rparr> (at_func ap) s of
          (Inl e, s') \<Rightarrow>
            (Inl (if is_api_exception e then flame_task_exception (at_agent ap) (tk_name tk) e else e), s')
        | (Inr _, s') \<Rightarrow> (Inr (), s')) [0..<unat cnt] (am', bm')"
proof -
  obtain cl bm' where "Task_GetMessageBoardClient tk bm = (Inr cl, bm')" "bm_ok bm'"
    using GetMessageBoardClient_ok [OF assms(4,5)] by blast
  with AgentTask_Run_eq [OF assms(1-4) this assms(6), of b] show ?thesis
    unfolding run_agent_def [abs_def] by blast
qed

theorem run_calls_function_once_per_agent_witness:
  "\<exists>cl bm' am'. Task_GetMessageBoardClient sample_task sample_boards = (Inr cl, bm') \<and>
     mem_map am' = mem_map sample_memory \<and>
     AgentTask_Run Debug sample_task sample_part (sample_memory, sample_boards) =
       forE (\<lambda>p s. case call_fun Debug \<lparr>api_mem = iter_at (at_shadow sample_part) 3 1 2 p,
                 api_shadow = at_shadow sample_part, api_mb = cl\<rparr> (at_func sample_part) s of
          (Inl e, s') \<Rightarrow> (Inl (if is_api_exception e
             then flame_task_exception (at_agent sample_part) (tk_name sample_task) e else e), s')
        | (Inr _, s') \<Rightarrow> (Inr (), s')) [0, 1] (am', bm')"
  using run_calls_function_once_per_agent [OF sample_ok(1) sample_task_ok(1,2) sample_boards_ok(1)
      sample_task_ok(4,3), of Debug] by (simp add: upt_rec)



end
