(* ===== verification/Splitting.thy ===== *)
theory Splitting
  imports Agent_Runs
begin

text \<open>
  What \<open>AgentTask::SplitTask\<close> computes: slices that partition the population, and the
  counters of \<open>TaskSplitter\<close> over the life of a split task.
\<close>

section \<open>Slices\<close>

definition slice_start :: "nat \<Rightarrow> nat \<Rightarrow> nat \<Rightarrow> nat \<Rightarrow> nat" where
  "slice_start off q r j = off + j * q + min j r"

definition slice_len :: "nat \<Rightarrow> nat \<Rightarrow> nat \<Rightarrow> nat" where
  "slice_len q r j = q + (if j < r then 1 else 0)"

lemma slice_start_Suc: "slice_start off q r (Suc j) = slice_start off q r j + slice_len q r j"
  by (simp add: slice_start_def slice_len_def)

lemma slice_start_0 [simp]: "slice_start off q r 0 = off"
  by (simp add: slice_start_def)

lemma slice_start_mono: "i \<le> j \<Longrightarrow> slice_start off q r i \<le> slice_start off q r j"
  by (auto simp: slice_start_def add_mono mult_le_mono1 min_def)

lemma slice_start_total:
  assumes "0 < k" shows "slice_start off (n div k) (n mod k) k = off + n"
proof -
  have "min k (n mod k) = n mod k" using assms by (simp add: min_absorb2)
  then show ?thesis by (simp add: slice_start_def)
qed

lemma concat_upt:
  assumes "\<And>j. g j \<le> g (Suc j)"
  shows "concat (map (\<lambda>j. [g j..<g (Suc j)]) [0..<k]) = [g 0..<g k]"
proof (induction k)
  case 0
  then show ?case by simp
next
  case (Suc k)
  have "g 0 \<le> g k" using assms by (simp add: lift_Suc_mono_le)
  then have "[g 0..<g (Suc k)] = [g 0..<g k] @ [g k..<g (Suc k)]"
    using assms [of k] upt_add_eq_append [of "g 0" "g k" "g (Suc k) - g k"] by simp
  with Suc show ?case by simp
qed

lemma slices_concat:
  "concat (map (\<lambda>j. [slice_start off q r j..<slice_start off q r j + slice_len q r j]) [0..<k]) =
    [off..<slice_start off q r k]"
  using concat_upt [of "slice_start off q r" k] by (simp add: slice_start_Suc)

section \<open>The loop of SplitTask\<close>

lemma SplitTask_loop_eq:
  assumes bound: "slice_start off q r (unat k) < 18446744073709551616"
    and i: "unat i \<le> unat k" "offset = of_nat (slice_start off q r (unat i))"
    and qr: "unat qw = q" "unat rw = r"
  shows "SplitTask_loop tk ap k qw rw i offset =
    map (\<lambda>j. AgentTask_split tk ap (of_nat (slice_start off q r j)) (of_nat (slice_len q r j)))
      [unat i..<unat k]"
  using i
proof (induction "unat k - unat i" arbitrary: i offset)
  case 0
  then have "\<not> i < k" by (simp add: word_less_nat_alt)
  with 0 show ?case by (simp add: SplitTask_loop.simps)
next
  case (Suc d)
  then have less: "unat i < unat k" by simp
  then have ik: "i < k" by (simp add: word_less_nat_alt)
  then have si: "unat (i + 1) = Suc (unat i)" by (rule size_t_next_less)
  let ?s = "(if i < rw then 1 else 0) + qw"
  have s: "?s = of_nat (slice_len q r (unat i))"
    using qr by (auto simp: slice_len_def word_less_nat_alt)
  have "offset + ?s = of_nat (slice_start off q r (unat (i + 1)))"
    using Suc.prems(2) s by (simp add: si slice_start_Suc)
  then have IH: "SplitTask_loop tk ap k qw rw (i + 1) (offset + ?s) =
      map (\<lambda>j. AgentTask_split tk ap (of_nat (slice_start off q r j)) (of_nat (slice_len q r j)))
        [unat (i + 1)..<unat k]"
    using Suc.hyps(1) [of "i + 1"] Suc.hyps(2) less si by simp
  have "[unat i..<unat k] = unat i # [unat (i + 1)..<unat k]"
    using less si by (simp add: upt_conv_Cons)
  with ik IH s Suc.prems(2) show ?case
    by (subst SplitTask_loop.simps) (simp add: Let_def)
qed

text \<open>The population slice a task runs over: first agent and number of agents.\<close>

definition task_slice :: "'v task \<Rightarrow> nat \<times> nat" where
  "task_slice tk =
     (case tk_body tk of AgentTask ap \<Rightarrow> (unat (at_offset ap), unat (at_count ap)) | _ \<Rightarrow> (0, 0))"

definition slice_agents :: "nat \<times> nat \<Rightarrow> nat list" where
  "slice_agents sl = [fst sl..<fst sl + snd sl]"

text \<open>A task is a sub-task of an agent task: everything but the slice is the parent's.\<close>

definition is_subtask :: "'v task \<Rightarrow> 'v agent_part \<Rightarrow> 'v task \<Rightarrow> bool" where
  "is_subtask tk ap sub \<longleftrightarrow> (\<exists>off cnt. sub = AgentTask_split tk ap off cnt)"

lemma task_slice_split [simp]: "task_slice (AgentTask_split tk ap o' c) = (unat o', unat c)"
  by (simp add: task_slice_def AgentTask_split_def)

definition split_tasks :: "'v task \<Rightarrow> 'v agent_part \<Rightarrow> nat \<Rightarrow> nat \<Rightarrow> nat \<Rightarrow> 'v task list" where
  "split_tasks tk ap off n k =
     map (\<lambda>j. AgentTask_split tk ap (of_nat (slice_start off (n div k) (n mod k) j))
        (of_nat (slice_len (n div k) (n mod k) j))) [0..<k]"

lemma split_tasks_slices:
  assumes "0 < k" "off + n < 18446744073709551616"
  shows "map task_slice (split_tasks tk ap off n k) =
    map (\<lambda>j. (slice_start off (n div k) (n mod k) j, slice_len (n div k) (n mod k) j)) [0..<k]"
proof -
  have b: "slice_start off (n div k) (n mod k) j + slice_len (n div k) (n mod k) j
      < 18446744073709551616" if "j < k" for j
  proof -
    have "slice_start off (n div k) (n mod k) (Suc j) \<le> slice_start off (n div k) (n mod k) k"
      using that by (intro slice_start_mono) simp
    then show ?thesis using assms slice_start_total [OF assms(1), of off n] slice_start_Suc by simp
  qed
  show ?thesis using b by (auto simp: split_tasks_def unat_size_t trans_less_add1
      intro!: map_cong unat_size_t) (metis add_lessD1 b unat_size_t, metis add.commute add_lessD1 b unat_size_t)
qed

lemma split_tasks_partition:
  assumes "0 < k" "off + n < 18446744073709551616"
  shows "concat (map (slice_agents \<circ> task_slice) (split_tasks tk ap off n k)) = [off..<off + n]"
proof -
  have "map (slice_agents \<circ> task_slice) (split_tasks tk ap off n k) =
      map slice_agents (map task_slice (split_tasks tk ap off n k))" by simp
  also have "\<dots> = map (\<lambda>j. [slice_start off (n div k) (n mod k) j..<
      slice_start off (n div k) (n mod k) j + slice_len (n div k) (n mod k) j]) [0..<k]"
    unfolding split_tasks_slices [OF assms] by (simp add: slice_agents_def)
  finally show ?thesis
    by (simp add: slices_concat slice_start_total [OF assms(1)])
qed

section \<open>SplitTask\<close>

text \<open>
  The population and offset the task starts from, as \<open>SplitTask\<close> sees them.
\<close>

definition task_population :: "'v agent_part \<Rightarrow> nat \<Rightarrow> nat \<times> nat" where
  "task_population ap n =
     (if at_is_split ap then (unat (at_offset ap), unat (at_count ap)) else (0, n))"

definition num_splits :: "nat \<Rightarrow> nat \<Rightarrow> nat \<Rightarrow> nat" where
  "num_splits n max_tasks min_size = (if n \<ge> min_size * max_tasks then max_tasks else n div min_size)"

lemma unat_mult_size_t:
  "unat (a :: size_t) * unat b < 18446744073709551616 \<Longrightarrow> unat (a * b) = unat a * unat b"
  using unat_mult_lem [of a b] by simp

lemma SplitTask_eq:
  assumes uni: "am_uniform am n"
    and pop: "task_population ap n = (off, p)" "off + p < 18446744073709551616"
    and fits: "unat mn * unat mx < 18446744073709551616" "0 < unat mn"
  shows "\<exists>am'. mem_map am' = mem_map am \<and> AgentTask_SplitTask b tk ap mx mn am =
    (if unat mx < 2 \<or> p < 2 * unat mn then Inr None
     else Inr (Some (TaskSplitter_new (tk_id tk) (split_tasks tk ap off p (num_splits p (unat mx) (unat mn))))),
     am')"
proof (cases "unat mx < 2")
  case True
  then show ?thesis by (auto simp: AgentTask_SplitTask_def word_less_nat_alt)
next
  case mx: False
  define am' where "am' = (if at_is_split ap then am
    else if b = Debug then am\<lparr>cached_size := of_nat n\<rparr> else am)"
  have map': "mem_map am' = mem_map am" by (simp add: am'_def)
  define pw :: size_t where "pw = of_nat p"
  have pw: "unat pw = p" using pop(2) by (simp add: pw_def unat_size_t)
  have get: "(if at_is_split ap then (Inr (at_count ap), am) else AgentShadow_get_size b am) = (Inr pw, am')"
    using pop(1) GetPopulationSize_uniform [OF uni, of b]
    by (auto simp: task_population_def AgentShadow_get_size_def am'_def pw_def split: if_splits)
  have offw: "(if at_is_split ap then at_offset ap else 0) = of_nat off"
    using pop(1) by (auto simp: task_population_def split: if_splits)
  have "unat mn * 2 < 18446744073709551616"
    using mx fits(1) by (meson le_less_trans mult_le_mono2 not_less)
  then have m2: "unat (mn * 2) = unat mn * 2" using unat_mult_size_t [of mn 2] by simp
  have mm: "unat (mn * mx) = unat mn * unat mx" using fits(1) by (rule unat_mult_size_t)
  define k where "k = (if pw \<ge> mn * mx then mx else pw div mn)"
  have k: "unat k = num_splits p (unat mx) (unat mn)"
    using mm pw by (simp add: k_def num_splits_def word_le_nat_alt unat_div)
  show ?thesis
  proof (cases "p < 2 * unat mn")
    case True
    then have "pw < mn * 2" using m2 pw by (simp add: word_less_nat_alt)
    with mx True get map' show ?thesis
      by (auto simp: AgentTask_SplitTask_def word_less_nat_alt)
  next
    case False
    then have big: "\<not> pw < mn * 2" using m2 pw by (simp add: word_less_nat_alt)
    have kpos: "0 < unat k"
      using False mx fits(2) by (auto simp: k num_splits_def div_greater_zero_iff)
    then have k0: "k \<noteq> 0" by (simp add: unat_gt_0)
    have "SplitTask_loop tk ap k (pw div k) (pw mod k) 0 (of_nat off) = split_tasks tk ap off p (unat k)"
      using SplitTask_loop_eq [where i = 0 and k = k and off = off and q = "p div unat k"
          and r = "p mod unat k" and qw = "pw div k" and rw = "pw mod k"
          and offset = "of_nat off" and tk = tk and ap = ap]
        pop(2) slice_start_total [OF kpos, of off p] pw
      by (simp add: split_tasks_def unat_div unat_mod)
    with mx False big k0 get offw map' k show ?thesis
      by (auto simp: AgentTask_SplitTask_def Let_def word_less_nat_alt simp flip: k_def)
  qed
qed

lemma num_splits_bounds:
  assumes "2 \<le> mx" "0 < mn" "2 * mn \<le> p"
  shows "2 \<le> num_splits p mx mn" "num_splits p mx mn \<le> mx" "mn \<le> p div num_splits p mx mn"
proof -
  have "p div mn < mx" if "\<not> mn * mx \<le> p"
    using that by (metis div_less_iff_less_mult assms(2) mult.commute not_le)
  moreover have "2 \<le> p div mn" using assms by (simp add: less_eq_div_iff_mult_less_eq mult.commute)
  ultimately show b: "2 \<le> num_splits p mx mn" "num_splits p mx mn \<le> mx"
    using assms by (auto simp: num_splits_def)
  have "num_splits p mx mn * mn \<le> p"
    by (auto simp: num_splits_def mult.commute)
  then show "mn \<le> p div num_splits p mx mn"
    using b by (simp add: less_eq_div_iff_mult_less_eq mult.commute)
qed

lemma split_tasks_members:
  assumes "0 < k" "off + n < 18446744073709551616" "sub \<in> set (split_tasks tk ap off n k)"
  shows "is_subtask tk ap sub" "snd (task_slice sub) \<in> {n div k, n div k + 1}"
proof -
  from assms(3) show "is_subtask tk ap sub" by (auto simp: split_tasks_def is_subtask_def)
  have "task_slice sub \<in> set (map task_slice (split_tasks tk ap off n k))" using assms(3) by simp
  then show "snd (task_slice sub) \<in> {n div k, n div k + 1}"
    unfolding split_tasks_slices [OF assms(1,2)] by (auto simp: slice_len_def)
qed

text \<open>Different sub-tasks of a split have no agent in common.\<close>

lemma split_slices_disjoint:
  assumes "0 < k" "off + n < 18446744073709551616" "x < k" "y < k" "x \<noteq> y"
  shows "set (slice_agents (task_slice (split_tasks tk ap off n k ! x))) \<inter>
    set (slice_agents (task_slice (split_tasks tk ap off n k ! y))) = {}"
proof -
  let ?q = "n div k" and ?r = "n mod k"
  have len: "length (split_tasks tk ap off n k) = k" by (simp add: split_tasks_def)
  have sl: "task_slice (split_tasks tk ap off n k ! z) = (slice_start off ?q ?r z, slice_len ?q ?r z)" if "z < k" for z
    using split_tasks_slices [OF assms(1,2), of tk ap] that len by (metis (no_types, lifting) add.left_neutral
        diff_zero length_upt nth_map nth_upt)
  have "slice_start off ?q ?r (Suc a) \<le> slice_start off ?q ?r b" if "a < b" for a b
    using that by (intro slice_start_mono) simp
  then have "slice_start off ?q ?r x + slice_len ?q ?r x \<le> slice_start off ?q ?r y \<or>
      slice_start off ?q ?r y + slice_len ?q ?r y \<le> slice_start off ?q ?r x"
    using assms(5) slice_start_Suc by (metis linorder_neqE_nat)
  then show ?thesis using sl [OF assms(3)] sl [OF assms(4)] by (auto simp: slice_agents_def)
qed

section \<open>Properties\<close>

text \<open>
  C5. As long as \<open>min_task_size * max_tasks\<close> fits in \<open>size_t\<close>, \<open>SplitTask\<close> splits a
  task exactly when at least two sub-tasks of the minimum size are allowed and possible.
  The sub-tasks then partition the task's agents into consecutive slices in order; there
  are at least two and at most \<open>max_tasks\<close> of them, each has at least the minimum size and
  their sizes differ by at most one.
\<close>

theorem split_partitions_population:
  assumes uni: "am_uniform am n"
    and pop: "task_population ap n = (off, p)" "off + p < 18446744073709551616"
    and fits: "unat mn * unat mx < 18446744073709551616" "0 < unat mn"
  shows "case fst (AgentTask_SplitTask b tk ap mx mn am) of
      Inl e \<Rightarrow> False
    | Inr None \<Rightarrow> unat mx < 2 \<or> p < 2 * unat mn
    | Inr (Some ts) \<Rightarrow> 2 \<le> unat mx \<and> 2 * unat mn \<le> p \<and> ts_id ts = tk_id tk \<and>
        concat (map (slice_agents \<circ> task_slice) (ts_tasks ts)) = [off..<off + p] \<and>
        2 \<le> length (ts_tasks ts) \<and> length (ts_tasks ts) \<le> unat mx \<and>
        (\<forall>sub \<in> set (ts_tasks ts). is_subtask tk ap sub \<and> unat mn \<le> snd (task_slice sub)) \<and>
        (\<forall>sub \<in> set (ts_tasks ts). \<forall>sub' \<in> set (ts_tasks ts).
           snd (task_slice sub) \<le> Suc (snd (task_slice sub')))"
proof (cases "unat mx < 2 \<or> p < 2 * unat mn")
  case True
  then show ?thesis using SplitTask_eq [OF assms, of b tk] by auto
next
  case False
  let ?k = "num_splits p (unat mx) (unat mn)"
  let ?subs = "split_tasks tk ap off p ?k"
  have bounds: "2 \<le> ?k" "?k \<le> unat mx" "unat mn \<le> p div ?k"
    using num_splits_bounds [of "unat mx" "unat mn" p] False fits(2) by auto
  then have k: "0 < ?k" by simp
  have each: "is_subtask tk ap sub" "p div ?k \<le> snd (task_slice sub)" "snd (task_slice sub) \<le> Suc (p div ?k)"
    if "sub \<in> set ?subs" for sub
    using split_tasks_members [OF k pop(2) that] by auto
  have "is_subtask tk ap sub \<and> unat mn \<le> snd (task_slice sub)" if "sub \<in> set ?subs" for sub
    using each(1,2) [OF that] bounds(3) by (meson le_trans)
  moreover have "snd (task_slice sub) \<le> Suc (snd (task_slice sub'))"
    if "sub \<in> set ?subs" "sub' \<in> set ?subs" for sub sub'
    using each(3) [OF that(1)] each(2) [OF that(2)] by (meson Suc_le_mono le_trans)
  moreover have "length ?subs = ?k" by (simp add: split_tasks_def)
  moreover have "fst (AgentTask_SplitTask b tk ap mx mn am) = Inr (Some (TaskSplitter_new (tk_id tk) ?subs))"
    using SplitTask_eq [OF assms, of b tk] False by auto
  ultimately show ?thesis
    using False bounds split_tasks_partition [OF k pop(2), of tk ap] by (simp add: TaskSplitter_new_def)
qed

theorem split_partitions_population_witness:
  "\<exists>ts. fst (AgentTask_SplitTask Debug sample_task (sample_part\<lparr>at_is_split := False\<rparr>) 2 1 sample_memory) =
     Inr (Some ts) \<and> concat (map (slice_agents \<circ> task_slice) (ts_tasks ts)) = [0, 1, 2]"
proof -
  have "task_population (sample_part\<lparr>at_is_split := False\<rparr>) 3 = (0, 3)" by (simp add: task_population_def)
  from split_partitions_population [OF sample_ok(1) this, where b = Debug and tk = sample_task and mn = 1 and mx = 2]
  show ?thesis by (auto simp: upt_rec split: sum.splits option.splits)
qed

text \<open>
  C15. Sub-tasks of one split do not interfere through agent memory: whatever the transition
  function does, running one sub-task leaves every variable of every agent of another
  sub-task as it was.
\<close>

theorem subtasks_do_not_interfere:
  assumes uni: "am_uniform am n" and sh: "shadow_ok am (at_shadow ap)"
    and pop: "task_population ap n = (off, p)" "off + p \<le> n"
    and fits: "unat mn * unat mx < 18446744073709551616" "0 < unat mn"
    and split: "fst (AgentTask_SplitTask b tk ap mx mn am) = Inr (Some ts)"
    and xy: "x < length (ts_tasks ts)" "y < length (ts_tasks ts)" "x \<noteq> y"
    and sub: "tk_body (ts_tasks ts ! x) = AgentTask apx"
    and bm: "bm_ok bm" "set (acl_post (task_proxy (ts_tasks ts ! x))) \<subseteq> fst ` set (bm_map bm)"
    and run: "AgentTask_Run b (ts_tasks ts ! x) apx (am, bm) = (r, am', bm')"
    and i: "i \<in> set (slice_agents (task_slice (ts_tasks ts ! y)))" and v: "map_of (mem_map am) v = Some w"
  shows "\<exists>w'. map_of (mem_map am') v = Some w' \<and> vw_data w' ! i = vw_data w ! i"
proof -
  have n: "n < 18446744073709551616" using uni by (simp add: am_uniform_def)
  with pop have b: "off + p < 18446744073709551616" by simp
  let ?k = "num_splits p (unat mx) (unat mn)"
  have nn: "\<not> (unat mx < 2 \<or> p < 2 * unat mn)"
    and ts: "ts_tasks ts = split_tasks tk ap off p ?k"
    using SplitTask_eq [OF uni pop(1) b fits, of b tk] split
    by (auto simp: TaskSplitter_new_def split: if_splits)
  then have bnd: "2 \<le> ?k" "unat mn \<le> p div ?k" using num_splits_bounds [of "unat mx" "unat mn" p] fits(2) by auto
  then have k: "0 < ?k" by simp
  have len: "length (ts_tasks ts) = ?k" by (simp add: ts split_tasks_def)
  have part: "set (slice_agents (task_slice s)) \<subseteq> {off..<off + p}" if "s \<in> set (ts_tasks ts)" for s
  proof -
    have "set (concat (map (slice_agents \<circ> task_slice) (ts_tasks ts))) = set [off..<off + p]"
      unfolding ts by (simp only: split_tasks_partition [OF k b])
    then show ?thesis using that by auto
  qed
  have mem: "ts_tasks ts ! x \<in> set (ts_tasks ts)" "ts_tasks ts ! y \<in> set (ts_tasks ts)" using xy by simp_all
  note sx = split_tasks_members [OF k b, of "ts_tasks ts ! x" tk ap, folded ts, OF mem(1)]
  from sx(1) sub have ax: "at_is_split apx" "at_shadow apx = at_shadow ap"
    "task_slice (ts_tasks ts ! x) = (unat (at_offset apx), unat (at_count apx))"
    by (auto simp: is_subtask_def AgentTask_split_def task_slice_def)
  have pos: "0 < unat (at_count apx)" using sx(2) ax(3) bnd(2) fits(2) by auto
  then have "unat (at_offset apx) + unat (at_count apx) - 1 \<in> set (slice_agents (task_slice (ts_tasks ts ! x)))"
    by (simp add: ax(3) slice_agents_def)
  then have "unat (at_offset apx) + unat (at_count apx) \<le> n"
    using part [OF mem(1)] pop(2) pos by fastforce
  then have sok: "slice_ok apx n" using pos by (auto simp: slice_ok_def)
  have rs: "run_slice apx n = (at_offset apx, at_count apx)" using ax(1) by (simp add: run_slice_def)
  have "shadow_ok am (at_shadow apx)" using sh ax(2) by simp
  note fr = AgentTask_Run_frame [OF uni this sok bm rs run]
  have "i \<notin> {unat (at_offset apx)..<unat (at_offset apx) + unat (at_count apx)}"
    using split_slices_disjoint [OF k b, of x y tk ap] xy len i ax(3) by (auto simp: ts [symmetric] slice_agents_def)
  moreover have "i < length (vw_data w)"
    using part [OF mem(2)] i pop(2) am_uniform_lookup(1) [OF uni v] by fastforce
  ultimately show ?thesis using am_frame_value [OF _ v] fr by blast
qed

theorem subtasks_do_not_interfere_witness:
  "\<exists>ts ap0 w'. fst (AgentTask_SplitTask Debug sample_task (sample_part\<lparr>at_is_split := False\<rparr>) 2 1 sample_memory) =
       Inr (Some ts) \<and> tk_body (ts_tasks ts ! 0) = AgentTask ap0 \<and>
     map_of (mem_map (fst (snd (AgentTask_Run Debug (ts_tasks ts ! 0) ap0 (sample_memory, sample_boards))))) ''x'' =
       Some w' \<and> vw_data w' ! 2 = 30"
proof -
  let ?ap = "sample_part\<lparr>at_is_split := False\<rparr>"
  have pop: "task_population ?ap 3 = (0, 3)" by (simp add: task_population_def)
  have "num_splits 3 2 1 = 2" by (simp add: num_splits_def)
  with SplitTask_eq [OF sample_ok(1) pop, where b = Debug and tk = sample_task and mn = 1 and mx = 2]
  have split: "fst (AgentTask_SplitTask Debug sample_task ?ap 2 1 sample_memory) =
      Inr (Some (TaskSplitter_new 0 [AgentTask_split sample_task ?ap 0 2, AgentTask_split sample_task ?ap 2 1]))"
    by (auto simp: split_tasks_def sample_task_def slice_start_def slice_len_def upt_rec)
  let ?t = "AgentTask_split sample_task ?ap 0 2"
  obtain ap0 where ap0: "tk_body ?t = AgentTask ap0" by (simp add: AgentTask_split_def)
  obtain r am' bm' where run: "AgentTask_Run Debug ?t ap0 (sample_memory, sample_boards) = (r, am', bm')"
    by (metis prod_cases3)
  have "map_of (mem_map sample_memory) ''x'' = Some \<lparr>vw_type = ''int'', vw_data = [10, 20, 30]\<rparr>"
    by (simp add: sample_memory_def)
  moreover have "set (acl_post (task_proxy ?t)) \<subseteq> fst ` set (bm_map sample_boards)"
    by (simp add: AgentTask_split_def sample_task_def task_proxy_def Proxy_new_def)
  moreover have "shadow_ok sample_memory (at_shadow ?ap)" using sample_task_ok(1) by simp
  moreover let ?ts = "TaskSplitter_new 0 [?t, AgentTask_split sample_task ?ap 2 1]"
  have "ts_tasks ?ts ! 0 = ?t" "length (ts_tasks ?ts) = 2"
    "2 \<in> set (slice_agents (task_slice (ts_tasks ?ts ! 1)))"
    by (simp_all add: TaskSplitter_new_def slice_agents_def)
  ultimately show ?thesis
    using subtasks_do_not_interfere [OF sample_ok(1) _ pop _ _ _ split, where x = 0 and y = 1 and i = 2
        and apx = ap0 and bm = sample_boards and am' = am' and bm' = bm' and r = r and v = "''x''"]
      split ap0 run sample_boards_ok(1)
    by simp
qed

text \<open>
  The products in \<open>SplitTask\<close> are computed in \<open>size_t\<close>. With a minimum size of
  \<open>2 ^ 63\<close> the size test wraps to \<open>population < 0\<close>, and with three sub-tasks allowed the
  number of sub-tasks becomes zero and the code divides by it.
\<close>

theorem split_min_size_overflow:
  "fst (AgentTask_SplitTask b sample_task (sample_part\<lparr>at_is_split := False\<rparr>) 3 9223372036854775808 sample_memory) =
     Inl (UB ''division by zero'')"
proof -
  obtain am' where "AgentShadow_get_size b sample_memory = (Inr 3, am')"
    using GetPopulationSize_uniform [OF sample_ok(1), of b]
    by (cases "AgentShadow_get_size b sample_memory") (simp add: AgentShadow_get_size_def)
  moreover have "(3 :: size_t) div 9223372036854775808 = 0" by (simp add: div_word_less word_less_nat_alt)
  ultimately show ?thesis
    by (simp add: AgentTask_SplitTask_def Let_def word_less_nat_alt word_le_nat_alt)
qed

end
