(* ===== verification/Task_Manager.thy ===== *)
theory Task_Manager
  imports Tasks
begin

text \<open>
  \<open>src/flame2/exe/task_manager.{hpp,cpp}\<close>: the singleton that owns the tasks, keeps their
  dependency graph and, during an iteration, hands out tasks whose dependencies are done.
  A task id is the position of the task in \<open>tasks_\<close>. \<open>std::set\<close> is a sorted list,
  \<open>pending_deps_\<close>, \<open>parents_\<close> and \<open>children_\<close> are lists of such sets indexed by id.
\<close>

record 'v task_manager =
  tm_tasks :: "'v task list"
  name_map :: "(string \<times> nat) list"
  roots :: "nat list"
  leaves :: "nat list"
  parents :: "nat list list"
  children :: "nat list list"
  finalised :: bool
  pending_deps :: "nat list list"
  ready_tasks :: "nat list"
  pending_tasks :: "nat list"
  assigned_tasks :: "nat list"

definition TaskManager_new :: "'v task_manager" where
  "TaskManager_new = \<lparr>tm_tasks = [], name_map = [], roots = [], leaves = [], parents = [], children = [],
     finalised = False, pending_deps = [], ready_tasks = [], pending_tasks = [], assigned_tasks = []\<rparr>"

definition check_not_finalised :: "('v task_manager, unit) exec" where
  "check_not_finalised tm =
     (if finalised tm then (Inl (logic_error ''Finalise() called. Operation not allowed''), tm)
      else (Inr (), tm))"

definition check_finalised :: "('v task_manager, unit) exec" where
  "check_finalised tm =
     (if \<not> finalised tm then (Inl (logic_error ''Finalise() has not been called''), tm)
      else (Inr (), tm))"

section \<open>Registration\<close>

definition TaskManager_RegisterTask :: "build \<Rightarrow> string \<Rightarrow> 'v task \<Rightarrow> ('v task_manager, unit) exec" where
  "TaskManager_RegisterTask b task_name task_ptr tm =
     (if finalised tm then (Inl (logic_error ''Finalise() called. No more updates''), tm)
      else if omap_has (name_map tm) task_name then
        (Inl (logic_error ''task with that name already exists''), tm)
      else if b = Debug \<and> IsTermTask (length (tm_tasks tm)) then
        (Inl (out_of_range ''Too many tasks''), tm)
      else
        (let task_id = length (tm_tasks tm) in
         (Inr (), tm\<lparr>name_map := omap_put task_name task_id (name_map tm),
            tm_tasks := tm_tasks tm @ [task_ptr\<lparr>tk_id := task_id\<rparr>],
            parents := parents tm @ [[]], children := children tm @ [[]],
            roots := oset_insert task_id (roots tm), leaves := oset_insert task_id (leaves tm)\<rparr>)))"

text \<open>
  The three factories; each returns (a reference to) the new task, here its id. A failed
  registration deletes the task and passes the exception on.
\<close>

definition register_new :: "build \<Rightarrow> string \<Rightarrow> exn + 'v task \<Rightarrow> ('v task_manager, nat) exec" where
  "register_new b task_name created tm =
     (case created of
        Inl e \<Rightarrow> (Inl e, tm)
      | Inr tk \<Rightarrow>
          (case TaskManager_RegisterTask b task_name tk tm of
             (Inl e, tm') \<Rightarrow> (Inl e, tm')
           | (Inr _, tm') \<Rightarrow> (Inr (length (tm_tasks tm)), tm')))"

definition TaskManager_CreateAgentTask ::
    "build \<Rightarrow> 'v memory_manager \<Rightarrow> string \<Rightarrow> string \<Rightarrow> 'v agent_fun option \<Rightarrow> ('v task_manager, nat) exec" where
  "TaskManager_CreateAgentTask b mm task_name agent_name func =
     register_new b task_name (AgentTask_new 0 mm task_name agent_name func)"

definition TaskManager_CreateMessageBoardTask ::
    "build \<Rightarrow> 'v board_manager \<Rightarrow> string \<Rightarrow> string \<Rightarrow> mb_operation \<Rightarrow> ('v task_manager, nat) exec" where
  "TaskManager_CreateMessageBoardTask b bm task_name msg_name op =
     register_new b task_name (MessageBoardTask_new 0 bm task_name msg_name op)"

definition TaskManager_CreateIOTask ::
    "build \<Rightarrow> 'v memory_manager \<Rightarrow> string \<Rightarrow> string \<Rightarrow> string \<Rightarrow> io_operation \<Rightarrow> ('v task_manager, nat) exec" where
  "TaskManager_CreateIOTask b mm task_name agent_name var_name op =
     register_new b task_name (IOTask_new 0 mm task_name agent_name var_name op)"

section \<open>Lookup\<close>

definition TaskManager_GetId :: "'v task_manager \<Rightarrow> string \<Rightarrow> exn + nat" where
  "TaskManager_GetId tm task_name =
     (case map_of (name_map tm) task_name of
        None \<Rightarrow> Inl (invalid_argument ''Unknown task'') | Some i \<Rightarrow> Inr i)"

definition TaskManager_GetTask :: "'v task_manager \<Rightarrow> nat \<Rightarrow> exn + 'v task" where
  "TaskManager_GetTask tm task_id =
     (if task_id < length (tm_tasks tm) then Inr (tm_tasks tm ! task_id)
      else Inl (invalid_argument ''Invalid id''))"

definition TaskManager_GetTask_by_name :: "'v task_manager \<Rightarrow> string \<Rightarrow> exn + 'v task" where
  "TaskManager_GetTask_by_name tm task_name =
     bindR (TaskManager_GetId tm task_name) (TaskManager_GetTask tm)"

definition TaskManager_GetDependencies :: "'v task_manager \<Rightarrow> nat \<Rightarrow> exn + nat list" where
  "TaskManager_GetDependencies tm task_id =
     (if task_id < length (parents tm) then Inr (parents tm ! task_id)
      else Inl (invalid_argument ''Invalid id''))"

definition TaskManager_GetDependencies_by_name :: "'v task_manager \<Rightarrow> string \<Rightarrow> exn + nat list" where
  "TaskManager_GetDependencies_by_name tm task_name =
     bindR (TaskManager_GetId tm task_name) (TaskManager_GetDependencies tm)"

definition TaskManager_GetDependents :: "'v task_manager \<Rightarrow> nat \<Rightarrow> exn + nat list" where
  "TaskManager_GetDependents tm task_id =
     (if task_id < length (children tm) then Inr (children tm ! task_id)
      else Inl (invalid_argument ''Invalid id''))"

definition TaskManager_GetDependents_by_name :: "'v task_manager \<Rightarrow> string \<Rightarrow> exn + nat list" where
  "TaskManager_GetDependents_by_name tm task_name =
     bindR (TaskManager_GetId tm task_name) (TaskManager_GetDependents tm)"

definition TaskManager_GetTaskCount :: "build \<Rightarrow> 'v task_manager \<Rightarrow> exn + nat" where
  "TaskManager_GetTaskCount b tm =
     (if b = Debug \<and> (length (tm_tasks tm) \<noteq> length (children tm) \<or>
                      length (tm_tasks tm) \<noteq> length (parents tm))
      then Inl (flame_exception ''inconsistent data sizes'') else Inr (length (tm_tasks tm)))"

definition TaskManager_IsValidID :: "'v task_manager \<Rightarrow> nat \<Rightarrow> bool" where
  "TaskManager_IsValidID tm task_id \<longleftrightarrow> task_id < length (tm_tasks tm)"

definition TaskManager_IsFinalised :: "'v task_manager \<Rightarrow> bool" where
  "TaskManager_IsFinalised tm = finalised tm"

section \<open>Dependencies\<close>

text \<open>\<open>parents_[current]\<close>; the code only indexes with valid ids.\<close>

definition deps_of :: "nat list list \<Rightarrow> nat \<Rightarrow> nat list" where
  "deps_of ps c = (if c < length ps then ps ! c else [])"

text \<open>
  The search of \<open>WillCauseCyclicDependency\<close>. The stack is a list with its top in front;
  the dependencies are pushed in the order of the set, so the last one ends on top.
\<close>

function cyclic_search :: "nat list list \<Rightarrow> nat \<Rightarrow> nat list \<Rightarrow> nat list \<Rightarrow> bool" where
  "cyclic_search ps task_id [] visited = False"
| "cyclic_search ps task_id (current # pending) visited =
     (if current = task_id then True
      else
        (let visited' = oset_insert current visited
         in cyclic_search ps task_id
              (rev (filter (\<lambda>parent. parent \<notin> set visited') (deps_of ps current)) @ pending) visited'))"
  by pat_completeness auto

text \<open>
  Nodes may be pushed twice, so the search ends because each step visits a new node, or
  brings an unvisited node to the top, or shortens the stack.
\<close>

definition search_frontier :: "nat list list \<Rightarrow> nat list \<Rightarrow> nat list \<Rightarrow> nat set" where
  "search_frontier ps stack visited = (set stack \<union> \<Union> (set ` set ps)) - set visited"

definition search_rank :: "nat list list \<Rightarrow> nat list \<Rightarrow> nat list \<Rightarrow> nat \<times> nat \<times> nat" where
  "search_rank ps stack visited =
     (card (search_frontier ps stack visited),
      if stack \<noteq> [] \<and> hd stack \<notin> set visited then 0 else 1, length stack)"

lemma deps_of_subset: "set (deps_of ps c) \<subseteq> \<Union> (set ` set ps)"
  by (auto simp: deps_of_def intro: bexI [OF _ nth_mem])

lemma search_rank_decreases:
  assumes "v' = oset_insert c v" "st = rev (filter (\<lambda>p. p \<notin> set v') (deps_of ps c)) @ rest"
  shows "(search_rank ps st v', search_rank ps (c # rest) v) \<in> less_than <*lex*> less_than <*lex*> less_than"
proof -
  have fin: "finite (search_frontier ps (c # rest) v)" by (simp add: search_frontier_def)
  have sub: "search_frontier ps st v' \<subseteq> search_frontier ps (c # rest) v - {c}"
    using deps_of_subset [of ps c] unfolding assms by (auto simp: search_frontier_def)
  show ?thesis
  proof (cases "c \<in> set v")
    case False
    then have "search_frontier ps st v' \<subset> search_frontier ps (c # rest) v"
      using sub by (auto simp: search_frontier_def)
    then show ?thesis using psubset_card_mono [OF fin] by (simp add: search_rank_def)
  next
    case True
    have le: "card (search_frontier ps st v') \<le> card (search_frontier ps (c # rest) v)"
      using sub fin by (meson Diff_subset card_mono subset_trans)
    show ?thesis
    proof (cases "filter (\<lambda>p. p \<notin> set v') (deps_of ps c)" rule: rev_cases)
      case Nil
      then have "st = rest" using assms by simp
      then show ?thesis using le True by (auto simp: search_rank_def)
    next
      case (snoc ys y)
      then have "y \<in> set (filter (\<lambda>p. p \<notin> set v') (deps_of ps c))" by simp
      then have "y \<notin> set v'" by simp
      moreover have "st = y # rev ys @ rest" using snoc assms by simp
      ultimately show ?thesis using le True by (auto simp: search_rank_def)
    qed
  qed
qed

termination cyclic_search
  by (relation "inv_image (less_than <*lex*> less_than <*lex*> less_than)
      (\<lambda>(ps, t, st, v). search_rank ps st v)") (use search_rank_decreases in auto)

definition TaskManager_WillCauseCyclicDependency :: "'v task_manager \<Rightarrow> nat \<Rightarrow> nat \<Rightarrow> bool" where
  "TaskManager_WillCauseCyclicDependency tm task_id target \<longleftrightarrow>
     (if task_id = target then True else cyclic_search (parents tm) task_id [target] [])"

definition TaskManager_AddDependency :: "build \<Rightarrow> nat \<Rightarrow> nat \<Rightarrow> ('v task_manager, unit) exec" where
  "TaskManager_AddDependency b task_id dependency_id tm =
     (if \<not> TaskManager_IsValidID tm task_id \<or> \<not> TaskManager_IsValidID tm dependency_id then
        (Inl (invalid_argument ''Invalid id''), tm)
      else if task_id = dependency_id then
        (Inl (logic_error ''Task cannot depend on itself''), tm)
      else
        bindE check_not_finalised (\<lambda>_ tm.
          if b = Debug \<and> TaskManager_WillCauseCyclicDependency tm task_id dependency_id then
            (Inl (logic_error ''This will cause cyclic dependencies''), tm)
          else
            (Inr (), tm\<lparr>
               parents := (parents tm)[task_id := oset_insert dependency_id (parents tm ! task_id)],
               children := (children tm)[dependency_id := oset_insert task_id (children tm ! dependency_id)],
               roots := oset_erase task_id (roots tm),
               leaves := oset_erase dependency_id (leaves tm)\<rparr>)) tm)"

definition TaskManager_AddDependency_by_name ::
    "build \<Rightarrow> string \<Rightarrow> string \<Rightarrow> ('v task_manager, unit) exec" where
  "TaskManager_AddDependency_by_name b task_name dependency_name tm =
     (case TaskManager_GetId tm task_name of
        Inl e \<Rightarrow> (Inl e, tm)
      | Inr t \<Rightarrow>
          (case TaskManager_GetId tm dependency_name of
             Inl e \<Rightarrow> (Inl e, tm)
           | Inr d \<Rightarrow> TaskManager_AddDependency b t d tm))"

section \<open>Iteration\<close>

definition TaskManager_IterReset :: "('v task_manager, unit) exec" where
  "TaskManager_IterReset =
     bindE check_finalised (\<lambda>_ tm.
       (Inr (), tm\<lparr>pending_deps := parents tm, assigned_tasks := [], ready_tasks := roots tm,
          pending_tasks := filter (\<lambda>i. i \<notin> set (roots tm)) [0..<length (tm_tasks tm)]\<rparr>))"

definition TaskManager_Finalise :: "('v task_manager, unit) exec" where
  "TaskManager_Finalise tm = TaskManager_IterReset (tm\<lparr>finalised := True\<rparr>)"

definition TaskManager_IterTaskAvailable :: "'v task_manager \<Rightarrow> exn + bool" where
  "TaskManager_IterTaskAvailable tm =
     bindR (fst (check_finalised tm)) (\<lambda>_. Inr (ready_tasks tm \<noteq> []))"

definition TaskManager_IterCompleted :: "'v task_manager \<Rightarrow> exn + bool" where
  "TaskManager_IterCompleted tm =
     bindR (fst (check_finalised tm)) (\<lambda>_.
       Inr (pending_tasks tm = [] \<and> assigned_tasks tm = [] \<and> ready_tasks tm = []))"

definition TaskManager_IterGetReadyCount :: "'v task_manager \<Rightarrow> exn + nat" where
  "TaskManager_IterGetReadyCount tm = bindR (fst (check_finalised tm)) (\<lambda>_. Inr (length (ready_tasks tm)))"

definition TaskManager_IterGetPendingCount :: "'v task_manager \<Rightarrow> exn + nat" where
  "TaskManager_IterGetPendingCount tm =
     bindR (fst (check_finalised tm)) (\<lambda>_. Inr (length (pending_tasks tm)))"

definition TaskManager_IterGetAssignedCount :: "'v task_manager \<Rightarrow> exn + nat" where
  "TaskManager_IterGetAssignedCount tm =
     bindR (fst (check_finalised tm)) (\<lambda>_. Inr (length (assigned_tasks tm)))"

definition TaskManager_IterTaskPop :: "('v task_manager, nat) exec" where
  "TaskManager_IterTaskPop =
     bindE check_finalised (\<lambda>_ tm.
       if ready_tasks tm = [] then (Inl (none_available ''No available tasks''), tm)
       else
         (Inr (last (ready_tasks tm)),
          tm\<lparr>ready_tasks := butlast (ready_tasks tm),
             assigned_tasks := oset_insert (last (ready_tasks tm)) (assigned_tasks tm)\<rparr>))"

text \<open>The body of the loop of \<open>IterTaskDone\<close> over the dependents.\<close>

definition fulfil :: "nat \<Rightarrow> nat \<Rightarrow> ('v task_manager, unit) exec" where
  "fulfil task_id c tm =
     (if c < length (pending_deps tm) then
        (let d = oset_erase task_id (pending_deps tm ! c);
             tm' = tm\<lparr>pending_deps := (pending_deps tm)[c := d]\<rparr>
         in (Inr (), if d = [] then tm'\<lparr>ready_tasks := ready_tasks tm' @ [c],
                                       pending_tasks := oset_erase c (pending_tasks tm')\<rparr> else tm'))
      else (Inl (std_out_of_range ''vector::at''), tm))"

definition TaskManager_IterTaskDone :: "nat \<Rightarrow> ('v task_manager, unit) exec" where
  "TaskManager_IterTaskDone task_id =
     bindE check_finalised (\<lambda>_ tm.
       if task_id \<notin> set (assigned_tasks tm) then (Inl (invalid_argument ''invalid task id''), tm)
       else
         (let tm' = tm\<lparr>assigned_tasks := oset_erase task_id (assigned_tasks tm)\<rparr>
          in if task_id < length (children tm) then forE (fulfil task_id) (children tm ! task_id) tm'
             else (Inl (std_out_of_range ''vector::at''), tm')))"

definition TaskManager_Reset :: "'v task_manager \<Rightarrow> 'v task_manager" where
  "TaskManager_Reset tm = TaskManager_new"

section \<open>The graph invariant\<close>

text \<open>\<open>(c, p)\<close> is an edge when task \<open>c\<close> depends on task \<open>p\<close>.\<close>

definition depends :: "nat list list \<Rightarrow> (nat \<times> nat) set" where
  "depends ps = {(c, p). c < length ps \<and> p \<in> set (ps ! c)}"

definition tm_ok :: "'v task_manager \<Rightarrow> bool" where
  "tm_ok tm \<longleftrightarrow>
     length (parents tm) = length (tm_tasks tm) \<and> length (children tm) = length (tm_tasks tm) \<and>
     (\<forall>i < length (tm_tasks tm). tk_id (tm_tasks tm ! i) = i) \<and>
     omap_ok (name_map tm) \<and> length (name_map tm) = length (tm_tasks tm) \<and>
     snd ` set (name_map tm) = {..<length (tm_tasks tm)} \<and>
     (\<forall>ps \<in> set (parents tm). oset_ok ps) \<and> (\<forall>cs \<in> set (children tm). oset_ok cs) \<and>
     oset_ok (roots tm) \<and> oset_ok (leaves tm) \<and>
     depends (children tm) = (depends (parents tm))\<inverse> \<and>
     set (roots tm) = {i. i < length (tm_tasks tm) \<and> parents tm ! i = []} \<and>
     set (leaves tm) = {i. i < length (tm_tasks tm) \<and> children tm ! i = []}"

lemma tm_ok_edge:
  assumes "tm_ok tm" "(c, p) \<in> depends (parents tm)"
  shows "c < length (tm_tasks tm)" "p < length (tm_tasks tm)"
proof -
  show "c < length (tm_tasks tm)" using assms by (simp add: tm_ok_def depends_def)
  have "(p, c) \<in> depends (children tm)" using assms by (simp add: tm_ok_def)
  then show "p < length (tm_tasks tm)" using assms(1) by (simp add: tm_ok_def depends_def)
qed

lemma tm_ok_children:
  assumes "tm_ok tm" "p < length (tm_tasks tm)"
  shows "c \<in> set (children tm ! p) \<longleftrightarrow> (c, p) \<in> depends (parents tm)"
proof -
  have "c \<in> set (children tm ! p) \<longleftrightarrow> (p, c) \<in> depends (children tm)"
    using assms by (simp add: tm_ok_def depends_def)
  then show ?thesis using assms(1) by (simp add: tm_ok_def)
qed

lemma depends_snoc [simp]: "depends (ps @ [[]]) = depends ps"
  by (auto simp: depends_def nth_append split: if_splits)

lemma depends_update:
  assumes "c < length ps"
  shows "depends (ps[c := oset_insert p (ps ! c)]) = insert (c, p) (depends ps)"
  using assms by (auto simp: depends_def nth_list_update split: if_splits)

lemma tm_ok_new [simp]: "tm_ok TaskManager_new"
  by (auto simp: tm_ok_def TaskManager_new_def depends_def)

lemma range_snoc: "{i. i < Suc n \<and> (xs @ [[]]) ! i = []} = insert n {i. i < n \<and> xs ! i = []}"
  if "length xs = n"
  using that by (auto simp: nth_append less_Suc_eq)

lemma RegisterTask_ok:
  assumes "tm_ok tm" shows "tm_ok (snd (TaskManager_RegisterTask b n tk tm))"
proof -
  have names: "\<not> omap_has (name_map tm) n \<Longrightarrow>
      snd ` set (omap_put n (length (tm_tasks tm)) (name_map tm)) = {..<Suc (length (tm_tasks tm))}"
  proof -
    assume "\<not> omap_has (name_map tm) n"
    then have "n \<notin> fst ` set (name_map tm)" by (simp add: omap_has_iff)
    with assms show ?thesis by (auto simp: tm_ok_def set_omap_put)
  qed
  show ?thesis
  proof (cases "finalised tm \<or> omap_has (name_map tm) n \<or> b = Debug \<and> IsTermTask (length (tm_tasks tm))")
    case True
    then show ?thesis using assms by (auto simp: TaskManager_RegisterTask_def)
  next
    case False
    with assms names show ?thesis
      by (auto simp: TaskManager_RegisterTask_def tm_ok_def Let_def nth_append length_omap_put range_snoc
          less_Suc_eq)
  qed
qed

interpretation task_registry: registry "\<lambda>n. TaskManager_RegisterTask Production n tk"
    "\<lambda>tm. fst ` set (name_map tm)" "\<lambda>tm. \<not> finalised tm" for tk
  by unfold_locales (auto simp: TaskManager_RegisterTask_def omap_has_iff Let_def)

lemma AddDependency_ok:
  assumes ok: "tm_ok tm" shows "tm_ok (snd (TaskManager_AddDependency b t d tm))"
proof -
  have "tm_ok (tm\<lparr>parents := (parents tm)[t := oset_insert d (parents tm ! t)],
      children := (children tm)[d := oset_insert t (children tm ! d)],
      roots := oset_erase t (roots tm), leaves := oset_erase d (leaves tm)\<rparr>)"
    if "t < length (tm_tasks tm)" "d < length (tm_tasks tm)"
  proof -
    have len: "t < length (parents tm)" "d < length (children tm)" using that ok by (simp_all add: tm_ok_def)
    have ne: "oset_insert x xs \<noteq> []" for x and xs :: "nat list" by (simp add: oset_insert_def)
    have "oset_ok (oset_insert d (parents tm ! t))" "oset_ok (oset_insert t (children tm ! d))"
      using ok len by (simp_all add: tm_ok_def)
    then have "\<forall>ps \<in> set ((parents tm)[t := oset_insert d (parents tm ! t)]). oset_ok ps"
      "\<forall>cs \<in> set ((children tm)[d := oset_insert t (children tm ! d)]). oset_ok cs"
      using ok by (auto simp: tm_ok_def dest!: set_update_subset_insert [THEN subsetD])
    then show ?thesis
      using ok len that ne
      by (auto simp: tm_ok_def depends_update nth_list_update)
  qed
  then show ?thesis using ok
    by (auto simp: TaskManager_AddDependency_def TaskManager_IsValidID_def check_not_finalised_def bindE_def)
qed

section \<open>The cycle check\<close>

text \<open>
  The visited nodes are closed up to the stack, and the task is not among them: then a
  visited node that reaches the task reaches it through the stack.
\<close>

definition search_inv :: "nat list list \<Rightarrow> nat \<Rightarrow> nat set \<Rightarrow> nat set \<Rightarrow> bool" where
  "search_inv ps t stack visited \<longleftrightarrow>
     t \<notin> visited \<and> (\<forall>x \<in> visited. set (deps_of ps x) \<subseteq> visited \<union> stack)"

lemma depends_deps_of: "(x, y) \<in> depends ps \<longleftrightarrow> y \<in> set (deps_of ps x)"
proof -
  have "(x, y) \<in> depends ps \<longleftrightarrow> x < length ps \<and> y \<in> set (ps ! x)" by (simp add: depends_def)
  then show ?thesis unfolding deps_of_def by (cases "x < length ps") simp_all
qed

lemma search_inv_reach:
  assumes "(x, t) \<in> (depends ps)\<^sup>*" "search_inv ps t stack visited" "x \<in> visited"
  shows "\<exists>s \<in> stack. (s, t) \<in> (depends ps)\<^sup>*"
  using assms(1,3)
proof (induction rule: converse_rtrancl_induct)
  case base
  then show ?case using assms(2) by (simp add: search_inv_def)
next
  case (step x y)
  then have "y \<in> visited \<or> y \<in> stack"
    using assms(2) by (auto simp: search_inv_def depends_deps_of)
  with step show ?case by blast
qed

lemma cyclic_search_iff:
  assumes "search_inv ps t (set stack) (set visited)"
  shows "cyclic_search ps t stack visited \<longleftrightarrow> (\<exists>s \<in> set stack. (s, t) \<in> (depends ps)\<^sup>*)"
  using assms
proof (induction ps t stack visited rule: cyclic_search.induct)
  case (1 ps t visited)
  then show ?case by simp
next
  case (2 ps t c rest visited)
  show ?case
  proof (cases "c = t")
    case True
    then show ?thesis by auto
  next
    case False
    let ?v = "oset_insert c visited"
    let ?st = "rev (filter (\<lambda>p. p \<notin> set ?v) (deps_of ps c)) @ rest"
    have inv: "search_inv ps t (set ?st) (set ?v)"
      using 2(2) False by (auto simp: search_inv_def)
    have IH: "cyclic_search ps t ?st ?v \<longleftrightarrow> (\<exists>s \<in> set ?st. (s, t) \<in> (depends ps)\<^sup>*)"
      by (rule 2(1)) (use False inv in auto)
    have "(\<exists>s \<in> set ?st. (s, t) \<in> (depends ps)\<^sup>*) \<longleftrightarrow> (\<exists>s \<in> set (c # rest). (s, t) \<in> (depends ps)\<^sup>*)"
    proof
      assume "\<exists>s \<in> set ?st. (s, t) \<in> (depends ps)\<^sup>*"
      then obtain s where s: "s \<in> set ?st" "(s, t) \<in> (depends ps)\<^sup>*" by blast
      show "\<exists>s \<in> set (c # rest). (s, t) \<in> (depends ps)\<^sup>*"
      proof (cases "s \<in> set rest")
        case False
        then have "(c, s) \<in> depends ps" using s(1) by (auto simp: depends_deps_of)
        with s(2) show ?thesis by (meson converse_rtrancl_into_rtrancl list.set_intros(1))
      qed (use s in auto)
    next
      assume "\<exists>s \<in> set (c # rest). (s, t) \<in> (depends ps)\<^sup>*"
      then show "\<exists>s \<in> set ?st. (s, t) \<in> (depends ps)\<^sup>*"
        using search_inv_reach [OF _ inv, of c] by auto
    qed
    with IH False show ?thesis by (simp add: Let_def)
  qed
qed

lemma WillCauseCyclicDependency_iff:
  "TaskManager_WillCauseCyclicDependency tm t d \<longleftrightarrow> (d, t) \<in> (depends (parents tm))\<^sup>*"
  using cyclic_search_iff [of "parents tm" t "[d]" "[]"]
  by (auto simp: TaskManager_WillCauseCyclicDependency_def search_inv_def)

lemma AddDependency_acyclic:
  assumes "tm_ok tm" "acyclic (depends (parents tm))"
  shows "acyclic (depends (parents (snd (TaskManager_AddDependency Debug t d tm))))"
proof (cases "t < length (tm_tasks tm)")
  case True
  then have "t < length (parents tm)" using assms(1) by (simp add: tm_ok_def)
  then show ?thesis using assms(2)
    by (auto simp: TaskManager_AddDependency_def check_not_finalised_def bindE_def depends_update
        WillCauseCyclicDependency_iff acyclic_insert)
next
  case False
  then show ?thesis using assms(2)
    by (simp add: TaskManager_AddDependency_def TaskManager_IsValidID_def)
qed

section \<open>The iteration invariant\<close>

text \<open>Tasks that are not ready, pending or assigned any more have been executed.\<close>

definition done_tasks :: "'v task_manager \<Rightarrow> nat set" where
  "done_tasks tm = {..<length (tm_tasks tm)} -
     (set (ready_tasks tm) \<union> set (pending_tasks tm) \<union> set (assigned_tasks tm))"

definition iter_ok :: "'v task_manager \<Rightarrow> bool" where
  "iter_ok tm \<longleftrightarrow> tm_ok tm \<and> finalised tm \<and>
     distinct (ready_tasks tm) \<and> oset_ok (pending_tasks tm) \<and> oset_ok (assigned_tasks tm) \<and>
     set (ready_tasks tm) \<inter> set (pending_tasks tm) = {} \<and>
     set (ready_tasks tm) \<inter> set (assigned_tasks tm) = {} \<and>
     set (pending_tasks tm) \<inter> set (assigned_tasks tm) = {} \<and>
     set (ready_tasks tm) \<union> set (pending_tasks tm) \<union> set (assigned_tasks tm) \<subseteq> {..<length (tm_tasks tm)} \<and>
     length (pending_deps tm) = length (tm_tasks tm) \<and>
     (\<forall>i < length (tm_tasks tm). set (pending_deps tm ! i) = set (parents tm ! i) - done_tasks tm) \<and>
     (\<forall>i < length (tm_tasks tm). i \<in> set (pending_tasks tm) \<longleftrightarrow> pending_deps tm ! i \<noteq> [])"

lemma sorted_filter_upt: "oset_ok (filter P [0..<n])"
  by (simp add: oset_ok_def sorted_wrt_filter)

lemma IterReset_ok:
  assumes "tm_ok tm" "finalised tm"
  shows "fst (TaskManager_IterReset tm) = Inr () \<and> iter_ok (snd (TaskManager_IterReset tm)) \<and>
    done_tasks (snd (TaskManager_IterReset tm)) = {}"
proof -
  let ?tm = "tm\<lparr>pending_deps := parents tm, assigned_tasks := [], ready_tasks := roots tm,
      pending_tasks := filter (\<lambda>i. i \<notin> set (roots tm)) [0..<length (tm_tasks tm)]\<rparr>"
  have eq: "TaskManager_IterReset tm = (Inr (), ?tm)"
    using assms(2) by (simp add: TaskManager_IterReset_def check_finalised_def bindE_def)
  have done0: "done_tasks ?tm = {}" by (auto simp: done_tasks_def)
  have "tm_ok ?tm" using assms(1) by (simp add: tm_ok_def)
  moreover have "distinct (roots tm)" using assms(1) by (simp add: tm_ok_def oset_ok_distinct)
  moreover have "set (roots tm) = {i. i < length (tm_tasks tm) \<and> parents tm ! i = []}"
    "length (parents tm) = length (tm_tasks tm)" using assms(1) by (simp_all add: tm_ok_def)
  ultimately have "iter_ok ?tm"
    using assms(2) done0 unfolding iter_ok_def by (auto simp: sorted_filter_upt)
  with eq done0 show ?thesis by simp
qed

lemma IterTaskPop_ok:
  assumes ok: "iter_ok tm" and ne: "ready_tasks tm \<noteq> []"
  shows "\<exists>tm'. TaskManager_IterTaskPop tm = (Inr (last (ready_tasks tm)), tm') \<and> iter_ok tm' \<and>
    set (assigned_tasks tm') = insert (last (ready_tasks tm)) (set (assigned_tasks tm)) \<and>
    done_tasks tm' = done_tasks tm \<and> ready_tasks tm' = butlast (ready_tasks tm) \<and>
    pending_tasks tm' = pending_tasks tm \<and> parents tm' = parents tm \<and> tm_tasks tm' = tm_tasks tm"
proof -
  let ?l = "last (ready_tasks tm)"
  let ?tm = "tm\<lparr>ready_tasks := butlast (ready_tasks tm), assigned_tasks := oset_insert ?l (assigned_tasks tm)\<rparr>"
  have split: "ready_tasks tm = butlast (ready_tasks tm) @ [?l]" using ne by simp
  have d: "distinct (butlast (ready_tasks tm) @ [?l])" using ok split by (simp add: iter_ok_def)
  have set: "set (ready_tasks tm) = insert ?l (set (butlast (ready_tasks tm)))"
    by (subst split) simp
  have "done_tasks ?tm = done_tasks tm" by (auto simp: done_tasks_def set)
  moreover have "iter_ok ?tm"
    using ok d calculation unfolding iter_ok_def set by (auto simp: tm_ok_def)
  moreover have "TaskManager_IterTaskPop tm = (Inr ?l, ?tm)"
    using ok ne by (simp add: TaskManager_IterTaskPop_def check_finalised_def bindE_def iter_ok_def)
  ultimately show ?thesis by auto
qed

lemma fulfil_loop:
  assumes "distinct cs" "\<forall>c \<in> set cs. c < length (pending_deps tm)"
  shows "forE (fulfil t) cs tm = (Inr (), tm\<lparr>
    pending_deps := map (\<lambda>i. if i \<in> set cs then oset_erase t (pending_deps tm ! i) else pending_deps tm ! i)
      [0..<length (pending_deps tm)],
    ready_tasks := ready_tasks tm @ filter (\<lambda>c. oset_erase t (pending_deps tm ! c) = []) cs,
    pending_tasks := filter (\<lambda>c. \<not> (c \<in> set cs \<and> oset_erase t (pending_deps tm ! c) = [])) (pending_tasks tm)\<rparr>)"
  using assms
proof (induction cs arbitrary: tm)
  case Nil
  then show ?case by (simp add: returnE_apply map_nth)
next
  case (Cons c cs)
  let ?d = "oset_erase t (pending_deps tm ! c)"
  let ?tm = "snd (fulfil t c tm)"
  have c: "c < length (pending_deps tm)" "c \<notin> set cs" using Cons.prems by auto
  then have step: "fulfil t c tm = (Inr (), ?tm)" by (simp add: fulfil_def Let_def)
  have pd: "pending_deps ?tm = (pending_deps tm)[c := ?d]"
    and rd: "ready_tasks ?tm = ready_tasks tm @ (if ?d = [] then [c] else [])"
    and pt: "pending_tasks ?tm = (if ?d = [] then oset_erase c (pending_tasks tm) else pending_tasks tm)"
    using c by (simp_all add: fulfil_def Let_def)
  have same: "pending_deps ?tm ! i = pending_deps tm ! i" if "i \<in> set cs" for i
    using that c(2) by (cases "i = c") (simp_all add: pd)
  have "forE (fulfil t) cs ?tm = (Inr (), ?tm\<lparr>
    pending_deps := map (\<lambda>i. if i \<in> set cs then oset_erase t (pending_deps ?tm ! i) else pending_deps ?tm ! i)
      [0..<length (pending_deps ?tm)],
    ready_tasks := ready_tasks ?tm @ filter (\<lambda>c. oset_erase t (pending_deps ?tm ! c) = []) cs,
    pending_tasks := filter (\<lambda>c. \<not> (c \<in> set cs \<and> oset_erase t (pending_deps ?tm ! c) = [])) (pending_tasks ?tm)\<rparr>)"
    using Cons by (simp add: pd)
  moreover have "map (\<lambda>i. if i \<in> set cs then oset_erase t (pending_deps ?tm ! i) else pending_deps ?tm ! i)
      [0..<length (pending_deps ?tm)] =
    map (\<lambda>i. if i \<in> set (c # cs) then oset_erase t (pending_deps tm ! i) else pending_deps tm ! i)
      [0..<length (pending_deps tm)]"
    using c same by (auto simp: pd nth_list_update)
  moreover have "filter (\<lambda>c. oset_erase t (pending_deps ?tm ! c) = []) cs =
      filter (\<lambda>c. oset_erase t (pending_deps tm ! c) = []) cs"
    using same by (auto intro: filter_cong)
  moreover have "filter (\<lambda>c. \<not> (c \<in> set cs \<and> oset_erase t (pending_deps ?tm ! c) = [])) (pending_tasks ?tm) =
      filter (\<lambda>x. \<not> (x \<in> set (c # cs) \<and> oset_erase t (pending_deps tm ! x) = [])) (pending_tasks tm)"
    using same c by (auto simp: pt oset_erase_def intro: filter_cong)
  moreover have "?tm\<lparr>pending_deps := p, ready_tasks := r, pending_tasks := q\<rparr> =
      tm\<lparr>pending_deps := p, ready_tasks := r, pending_tasks := q\<rparr>" for p r q
    using c by (simp add: fulfil_def Let_def)
  moreover have "forE (fulfil t) (c # cs) tm = forE (fulfil t) cs ?tm"
    using bindE_Inr [of "fulfil t c" tm "()" ?tm, OF step] by simp
  ultimately show ?case using rd by simp
qed

lemma IterTaskDone_ok:
  assumes ok: "iter_ok tm" and t: "t \<in> set (assigned_tasks tm)"
  shows "\<exists>tm'. TaskManager_IterTaskDone t tm = (Inr (), tm') \<and> iter_ok tm' \<and>
    set (assigned_tasks tm') = set (assigned_tasks tm) - {t} \<and>
    done_tasks tm' = insert t (done_tasks tm) \<and> parents tm' = parents tm \<and> tm_tasks tm' = tm_tasks tm \<and>
    (\<exists>new. ready_tasks tm' = ready_tasks tm @ new \<and> set (pending_tasks tm) = set new \<union> set (pending_tasks tm') \<and>
       set new \<inter> set (pending_tasks tm') = {})"
proof -
  let ?N = "length (tm_tasks tm)" and ?cs = "children tm ! t"
  let ?pd = "map (\<lambda>i. if i \<in> set ?cs then oset_erase t (pending_deps tm ! i) else pending_deps tm ! i) [0..<?N]"
  let ?new = "filter (\<lambda>c. oset_erase t (pending_deps tm ! c) = []) ?cs"
  let ?pt = "filter (\<lambda>c. \<not> (c \<in> set ?cs \<and> oset_erase t (pending_deps tm ! c) = [])) (pending_tasks tm)"
  let ?tm = "tm\<lparr>assigned_tasks := oset_erase t (assigned_tasks tm), pending_deps := ?pd,
    ready_tasks := ready_tasks tm @ ?new, pending_tasks := ?pt\<rparr>"
  have g: "tm_ok tm" "finalised tm" "length (pending_deps tm) = ?N" using ok by (simp_all add: iter_ok_def)
  have tN: "t < ?N" using ok t by (auto simp: iter_ok_def)
  have len: "length (parents tm) = ?N" "length (children tm) = ?N" using g(1) by (simp_all add: tm_ok_def)
  have tdone: "t \<notin> done_tasks tm" using t by (simp add: done_tasks_def)
  have ch: "c \<in> set ?cs \<longleftrightarrow> c < ?N \<and> t \<in> set (parents tm ! c)" for c
    using tm_ok_children [OF g(1) tN, of c] len by (simp add: depends_def)
  have pd: "set (pending_deps tm ! i) = set (parents tm ! i) - done_tasks tm"
    and pend: "i \<in> set (pending_tasks tm) \<longleftrightarrow> pending_deps tm ! i \<noteq> []" if "i < ?N" for i
    using ok that unfolding iter_ok_def by blast+
  have chp: "c < ?N" "c \<in> set (pending_tasks tm)" if "c \<in> set ?cs" for c
  proof -
    show "c < ?N" using that ch by blast
    then have "t \<in> set (pending_deps tm ! c)" using that ch tdone pd by auto
    then show "c \<in> set (pending_tasks tm)" using \<open>c < ?N\<close> pend by force
  qed
  have dist: "distinct ?cs" using g(1) tN len by (simp add: tm_ok_def oset_ok_distinct)
  have eq: "TaskManager_IterTaskDone t tm = (Inr (), ?tm)"
    using fulfil_loop [OF dist, of "tm\<lparr>assigned_tasks := oset_erase t (assigned_tasks tm)\<rparr>" t] chp t tN g len
    by (simp add: TaskManager_IterTaskDone_def check_finalised_def bindE_def Let_def)
  have done': "done_tasks ?tm = insert t (done_tasks tm)"
    using chp(2) tN ok t unfolding done_tasks_def iter_ok_def by auto
  have pd': "set (?pd ! i) = set (parents tm ! i) - insert t (done_tasks tm)" if "i < ?N" for i
    using that pd [OF that] ch [of i] by auto
  have pt: "i \<in> set ?pt \<longleftrightarrow> ?pd ! i \<noteq> []" if "i < ?N" for i
    using that pend [OF that] chp(2) [of i] by auto
  have part: "set (pending_tasks tm) = set ?new \<union> set ?pt" "set ?new \<inter> set ?pt = {}"
    using chp(2) by auto
  have sub: "set ?new \<subseteq> set (pending_tasks tm)" "set ?pt \<subseteq> set (pending_tasks tm)"
    using chp(2) by auto
  have old: "distinct (ready_tasks tm)" "set (ready_tasks tm) \<inter> set (pending_tasks tm) = {}"
    "set (ready_tasks tm) \<inter> set (assigned_tasks tm) = {}"
    "set (pending_tasks tm) \<inter> set (assigned_tasks tm) = {}"
    "set (ready_tasks tm) \<union> set (pending_tasks tm) \<union> set (assigned_tasks tm) \<subseteq> {..<?N}"
    "oset_ok (assigned_tasks tm)" "oset_ok (pending_tasks tm)"
    using ok by (simp_all add: iter_ok_def)
  have "iter_ok ?tm" unfolding iter_ok_def done'
  proof (intro conjI)
    show "tm_ok ?tm" using g(1) by (simp add: tm_ok_def)
    show "distinct (ready_tasks ?tm)" using old(1,2) dist sub(1) by auto
    show "oset_ok (pending_tasks ?tm)" using old(7) by (simp add: oset_ok_def sorted_wrt_filter)
    show "set (ready_tasks ?tm) \<inter> set (pending_tasks ?tm) = {}" using old(2) sub(2) part(2) by auto
    show "set (ready_tasks ?tm) \<inter> set (assigned_tasks ?tm) = {}" using old(3,4) sub(1) by auto
    show "set (pending_tasks ?tm) \<inter> set (assigned_tasks ?tm) = {}" using old(4) by auto
    show "set (ready_tasks ?tm) \<union> set (pending_tasks ?tm) \<union> set (assigned_tasks ?tm) \<subseteq>
        {..<length (tm_tasks ?tm)}" using old(5) sub by auto
    show "\<forall>i<length (tm_tasks ?tm). set (pending_deps ?tm ! i) = set (parents ?tm ! i) - insert t (done_tasks tm)"
      using pd' by simp
    show "\<forall>i<length (tm_tasks ?tm). i \<in> set (pending_tasks ?tm) \<longleftrightarrow> pending_deps ?tm ! i \<noteq> []"
      using pt by simp
  qed (use g old(6) in simp_all)
  moreover have "\<exists>new. ready_tasks ?tm = ready_tasks tm @ new \<and>
      set (pending_tasks tm) = set new \<union> set (pending_tasks ?tm) \<and> set new \<inter> set (pending_tasks ?tm) = {}"
    using part by (intro exI [of _ ?new] conjI) simp_all
  ultimately show ?thesis using eq done' by (intro exI [of _ ?tm] conjI) simp_all
qed

text \<open>All dependencies of a task that is ready or assigned are done.\<close>

lemma iter_ok_deps_done:
  assumes ok: "iter_ok tm" and i: "i \<in> set (ready_tasks tm) \<union> set (assigned_tasks tm)"
  shows "set (parents tm ! i) \<subseteq> done_tasks tm"
proof -
  have N: "i < length (tm_tasks tm)" and "i \<notin> set (pending_tasks tm)"
    using assms by (auto simp: iter_ok_def)
  then have "pending_deps tm ! i = []" using ok by (auto simp: iter_ok_def)
  moreover have "set (pending_deps tm ! i) = set (parents tm ! i) - done_tasks tm"
    using ok N unfolding iter_ok_def by blast
  ultimately show ?thesis by auto
qed

text \<open>On an acyclic graph an iteration that is not complete can always go on.\<close>

lemma iter_progress:
  assumes ok: "iter_ok tm" and ac: "acyclic (depends (parents tm))"
    and nc: "pending_tasks tm \<noteq> []"
  shows "ready_tasks tm \<noteq> [] \<or> assigned_tasks tm \<noteq> []"
proof (rule ccontr)
  assume none: "\<not> ?thesis"
  let ?N = "length (tm_tasks tm)" and ?P = "set (pending_tasks tm)"
  have sub: "depends (parents tm) \<subseteq> {..<?N} \<times> {..<?N}"
    using ok tm_ok_edge [of tm] unfolding iter_ok_def by auto
  then have "finite (depends (parents tm))" by (rule finite_subset) simp
  then have wf: "wf ((depends (parents tm))\<inverse>)" using ac by (rule finite_acyclic_wf_converse)
  obtain i where i: "i \<in> ?P" using nc by fastforce
  from wfE_min [OF wf i] obtain z where z: "z \<in> ?P" "\<And>y. (z, y) \<in> depends (parents tm) \<Longrightarrow> y \<notin> ?P"
    by auto
  have zN: "z < ?N" using ok z(1) by (auto simp: iter_ok_def)
  then have "pending_deps tm ! z \<noteq> []" using ok z(1) unfolding iter_ok_def by blast
  then obtain p where "p \<in> set (pending_deps tm ! z)" by fastforce
  then have p: "p \<in> set (parents tm ! z)" "p \<notin> done_tasks tm"
    using ok zN unfolding iter_ok_def by blast+
  then have e: "(z, p) \<in> depends (parents tm)" using ok zN by (simp add: depends_def iter_ok_def tm_ok_def)
  have "p < ?N" using sub e by auto
  with p(2) none have "p \<in> ?P" by (simp add: done_tasks_def)
  with z(2) [OF e] show False ..
qed


section \<open>Properties\<close>

text \<open>The calls that change the task manager, for statements about sequences of calls.\<close>

datatype 'v tm_call =
    Call_RegisterTask string "'v task"
  | Call_AddDependency nat nat
  | Call_Finalise
  | Call_IterReset
  | Call_IterTaskPop
  | Call_IterTaskDone nat
  | Call_Reset

fun tm_do :: "build \<Rightarrow> 'v tm_call \<Rightarrow> 'v task_manager \<Rightarrow> 'v task_manager" where
  "tm_do b (Call_RegisterTask n tk) tm = snd (TaskManager_RegisterTask b n tk tm)"
| "tm_do b (Call_AddDependency t d) tm = snd (TaskManager_AddDependency b t d tm)"
| "tm_do b Call_Finalise tm = snd (TaskManager_Finalise tm)"
| "tm_do b Call_IterReset tm = snd (TaskManager_IterReset tm)"
| "tm_do b Call_IterTaskPop tm = snd (TaskManager_IterTaskPop tm)"
| "tm_do b (Call_IterTaskDone t) tm = snd (TaskManager_IterTaskDone t tm)"
| "tm_do b Call_Reset tm = TaskManager_Reset tm"

definition tm_calls :: "build \<Rightarrow> 'v tm_call list \<Rightarrow> 'v task_manager" where
  "tm_calls b cs = fold (tm_do b) cs TaskManager_new"

definition tm_inv :: "'v task_manager \<Rightarrow> bool" where
  "tm_inv tm \<longleftrightarrow> tm_ok tm \<and> (finalised tm \<longrightarrow> iter_ok tm)"

lemma IterTaskPop_cases:
  assumes "iter_ok tm"
  shows "TaskManager_IterTaskPop tm = (Inl (none_available ''No available tasks''), tm) \<and> ready_tasks tm = [] \<or>
    ready_tasks tm \<noteq> []"
  using assms by (simp add: TaskManager_IterTaskPop_def check_finalised_def bindE_def iter_ok_def)

lemma finalised_calls:
  assumes "finalised tm"
  shows "snd (TaskManager_RegisterTask b n tk tm) = tm" "snd (TaskManager_AddDependency b t d tm) = tm"
  using assms by (auto simp: TaskManager_RegisterTask_def TaskManager_AddDependency_def check_not_finalised_def bindE_def)

lemma registration_keeps_open:
  assumes "\<not> finalised tm"
  shows "\<not> finalised (snd (TaskManager_RegisterTask b n tk tm))"
    "\<not> finalised (snd (TaskManager_AddDependency b t d tm))"
  using assms by (auto simp: TaskManager_RegisterTask_def TaskManager_AddDependency_def check_not_finalised_def
      bindE_def Let_def)

lemma tm_inv_iter: "iter_ok tm \<Longrightarrow> tm_inv tm"
  by (simp add: tm_inv_def iter_ok_def)

lemma Finalise_ok:
  assumes "tm_ok tm"
  shows "fst (TaskManager_Finalise tm) = Inr () \<and> iter_ok (snd (TaskManager_Finalise tm)) \<and>
    done_tasks (snd (TaskManager_Finalise tm)) = {}"
proof -
  have "tm_ok (tm\<lparr>finalised := True\<rparr>)" using assms by (simp add: tm_ok_def)
  then show ?thesis unfolding TaskManager_Finalise_def by (rule IterReset_ok) simp
qed

lemma tm_do_inv:
  assumes "tm_inv tm" shows "tm_inv (tm_do b c tm)"
proof -
  have ok: "tm_ok tm" using assms by (simp add: tm_inv_def)
  have reg: "tm_inv (snd (TaskManager_RegisterTask b n tk tm))" "tm_inv (snd (TaskManager_AddDependency b t d tm))"
    for n tk t d
    using assms RegisterTask_ok [OF ok] AddDependency_ok [OF ok] finalised_calls registration_keeps_open
    by (metis tm_inv_def)+
  have pop: "tm_inv (snd (TaskManager_IterTaskPop tm))"
  proof (cases "finalised tm \<and> ready_tasks tm \<noteq> []")
    case True
    then have "iter_ok (snd (TaskManager_IterTaskPop tm))" using assms IterTaskPop_ok [of tm] by (auto simp: tm_inv_def)
    then show ?thesis by (rule tm_inv_iter)
  next
    case False
    then have "snd (TaskManager_IterTaskPop tm) = tm"
      by (auto simp: TaskManager_IterTaskPop_def check_finalised_def bindE_def)
    then show ?thesis using assms by simp
  qed
  have "tm_inv (snd (TaskManager_IterTaskDone t tm))" for t
  proof (cases "finalised tm \<and> t \<in> set (assigned_tasks tm)")
    case True
    then have "iter_ok (snd (TaskManager_IterTaskDone t tm))" using assms IterTaskDone_ok [of tm t] by (auto simp: tm_inv_def)
    then show ?thesis by (rule tm_inv_iter)
  next
    case False
    then have "snd (TaskManager_IterTaskDone t tm) = tm"
      by (auto simp: TaskManager_IterTaskDone_def check_finalised_def bindE_def)
    then show ?thesis using assms by simp
  qed
  moreover have "tm_inv (snd (TaskManager_IterReset tm))"
  proof (cases "finalised tm")
    case True
    then show ?thesis using IterReset_ok [OF ok] tm_inv_iter by blast
  next
    case False
    then show ?thesis using assms by (simp add: TaskManager_IterReset_def check_finalised_def bindE_def)
  qed
  moreover have "tm_inv (snd (TaskManager_Finalise tm))" using Finalise_ok [OF ok] tm_inv_iter by blast
  moreover have "tm_inv TaskManager_new" using tm_ok_new by (simp add: tm_inv_def TaskManager_new_def)
  ultimately show ?thesis using reg pop by (cases c) (simp_all add: TaskManager_Reset_def)
qed

lemma acyclic_no_tasks [simp]: "acyclic (depends [])"
  by (simp add: depends_def acyclic_def)

lemma tm_do_acyclic:
  assumes "tm_inv tm" "acyclic (depends (parents tm))" shows "acyclic (depends (parents (tm_do Debug c tm)))"
proof -
  have ok: "tm_ok tm" using assms by (simp add: tm_inv_def)
  have "parents (snd (TaskManager_IterTaskDone t tm)) = parents tm" for t
  proof (cases "finalised tm \<and> t \<in> set (assigned_tasks tm)")
    case True
    then show ?thesis using assms IterTaskDone_ok [of tm t] by (auto simp: tm_inv_def)
  qed (auto simp: TaskManager_IterTaskDone_def check_finalised_def bindE_def)
  then show ?thesis using assms(2) AddDependency_acyclic [OF ok]
    by (cases c)
      (auto simp: TaskManager_RegisterTask_def TaskManager_Finalise_def TaskManager_IterReset_def
        TaskManager_IterTaskPop_def check_finalised_def bindE_def Let_def TaskManager_Reset_def
        TaskManager_new_def)
qed

lemma tm_calls_ok: "tm_inv (tm_calls b cs)" "acyclic (depends (parents (tm_calls Debug cs)))"
proof -
  have "tm_inv (fold (tm_do b) cs tm)" if "tm_inv tm" for tm
    using that by (induction cs arbitrary: tm) (simp_all add: tm_do_inv)
  moreover have "acyclic (depends (parents (fold (tm_do Debug) cs tm)))"
    if "tm_inv tm" "acyclic (depends (parents tm))" for tm
    using that by (induction cs arbitrary: tm) (simp_all add: tm_do_inv tm_do_acyclic)
  moreover have "tm_inv TaskManager_new" using tm_ok_new by (simp add: tm_inv_def TaskManager_new_def)
  moreover have "acyclic (depends (parents TaskManager_new))"
    by (simp add: TaskManager_new_def)
  ultimately show "tm_inv (tm_calls b cs)" "acyclic (depends (parents (tm_calls Debug cs)))"
    unfolding tm_calls_def by blast+
qed

text \<open>
  C13. Whatever calls are made on the task manager, in any order and with any arguments, the
  dependency graph stays consistent: ids are positions, \<open>children_\<close> is the converse of
  \<open>parents_\<close>, \<open>roots_\<close> and \<open>leaves_\<close> are the tasks without dependencies and
  dependents, and once finalised the ready, pending and assigned tasks are disjoint and the
  pending dependencies are those not done. In a debug build the graph is also acyclic.
\<close>

theorem task_graph_invariant:
  "tm_ok (tm_calls b cs) \<and> (finalised (tm_calls b cs) \<longrightarrow> iter_ok (tm_calls b cs)) \<and>
   acyclic (depends (parents (tm_calls Debug cs)))"
  using tm_calls_ok(1) [of b cs] tm_calls_ok(2) [of cs] by (simp add: tm_inv_def)

definition sample_calls :: "nat tm_call list" where
  "sample_calls = map (\<lambda>n. Call_RegisterTask n \<lparr>tk_id = 0, tk_name = n, tk_proxy = None,
     tk_body = MessageBoardTask ''m'' OP_SYNC\<rparr>) [''a'', ''b'', ''c''] @ [Call_AddDependency 1 0, Call_AddDependency 2 1]"

lemmas tm_eval = sample_calls_def tm_calls_def TaskManager_new_def TaskManager_RegisterTask_def
  TaskManager_AddDependency_def TaskManager_IsValidID_def TaskManager_Finalise_def TaskManager_IterReset_def
  check_finalised_def check_not_finalised_def bindE_def Let_def omap_has_def omap_put_def oset_insert_def
  oset_erase_def IsTermTask_def GetTermTaskId_def TaskManager_WillCauseCyclicDependency_def deps_of_def
  returnE_def

theorem task_graph_invariant_witness:
  "finalised (tm_calls Debug (sample_calls @ [Call_Finalise])) \<and>
   iter_ok (tm_calls Debug (sample_calls @ [Call_Finalise]))"
proof -
  have "finalised (tm_calls Debug (sample_calls @ [Call_Finalise]))" by (simp add: tm_eval)
  with task_graph_invariant [of Debug "sample_calls @ [Call_Finalise]"] show ?thesis by simp
qed

text \<open>
  C12. The cycle check is exact. On an acyclic graph that is not finalised, a debug build
  accepts a dependency between two registered tasks exactly when the graph with the new
  edge is acyclic, and then adds just that edge; otherwise it throws and changes nothing.
\<close>

theorem add_dependency_cycle_check:
  assumes "tm_ok tm" "acyclic (depends (parents tm))" "\<not> finalised tm"
    and "t < length (tm_tasks tm)" "d < length (tm_tasks tm)"
  shows "case TaskManager_AddDependency Debug t d tm of
      (Inl e, tm') \<Rightarrow> \<not> acyclic (insert (t, d) (depends (parents tm))) \<and> tm' = tm
    | (Inr _, tm') \<Rightarrow> acyclic (insert (t, d) (depends (parents tm))) \<and>
        depends (parents tm') = insert (t, d) (depends (parents tm)) \<and>
        depends (children tm') = insert (d, t) (depends (children tm))"
proof -
  have len: "t < length (parents tm)" "d < length (children tm)" using assms by (simp_all add: tm_ok_def)
  have "\<not> acyclic (insert (t, d) (depends (parents tm)))" if "t = d" using that by (auto simp: acyclic_insert)
  then show ?thesis using assms(2-) len
    by (auto simp: TaskManager_AddDependency_def TaskManager_IsValidID_def check_not_finalised_def bindE_def
        depends_update WillCauseCyclicDependency_iff acyclic_insert)
qed

theorem add_dependency_cycle_check_witness:
  "snd (TaskManager_AddDependency Debug 0 2 (tm_calls Debug sample_calls)) = tm_calls Debug sample_calls"
proof -
  let ?tm = "tm_calls Debug sample_calls"
  have hyps: "\<not> finalised ?tm" "0 < length (tm_tasks ?tm)" "2 < length (tm_tasks ?tm)" by (simp_all add: tm_eval)
  have "fst (TaskManager_AddDependency Debug 0 2 ?tm) = Inl (logic_error ''This will cause cyclic dependencies'')"
    by (simp add: tm_eval)
  then show ?thesis
    using add_dependency_cycle_check [OF _ tm_calls_ok(2) hyps] tm_calls_ok(1) [of Debug sample_calls]
    by (cases "TaskManager_AddDependency Debug 0 2 ?tm") (auto simp: tm_inv_def)
qed

text \<open>
  During an iteration \<open>IterTaskPop\<close> hands out a task only when all its dependencies are
  done, and never one that is already assigned or done; it throws \<open>none_available\<close>, and
  changes nothing, exactly when no task is ready.
\<close>

theorem popped_task_is_runnable:
  assumes "iter_ok tm"
  shows "case TaskManager_IterTaskPop tm of
      (Inl e, tm') \<Rightarrow> e = none_available ''No available tasks'' \<and> ready_tasks tm = [] \<and> tm' = tm
    | (Inr t, tm') \<Rightarrow> t \<in> set (ready_tasks tm) \<and> set (parents tm ! t) \<subseteq> done_tasks tm \<and>
        t \<notin> done_tasks tm \<and> t \<notin> set (assigned_tasks tm) \<and> iter_ok tm' \<and>
        set (assigned_tasks tm') = insert t (set (assigned_tasks tm)) \<and> done_tasks tm' = done_tasks tm"
proof (cases "ready_tasks tm = []")
  case True
  then show ?thesis using IterTaskPop_cases [OF assms] by auto
next
  case False
  then have l: "last (ready_tasks tm) \<in> set (ready_tasks tm)" by simp
  then have "last (ready_tasks tm) \<notin> done_tasks tm" "last (ready_tasks tm) \<notin> set (assigned_tasks tm)"
    using assms by (auto simp: done_tasks_def iter_ok_def)
  then show ?thesis using IterTaskPop_ok [OF assms False] iter_ok_deps_done [OF assms] l by fastforce
qed

lemma sample_finalised_ok: "iter_ok (tm_calls Debug (sample_calls @ [Call_Finalise]))"
  using tm_calls_ok(1) [of Debug "sample_calls @ [Call_Finalise]"] by (simp add: tm_inv_def tm_eval)

theorem popped_task_is_runnable_witness:
  "\<exists>tm'. TaskManager_IterTaskPop (tm_calls Debug (sample_calls @ [Call_Finalise])) = (Inr 0, tm') \<and> iter_ok tm'"
proof -
  let ?tm = "tm_calls Debug (sample_calls @ [Call_Finalise])"
  have "fst (TaskManager_IterTaskPop ?tm) = Inr 0" by (simp add: tm_eval TaskManager_IterTaskPop_def)
  with popped_task_is_runnable [OF sample_finalised_ok] show ?thesis
    by (cases "TaskManager_IterTaskPop ?tm") auto
qed

text \<open>
  C28. Reporting an assigned task as done moves it to the done tasks and makes ready exactly
  those pending tasks whose dependencies are now all done. Reporting any other id throws
  \<open>invalid_argument\<close> and changes nothing.
\<close>

theorem task_done_releases_dependents:
  assumes "iter_ok tm"
  shows "case TaskManager_IterTaskDone t tm of
      (Inl e, tm') \<Rightarrow> e = invalid_argument ''invalid task id'' \<and> t \<notin> set (assigned_tasks tm) \<and> tm' = tm
    | (Inr _, tm') \<Rightarrow> t \<in> set (assigned_tasks tm) \<and> iter_ok tm' \<and>
        set (assigned_tasks tm') = set (assigned_tasks tm) - {t} \<and> done_tasks tm' = insert t (done_tasks tm) \<and>
        (\<exists>new. ready_tasks tm' = ready_tasks tm @ new \<and>
           set new = {c \<in> set (pending_tasks tm). set (parents tm ! c) \<subseteq> insert t (done_tasks tm)})"
proof (cases "t \<in> set (assigned_tasks tm)")
  case False
  then show ?thesis using assms
    by (simp add: TaskManager_IterTaskDone_def check_finalised_def bindE_def iter_ok_def)
next
  case True
  obtain tm' new where eq: "TaskManager_IterTaskDone t tm = (Inr (), tm')" and ok': "iter_ok tm'"
    and tm': "set (assigned_tasks tm') = set (assigned_tasks tm) - {t}" "done_tasks tm' = insert t (done_tasks tm)"
      "parents tm' = parents tm" "tm_tasks tm' = tm_tasks tm"
    and new: "ready_tasks tm' = ready_tasks tm @ new" "set (pending_tasks tm) = set new \<union> set (pending_tasks tm')"
      "set new \<inter> set (pending_tasks tm') = {}"
    using IterTaskDone_ok [OF assms True] by blast
  have "c \<in> set (pending_tasks tm') \<longleftrightarrow> \<not> set (parents tm ! c) \<subseteq> insert t (done_tasks tm)"
    if "c \<in> set (pending_tasks tm)" for c
  proof -
    have c: "c < length (tm_tasks tm')" using assms that tm'(4) by (auto simp: iter_ok_def)
    then have "set (pending_deps tm' ! c) = set (parents tm' ! c) - done_tasks tm'"
      using ok' unfolding iter_ok_def by blast
    moreover have "c \<in> set (pending_tasks tm') \<longleftrightarrow> pending_deps tm' ! c \<noteq> []"
      using ok' c unfolding iter_ok_def by blast
    ultimately show ?thesis using tm'(2,3) by (metis Diff_eq_empty_iff set_empty)
  qed
  then have "set new = {c \<in> set (pending_tasks tm). set (parents tm ! c) \<subseteq> insert t (done_tasks tm)}"
    using new(2,3) by blast
  with True eq ok' tm' new(1) show ?thesis by auto
qed

theorem task_done_releases_dependents_witness:
  "\<exists>tm'. TaskManager_IterTaskDone 0 (snd (TaskManager_IterTaskPop (tm_calls Debug (sample_calls @ [Call_Finalise])))) =
     (Inr (), tm') \<and> iter_ok tm' \<and> ready_tasks tm' = [1]"
proof -
  let ?tm = "snd (TaskManager_IterTaskPop (tm_calls Debug (sample_calls @ [Call_Finalise])))"
  have "iter_ok ?tm" using tm_calls_ok(1) [of Debug "sample_calls @ [Call_Finalise, Call_IterTaskPop]"]
    by (simp add: tm_inv_def tm_eval TaskManager_IterTaskPop_def)
  moreover have "fst (TaskManager_IterTaskDone 0 ?tm) = Inr ()" "ready_tasks (snd (TaskManager_IterTaskDone 0 ?tm)) = [1]"
    by (simp_all add: tm_eval TaskManager_IterTaskPop_def TaskManager_IterTaskDone_def fulfil_def)
  ultimately show ?thesis using task_done_releases_dependents [of ?tm 0]
    by (cases "TaskManager_IterTaskDone 0 ?tm") auto
qed

text \<open>
  The cycle check is compiled into debug builds only. In a production build the tasks b
  and c can be made to depend on each other; after task a is done the iteration is neither
  complete nor has it a task to hand out or to wait for.
\<close>

theorem production_accepts_cycle:
  "let tm = tm_calls Production (sample_calls @ [Call_AddDependency 1 2, Call_Finalise, Call_IterTaskPop,
       Call_IterTaskDone 0])
   in fst (TaskManager_AddDependency Debug 1 2 (tm_calls Debug sample_calls)) =
        Inl (logic_error ''This will cause cyclic dependencies'') \<and>
      TaskManager_IterCompleted tm = Inr False \<and> TaskManager_IterTaskAvailable tm = Inr False \<and>
      TaskManager_IterGetAssignedCount tm = Inr 0 \<and> TaskManager_IterGetPendingCount tm = Inr 2"
  by (simp add: tm_eval TaskManager_IterTaskPop_def TaskManager_IterTaskDone_def fulfil_def
      TaskManager_IterCompleted_def TaskManager_IterTaskAvailable_def TaskManager_IterGetAssignedCount_def
      TaskManager_IterGetPendingCount_def bindR_def)

end
