(* ===== verification/Task_Queues.thy ===== *)
theory Task_Queues
  imports Task_Manager
begin

text \<open>
  \<open>src/flame2/exe/task_queue_interface.hpp\<close>, \<open>fifo_task_queue.{hpp,cpp}\<close> and
  \<open>splitting_fifo_task_queue.{hpp,cpp}\<close>: the two queues between the scheduler and the
  worker threads. Every method holds the queue's mutex, so it is one step. A worker that
  would wait on the condition variable gets \<open>None\<close>. \<open>TaskDone\<close> returns whether the
  scheduler's callback is called. The contract both queues keep is the locale
  \<open>task_queue\<close>.
\<close>

instantiation task_type :: linorder
begin

fun task_type_value :: "task_type \<Rightarrow> nat" where
  "task_type_value AGENT_FUNCTION = 0"
| "task_type_value IO_FUNCTION = 1"
| "task_type_value MB_FUNCTION = 2"

definition less_eq_task_type :: "task_type \<Rightarrow> task_type \<Rightarrow> bool" where
  "less_eq_task_type a b \<longleftrightarrow> task_type_value a \<le> task_type_value b"

definition less_task_type :: "task_type \<Rightarrow> task_type \<Rightarrow> bool" where
  "less_task_type a b \<longleftrightarrow> task_type_value a < task_type_value b"

instance
proof
  fix a b :: task_type
  show "a \<le> b \<Longrightarrow> b \<le> a \<Longrightarrow> a = b"
    by (cases a; cases b) (simp_all add: less_eq_task_type_def)
qed (auto simp: less_eq_task_type_def less_task_type_def)

end

section \<open>FIFO queue\<close>

record fifo_queue =
  fq_slots :: size_t
  fq_queue :: "nat list"

definition FIFOTaskQueue_new :: "size_t \<Rightarrow> exn + fifo_queue" where
  "FIFOTaskQueue_new slots =
     (if slots < 1 then Inl (invalid_argument ''slots must be > 0'')
      else Inr \<lparr>fq_slots = slots, fq_queue = []\<rparr>)"

definition FIFOTaskQueue_empty :: "fifo_queue \<Rightarrow> bool" where
  "FIFOTaskQueue_empty q \<longleftrightarrow> fq_queue q = []"

definition FIFOTaskQueue_Enqueue :: "nat \<Rightarrow> ('v memory_manager \<times> fifo_queue, unit) exec" where
  "FIFOTaskQueue_Enqueue task_id = (\<lambda>(mm, q). (Inr (), mm, q\<lparr>fq_queue := fq_queue q @ [task_id]\<rparr>))"

definition FIFOTaskQueue_TaskDone :: "nat \<Rightarrow> (fifo_queue, bool) exec" where
  "FIFOTaskQueue_TaskDone task_id q = (Inr True, q)"

definition FIFOTaskQueue_GetNextTask :: "fifo_queue \<Rightarrow> ((exn + nat) \<times> fifo_queue) option" where
  "FIFOTaskQueue_GetNextTask q =
     (case fq_queue q of [] \<Rightarrow> None | task_id # rest \<Rightarrow> Some (Inr task_id, q\<lparr>fq_queue := rest\<rparr>))"

definition TaskQueue_GetTaskById_default :: "'v task_manager \<Rightarrow> nat \<Rightarrow> ('q, 'v task) exec" where
  "TaskQueue_GetTaskById_default tm task_id q = (TaskManager_GetTask tm task_id, q)"

text \<open>The destructor sends one termination id per worker.\<close>

definition FIFOTaskQueue_destroy :: "('v memory_manager \<times> fifo_queue, unit) exec" where
  "FIFOTaskQueue_destroy s =
     forE (\<lambda>_. FIFOTaskQueue_Enqueue GetTermTaskId) [0..<unat (fq_slots (snd s))] s"

section \<open>Splitting FIFO queue\<close>

record 'v split_queue =
  splittable :: "task_type list"
  sq_queue :: "nat list"
  split_map :: "(nat \<times> 'v task_splitter) list"
  sq_slots :: size_t
  max_splits :: size_t
  min_vector_size :: size_t

definition DEFAULT_MIN_VECTOR_SIZE :: size_t where
  "DEFAULT_MIN_VECTOR_SIZE = 50"

definition SplittingFIFOTaskQueue_new :: "size_t \<Rightarrow> exn + 'v split_queue" where
  "SplittingFIFOTaskQueue_new slots =
     (if slots < 1 then Inl (invalid_argument ''slots must be > 0'')
      else Inr \<lparr>splittable = [], sq_queue = [], split_map = [], sq_slots = slots, max_splits = slots,
                min_vector_size = DEFAULT_MIN_VECTOR_SIZE\<rparr>)"

definition SplittingFIFOTaskQueue_SetSplittable :: "task_type \<Rightarrow> ('v split_queue, unit) exec" where
  "SplittingFIFOTaskQueue_SetSplittable task_type q =
     (Inr (), q\<lparr>splittable := oset_insert task_type (splittable q)\<rparr>)"

definition SplittingFIFOTaskQueue_SetMaxTasksPerSplit :: "size_t \<Rightarrow> ('v split_queue, unit) exec" where
  "SplittingFIFOTaskQueue_SetMaxTasksPerSplit n q =
     (if n < 1 then (Inl (invalid_argument ''max_splits must be > 0''), q)
      else (Inr (), q\<lparr>max_splits := n\<rparr>))"

definition SplittingFIFOTaskQueue_GetMaxTasksPerSplit :: "'v split_queue \<Rightarrow> size_t" where
  "SplittingFIFOTaskQueue_GetMaxTasksPerSplit q = max_splits q"

definition SplittingFIFOTaskQueue_SetMinVectorSize :: "size_t \<Rightarrow> ('v split_queue, unit) exec" where
  "SplittingFIFOTaskQueue_SetMinVectorSize n q =
     (if n < 1 then (Inl (invalid_argument ''min_vector_size must be > 0''), q)
      else (Inr (), q\<lparr>min_vector_size := n\<rparr>))"

definition SplittingFIFOTaskQueue_GetMinVectorSize :: "'v split_queue \<Rightarrow> size_t" where
  "SplittingFIFOTaskQueue_GetMinVectorSize q = min_vector_size q"

definition SplittingFIFOTaskQueue_empty :: "'v split_queue \<Rightarrow> bool" where
  "SplittingFIFOTaskQueue_empty q \<longleftrightarrow> sq_queue q = []"

definition SplittingFIFOTaskQueue_Enqueue ::
    "build \<Rightarrow> 'v task_manager \<Rightarrow> nat \<Rightarrow> ('v memory_manager \<times> 'v split_queue, unit) exec" where
  "SplittingFIFOTaskQueue_Enqueue b tm task_id = (\<lambda>(mm, q).
     let q' = q\<lparr>sq_queue := sq_queue q @ [task_id]\<rparr> in
     if IsTermTask task_id then (Inr (), mm, q')
     else
       (case TaskManager_GetTask tm task_id of
          Inl e \<Rightarrow> (Inl e, mm, q')
        | Inr t \<Rightarrow>
            if get_task_type t \<notin> set (splittable q') then (Inr (), mm, q')
            else
              (case Task_SplitTask b t (max_splits q') (min_vector_size q') mm of
                 (Inl e, mm') \<Rightarrow> (Inl e, mm', q')
               | (Inr None, mm') \<Rightarrow> (Inr (), mm', q')
               | (Inr (Some ts), mm') \<Rightarrow>
                   if omap_has (split_map q') task_id then (Inl (logic_error ''task id conflict''), mm', q')
                   else (Inr (), mm', q'\<lparr>split_map := omap_put task_id ts (split_map q')\<rparr>))))"

definition SplittingFIFOTaskQueue_TaskDone :: "build \<Rightarrow> nat \<Rightarrow> ('v split_queue, bool) exec" where
  "SplittingFIFOTaskQueue_TaskDone b task_id q =
     (case map_of (split_map q) task_id of
        None \<Rightarrow> (Inr True, q\<lparr>split_map := omap_erase task_id (split_map q)\<rparr>)
      | Some ts \<Rightarrow>
          (case TaskSplitter_OneTaskDone b ts of
             (Inl e, ts') \<Rightarrow> (Inl e, q\<lparr>split_map := omap_put task_id ts' (split_map q)\<rparr>)
           | (Inr all_completed, ts') \<Rightarrow>
               if \<not> all_completed then (Inr False, q\<lparr>split_map := omap_put task_id ts' (split_map q)\<rparr>)
               else (Inr True, q\<lparr>split_map := omap_erase task_id (split_map q)\<rparr>)))"

definition SplittingFIFOTaskQueue_GetNextTask ::
    "build \<Rightarrow> 'v split_queue \<Rightarrow> ((exn + nat) \<times> 'v split_queue) option" where
  "SplittingFIFOTaskQueue_GetNextTask b q =
     (case sq_queue q of
        [] \<Rightarrow> None
      | task_id # rest \<Rightarrow>
          Some
            (case map_of (split_map q) task_id of
               None \<Rightarrow> (Inr task_id, q\<lparr>sq_queue := rest\<rparr>)
             | Some ts \<Rightarrow>
                 (case TaskSplitter_OneTaskAssigned b ts of
                    (Inl e, ts') \<Rightarrow> (Inl e, q\<lparr>split_map := omap_put task_id ts' (split_map q)\<rparr>)
                  | (Inr none_remaining, ts') \<Rightarrow>
                      (Inr task_id, q\<lparr>split_map := omap_put task_id ts' (split_map q),
                         sq_queue := (if none_remaining then rest else sq_queue q)\<rparr>))))"

definition SplittingFIFOTaskQueue_GetTaskById ::
    "build \<Rightarrow> 'v task_manager \<Rightarrow> nat \<Rightarrow> ('v split_queue, 'v task) exec" where
  "SplittingFIFOTaskQueue_GetTaskById b tm task_id q =
     (case map_of (split_map q) task_id of
        None \<Rightarrow> (TaskManager_GetTask tm task_id, q)
      | Some ts \<Rightarrow>
          (case TaskSplitter_GetTask b ts of
             (r, ts') \<Rightarrow> (r, q\<lparr>split_map := omap_put task_id ts' (split_map q)\<rparr>)))"

definition SplittingFIFOTaskQueue_destroy ::
    "build \<Rightarrow> 'v task_manager \<Rightarrow> ('v memory_manager \<times> 'v split_queue, unit) exec" where
  "SplittingFIFOTaskQueue_destroy b tm s =
     forE (\<lambda>_. SplittingFIFOTaskQueue_Enqueue b tm GetTermTaskId) [0..<unat (sq_slots (snd s))] s"

section \<open>The queue contract\<close>

text \<open>
  \<open>A\<close> is the multiset of ids a worker has been given and not yet looked up, \<open>R\<close> of
  those whose task the worker has fetched and not yet reported as done. A task is active
  in a queue while it waits there or a worker has a part of it; \<open>units\<close> counts the parts
  not yet given to a worker.
\<close>

locale task_queue =
  fixes valid :: "nat \<Rightarrow> bool"
    and enqueue :: "nat \<Rightarrow> ('m \<times> 'q, unit) exec"
    and get_next :: "'q \<Rightarrow> ((exn + nat) \<times> 'q) option"
    and get_task :: "nat \<Rightarrow> ('q, 'v task) exec"
    and task_done :: "nat \<Rightarrow> ('q, bool) exec"
    and queued :: "'q \<Rightarrow> nat set"
    and units :: "'q \<Rightarrow> nat"
    and inv :: "'q \<Rightarrow> nat multiset \<Rightarrow> nat multiset \<Rightarrow> bool"
  assumes enqueue_law:
      "inv q A R \<Longrightarrow> valid i \<Longrightarrow> i \<notin> queued q \<union> set_mset A \<union> set_mset R \<Longrightarrow>
        enqueue i (m, q) = (Inr (), m', q') \<Longrightarrow> inv q' A R \<and> queued q' = insert i (queued q)"
    and next_blocks: "inv q A R \<Longrightarrow> queued q = {} \<Longrightarrow> get_next q = None"
    and next_law:
      "inv q A R \<Longrightarrow> queued q \<noteq> {} \<Longrightarrow>
        \<exists>i q'. get_next q = Some (Inr i, q') \<and> i \<in> queued q \<and> queued q = insert i (queued q') \<and>
          inv q' (add_mset i A) R \<and> units q = Suc (units q')"
    and fetch_law:
      "inv q A R \<Longrightarrow> i \<in># A \<Longrightarrow>
        \<exists>tk q'. get_task i q = (Inr tk, q') \<and> inv q' (A - {#i#}) (add_mset i R) \<and>
          queued q' = queued q \<and> units q' = units q"
    and done_law:
      "inv q A R \<Longrightarrow> i \<in># R \<Longrightarrow>
        \<exists>cb q'. task_done i q = (Inr cb, q') \<and> inv q' A (R - {#i#}) \<and> queued q' = queued q \<and>
          units q' = units q \<and> (cb \<longleftrightarrow> i \<notin> queued q \<union> set_mset A \<union> set_mset (R - {#i#}))"
begin

definition active :: "'q \<Rightarrow> nat multiset \<Rightarrow> nat multiset \<Rightarrow> nat set" where
  "active q A R = queued q \<union> set_mset A \<union> set_mset R"

text \<open>One step of some worker; the label is the id the callback is called with.\<close>

inductive worker_step ::
    "'q \<times> nat multiset \<times> nat multiset \<Rightarrow> nat list \<Rightarrow> 'q \<times> nat multiset \<times> nat multiset \<Rightarrow> bool" where
  take: "get_next q = Some (Inr i, q') \<Longrightarrow> worker_step (q, A, R) [] (q', add_mset i A, R)"
| fetch: "i \<in># A \<Longrightarrow> get_task i q = (Inr tk, q') \<Longrightarrow>
    worker_step (q, A, R) [] (q', A - {#i#}, add_mset i R)"
| complete: "i \<in># R \<Longrightarrow> task_done i q = (Inr cb, q') \<Longrightarrow>
    worker_step (q, A, R) (if cb then [i] else []) (q', A, R - {#i#})"

inductive worker_run ::
    "'q \<times> nat multiset \<times> nat multiset \<Rightarrow> nat list \<Rightarrow> 'q \<times> nat multiset \<times> nat multiset \<Rightarrow> bool" where
  start: "worker_run s [] s"
| more: "worker_run s cbs s' \<Longrightarrow> worker_step s' cb s'' \<Longrightarrow> worker_run s (cbs @ cb) s''"

definition work_left :: "'q \<times> nat multiset \<times> nat multiset \<Rightarrow> nat" where
  "work_left = (\<lambda>(q, A, R). 3 * units q + 2 * size A + size R)"

text \<open>
  A step keeps the invariant, uses up work, and the callback names exactly the task that
  stops being active.
\<close>

lemma worker_step_law:
  assumes "worker_step s cb s'" "s = (q, A, R)" "s' = (q', A', R')" "inv q A R"
  shows "inv q' A' R' \<and> work_left s' < work_left s \<and> distinct cb \<and>
    active q A R = active q' A' R' \<union> set cb \<and> set cb \<inter> active q' A' R' = {}"
  using assms
proof (cases rule: worker_step.cases)
  case (take p i p' B S)
  with assms have eq: "p = q" "B = A" "S = R" "p' = q'" "A' = add_mset i A" "R' = R" "cb = []" by auto
  then have "queued q \<noteq> {}" using take next_blocks [OF assms(4)] by auto
  from next_law [OF assms(4) this] take eq assms show ?thesis
    by (auto simp: active_def work_left_def)
next
  case (fetch i B p tk p' S)
  with assms have eq: "p = q" "B = A" "S = R" "p' = q'" "A' = A - {#i#}" "R' = add_mset i R" "cb = []" by auto
  then have "i \<in># A" using fetch by simp
  from fetch_law [OF assms(4) this] fetch eq have q': "inv q' A' R'" "queued q' = queued q" "units q' = units q"
    by auto
  obtain B' where B': "A = add_mset i B'" using \<open>i \<in># A\<close> by (metis mset_add)
  with q' eq assms show ?thesis by (auto simp: active_def work_left_def)
next
  case (complete i S p c p' B)
  with assms have eq: "p = q" "B = A" "S = R" "p' = q'" "A' = A" "R' = R - {#i#}"
    "cb = (if c then [i] else [])" by auto
  then have "i \<in># R" using complete by simp
  from done_law [OF assms(4) this] complete eq have q': "inv q' A' R'" "queued q' = queued q"
    "units q' = units q" "c \<longleftrightarrow> i \<notin> queued q \<union> set_mset A \<union> set_mset (R - {#i#})" by auto
  obtain S' where S': "R = add_mset i S'" using \<open>i \<in># R\<close> by (metis mset_add)
  with q' eq assms show ?thesis by (auto simp: active_def work_left_def)
qed

text \<open>
  Over any interleaving of workers the callback is called at most once for each task that
  was active, and never for one that is still active: a task is reported when and only
  when its last part is done.
\<close>

lemma worker_run_callbacks:
  assumes "worker_run s cbs s'" "s = (q, A, R)" "inv q A R"
  shows "\<exists>q' A' R'. s' = (q', A', R') \<and> inv q' A' R' \<and> distinct cbs \<and>
    active q A R = active q' A' R' \<union> set cbs \<and> set cbs \<inter> active q' A' R' = {} \<and>
    work_left s' \<le> work_left s"
  using assms
proof (induction rule: worker_run.induct)
  case (start s)
  then show ?case by (auto simp: active_def)
next
  case (more s cbs s' cb s'')
  then obtain q1 A1 R1 where IH: "s' = (q1, A1, R1)" "inv q1 A1 R1" "distinct cbs"
    "active q A R = active q1 A1 R1 \<union> set cbs" "set cbs \<inter> active q1 A1 R1 = {}"
    "work_left s' \<le> work_left s" by blast
  obtain q2 A2 R2 where s2: "s'' = (q2, A2, R2)" by (cases s'')
  from worker_step_law [OF more.hyps(2) IH(1) s2 IH(2)] IH s2 show ?case
    by (intro exI [of _ q2] exI [of _ A2] exI [of _ R2]) (auto simp: Int_Un_distrib)
qed

text \<open>While a task is active some worker can make a step.\<close>

lemma worker_progress:
  assumes "inv q A R" "active q A R \<noteq> {}"
  shows "\<exists>cb s'. worker_step (q, A, R) cb s'"
proof (cases "queued q = {}")
  case False
  with next_law [OF assms(1)] show ?thesis by (meson take)
next
  case True
  then obtain i where "i \<in># A \<or> i \<in># R" using assms(2) by (auto simp: active_def)
  then show ?thesis using fetch_law [OF assms(1), of i] done_law [OF assms(1), of i]
    by (metis fetch complete)
qed

end

section \<open>The FIFO queue keeps the contract\<close>

definition fifo_inv :: "'v task_manager \<Rightarrow> fifo_queue \<Rightarrow> nat multiset \<Rightarrow> nat multiset \<Rightarrow> bool" where
  "fifo_inv tm q A R \<longleftrightarrow> (\<forall>i. count (mset (fq_queue q) + A + R) i \<le> 1) \<and>
     (\<forall>i \<in># mset (fq_queue q) + A + R. TaskManager_IsValidID tm i)"

lemma remove1_swap: "i \<in># A \<Longrightarrow> M + (A - {#i#}) + add_mset i R = M + A + R"
  by (metis add_mset_add_single insert_DiffM2 union_assoc union_commute)

lemma one_count:
  assumes "\<forall>x. count (M + A + R) x \<le> (1::nat)" "i \<in># R"
  shows "i \<notin># M" "i \<notin># A" "i \<notin># R - {#i#}"
proof -
  have "count M i + count A i + count R i \<le> 1" using assms(1) by (metis count_union)
  moreover have "count R i \<ge> 1" using assms(2) by (simp add: Suc_le_eq)
  ultimately have "count M i = 0" "count A i = 0" "count R i = 1" by linarith+
  then show "i \<notin># M" "i \<notin># A" "i \<notin># R - {#i#}" by (auto simp: not_in_iff)
qed

lemma count_remove_le:
  assumes "\<forall>x. count (M + A + R) x \<le> (1::nat)"
  shows "\<forall>x. count (M + A + (R - {#i#})) x \<le> 1"
proof
  fix x
  have "count M x + count A x + count R x \<le> 1" using assms by (metis count_union)
  moreover have "count (R - {#i#}) x \<le> count R x" by simp
  ultimately show "count (M + A + (R - {#i#})) x \<le> 1" unfolding count_union by linarith
qed

lemma GetTask_valid:
  "TaskManager_IsValidID tm i \<Longrightarrow> TaskManager_GetTask tm i = Inr (tm_tasks tm ! i)"
  by (simp add: TaskManager_IsValidID_def TaskManager_GetTask_def)

interpretation fifo: task_queue "TaskManager_IsValidID tm"
    "FIFOTaskQueue_Enqueue :: nat \<Rightarrow> ('v memory_manager \<times> fifo_queue, unit) exec"
    FIFOTaskQueue_GetNextTask "TaskQueue_GetTaskById_default tm" FIFOTaskQueue_TaskDone
    "\<lambda>q. set (fq_queue q)" "\<lambda>q. length (fq_queue q)" "fifo_inv tm" for tm :: "'v task_manager"
proof unfold_locales
  fix q A R i and m :: "'v memory_manager" and m' q'
  assume inv: "fifo_inv tm q A R" and v: "TaskManager_IsValidID tm i"
    and new: "i \<notin> set (fq_queue q) \<union> set_mset A \<union> set_mset R"
    and e: "FIFOTaskQueue_Enqueue i (m, q) = (Inr (), m', q')"
  then have "count (mset (fq_queue q) + A + R) i = 0" by (simp add: not_in_iff)
  with inv v e show "fifo_inv tm q' A R \<and> set (fq_queue q') = insert i (set (fq_queue q))"
    by (auto simp: FIFOTaskQueue_Enqueue_def fifo_inv_def)
next
  fix q A R
  assume "fifo_inv tm q A R" "set (fq_queue q) = {}"
  then show "FIFOTaskQueue_GetNextTask q = None" by (simp add: FIFOTaskQueue_GetNextTask_def)
next
  fix q A R
  assume inv: "fifo_inv tm q A R" and "set (fq_queue q) \<noteq> {}"
  then obtain i rest where q: "fq_queue q = i # rest" by (cases "fq_queue q") auto
  have eq: "mset (fq_queue q) + A + R = mset rest + add_mset i A + R" by (simp add: q)
  have "fifo_inv tm (q\<lparr>fq_queue := rest\<rparr>) (add_mset i A) R"
    using inv unfolding fifo_inv_def eq by simp
  with q show "\<exists>i q'. FIFOTaskQueue_GetNextTask q = Some (Inr i, q') \<and> i \<in> set (fq_queue q) \<and>
      set (fq_queue q) = insert i (set (fq_queue q')) \<and> fifo_inv tm q' (add_mset i A) R \<and>
      length (fq_queue q) = Suc (length (fq_queue q'))"
    by (auto simp: FIFOTaskQueue_GetNextTask_def)
next
  fix q A R i
  assume inv: "fifo_inv tm q A R" and i: "i \<in># A"
  then have "TaskManager_GetTask tm i = Inr (tm_tasks tm ! i)"
    by (intro GetTask_valid) (auto simp: fifo_inv_def)
  with inv show "\<exists>tk q'. TaskQueue_GetTaskById_default tm i q = (Inr tk, q') \<and>
      fifo_inv tm q' (A - {#i#}) (add_mset i R) \<and> set (fq_queue q') = set (fq_queue q) \<and>
      length (fq_queue q') = length (fq_queue q)"
    unfolding TaskQueue_GetTaskById_default_def fifo_inv_def remove1_swap [OF i] by auto
next
  fix q A R i
  assume inv: "fifo_inv tm q A R" and i: "i \<in># R"
  have "fifo_inv tm q A (R - {#i#})"
    unfolding fifo_inv_def
  proof
    show "\<forall>j. count (mset (fq_queue q) + A + (R - {#i#})) j \<le> 1"
      by (rule count_remove_le) (use inv in \<open>simp add: fifo_inv_def\<close>)
  qed (use inv in \<open>auto simp: fifo_inv_def dest: in_diffD\<close>)
  moreover have "i \<notin> set (fq_queue q) \<union> set_mset A \<union> set_mset (R - {#i#})"
    using inv one_count [OF _ i, of "mset (fq_queue q)" A] by (simp add: fifo_inv_def)
  ultimately show "\<exists>cb q'. FIFOTaskQueue_TaskDone i q = (Inr cb, q') \<and> fifo_inv tm q' A (R - {#i#}) \<and>
      set (fq_queue q') = set (fq_queue q) \<and> length (fq_queue q') = length (fq_queue q) \<and>
      cb = (i \<notin> set (fq_queue q) \<union> set_mset A \<union> set_mset (R - {#i#}))"
    by (auto simp: FIFOTaskQueue_TaskDone_def)
qed

section \<open>The splitting queue keeps the contract\<close>

text \<open>
  The counters of a splitter while \<open>a\<close> workers were given a part and \<open>r\<close> workers have
  fetched one; \<open>wait\<close> tells whether the id is still in the queue.
\<close>

definition ts_ok :: "'v task_splitter \<Rightarrow> nat \<Rightarrow> nat \<Rightarrow> bool \<Rightarrow> bool" where
  "ts_ok ts a r wait \<longleftrightarrow> length (ts_tasks ts) < 2 ^ 64 \<and> unat (ts_running ts) = a + r \<and>
     unat (ts_next ts) + a + unat (ts_pending ts) = length (ts_tasks ts) \<and> r \<le> unat (ts_next ts) \<and>
     (wait \<longleftrightarrow> ts_pending ts \<noteq> 0) \<and> 0 < a + r + unat (ts_pending ts)"

lemma unat_pred: "(x :: size_t) \<noteq> 0 \<Longrightarrow> Suc (unat (x - 1)) = unat x"
  by (metis Suc_diff_1 unat_gt_0 unat_minus_one)

lemma unat_succ: "Suc (unat (x :: size_t)) < 2 ^ 64 \<Longrightarrow> unat (x + 1) = Suc (unat x)"
  using unat_plus_size_t [of x 1] by simp

lemma not_less_one: "\<not> (x :: size_t) < 1 \<longleftrightarrow> x \<noteq> 0"
  by (simp add: word_less_nat_alt unat_eq_0)

lemma OneTaskAssigned_ok:
  assumes ok: "ts_ok ts a r True"
  shows "\<exists>none ts'. TaskSplitter_OneTaskAssigned b ts = (Inr none, ts') \<and> ts_ok ts' (Suc a) r (\<not> none) \<and>
    unat (ts_pending ts) = Suc (unat (ts_pending ts')) \<and> (none \<longleftrightarrow> ts_pending ts' = 0)"
proof -
  have p: "ts_pending ts \<noteq> 0" using ok by (simp add: ts_ok_def)
  note pr = unat_pred [OF p]
  have "Suc (unat (ts_running ts)) < 2 ^ 64" using ok pr by (auto simp: ts_ok_def)
  then have "unat (ts_running ts + 1) = Suc (unat (ts_running ts))" by (rule unat_succ)
  with ok p pr show ?thesis
    by (auto simp: TaskSplitter_OneTaskAssigned_def TaskSplitter_NonePending_def Let_def ts_ok_def not_less_one)
qed

lemma splitter_GetTask_ok:
  assumes ok: "ts_ok ts (Suc a) r wait"
  shows "\<exists>tk ts'. TaskSplitter_GetTask b ts = (Inr tk, ts') \<and> tk = ts_tasks ts ! unat (ts_next ts) \<and>
    unat (ts_next ts) < length (ts_tasks ts) \<and> unat (ts_next ts') = Suc (unat (ts_next ts)) \<and>
    ts_ok ts' a (Suc r) wait \<and> ts_pending ts' = ts_pending ts \<and> ts_tasks ts' = ts_tasks ts"
proof -
  have "Suc (unat (ts_next ts)) < 2 ^ 64 \<or> unat (ts_next ts) < length (ts_tasks ts)"
    using ok by (auto simp: ts_ok_def)
  moreover have less: "unat (ts_next ts) < length (ts_tasks ts)" using ok by (simp add: ts_ok_def)
  ultimately have "unat (ts_next ts + 1) = Suc (unat (ts_next ts))"
    using ok by (intro unat_succ) (auto simp: ts_ok_def)
  with ok less show ?thesis by (auto simp: TaskSplitter_GetTask_def ts_ok_def)
qed

lemma OneTaskDone_ok:
  assumes ok: "ts_ok ts a (Suc r) wait"
  shows "\<exists>all ts'. TaskSplitter_OneTaskDone b ts = (Inr all, ts') \<and>
    (all \<longleftrightarrow> \<not> wait \<and> a = 0 \<and> r = 0) \<and> (\<not> all \<longrightarrow> ts_ok ts' a r wait) \<and> ts_pending ts' = ts_pending ts"
proof -
  have p: "ts_running ts \<noteq> 0" using ok by (auto simp: ts_ok_def)
  have run: "unat (ts_running ts - 1) = a + r" using unat_pred [OF p] ok by (simp add: ts_ok_def)
  then have "ts_running ts - 1 = 0 \<longleftrightarrow> a = 0 \<and> r = 0" by (metis add_is_0 unat_eq_0)
  with ok p run show ?thesis
    by (auto simp: TaskSplitter_OneTaskDone_def TaskSplitter_IsComplete_def Let_def ts_ok_def not_less_one
        unat_gt_0)
qed

lemma length_SplitTask_loop:
  "length (SplitTask_loop tk ap n q r i off) = unat n - unat i"
proof (induction tk ap n q r i off rule: SplitTask_loop.induct)
  case (1 tk ap n q r i off)
  then show ?case using size_t_next_less [of i n]
    by (subst SplitTask_loop.simps) (auto simp: Let_def word_less_nat_alt)
qed

lemma SplitTask_ts_ok:
  assumes "Task_SplitTask b tk mx mn mm = (Inr (Some ts), mm')"
  shows "ts_ok ts 0 0 True"
proof -
  have "ts_ok (TaskSplitter_new i (SplitTask_loop tk' ap n q r 0 off)) 0 0 True" if "n \<noteq> 0"
    for i and tk' :: "'a task" and ap n q r off
  proof -
    have "length (SplitTask_loop tk' ap n q r 0 off) = unat n" by (simp add: length_SplitTask_loop)
    moreover have "0 < unat n" using that by (simp add: unat_gt_0)
    ultimately show ?thesis
      using size_t_bound [of n] that by (simp add: ts_ok_def TaskSplitter_new_def)
  qed
  with assms show ?thesis
    by (auto simp: Task_SplitTask_def AgentTask_SplitTask_def Let_def
        split: task_body.splits option.splits prod.splits sum.splits if_splits)
qed

definition sq_id_ok :: "'v split_queue \<Rightarrow> nat multiset \<Rightarrow> nat multiset \<Rightarrow> nat \<Rightarrow> bool" where
  "sq_id_ok q A R i =
     (case map_of (split_map q) i of
        None \<Rightarrow> count (mset (sq_queue q) + A + R) i \<le> 1
      | Some ts \<Rightarrow> ts_ok ts (count A i) (count R i) (i \<in> set (sq_queue q)))"

definition sq_inv :: "'v task_manager \<Rightarrow> 'v split_queue \<Rightarrow> nat multiset \<Rightarrow> nat multiset \<Rightarrow> bool" where
  "sq_inv tm q A R \<longleftrightarrow> distinct (sq_queue q) \<and> (\<forall>i. sq_id_ok q A R i) \<and>
     (\<forall>i \<in> set (sq_queue q) \<union> set_mset A \<union> set_mset R. TaskManager_IsValidID tm i)"

definition sq_unit :: "'v split_queue \<Rightarrow> nat \<Rightarrow> nat" where
  "sq_unit q i = (case map_of (split_map q) i of None \<Rightarrow> 1 | Some ts \<Rightarrow> unat (ts_pending ts))"

definition sq_units :: "'v split_queue \<Rightarrow> nat" where
  "sq_units q = sum_list (map (sq_unit q) (sq_queue q))"

lemma sq_id_ok_cong:
  assumes "map_of (split_map q') i = map_of (split_map q) i" "i \<in> set (sq_queue q') \<longleftrightarrow> i \<in> set (sq_queue q)"
    "count (mset (sq_queue q')) i = count (mset (sq_queue q)) i" "count A' i = count A i" "count R' i = count R i"
  shows "sq_id_ok q' A' R' i = sq_id_ok q A R i"
  using assms by (simp add: sq_id_ok_def split: option.split)

lemma sq_units_cong:
  assumes "sq_queue q' = sq_queue q" "\<And>i. i \<in> set (sq_queue q) \<Longrightarrow> sq_unit q' i = sq_unit q i"
  shows "sq_units q' = sq_units q"
  unfolding sq_units_def assms(1) using assms(2) by (metis (no_types, lifting) map_eq_conv)

lemma sq_inactive:
  assumes "sq_inv tm q A R" "i \<notin> set (sq_queue q) \<union> set_mset A \<union> set_mset R"
  shows "map_of (split_map q) i = None"
proof (rule ccontr)
  assume "map_of (split_map q) i \<noteq> None"
  then obtain ts where "map_of (split_map q) i = Some ts" by auto
  moreover have "sq_id_ok q A R i" using assms(1) by (simp add: sq_inv_def)
  moreover have "count A i = 0" "count R i = 0" "i \<notin> set (sq_queue q)"
    using assms(2) by (simp_all add: not_in_iff)
  ultimately show False by (auto simp: sq_id_ok_def ts_ok_def)
qed

lemma sq_enqueue:
  assumes inv: "sq_inv tm q A R" and v: "TaskManager_IsValidID tm i"
    and new: "i \<notin> set (sq_queue q) \<union> set_mset A \<union> set_mset R"
    and e: "SplittingFIFOTaskQueue_Enqueue b tm i (m, q) = (Inr (), m', q')"
  shows "sq_inv tm q' A R \<and> set (sq_queue q') = insert i (set (sq_queue q))"
proof -
  have none: "map_of (split_map q) i = None" using sq_inactive [OF inv new] .
  have zero: "count (mset (sq_queue q)) i = 0" "count A i = 0" "count R i = 0"
    using new by (simp_all add: not_in_iff)
  have q': "sq_queue q' = sq_queue q @ [i]" "split_map q' = split_map q \<or>
      (\<exists>ts. split_map q' = omap_put i ts (split_map q) \<and> ts_ok ts 0 0 True)"
    using e by (auto simp: SplittingFIFOTaskQueue_Enqueue_def Let_def dest: SplitTask_ts_ok
        split: if_splits sum.splits prod.splits option.splits)
  have "sq_id_ok q' A R j" for j
  proof (cases "j = i")
    case True
    then show ?thesis using q' none zero by (auto simp: sq_id_ok_def)
  next
    case False
    then have "sq_id_ok q' A R j = sq_id_ok q A R j"
      using q' by (intro sq_id_ok_cong) auto
    then show ?thesis using inv by (simp add: sq_inv_def)
  qed
  then show ?thesis using inv v new q'(1) by (auto simp: sq_inv_def)
qed

lemma sq_next:
  assumes inv: "sq_inv tm q A R" and ne: "set (sq_queue q) \<noteq> {}"
  shows "\<exists>i q'. SplittingFIFOTaskQueue_GetNextTask b q = Some (Inr i, q') \<and> i \<in> set (sq_queue q) \<and>
    set (sq_queue q) = insert i (set (sq_queue q')) \<and> sq_inv tm q' (add_mset i A) R \<and>
    sq_units q = Suc (sq_units q')"
proof -
  obtain i rest where q: "sq_queue q = i # rest" using ne by (cases "sq_queue q") auto
  have d: "i \<notin> set rest" "distinct rest" using inv q by (simp_all add: sq_inv_def)
  have iok: "sq_id_ok q A R i" and valid: "\<forall>j \<in> insert i (set rest) \<union> set_mset A \<union> set_mset R. TaskManager_IsValidID tm j"
    using inv q by (auto simp: sq_inv_def)
  have other: "sq_id_ok q A R j" for j using inv by (simp add: sq_inv_def)
  show ?thesis
  proof (cases "map_of (split_map q) i")
    case None
    let ?q = "q\<lparr>sq_queue := rest\<rparr>"
    have "sq_id_ok ?q (add_mset i A) R j" for j
    proof (cases "j = i")
      case True
      then show ?thesis using iok None q by (simp add: sq_id_ok_def)
    next
      case False
      then have "sq_id_ok ?q (add_mset i A) R j = sq_id_ok q A R j"
        using q by (intro sq_id_ok_cong) auto
      then show ?thesis using other by simp
    qed
    then have "sq_inv tm ?q (add_mset i A) R" using d valid by (auto simp: sq_inv_def)
    moreover have "sq_units q = Suc (sq_units ?q)"
      using None by (simp add: sq_units_def q sq_unit_def [abs_def])
    ultimately show ?thesis using None q
      by (simp add: SplittingFIFOTaskQueue_GetNextTask_def)
  next
    case (Some ts)
    then have "ts_ok ts (count A i) (count R i) True" using iok q by (simp add: sq_id_ok_def)
    from OneTaskAssigned_ok [OF this, of b] obtain none ts' where ts':
      "TaskSplitter_OneTaskAssigned b ts = (Inr none, ts')"
      "ts_ok ts' (Suc (count A i)) (count R i) (\<not> none)"
      "unat (ts_pending ts) = Suc (unat (ts_pending ts'))" "none \<longleftrightarrow> ts_pending ts' = 0" by blast
    let ?q = "q\<lparr>split_map := omap_put i ts' (split_map q), sq_queue := (if none then rest else sq_queue q)\<rparr>"
    have "sq_id_ok ?q (add_mset i A) R j" for j
    proof (cases "j = i")
      case True
      then show ?thesis using ts'(2) q d by (cases none) (simp_all add: sq_id_ok_def)
    next
      case False
      then have "sq_id_ok ?q (add_mset i A) R j = sq_id_ok q A R j"
        using q by (intro sq_id_ok_cong) auto
      then show ?thesis using other by simp
    qed
    then have inv': "sq_inv tm ?q (add_mset i A) R" using d valid q by (auto simp: sq_inv_def)
    have same: "sq_unit ?q j = sq_unit q j" if "j \<in> set rest" for j
      using that d(1) by (auto simp: sq_unit_def)
    have "sum_list (map (sq_unit ?q) rest) = sum_list (map (sq_unit q) rest)"
      by (rule arg_cong [of _ _ sum_list], rule map_cong [OF refl], rule same)
    moreover have "sq_unit q i = Suc (sq_unit ?q i)" "none \<longrightarrow> sq_unit ?q i = 0"
      using Some ts'(3,4) by (simp_all add: sq_unit_def)
    ultimately have "sq_units q = Suc (sq_units ?q)" by (cases none) (simp_all add: sq_units_def q)
    with inv' ts'(1) Some q show ?thesis
      by (auto simp: SplittingFIFOTaskQueue_GetNextTask_def)
  qed
qed

lemma sq_update_other:
  assumes inv: "sq_inv tm q A R" and j: "j \<noteq> i"
    and "sq_queue q' = sq_queue q" "map_of (split_map q') j = map_of (split_map q) j"
    "count A' j = count A j" "count R' j = count R j"
  shows "sq_id_ok q' A' R' j"
proof -
  have "sq_id_ok q' A' R' j = sq_id_ok q A R j" using assms by (intro sq_id_ok_cong) auto
  then show ?thesis using inv by (simp add: sq_inv_def)
qed

lemma sq_fetch:
  assumes inv: "sq_inv tm q A R" and i: "i \<in># A"
  shows "\<exists>tk q'. SplittingFIFOTaskQueue_GetTaskById b tm i q = (Inr tk, q') \<and>
    sq_inv tm q' (A - {#i#}) (add_mset i R) \<and> set (sq_queue q') = set (sq_queue q) \<and> sq_units q' = sq_units q"
proof -
  have iok: "sq_id_ok q A R i" and valid: "TaskManager_IsValidID tm i" using inv i by (auto simp: sq_inv_def)
  obtain a where a: "count A i = Suc a" "count (A - {#i#}) i = a"
    using i by (auto dest!: multi_member_split)
  have keep: "sq_inv tm q' (A - {#i#}) (add_mset i R)"
    if "sq_queue q' = sq_queue q" "\<And>j. j \<noteq> i \<Longrightarrow> map_of (split_map q') j = map_of (split_map q) j"
      "sq_id_ok q' (A - {#i#}) (add_mset i R) i" for q'
    unfolding sq_inv_def
  proof (intro conjI allI)
    show "sq_id_ok q' (A - {#i#}) (add_mset i R) j" for j
      using that by (cases "j = i") (auto intro: sq_update_other [OF inv])
  qed (use inv i that(1) in \<open>auto simp: sq_inv_def dest: in_diffD\<close>)
  show ?thesis
  proof (cases "map_of (split_map q) i")
    case None
    have "sq_id_ok q (A - {#i#}) (add_mset i R) i" using iok None a by (simp add: sq_id_ok_def)
    then have "sq_inv tm q (A - {#i#}) (add_mset i R)" by (intro keep) auto
    then show ?thesis using None GetTask_valid [OF valid]
      by (simp add: SplittingFIFOTaskQueue_GetTaskById_def)
  next
    case (Some ts)
    then have "ts_ok ts (Suc a) (count R i) (i \<in> set (sq_queue q))" using iok a by (simp add: sq_id_ok_def)
    from splitter_GetTask_ok [OF this, of b] obtain tk ts' where ts':
      "TaskSplitter_GetTask b ts = (Inr tk, ts')" "ts_ok ts' a (Suc (count R i)) (i \<in> set (sq_queue q))"
      "ts_pending ts' = ts_pending ts" by blast
    let ?q = "q\<lparr>split_map := omap_put i ts' (split_map q)\<rparr>"
    have "sq_id_ok ?q (A - {#i#}) (add_mset i R) i" using ts'(2) a by (simp add: sq_id_ok_def)
    then have "sq_inv tm ?q (A - {#i#}) (add_mset i R)" by (intro keep) auto
    moreover have "sq_units ?q = sq_units q"
      using Some ts'(3) by (intro sq_units_cong) (auto simp: sq_unit_def)
    ultimately show ?thesis using Some ts'(1) by (simp add: SplittingFIFOTaskQueue_GetTaskById_def)
  qed
qed

lemma sq_done:
  assumes inv: "sq_inv tm q A R" and i: "i \<in># R"
  shows "\<exists>cb q'. SplittingFIFOTaskQueue_TaskDone b i q = (Inr cb, q') \<and> sq_inv tm q' A (R - {#i#}) \<and>
    set (sq_queue q') = set (sq_queue q) \<and> sq_units q' = sq_units q \<and>
    (cb \<longleftrightarrow> i \<notin> set (sq_queue q) \<union> set_mset A \<union> set_mset (R - {#i#}))"
proof -
  have iok: "sq_id_ok q A R i" using inv by (simp add: sq_inv_def)
  obtain r where r: "count R i = Suc r" "count (R - {#i#}) i = r"
    using i by (auto dest!: multi_member_split)
  have keep: "sq_inv tm q' A (R - {#i#})"
    if "sq_queue q' = sq_queue q" "\<And>j. j \<noteq> i \<Longrightarrow> map_of (split_map q') j = map_of (split_map q) j"
      "sq_id_ok q' A (R - {#i#}) i" for q'
    unfolding sq_inv_def
  proof (intro conjI allI)
    show "sq_id_ok q' A (R - {#i#}) j" for j
      using that by (cases "j = i") (auto intro: sq_update_other [OF inv])
  qed (use inv that(1) in \<open>auto simp: sq_inv_def dest: in_diffD\<close>)
  have gone: "i \<notin># R - {#i#} \<longleftrightarrow> r = 0" "i \<notin># A \<longleftrightarrow> count A i = 0"
    using r by (simp_all add: not_in_iff)
  show ?thesis
  proof (cases "map_of (split_map q) i")
    case None
    then have z: "count (mset (sq_queue q)) i = 0" "count A i = 0" "r = 0"
      using iok r by (simp_all add: sq_id_ok_def)
    let ?q = "q\<lparr>split_map := omap_erase i (split_map q)\<rparr>"
    have "sq_id_ok ?q A (R - {#i#}) i" using None z r by (simp add: sq_id_ok_def del: count_mset_0_iff)
    then have "sq_inv tm ?q A (R - {#i#})" by (intro keep) auto
    moreover have "sq_units ?q = sq_units q" using None by (intro sq_units_cong) (auto simp: sq_unit_def)
    ultimately show ?thesis using None z gone by (auto simp: SplittingFIFOTaskQueue_TaskDone_def)
  next
    case (Some ts)
    then have "ts_ok ts (count A i) (Suc r) (i \<in> set (sq_queue q))" using iok r by (simp add: sq_id_ok_def)
    from OneTaskDone_ok [OF this, of b] obtain all ts' where ts':
      "TaskSplitter_OneTaskDone b ts = (Inr all, ts')"
      "all \<longleftrightarrow> i \<notin> set (sq_queue q) \<and> count A i = 0 \<and> r = 0"
      "\<not> all \<longrightarrow> ts_ok ts' (count A i) r (i \<in> set (sq_queue q))" "ts_pending ts' = ts_pending ts" by blast
    let ?q = "q\<lparr>split_map := (if all then omap_erase i (split_map q) else omap_put i ts' (split_map q))\<rparr>"
    have "i \<notin> set (sq_queue q) \<Longrightarrow> count (mset (sq_queue q)) i = 0" by simp
    then have "sq_id_ok ?q A (R - {#i#}) i"
      using ts'(2,3) r by (cases all) (simp_all add: sq_id_ok_def del: count_mset_0_iff)
    then have "sq_inv tm ?q A (R - {#i#})" by (intro keep) auto
    moreover have "sq_units ?q = sq_units q"
      using Some ts'(2,4) by (intro sq_units_cong) (auto simp: sq_unit_def)
    ultimately show ?thesis using Some ts'(1,2) gone
      by (cases all) (auto simp: SplittingFIFOTaskQueue_TaskDone_def)
  qed
qed

interpretation splitting: task_queue "TaskManager_IsValidID tm" "SplittingFIFOTaskQueue_Enqueue b tm"
    "SplittingFIFOTaskQueue_GetNextTask b" "SplittingFIFOTaskQueue_GetTaskById b tm"
    "SplittingFIFOTaskQueue_TaskDone b" "\<lambda>q. set (sq_queue q)" sq_units "sq_inv tm"
    for b :: build and tm :: "'v task_manager"
  by unfold_locales
    (erule (3) sq_enqueue, simp add: SplittingFIFOTaskQueue_GetNextTask_def, erule (1) sq_next,
      erule (1) sq_fetch, erule (1) sq_done)


section \<open>Properties\<close>

text \<open>
  C11. Whatever the order in which workers take, fetch and complete the parts of split tasks,
  the splitting queue reports each task exactly once: the callbacks of a run are distinct
  and name exactly the tasks that were active and no longer are, that is, those all of
  whose parts have been completed. While a task is active some worker call can be made, and
  every call reduces the work that is left.
\<close>

theorem split_tasks_reported_once:
  assumes "sq_inv tm q A R" "splitting.worker_run b tm (q, A, R) cbs (q', A', R')"
  shows "distinct cbs \<and> set cbs = (set (sq_queue q) \<union> set_mset A \<union> set_mset R) -
      (set (sq_queue q') \<union> set_mset A' \<union> set_mset R') \<and>
    set (sq_queue q') \<union> set_mset A' \<union> set_mset R' \<subseteq> set (sq_queue q) \<union> set_mset A \<union> set_mset R \<and>
    (if set (sq_queue q') \<union> set_mset A' \<union> set_mset R' = {} then True
     else \<exists>cb s. splitting.worker_step b tm (q', A', R') cb s) \<and>
    3 * sq_units q' + 2 * size A' + size R' \<le> 3 * sq_units q + 2 * size A + size R"
proof -
  note run = splitting.worker_run_callbacks [OF assms(2) refl assms(1)]
  then have inv: "sq_inv tm q' A' R'" by blast
  from run have "distinct cbs" "splitting.active q A R = splitting.active q' A' R' \<union> set cbs"
    "set cbs \<inter> splitting.active q' A' R' = {}" "splitting.work_left (q', A', R') \<le> splitting.work_left (q, A, R)"
    by auto
  moreover have "\<exists>cb s. splitting.worker_step b tm (q', A', R') cb s" if "splitting.active q' A' R' \<noteq> {}"
    by (rule splitting.worker_progress [OF inv that])
  ultimately show ?thesis by (auto simp: splitting.active_def splitting.work_left_def)
qed

text \<open>A queue that holds one task split in two parts, with the counters of the splitter as given.\<close>

definition sample_queue :: "nat list \<Rightarrow> size_t \<Rightarrow> size_t \<Rightarrow> size_t \<Rightarrow> nat split_queue" where
  "sample_queue ids pending running nxt =
     \<lparr>splittable = [MB_FUNCTION], sq_queue = ids,
      split_map = [(0, \<lparr>ts_id = 0, ts_pending = pending, ts_running = running, ts_next = nxt,
        ts_tasks = replicate 2 (tm_tasks (tm_calls Debug sample_calls) ! 0)\<rparr>)],
      sq_slots = 2, max_splits = 2, min_vector_size = 1\<rparr>"

lemma sample_queue_ok: "sq_inv (tm_calls Debug sample_calls) (sample_queue [0] 2 0 0) {#} {#}"
proof -
  have "0 < length (tm_tasks (tm_calls Debug sample_calls))" by (simp add: tm_eval)
  then show ?thesis
    by (auto simp: sq_inv_def sq_id_ok_def ts_ok_def sample_queue_def TaskManager_IsValidID_def)
qed

lemma sample_queue_run:
  "splitting.worker_run Debug (tm_calls Debug sample_calls) (sample_queue [0] 2 0 0, {#}, {#}) [0]
     ((sample_queue [] 0 0 2)\<lparr>split_map := []\<rparr>, {#}, {#})"
proof -
  let ?tm = "tm_calls Debug sample_calls" and ?t = "tm_tasks (tm_calls Debug sample_calls) ! 0"
  note defs = sample_queue_def SplittingFIFOTaskQueue_GetNextTask_def TaskSplitter_OneTaskAssigned_def
    SplittingFIFOTaskQueue_GetTaskById_def TaskSplitter_GetTask_def SplittingFIFOTaskQueue_TaskDone_def
    TaskSplitter_OneTaskDone_def omap_put_def omap_erase_def TaskSplitter_NonePending_def
    TaskSplitter_IsComplete_def Let_def
  have calls: "SplittingFIFOTaskQueue_GetNextTask Debug (sample_queue [0] 2 0 0) = Some (Inr 0, sample_queue [0] 1 1 0)"
    "SplittingFIFOTaskQueue_GetNextTask Debug (sample_queue [0] 1 1 0) = Some (Inr 0, sample_queue [] 0 2 0)"
    "SplittingFIFOTaskQueue_GetTaskById Debug ?tm 0 (sample_queue [] 0 2 0) = (Inr ?t, sample_queue [] 0 2 1)"
    "SplittingFIFOTaskQueue_GetTaskById Debug ?tm 0 (sample_queue [] 0 2 1) = (Inr ?t, sample_queue [] 0 2 2)"
    "SplittingFIFOTaskQueue_TaskDone Debug 0 (sample_queue [] 0 2 2) = (Inr False, sample_queue [] 0 1 2)"
    "SplittingFIFOTaskQueue_TaskDone Debug 0 (sample_queue [] 0 1 2) = (Inr True, (sample_queue [] 0 0 2)\<lparr>split_map := []\<rparr>)"
    by (simp_all add: defs)
  have "splitting.worker_run Debug ?tm (sample_queue [0] 2 0 0, {#}, {#}) [] (sample_queue [0] 1 1 0, {#0#}, {#})"
    using splitting.more [OF splitting.start splitting.take [OF calls(1)]] by simp
  from splitting.more [OF this splitting.take [OF calls(2)]]
  have "splitting.worker_run Debug ?tm (sample_queue [0] 2 0 0, {#}, {#}) [] (sample_queue [] 0 2 0, {#0, 0#}, {#})" by simp
  from splitting.more [OF this splitting.fetch [OF _ calls(3)]]
  have "splitting.worker_run Debug ?tm (sample_queue [0] 2 0 0, {#}, {#}) [] (sample_queue [] 0 2 1, {#0#}, {#0#})" by simp
  from splitting.more [OF this splitting.fetch [OF _ calls(4)]]
  have "splitting.worker_run Debug ?tm (sample_queue [0] 2 0 0, {#}, {#}) [] (sample_queue [] 0 2 2, {#}, {#0, 0#})" by simp
  from splitting.more [OF this splitting.complete [OF _ calls(5)]]
  have "splitting.worker_run Debug ?tm (sample_queue [0] 2 0 0, {#}, {#}) [] (sample_queue [] 0 1 2, {#}, {#0#})" by simp
  from splitting.more [OF this splitting.complete [OF _ calls(6)]] show ?thesis by simp
qed

theorem split_tasks_reported_once_witness:
  "\<exists>cbs q'. splitting.worker_run Debug (tm_calls Debug sample_calls) (sample_queue [0] 2 0 0, {#}, {#}) cbs
     (q', {#}, {#}) \<and> sq_queue q' = [] \<and> distinct cbs \<and> set cbs = {0}"
proof (intro exI conjI)
  let ?q' = "(sample_queue [] 0 0 2)\<lparr>split_map := []\<rparr>"
  show "splitting.worker_run Debug (tm_calls Debug sample_calls) (sample_queue [0] 2 0 0, {#}, {#}) [0] (?q', {#}, {#})"
    by (rule sample_queue_run)
  show "sq_queue ?q' = []" "distinct [0]" "set [0] = {0}"
    using split_tasks_reported_once [OF sample_queue_ok sample_queue_run] by (simp_all add: sample_queue_def)
qed

end
