(* ===== verification/Scheduler.thy ===== *)
theory Scheduler
  imports Task_Queues
begin

text \<open>
  \<open>src/flame2/exe/scheduler.{hpp,cpp}\<close>, \<open>worker_thread.{hpp,cpp}\<close> and the set-up of
  \<open>src/flame2/sim/simulation.cpp\<close>. The scheduler thread and the workers share the task
  manager, the queues and the done queue under mutexes. The model is a machine whose
  threads take turns: \<open>sys_step\<close> gives the next step of one thread and \<open>None\<close> when it
  waits on a condition variable or has ended.
\<close>

section \<open>Queues behind the interface\<close>

datatype 'v tqueue = FIFO fifo_queue | Splitting "'v split_queue"

fun TaskQueue_Enqueue ::
    "build \<Rightarrow> 'v task_manager \<Rightarrow> nat \<Rightarrow> ('v memory_manager \<times> 'v tqueue, unit) exec" where
  "TaskQueue_Enqueue b tm i (mm, FIFO q) =
     (case FIFOTaskQueue_Enqueue i (mm, q) of (r, mm', q') \<Rightarrow> (r, mm', FIFO q'))"
| "TaskQueue_Enqueue b tm i (mm, Splitting q) =
     (case SplittingFIFOTaskQueue_Enqueue b tm i (mm, q) of (r, mm', q') \<Rightarrow> (r, mm', Splitting q'))"

fun TaskQueue_GetNextTask :: "build \<Rightarrow> 'v tqueue \<Rightarrow> ((exn + nat) \<times> 'v tqueue) option" where
  "TaskQueue_GetNextTask b (FIFO q) =
     map_option (\<lambda>(r, q'). (r, FIFO q')) (FIFOTaskQueue_GetNextTask q)"
| "TaskQueue_GetNextTask b (Splitting q) =
     map_option (\<lambda>(r, q'). (r, Splitting q')) (SplittingFIFOTaskQueue_GetNextTask b q)"

fun TaskQueue_GetTaskById :: "build \<Rightarrow> 'v task_manager \<Rightarrow> nat \<Rightarrow> ('v tqueue, 'v task) exec" where
  "TaskQueue_GetTaskById b tm i (FIFO q) =
     (case TaskQueue_GetTaskById_default tm i q of (r, q') \<Rightarrow> (r, FIFO q'))"
| "TaskQueue_GetTaskById b tm i (Splitting q) =
     (case SplittingFIFOTaskQueue_GetTaskById b tm i q of (r, q') \<Rightarrow> (r, Splitting q'))"

fun TaskQueue_TaskDone :: "build \<Rightarrow> nat \<Rightarrow> ('v tqueue, bool) exec" where
  "TaskQueue_TaskDone b i (FIFO q) = (case FIFOTaskQueue_TaskDone i q of (r, q') \<Rightarrow> (r, FIFO q'))"
| "TaskQueue_TaskDone b i (Splitting q) =
     (case SplittingFIFOTaskQueue_TaskDone b i q of (r, q') \<Rightarrow> (r, Splitting q'))"

fun TaskQueue_SetSplittable :: "task_type \<Rightarrow> ('v tqueue, unit) exec" where
  "TaskQueue_SetSplittable t (FIFO q) = (Inl (not_implemented ''Non-splitting queue''), FIFO q)"
| "TaskQueue_SetSplittable t (Splitting q) =
     (case SplittingFIFOTaskQueue_SetSplittable t q of (r, q') \<Rightarrow> (r, Splitting q'))"

fun TaskQueue_SetMaxTasksPerSplit :: "size_t \<Rightarrow> ('v tqueue, unit) exec" where
  "TaskQueue_SetMaxTasksPerSplit n (FIFO q) = (Inl (not_implemented ''Non-splitting queue''), FIFO q)"
| "TaskQueue_SetMaxTasksPerSplit n (Splitting q) =
     (case SplittingFIFOTaskQueue_SetMaxTasksPerSplit n q of (r, q') \<Rightarrow> (r, Splitting q'))"

fun TaskQueue_GetMaxTasksPerSplit :: "'v tqueue \<Rightarrow> exn + size_t" where
  "TaskQueue_GetMaxTasksPerSplit (FIFO q) = Inl (not_implemented ''Non-splitting queue'')"
| "TaskQueue_GetMaxTasksPerSplit (Splitting q) = Inr (SplittingFIFOTaskQueue_GetMaxTasksPerSplit q)"

fun TaskQueue_SetMinVectorSize :: "size_t \<Rightarrow> ('v tqueue, unit) exec" where
  "TaskQueue_SetMinVectorSize n (FIFO q) = (Inl (not_implemented ''Non-splitting queue''), FIFO q)"
| "TaskQueue_SetMinVectorSize n (Splitting q) =
     (case SplittingFIFOTaskQueue_SetMinVectorSize n q of (r, q') \<Rightarrow> (r, Splitting q'))"

fun TaskQueue_GetMinVectorSize :: "'v tqueue \<Rightarrow> exn + size_t" where
  "TaskQueue_GetMinVectorSize (FIFO q) = Inl (not_implemented ''Non-splitting queue'')"
| "TaskQueue_GetMinVectorSize (Splitting q) = Inr (SplittingFIFOTaskQueue_GetMinVectorSize q)"

fun queued :: "'v tqueue \<Rightarrow> nat set" where
  "queued (FIFO q) = set (fq_queue q)"
| "queued (Splitting q) = set (sq_queue q)"

fun queue_units :: "'v tqueue \<Rightarrow> nat" where
  "queue_units (FIFO q) = length (fq_queue q)"
| "queue_units (Splitting q) = sq_units q"

fun queue_inv :: "'v task_manager \<Rightarrow> 'v tqueue \<Rightarrow> nat multiset \<Rightarrow> nat multiset \<Rightarrow> bool" where
  "queue_inv tm (FIFO q) A R = fifo_inv tm q A R"
| "queue_inv tm (Splitting q) A R = sq_inv tm q A R"

fun queue_slots :: "'v tqueue \<Rightarrow> size_t" where
  "queue_slots (FIFO q) = fq_slots q"
| "queue_slots (Splitting q) = sq_slots q"

text \<open>A queue behind the interface keeps the contract because each implementation does.\<close>

lemma tq_enqueue:
  assumes "queue_inv tm q A R" "TaskManager_IsValidID tm i" "i \<notin> queued q \<union> set_mset A \<union> set_mset R"
    "TaskQueue_Enqueue b tm i (m, q) = (Inr (), m', q')"
  shows "queue_inv tm q' A R \<and> queued q' = insert i (queued q)"
  using assms by (cases q) (auto split: prod.splits dest: fifo.enqueue_law splitting.enqueue_law)

lemma tq_next:
  assumes "queue_inv tm q A R" "queued q \<noteq> {}"
  shows "\<exists>i q'. TaskQueue_GetNextTask b q = Some (Inr i, q') \<and> i \<in> queued q \<and>
    queued q = insert i (queued q') \<and> queue_inv tm q' (add_mset i A) R \<and> queue_units q = Suc (queue_units q')"
proof (cases q)
  case (FIFO p)
  with fifo.next_law [of tm p A R] assms obtain i p' where
    "FIFOTaskQueue_GetNextTask p = Some (Inr i, p')" "i \<in> set (fq_queue p)"
    "set (fq_queue p) = insert i (set (fq_queue p'))" "fifo_inv tm p' (add_mset i A) R"
    "length (fq_queue p) = Suc (length (fq_queue p'))" by auto
  with FIFO show ?thesis by (intro exI [of _ i] exI [of _ "FIFO p'"]) auto
next
  case (Splitting p)
  with splitting.next_law [of tm p A R b] assms obtain i p' where
    "SplittingFIFOTaskQueue_GetNextTask b p = Some (Inr i, p')" "i \<in> set (sq_queue p)"
    "set (sq_queue p) = insert i (set (sq_queue p'))" "sq_inv tm p' (add_mset i A) R"
    "sq_units p = Suc (sq_units p')" by auto
  with Splitting show ?thesis by (intro exI [of _ i] exI [of _ "Splitting p'"]) auto
qed

lemma tq_fetch:
  assumes "queue_inv tm q A R" "i \<in># A"
  shows "\<exists>tk q'. TaskQueue_GetTaskById b tm i q = (Inr tk, q') \<and>
    queue_inv tm q' (A - {#i#}) (add_mset i R) \<and> queued q' = queued q \<and> queue_units q' = queue_units q"
proof (cases q)
  case (FIFO p)
  with fifo.fetch_law [of tm p A R i] assms show ?thesis by auto
next
  case (Splitting p)
  with splitting.fetch_law [of tm p A R i b] assms show ?thesis by auto
qed

lemma tq_done:
  assumes "queue_inv tm q A R" "i \<in># R"
  shows "\<exists>cb q'. TaskQueue_TaskDone b i q = (Inr cb, q') \<and> queue_inv tm q' A (R - {#i#}) \<and>
    queued q' = queued q \<and> queue_units q' = queue_units q \<and>
    (cb \<longleftrightarrow> i \<notin> queued q \<union> set_mset A \<union> set_mset (R - {#i#}))"
proof (cases q)
  case (FIFO p)
  with fifo.done_law [of tm p A R i] assms show ?thesis by auto
next
  case (Splitting p)
  with splitting.done_law [of tm p A R i b] assms show ?thesis by auto
qed

lemma tq_blocks: "queued q = {} \<Longrightarrow> TaskQueue_GetNextTask b q = None"
  by (cases q) (simp_all add: FIFOTaskQueue_GetNextTask_def SplittingFIFOTaskQueue_GetNextTask_def)

interpretation tq: task_queue "TaskManager_IsValidID tm" "TaskQueue_Enqueue b tm" "TaskQueue_GetNextTask b"
    "TaskQueue_GetTaskById b tm" "TaskQueue_TaskDone b" queued queue_units "queue_inv tm"
    for b :: build and tm :: "'v task_manager"
  by unfold_locales (erule (3) tq_enqueue, erule tq_blocks, erule (1) tq_next, erule (1) tq_fetch,
      erule (1) tq_done)

section \<open>The scheduler\<close>

record 'v scheduler =
  sch_queues :: "'v tqueue list"
  route :: "(task_type \<times> nat) list"
  doneq :: "nat list"
  iter_count :: size_t

definition Scheduler_new :: "size_t \<Rightarrow> 'v scheduler" where
  "Scheduler_new n = \<lparr>sch_queues = [], route = [], doneq = [], iter_count = n\<rparr>"

text \<open>\<open>CreateQueue<T>(slots)\<close>: the constructor of the queue class is the argument.\<close>

definition Scheduler_CreateQueue ::
    "(size_t \<Rightarrow> exn + 'v tqueue) \<Rightarrow> size_t \<Rightarrow> ('v scheduler, nat) exec" where
  "Scheduler_CreateQueue T slots s =
     (case T slots of
        Inl e \<Rightarrow> (Inl e, s)
      | Inr q \<Rightarrow> (Inr (length (sch_queues s)), s\<lparr>sch_queues := sch_queues s @ [q]\<rparr>))"

definition Scheduler_IsValidQueueId :: "'v scheduler \<Rightarrow> nat \<Rightarrow> bool" where
  "Scheduler_IsValidQueueId s i \<longleftrightarrow> i < length (sch_queues s)"

definition Scheduler_AssignType :: "nat \<Rightarrow> task_type \<Rightarrow> ('v scheduler, unit) exec" where
  "Scheduler_AssignType qid t s =
     (if \<not> Scheduler_IsValidQueueId s qid then (Inl (invalid_argument ''invalid queue id''), s)
      else if omap_has (route s) t then (Inl (invalid_argument ''type already assigned''), s)
      else (Inr (), s\<lparr>route := omap_put t qid (route s)\<rparr>))"

definition on_queue ::
    "task_type \<Rightarrow> ('v tqueue \<Rightarrow> (exn + 'a) \<times> 'v tqueue) \<Rightarrow> ('v scheduler, 'a) exec" where
  "on_queue t f s =
     (case map_of (route s) t of
        None \<Rightarrow> (Inl (invalid_argument ''unassigned type''), s)
      | Some k \<Rightarrow>
          if k < length (sch_queues s) then
            (case f (sch_queues s ! k) of (r, q) \<Rightarrow> (r, s\<lparr>sch_queues := (sch_queues s)[k := q]\<rparr>))
          else (Inl (UB ''index past the end''), s))"

definition Scheduler_SetSplittable :: "task_type \<Rightarrow> ('v scheduler, unit) exec" where
  "Scheduler_SetSplittable t = on_queue t (TaskQueue_SetSplittable t)"

definition Scheduler_SetMaxTasksPerSplit :: "task_type \<Rightarrow> size_t \<Rightarrow> ('v scheduler, unit) exec" where
  "Scheduler_SetMaxTasksPerSplit t n = on_queue t (TaskQueue_SetMaxTasksPerSplit n)"

definition Scheduler_GetMaxTasksPerSplit :: "task_type \<Rightarrow> ('v scheduler, size_t) exec" where
  "Scheduler_GetMaxTasksPerSplit t = on_queue t (\<lambda>q. (TaskQueue_GetMaxTasksPerSplit q, q))"

definition Scheduler_SetMinVectorSize :: "task_type \<Rightarrow> size_t \<Rightarrow> ('v scheduler, unit) exec" where
  "Scheduler_SetMinVectorSize t n = on_queue t (TaskQueue_SetMinVectorSize n)"

definition Scheduler_GetMinVectorSize :: "task_type \<Rightarrow> ('v scheduler, size_t) exec" where
  "Scheduler_GetMinVectorSize t = on_queue t (\<lambda>q. (TaskQueue_GetMinVectorSize q, q))"

definition Scheduler_TaskDoneCallback :: "nat \<Rightarrow> 'v scheduler \<Rightarrow> 'v scheduler" where
  "Scheduler_TaskDoneCallback task_id s = s\<lparr>doneq := doneq s @ [task_id]\<rparr>"

text \<open>
  \<open>EnqueueTask\<close>: an unknown type is reported as \<open>invalid_type\<close>. The id enqueued is the
  one stored in the task.
\<close>

definition Scheduler_EnqueueTask ::
    "build \<Rightarrow> 'v task_manager \<Rightarrow> nat \<Rightarrow> ('v memory_manager \<times> 'v scheduler, unit) exec" where
  "Scheduler_EnqueueTask b tm task_id = (\<lambda>(mm, s).
     case TaskManager_GetTask tm task_id of
       Inl e \<Rightarrow> (Inl e, mm, s)
     | Inr tk \<Rightarrow>
         (case map_of (route s) (get_task_type tk) of
            None \<Rightarrow> (Inl (invalid_type ''unassigned task type''), mm, s)
          | Some k \<Rightarrow>
              if k < length (sch_queues s) then
                (case TaskQueue_Enqueue b tm (tk_id tk) (mm, sch_queues s ! k) of
                   (r, mm', q) \<Rightarrow> (r, mm', s\<lparr>sch_queues := (sch_queues s)[k := q]\<rparr>))
              else (Inl (UB ''index past the end''), mm, s)))"

text \<open>
  The loop that tells the task manager about completed tasks, last one first; the
  argument is the done queue from its back.
\<close>

fun drain_done :: "nat list \<Rightarrow> 'v task_manager \<Rightarrow> (exn + unit) \<times> nat list \<times> 'v task_manager" where
  "drain_done [] tm = (Inr (), [], tm)"
| "drain_done (d # ds) tm =
     (case TaskManager_IterTaskDone d tm of
        (Inl e, tm') \<Rightarrow> (Inl e, d # ds, tm')
      | (Inr _, tm') \<Rightarrow> drain_done ds tm')"

section \<open>The machine\<close>

text \<open>
  A worker is idle (about to call \<open>GetNextTask\<close>), has been given an id, runs the task it
  fetched, has run it and is about to call \<open>TaskDone\<close>, or has ended.
\<close>

datatype 'v worker = Idle | Given nat | Runs nat "'v task" | Ran nat | Ended

datatype phase = Scheduling | Finished | Failed exn

record 'v system =
  sys_tm :: "'v task_manager"
  sys_world :: "'v world"
  sys_sched :: "'v scheduler"
  sys_workers :: "(nat \<times> 'v worker) list"
  sys_phase :: phase
  sys_crashed :: "exn option"
  sys_log :: "nat list"

datatype thread = SchedulerThread | Worker nat

text \<open>
  \<open>RunIteration\<close> up to its loop. \<open>sys_log\<close> is not in the program: it records the
  order in which the scheduler reports tasks as done.
\<close>

definition RunIteration_begin :: "'v system \<Rightarrow> 'v system" where
  "RunIteration_begin s =
     (case TaskManager_Finalise (sys_tm s) of
        (Inl e, tm) \<Rightarrow> s\<lparr>sys_tm := tm, sys_phase := Failed e\<rparr>
      | (Inr _, tm) \<Rightarrow>
          (let s' = s\<lparr>sys_tm := tm,
                       sys_world := (sys_world s)\<lparr>w_iteration := iter_count (sys_sched s)\<rparr>\<rparr>
           in case TaskManager_IterTaskAvailable tm of
                Inl e \<Rightarrow> s'\<lparr>sys_phase := Failed e\<rparr>
              | Inr avail \<Rightarrow>
                  if \<not> avail then s'\<lparr>sys_phase := Failed (flame_exe_exception ''No runnable tasks'')\<rparr>
                  else s'\<lparr>sys_phase := Scheduling, sys_log := []\<rparr>))"

definition sched_pop :: "build \<Rightarrow> 'v system \<Rightarrow> 'v system" where
  "sched_pop b s =
     (case TaskManager_IterTaskPop (sys_tm s) of
        (Inl e, tm) \<Rightarrow> s\<lparr>sys_tm := tm, sys_phase := Failed e\<rparr>
      | (Inr i, tm) \<Rightarrow>
          (case Scheduler_EnqueueTask b tm i (w_mem (sys_world s), sys_sched s) of
             (r, mm, sch) \<Rightarrow>
               s\<lparr>sys_tm := tm, sys_world := (sys_world s)\<lparr>w_mem := mm\<rparr>, sys_sched := sch,
                 sys_phase := (case r of Inl e \<Rightarrow> Failed e | Inr _ \<Rightarrow> sys_phase s)\<rparr>))"

definition sched_drain :: "'v system \<Rightarrow> 'v system" where
  "sched_drain s =
     (case drain_done (rev (doneq (sys_sched s))) (sys_tm s) of
        (r, rest, tm) \<Rightarrow>
          s\<lparr>sys_tm := tm, sys_sched := (sys_sched s)\<lparr>doneq := rev rest\<rparr>,
            sys_phase := (case r of Inl e \<Rightarrow> Failed e | Inr _ \<Rightarrow> sys_phase s),
            sys_log := sys_log s @ rev (doneq (sys_sched s))\<rparr>)"

definition sched_finish :: "'v system \<Rightarrow> 'v system" where
  "sched_finish s =
     (case TaskManager_IterReset (sys_tm s) of
        (Inl e, tm) \<Rightarrow> s\<lparr>sys_tm := tm, sys_phase := Failed e\<rparr>
      | (Inr _, tm) \<Rightarrow>
          s\<lparr>sys_tm := tm, sys_sched := (sys_sched s)\<lparr>iter_count := iter_count (sys_sched s) + 1\<rparr>,
            sys_phase := Finished\<rparr>)"

text \<open>
  One step of the loop of \<open>RunIteration\<close>. Between the test of the outer loop and the
  wait only this thread changes the task manager, so the test need not be repeated.
\<close>

definition sched_step :: "build \<Rightarrow> 'v system \<Rightarrow> 'v system option" where
  "sched_step b s =
     (if sys_phase s \<noteq> Scheduling then None
      else
        (case TaskManager_IterCompleted (sys_tm s) of
           Inl e \<Rightarrow> Some (s\<lparr>sys_phase := Failed e\<rparr>)
         | Inr True \<Rightarrow> Some (sched_finish s)
         | Inr False \<Rightarrow>
             (case TaskManager_IterTaskAvailable (sys_tm s) of
                Inl e \<Rightarrow> Some (s\<lparr>sys_phase := Failed e\<rparr>)
              | Inr True \<Rightarrow> Some (sched_pop b s)
              | Inr False \<Rightarrow> if doneq (sys_sched s) = [] then None else Some (sched_drain s))))"

text \<open>
  One step of the loop of \<open>ProcessQueue\<close>. An exception that leaves a thread ends the
  program.
\<close>

definition put_worker :: "nat \<Rightarrow> nat \<Rightarrow> 'v tqueue \<Rightarrow> 'v worker \<Rightarrow> 'v system \<Rightarrow> 'v system" where
  "put_worker w k q st s =
     s\<lparr>sys_sched := (sys_sched s)\<lparr>sch_queues := (sch_queues (sys_sched s))[k := q]\<rparr>,
       sys_workers := (sys_workers s)[w := (k, st)]\<rparr>"

definition process_queue_step :: "build \<Rightarrow> 'v io_backend \<Rightarrow> nat \<Rightarrow> 'v system \<Rightarrow> 'v system option" where
  "process_queue_step b io w s =
     (case sys_workers s ! w of
        (k, st) \<Rightarrow>
          let q = sch_queues (sys_sched s) ! k in
          (case st of
             Idle \<Rightarrow>
               (case TaskQueue_GetNextTask b q of
                  None \<Rightarrow> None
                | Some (Inl e, q') \<Rightarrow> Some ((put_worker w k q' Ended s)\<lparr>sys_crashed := Some e\<rparr>)
                | Some (Inr i, q') \<Rightarrow>
                    Some (put_worker w k q' (if IsTermTask i then Ended else Given i) s))
           | Given i \<Rightarrow>
               (case TaskQueue_GetTaskById b (sys_tm s) i q of
                  (Inl e, q') \<Rightarrow> Some ((put_worker w k q' Ended s)\<lparr>sys_crashed := Some e\<rparr>)
                | (Inr tk, q') \<Rightarrow> Some (put_worker w k q' (Runs i tk) s))
           | Runs i tk \<Rightarrow>
               (case Task_Run b io tk (sys_world s) of
                  (Inl e, wd) \<Rightarrow> Some ((put_worker w k q Ended s)\<lparr>sys_world := wd, sys_crashed := Some e\<rparr>)
                | (Inr _, wd) \<Rightarrow> Some ((put_worker w k q (Ran i) s)\<lparr>sys_world := wd\<rparr>))
           | Ran i \<Rightarrow>
               (case TaskQueue_TaskDone b i q of
                  (Inl e, q') \<Rightarrow> Some ((put_worker w k q' Ended s)\<lparr>sys_crashed := Some e\<rparr>)
                | (Inr cb, q') \<Rightarrow>
                    (let s' = put_worker w k q' Idle s in
                     Some (if cb then s'\<lparr>sys_sched := Scheduler_TaskDoneCallback i (sys_sched s')\<rparr> else s')))
           | Ended \<Rightarrow> None))"

fun sys_step :: "build \<Rightarrow> 'v io_backend \<Rightarrow> thread \<Rightarrow> 'v system \<Rightarrow> 'v system option" where
  "sys_step b io SchedulerThread s = (if sys_crashed s \<noteq> None then None else sched_step b s)"
| "sys_step b io (Worker w) s =
     (if sys_crashed s \<noteq> None \<or> w \<ge> length (sys_workers s) then None else process_queue_step b io w s)"

text \<open>A run of one iteration ends when \<open>RunIteration\<close> returns or throws.\<close>

inductive sys_run ::
    "build \<Rightarrow> 'v io_backend \<Rightarrow> 'v system \<Rightarrow> thread list \<Rightarrow> 'v system \<Rightarrow> bool" for b io s0 where
  sys_start: "sys_run b io s0 [] s0"
| sys_more: "sys_run b io s0 ths s \<Longrightarrow> sys_phase s = Scheduling \<Longrightarrow> sys_step b io th s = Some s' \<Longrightarrow>
    sys_run b io s0 (ths @ [th]) s'"

text \<open>The set-up of \<open>Simulation::start\<close>: one FIFO queue for all three task types.\<close>

definition Simulation_setup :: "size_t \<Rightarrow> ('v scheduler, unit) exec" where
  "Simulation_setup num_cores =
     bindE (Scheduler_CreateQueue (\<lambda>n. bindR (FIFOTaskQueue_new n) (\<lambda>q. Inr (FIFO q))) num_cores) (\<lambda>q.
       bindE (Scheduler_AssignType q AGENT_FUNCTION) (\<lambda>_.
         bindE (Scheduler_AssignType q MB_FUNCTION) (\<lambda>_.
           Scheduler_AssignType q IO_FUNCTION)))"

text \<open>The workers a queue starts, all idle.\<close>

definition start_workers :: "'v scheduler \<Rightarrow> (nat \<times> 'v worker) list" where
  "start_workers sch =
     concat (map (\<lambda>k. replicate (unat (queue_slots (sch_queues sch ! k))) (k, Idle)) [0..<length (sch_queues sch)])"

section \<open>The system invariant\<close>

fun given_by :: "nat \<Rightarrow> nat \<times> 'v worker \<Rightarrow> nat list" where
  "given_by k (k', Given i) = (if k' = k then [i] else [])"
| "given_by k _ = []"

fun held_by :: "nat \<Rightarrow> nat \<times> 'v worker \<Rightarrow> nat list" where
  "held_by k (k', Runs i _) = (if k' = k then [i] else [])"
| "held_by k (k', Ran i) = (if k' = k then [i] else [])"
| "held_by k _ = []"

definition givens :: "'v system \<Rightarrow> nat \<Rightarrow> nat multiset" where
  "givens s k = mset (concat (map (given_by k) (sys_workers s)))"

definition helds :: "'v system \<Rightarrow> nat \<Rightarrow> nat multiset" where
  "helds s k = mset (concat (map (held_by k) (sys_workers s)))"

definition active_in :: "'v system \<Rightarrow> nat \<Rightarrow> nat set" where
  "active_in s k = tq.active (sch_queues (sys_sched s) ! k) (givens s k) (helds s k)"

definition log_ok :: "nat list list \<Rightarrow> nat list \<Rightarrow> bool" where
  "log_ok ps ds \<longleftrightarrow> distinct ds \<and> (\<forall>j < length ds. set (ps ! (ds ! j)) \<subseteq> set (take j ds))"

definition sys_inv :: "'v system \<Rightarrow> bool" where
  "sys_inv s \<longleftrightarrow>
     iter_ok (sys_tm s) \<and> length (tm_tasks (sys_tm s)) < 2 ^ 64 \<and>
     sys_phase s = Scheduling \<and> sys_crashed s = None \<and>
     (\<forall>k < length (sch_queues (sys_sched s)).
        queue_inv (sys_tm s) (sch_queues (sys_sched s) ! k) (givens s k) (helds s k)) \<and>
     (\<forall>k < length (sch_queues (sys_sched s)). \<exists>st. (k, st) \<in> set (sys_workers s)) \<and>
     (\<forall>(k, st) \<in> set (sys_workers s). k < length (sch_queues (sys_sched s)) \<and> st \<noteq> Ended) \<and>
     (\<forall>k < length (sch_queues (sys_sched s)). \<forall>i \<in> active_in s k.
        map_of (route (sys_sched s)) (get_task_type (tm_tasks (sys_tm s) ! i)) = Some k) \<and>
     distinct (doneq (sys_sched s)) \<and>
     (\<forall>k < length (sch_queues (sys_sched s)). active_in s k \<inter> set (doneq (sys_sched s)) = {}) \<and>
     set (assigned_tasks (sys_tm s)) =
       set (doneq (sys_sched s)) \<union> (\<Union>k < length (sch_queues (sys_sched s)). active_in s k) \<and>
     log_ok (parents (sys_tm s)) (sys_log s) \<and> set (sys_log s) = done_tasks (sys_tm s)"

subsection \<open>Steps of workers\<close>

lemma concat_update:
  assumes "w < length xs"
  shows "mset (concat (map f (xs[w := x]))) + mset (f (xs ! w)) = mset (concat (map f xs)) + mset (f x)"
  using assms
proof (induction xs arbitrary: w)
  case Nil
  then show ?case by simp
next
  case (Cons y ys)
  then show ?case by (cases w) (auto simp: add.assoc add.commute add.left_commute)
qed

lemma givens_update:
  assumes "w < length (sys_workers s)" "sys_workers s' = (sys_workers s)[w := x]"
  shows "givens s' k + mset (given_by k (sys_workers s ! w)) = givens s k + mset (given_by k x)"
  using concat_update [OF assms(1), of "given_by k" x] assms(2) by (simp add: givens_def)

lemma helds_update:
  assumes "w < length (sys_workers s)" "sys_workers s' = (sys_workers s)[w := x]"
  shows "helds s' k + mset (held_by k (sys_workers s ! w)) = helds s k + mset (held_by k x)"
  using concat_update [OF assms(1), of "held_by k" x] assms(2) by (simp add: helds_def)

lemma by_other [simp]:
  assumes "j \<noteq> k" shows "given_by k (j, st) = []" "held_by k (j, st) = []"
  using assms by (cases st; simp)+

text \<open>What a step of worker \<open>w\<close> on queue \<open>k\<close> has to establish.\<close>

definition worker_effect :: "nat \<Rightarrow> nat \<Rightarrow> nat list \<Rightarrow> 'v system \<Rightarrow> 'v system \<Rightarrow> bool" where
  "worker_effect w k cb s s' \<longleftrightarrow>
     sys_tm s' = sys_tm s \<and> sys_phase s' = sys_phase s \<and> sys_crashed s' = sys_crashed s \<and>
     sys_log s' = sys_log s \<and> route (sys_sched s') = route (sys_sched s) \<and>
     doneq (sys_sched s') = doneq (sys_sched s) @ cb \<and> distinct cb \<and>
     (\<exists>q. sch_queues (sys_sched s') = (sch_queues (sys_sched s))[k := q]) \<and>
     (\<exists>st. st \<noteq> Ended \<and> sys_workers s' = (sys_workers s)[w := (k, st)]) \<and>
     queue_inv (sys_tm s) (sch_queues (sys_sched s') ! k) (givens s' k) (helds s' k) \<and>
     active_in s k = active_in s' k \<union> set cb \<and> set cb \<inter> active_in s' k = {}"

lemma effect_other:
  assumes "worker_effect w k cb s s'" "w < length (sys_workers s)" "fst (sys_workers s ! w) = k" "j \<noteq> k"
  shows "givens s' j = givens s j" "helds s' j = helds s j"
    "sch_queues (sys_sched s') ! j = sch_queues (sys_sched s) ! j" "active_in s' j = active_in s j"
proof -
  obtain st0 where w: "sys_workers s ! w = (k, st0)" using assms(3) by (metis prod.collapse)
  obtain st where st: "sys_workers s' = (sys_workers s)[w := (k, st)]"
    using assms(1) by (auto simp: worker_effect_def)
  show g: "givens s' j = givens s j" "helds s' j = helds s j"
    using givens_update [OF assms(2) st, of j] helds_update [OF assms(2) st, of j] assms(4)
    by (simp_all add: w)
  show q: "sch_queues (sys_sched s') ! j = sch_queues (sys_sched s) ! j"
    using assms(1,4) by (auto simp: worker_effect_def)
  show "active_in s' j = active_in s j" by (simp add: active_in_def g q)
qed

lemma sys_inv_worker:
  assumes "sys_inv s" "w < length (sys_workers s)" "sys_workers s ! w = (k, st)"
  shows "k < length (sch_queues (sys_sched s))" "st \<noteq> Ended"
proof -
  have "(k, st) \<in> set (sys_workers s)" using assms(2,3) by (metis nth_mem)
  moreover have "\<forall>(k, st) \<in> set (sys_workers s). k < length (sch_queues (sys_sched s)) \<and> st \<noteq> Ended"
    using assms(1) by (simp add: sys_inv_def)
  ultimately show "k < length (sch_queues (sys_sched s))" "st \<noteq> Ended" by auto
qed

lemma worker_effect_inv:
  assumes inv: "sys_inv s" and w: "w < length (sys_workers s)" "fst (sys_workers s ! w) = k"
    and eff: "worker_effect w k cb s s'"
  shows "sys_inv s'"
proof -
  let ?n = "length (sch_queues (sys_sched s))"
  have kn: "k < ?n" using sys_inv_worker(1) [OF inv w(1)] w(2) by (metis prod.collapse)
  have n': "length (sch_queues (sys_sched s')) = ?n" using eff by (auto simp: worker_effect_def)
  note oth = effect_other [OF eff w]
  have act: "active_in s k = active_in s' k \<union> set cb" "set cb \<inter> active_in s' k = {}"
    and same: "sys_tm s' = sys_tm s" "sys_phase s' = sys_phase s" "sys_crashed s' = sys_crashed s"
      "sys_log s' = sys_log s" "route (sys_sched s') = route (sys_sched s)"
    and dq: "doneq (sys_sched s') = doneq (sys_sched s) @ cb" "distinct cb"
    using eff by (simp_all add: worker_effect_def)
  obtain st where st: "sys_workers s' = (sys_workers s)[w := (k, st)]" "st \<noteq> Ended"
    using eff by (auto simp: worker_effect_def)
  have sub: "active_in s' j \<subseteq> active_in s j" for j using oth(4) [of j] act(1) by (cases "j = k") auto
  have old: "active_in s j \<inter> set (doneq (sys_sched s)) = {}" if "j < ?n" for j
    using inv that unfolding sys_inv_def by blast
  have route: "\<forall>i \<in> active_in s j.
      map_of (route (sys_sched s)) (get_task_type (tm_tasks (sys_tm s) ! i)) = Some j" if "j < ?n" for j
    using inv that unfolding sys_inv_def by blast
  have disj: "active_in s j \<inter> active_in s k = {}" if "j < ?n" "j \<noteq> k" for j
    using route [OF that(1)] route [OF kn] that(2) by fastforce
  have "queue_inv (sys_tm s') (sch_queues (sys_sched s') ! j) (givens s' j) (helds s' j)" if "j < ?n" for j
    using inv eff oth that by (cases "j = k") (auto simp: sys_inv_def worker_effect_def)
  moreover have "\<exists>st. (j, st) \<in> set (sys_workers s')" if "j < ?n" for j
  proof (cases "j = k")
    case True
    then show ?thesis using st(1) w(1) by (auto intro: set_update_memI)
  next
    case False
    obtain x where "(j, x) \<in> set (sys_workers s)" using inv \<open>j < ?n\<close> by (auto simp: sys_inv_def)
    then obtain v where v: "v < length (sys_workers s)" "sys_workers s ! v = (j, x)"
      by (auto simp: in_set_conv_nth)
    with False w have "sys_workers s' ! v = (j, x)" by (cases "v = w") (auto simp: st)
    then show ?thesis using v(1) st(1) by (metis length_list_update nth_mem)
  qed
  moreover have "\<forall>(j, x) \<in> set (sys_workers s'). j < ?n \<and> x \<noteq> Ended"
  proof -
    have "\<forall>(j, x) \<in> set (sys_workers s). j < ?n \<and> x \<noteq> Ended" using inv by (simp add: sys_inv_def)
    moreover have "set (sys_workers s') \<subseteq> insert (k, st) (set (sys_workers s))"
      unfolding st(1) by (rule set_update_subset_insert)
    ultimately show ?thesis using kn st(2) by auto
  qed
  moreover have "active_in s' j \<inter> set (doneq (sys_sched s')) = {}" if "j < ?n" for j
    using old [OF that] sub [of j] act(2) disj [OF that] act(1) dq(1) by (cases "j = k") auto
  moreover have "(\<Union>j < ?n. active_in s j) = (\<Union>j < ?n. active_in s' j) \<union> set cb"
  proof (intro equalityI subsetI)
    fix x assume "x \<in> (\<Union>j < ?n. active_in s j)"
    then obtain j where j: "j < ?n" "x \<in> active_in s j" by auto
    show "x \<in> (\<Union>j < ?n. active_in s' j) \<union> set cb"
    proof (cases "j = k")
      case True
      then show ?thesis using j act(1) by auto
    next
      case False
      then show ?thesis using j oth(4) [OF False] by auto
    qed
  next
    fix x assume "x \<in> (\<Union>j < ?n. active_in s' j) \<union> set cb"
    then consider j where "j < ?n" "x \<in> active_in s' j" | "x \<in> set cb" by auto
    then show "x \<in> (\<Union>j < ?n. active_in s j)"
    proof cases
      case 1
      then show ?thesis using sub by blast
    next
      case 2
      then show ?thesis using act(1) kn by blast
    qed
  qed
  moreover have "distinct (doneq (sys_sched s'))"
    using inv dq old [OF kn] act(1) by (auto simp: sys_inv_def)
  moreover have "\<forall>i \<in> active_in s' j.
      map_of (route (sys_sched s')) (get_task_type (tm_tasks (sys_tm s') ! i)) = Some j" if "j < ?n" for j
    using route [OF that] sub [of j] by (auto simp: same)
  ultimately show ?thesis using inv unfolding sys_inv_def n' same dq(1) by auto
qed

text \<open>Work that the workers still have; each of their steps uses some.\<close>

fun worker_weight :: "nat \<times> 'v worker \<Rightarrow> nat" where
  "worker_weight (k, Idle) = 0"
| "worker_weight (k, Given i) = 3"
| "worker_weight (k, Runs i tk) = 2"
| "worker_weight (k, Ran i) = 1"
| "worker_weight (k, Ended) = 0"

definition worker_work :: "'v system \<Rightarrow> nat" where
  "worker_work s = 4 * sum_list (map queue_units (sch_queues (sys_sched s))) +
     sum_list (map worker_weight (sys_workers s))"

lemma map_sum_update:
  assumes "i < length xs"
  shows "sum_list (map f (xs[i := x])) + (f (xs ! i) :: nat) = sum_list (map f xs) + f x"
  using assms by (induction xs arbitrary: i) (auto split: nat.splits simp: add.assoc)

lemma put_worker_simps [simp]:
  "sys_tm (put_worker w k q st s) = sys_tm s" "sys_phase (put_worker w k q st s) = sys_phase s"
  "sys_crashed (put_worker w k q st s) = sys_crashed s" "sys_log (put_worker w k q st s) = sys_log s"
  "sys_world (put_worker w k q st s) = sys_world s"
  "route (sys_sched (put_worker w k q st s)) = route (sys_sched s)"
  "doneq (sys_sched (put_worker w k q st s)) = doneq (sys_sched s)"
  "sch_queues (sys_sched (put_worker w k q st s)) = (sch_queues (sys_sched s))[k := q]"
  "sys_workers (put_worker w k q st s) = (sys_workers s)[w := (k, st)]"
  by (simp_all add: put_worker_def)

lemma put_worker_work:
  assumes "k < length (sch_queues (sys_sched s))" "w < length (sys_workers s)"
  shows "worker_work (put_worker w k q st s) + 4 * queue_units (sch_queues (sys_sched s) ! k) +
      worker_weight (sys_workers s ! w) =
    worker_work s + 4 * queue_units q + worker_weight (k, st)"
  using map_sum_update [OF assms(1), of queue_units q] map_sum_update [OF assms(2), of worker_weight "(k, st)"]
  by (simp add: worker_work_def)

lemma valid_not_term:
  assumes "TaskManager_IsValidID tm i" "length (tm_tasks tm) < 2 ^ 64" shows "\<not> IsTermTask i"
  using assms by (simp add: TaskManager_IsValidID_def IsTermTask_def GetTermTaskId_def)

text \<open>A worker step is one of the steps of the queue contract, or the run of a task.\<close>

lemma process_queue_step_ok:
  assumes inv: "sys_inv s" and w: "w < length (sys_workers s)"
    and step: "process_queue_step b io w s = Some s'" and nc: "sys_crashed s' = None"
  shows "\<exists>cb. worker_effect w (fst (sys_workers s ! w)) cb s s' \<and> worker_work s' < worker_work s"
proof -
  obtain k st where wk: "sys_workers s ! w = (k, st)" by (cases "sys_workers s ! w")
  note kn = sys_inv_worker(1) [OF inv w wk]
  let ?q = "sch_queues (sys_sched s) ! k" and ?A = "givens s k" and ?R = "helds s k" and ?tm = "sys_tm s"
  have qinv: "queue_inv ?tm ?q ?A ?R" and N: "length (tm_tasks ?tm) < 2 ^ 64"
    using inv kn by (simp_all add: sys_inv_def)
  have act: "active_in s k = queued ?q \<union> set_mset ?A \<union> set_mset ?R"
    by (simp add: active_in_def tq.active_def)
  have gu: "givens t k + mset (given_by k (k, st)) = ?A + mset (given_by k (k, x))"
    and hu: "helds t k + mset (held_by k (k, st)) = ?R + mset (held_by k (k, x))"
    if "sys_workers t = (sys_workers s)[w := (k, x)]" for t x
    using givens_update [OF w that, of k] helds_update [OF w that, of k] by (simp_all add: wk)
  have wt: "worker_work (put_worker w k q x s) + 4 * queue_units ?q + worker_weight (k, st) =
      worker_work s + 4 * queue_units q + worker_weight (k, x)" for q x
    using put_worker_work [OF kn w, of q x] by (simp add: wk)
  show ?thesis
  proof (cases st)
    case Idle
    with step wk obtain r q' where g: "TaskQueue_GetNextTask b ?q = Some (r, q')"
      by (auto simp: process_queue_step_def Let_def split: option.splits prod.splits)
    then have "queued ?q \<noteq> {}" using tq_blocks by fastforce
    from tq_next [OF qinv this, of b] g obtain i where n: "r = Inr i" "i \<in> queued ?q"
      "queued ?q = insert i (queued q')" "queue_inv ?tm q' (add_mset i ?A) ?R" "queue_units ?q = Suc (queue_units q')"
      by auto
    have "TaskManager_IsValidID ?tm i"
      using qinv n(2) by (cases ?q) (auto simp: fifo_inv_def sq_inv_def)
    then have s': "s' = put_worker w k q' (Given i) s"
      using step wk Idle g n(1) valid_not_term [OF _ N] by (simp add: process_queue_step_def Let_def)
    have "givens s' k = add_mset i ?A" "helds s' k = ?R"
      using gu [of s' "Given i"] hu [of s' "Given i"] Idle by (simp_all add: s')
    with n s' kn wk act have "worker_effect w k [] s s'"
      by (auto simp: worker_effect_def active_in_def tq.active_def)
    then show ?thesis using wt [of q' "Given i"] n(5) Idle s' wk by auto
  next
    case (Given i)
    have "i \<in># ?A" using w wk Given by (force simp: givens_def dest: nth_mem)
    from tq_fetch [OF qinv this, of b] obtain tk q' where f: "TaskQueue_GetTaskById b ?tm i ?q = (Inr tk, q')"
      "queue_inv ?tm q' (?A - {#i#}) (add_mset i ?R)" "queued q' = queued ?q" "queue_units q' = queue_units ?q"
      by blast
    have s': "s' = put_worker w k q' (Runs i tk) s"
      using step wk Given f(1) by (simp add: process_queue_step_def Let_def)
    have A: "add_mset i (givens s' k) = ?A" and R: "helds s' k = add_mset i ?R"
      using gu [of s' "Runs i tk"] hu [of s' "Runs i tk"] Given by (simp_all add: s')
    then have "?A - {#i#} = givens s' k" by (metis add_mset_remove_trivial)
    with f s' kn act A R have "worker_effect w k [] s s'"
      by (auto simp: worker_effect_def active_in_def tq.active_def simp flip: A)
    then show ?thesis using wt [of q' "Runs i tk"] f(4) Given s' wk by auto
  next
    case (Runs i tk)
    then obtain wd where s': "s' = (put_worker w k ?q (Ran i) s)\<lparr>sys_world := wd\<rparr>"
      using step wk nc by (auto simp: process_queue_step_def Let_def split: prod.splits sum.splits)
    have "givens s' k = ?A" "helds s' k = ?R"
      using gu [of s' "Ran i"] hu [of s' "Ran i"] Runs by (simp_all add: s')
    with qinv s' kn act have "worker_effect w k [] s s'"
      by (auto simp: worker_effect_def active_in_def tq.active_def intro: list_update_id [symmetric])
    moreover have "worker_work s' = worker_work (put_worker w k ?q (Ran i) s)" by (simp add: s' worker_work_def)
    ultimately show ?thesis using wt [of ?q "Ran i"] Runs wk by auto
  next
    case (Ran i)
    have "i \<in># ?R" using w wk Ran by (force simp: helds_def dest: nth_mem)
    from tq_done [OF qinv this, of b] obtain cb q' where d: "TaskQueue_TaskDone b i ?q = (Inr cb, q')"
      "queue_inv ?tm q' ?A (?R - {#i#})" "queued q' = queued ?q" "queue_units q' = queue_units ?q"
      "cb \<longleftrightarrow> i \<notin> queued ?q \<union> set_mset ?A \<union> set_mset (?R - {#i#})" by blast
    let ?p = "put_worker w k q' Idle s"
    have s': "s' = (if cb then ?p\<lparr>sys_sched := Scheduler_TaskDoneCallback i (sys_sched ?p)\<rparr> else ?p)"
      using step wk Ran d(1) by (simp add: process_queue_step_def Let_def)
    then have ws: "sys_workers s' = (sys_workers s)[w := (k, Idle)]" by simp
    have A: "givens s' k = ?A" and R: "add_mset i (helds s' k) = ?R"
      using gu [OF ws] hu [OF ws] Ran by simp_all
    then have R': "?R - {#i#} = helds s' k" by (metis add_mset_remove_trivial)
    have q': "sch_queues (sys_sched s') = (sch_queues (sys_sched s))[k := q']"
      "doneq (sys_sched s') = doneq (sys_sched s) @ (if cb then [i] else [])"
      by (simp_all add: s' Scheduler_TaskDoneCallback_def)
    have act': "active_in s' k = queued ?q \<union> set_mset ?A \<union> set_mset (?R - {#i#})"
      using kn by (simp add: active_in_def tq.active_def q' d(3) A R')
    have "set_mset ?R = insert i (set_mset (?R - {#i#}))" by (metis R R' set_mset_add_mset_insert)
    then have "active_in s k = active_in s' k \<union> set (if cb then [i] else [])"
      "set (if cb then [i] else []) \<inter> active_in s' k = {}"
      using act act' d(5) by auto
    moreover have "queue_inv ?tm (sch_queues (sys_sched s') ! k) (givens s' k) (helds s' k)"
      using d(2) kn by (simp add: q' A R')
    moreover have "sys_tm s' = sys_tm s \<and> sys_phase s' = sys_phase s \<and> sys_crashed s' = sys_crashed s \<and>
        sys_log s' = sys_log s \<and> route (sys_sched s') = route (sys_sched s)"
      by (simp add: s' Scheduler_TaskDoneCallback_def)
    ultimately have "worker_effect w k (if cb then [i] else []) s s'"
      unfolding worker_effect_def using q' ws by auto
    moreover have "worker_work s' = worker_work ?p"
      by (simp add: s' worker_work_def Scheduler_TaskDoneCallback_def)
    ultimately show ?thesis using wt [of q' Idle] d(4) Ran wk by auto
  next
    case Ended
    then show ?thesis using sys_inv_worker(2) [OF inv w wk] by simp
  qed
qed

subsection \<open>Steps of the scheduler\<close>

definition tm_weight :: "'v task_manager \<Rightarrow> nat" where
  "tm_weight tm = 3 * card (set (pending_tasks tm)) + 2 * length (ready_tasks tm) + card (set (assigned_tasks tm))"

lemma queue_inv_tasks: "tm_tasks tm' = tm_tasks tm \<Longrightarrow> queue_inv tm' q A R = queue_inv tm q A R"
  by (cases q) (simp_all add: fifo_inv_def sq_inv_def TaskManager_IsValidID_def)

lemma iter_checks:
  assumes "iter_ok tm"
  shows "TaskManager_IterCompleted tm = Inr (pending_tasks tm = [] \<and> assigned_tasks tm = [] \<and> ready_tasks tm = [])"
    "TaskManager_IterTaskAvailable tm = Inr (ready_tasks tm \<noteq> [])"
  using assms by (simp_all add: TaskManager_IterCompleted_def TaskManager_IterTaskAvailable_def
      check_finalised_def bindR_def iter_ok_def)

lemma active_assigned:
  assumes "sys_inv s" "k < length (sch_queues (sys_sched s))"
  shows "active_in s k \<subseteq> set (assigned_tasks (sys_tm s))"
  using assms unfolding sys_inv_def by blast

lemma card_union_weight:
  assumes "finite P" "P = N \<union> Q" "N \<inter> Q = {}" shows "card P = card N + card Q"
  using assms by (simp add: card_Un_disjoint)

lemma IterTaskDone_weight:
  assumes ok: "iter_ok tm" and t: "t \<in> set (assigned_tasks tm)"
    and d: "TaskManager_IterTaskDone t tm = (Inr (), tm')"
  shows "tm_weight tm' < tm_weight tm"
proof -
  from IterTaskDone_ok [OF ok t] d obtain new where
    n: "iter_ok tm'" "set (assigned_tasks tm') = set (assigned_tasks tm) - {t}"
    "ready_tasks tm' = ready_tasks tm @ new" "set (pending_tasks tm) = set new \<union> set (pending_tasks tm')"
    "set new \<inter> set (pending_tasks tm') = {}" by auto
  have "distinct new" using n(1,3) by (simp add: iter_ok_def)
  then have "card (set (pending_tasks tm)) = length new + card (set (pending_tasks tm'))"
    using card_union_weight [OF _ n(4,5)] by (simp add: distinct_card)
  moreover have "card (set (assigned_tasks tm)) = Suc (card (set (assigned_tasks tm')))"
    using card_Suc_Diff1 [of "set (assigned_tasks tm)" t] t n(2) by simp
  ultimately show ?thesis by (simp add: tm_weight_def n(3))
qed

lemma IterTaskPop_weight:
  assumes ok: "iter_ok tm" and ne: "ready_tasks tm \<noteq> []" and d: "TaskManager_IterTaskPop tm = (Inr i, tm')"
  shows "tm_weight tm' < tm_weight tm"
proof -
  from IterTaskPop_ok [OF ok ne] d have n: "set (assigned_tasks tm') = insert i (set (assigned_tasks tm))"
    "ready_tasks tm' = butlast (ready_tasks tm)" "pending_tasks tm' = pending_tasks tm" by auto
  have "card (set (assigned_tasks tm')) \<le> Suc (card (set (assigned_tasks tm)))"
    unfolding n(1) by (simp add: card_insert_le_m1 card_insert_if)
  moreover have "length (ready_tasks tm) = Suc (length (butlast (ready_tasks tm)))"
    using ne by (cases "ready_tasks tm" rule: rev_cases) auto
  ultimately show ?thesis unfolding tm_weight_def n(2,3) by linarith
qed

lemma drain_ok:
  assumes "iter_ok tm" "distinct ds" "set ds \<subseteq> set (assigned_tasks tm)"
  shows "\<exists>tm'. drain_done ds tm = (Inr (), [], tm') \<and> iter_ok tm' \<and>
    set (assigned_tasks tm') = set (assigned_tasks tm) - set ds \<and> done_tasks tm' = done_tasks tm \<union> set ds \<and>
    parents tm' = parents tm \<and> tm_tasks tm' = tm_tasks tm \<and> (ds \<noteq> [] \<longrightarrow> tm_weight tm' < tm_weight tm)"
  using assms
proof (induction ds arbitrary: tm)
  case Nil
  then show ?case by auto
next
  case (Cons d ds)
  have d: "d \<in> set (assigned_tasks tm)" using Cons.prems by simp
  from IterTaskDone_ok [OF Cons.prems(1) d] obtain tm1 where
    t1: "TaskManager_IterTaskDone d tm = (Inr (), tm1)" "iter_ok tm1"
    "set (assigned_tasks tm1) = set (assigned_tasks tm) - {d}" "done_tasks tm1 = insert d (done_tasks tm)"
    "parents tm1 = parents tm" "tm_tasks tm1 = tm_tasks tm" by blast
  note w = IterTaskDone_weight [OF Cons.prems(1) d t1(1)]
  have "set ds \<subseteq> set (assigned_tasks tm1)" using Cons.prems(2,3) by (auto simp: t1(3))
  with Cons.IH [OF t1(2)] Cons.prems(2) obtain tm2 where
    t2: "drain_done ds tm1 = (Inr (), [], tm2)" "iter_ok tm2"
    "set (assigned_tasks tm2) = set (assigned_tasks tm1) - set ds" "done_tasks tm2 = done_tasks tm1 \<union> set ds"
    "parents tm2 = parents tm1" "tm_tasks tm2 = tm_tasks tm1" "ds \<noteq> [] \<longrightarrow> tm_weight tm2 < tm_weight tm1"
    by auto
  have "tm_weight tm2 \<le> tm_weight tm1" using t2(1,7) by (cases "ds = []") auto
  with t1 t2 w show ?case by auto
qed

lemma log_ok_append:
  assumes "log_ok ps xs" "distinct ys" "set xs \<inter> set ys = {}" "\<And>y. y \<in> set ys \<Longrightarrow> set (ps ! y) \<subseteq> set xs"
  shows "log_ok ps (xs @ ys)"
  unfolding log_ok_def
proof (intro conjI allI impI)
  show "distinct (xs @ ys)" using assms by (simp add: log_ok_def)
next
  fix j assume j: "j < length (xs @ ys)"
  show "set (ps ! ((xs @ ys) ! j)) \<subseteq> set (take j (xs @ ys))"
  proof (cases "j < length xs")
    case True
    then show ?thesis using assms(1) by (simp add: log_ok_def nth_append)
  next
    case False
    then have "ys ! (j - length xs) \<in> set ys" using j by simp
    then show ?thesis using assms(4) False by (auto simp: nth_append)
  qed
qed

lemma sched_drain_ok:
  assumes inv: "sys_inv s" and ne: "doneq (sys_sched s) \<noteq> []"
  shows "sys_inv (sched_drain s) \<and> tm_weight (sys_tm (sched_drain s)) < tm_weight (sys_tm s)"
proof -
  let ?d = "doneq (sys_sched s)" and ?tm = "sys_tm s" and ?s = "sched_drain s"
  let ?n = "length (sch_queues (sys_sched s))"
  have ok: "iter_ok ?tm" and dist: "distinct ?d" and lg: "log_ok (parents ?tm) (sys_log s)"
      "set (sys_log s) = done_tasks ?tm"
    and asg: "set (assigned_tasks ?tm) = set ?d \<union> (\<Union>k < ?n. active_in s k)"
    and disj: "\<forall>k < ?n. active_in s k \<inter> set ?d = {}"
    using inv unfolding sys_inv_def by blast+
  obtain tm' where t: "drain_done (rev ?d) ?tm = (Inr (), [], tm')" "iter_ok tm'"
    "set (assigned_tasks tm') = set (assigned_tasks ?tm) - set ?d" "done_tasks tm' = done_tasks ?tm \<union> set ?d"
    "parents tm' = parents ?tm" "tm_tasks tm' = tm_tasks ?tm" "tm_weight tm' < tm_weight ?tm"
    using drain_ok [OF ok, of "rev ?d"] dist asg ne by auto
  have s': "?s = s\<lparr>sys_tm := tm', sys_sched := (sys_sched s)\<lparr>doneq := []\<rparr>, sys_log := sys_log s @ rev ?d\<rparr>"
    using t(1) by (simp add: sched_drain_def)
  have dep: "set (parents ?tm ! i) \<subseteq> set (sys_log s)" if "i \<in> set ?d" for i
    using iter_ok_deps_done [OF ok, of i] that asg lg(2) by auto
  have new: "set (sys_log s) \<inter> set (rev ?d) = {}" using asg lg(2) by (auto simp: done_tasks_def)
  have "log_ok (parents ?tm) (sys_log s @ rev ?d)"
    by (rule log_ok_append [OF lg(1) _ new]) (use dist dep in auto)
  moreover have "set (assigned_tasks tm') = (\<Union>k < ?n. active_in s k)" using t(3) asg disj by auto
  moreover have same: "givens ?s k = givens s k" "helds ?s k = helds s k" "active_in ?s k = active_in s k" for k
    by (simp_all add: s' givens_def helds_def active_in_def)
  moreover have "queue_inv tm' q A R = queue_inv ?tm q A R" for q A R by (rule queue_inv_tasks [OF t(6)])
  ultimately have "sys_inv ?s" using inv t(2,4,5,6) lg(2) unfolding sys_inv_def same by (simp add: s')
  then show ?thesis using t(7) by (simp add: s')
qed

lemma sched_pop_ok:
  assumes inv: "sys_inv s" and ne: "ready_tasks (sys_tm s) \<noteq> []"
  shows "(\<exists>e. sys_phase (sched_pop b s) = Failed e) \<or>
    sys_inv (sched_pop b s) \<and> tm_weight (sys_tm (sched_pop b s)) < tm_weight (sys_tm s)"
proof -
  let ?tm = "sys_tm s" and ?i = "last (ready_tasks (sys_tm s))" and ?n = "length (sch_queues (sys_sched s))"
  let ?s = "sched_pop b s"
  have ok: "iter_ok ?tm" using inv by (simp add: sys_inv_def)
  obtain tm' where t: "TaskManager_IterTaskPop ?tm = (Inr ?i, tm')" "iter_ok tm'"
    "set (assigned_tasks tm') = insert ?i (set (assigned_tasks ?tm))" "done_tasks tm' = done_tasks ?tm"
    "parents tm' = parents ?tm" "tm_tasks tm' = tm_tasks ?tm" using IterTaskPop_ok [OF ok ne] by blast
  have i: "?i < length (tm_tasks ?tm)" "?i \<notin> set (assigned_tasks ?tm)"
    using ok last_in_set [OF ne] by (auto simp: iter_ok_def)
  have tk: "tk_id (tm_tasks ?tm ! ?i) = ?i" using ok i(1) by (simp add: iter_ok_def tm_ok_def)
  obtain r mm sch where e: "Scheduler_EnqueueTask b tm' ?i (w_mem (sys_world s), sys_sched s) = (r, mm, sch)"
    by (metis prod_cases3)
  have s': "?s = s\<lparr>sys_tm := tm', sys_world := (sys_world s)\<lparr>w_mem := mm\<rparr>, sys_sched := sch,
      sys_phase := (case r of Inl e \<Rightarrow> Failed e | Inr _ \<Rightarrow> sys_phase s)\<rparr>"
    using t(1) e by (simp add: sched_pop_def)
  show ?thesis
  proof (cases r)
    case (Inl e)
    then show ?thesis by (simp add: s')
  next
    case (Inr u)
    have gt: "TaskManager_GetTask tm' ?i = Inr (tm_tasks ?tm ! ?i)"
      using i(1) t(6) by (simp add: TaskManager_GetTask_def)
    obtain k q where k: "map_of (route (sys_sched s)) (get_task_type (tm_tasks ?tm ! ?i)) = Some k" "k < ?n"
      "TaskQueue_Enqueue b tm' ?i (w_mem (sys_world s), sch_queues (sys_sched s) ! k) = (Inr (), mm, q)"
      "sch = (sys_sched s)\<lparr>sch_queues := (sch_queues (sys_sched s))[k := q]\<rparr>"
      using e Inr gt tk
      by (auto simp: Scheduler_EnqueueTask_def split: option.splits if_splits prod.splits)
    have qinv: "queue_inv tm' (sch_queues (sys_sched s) ! j) (givens s j) (helds s j)" if "j < ?n" for j
      using inv that queue_inv_tasks [OF t(6)] by (simp add: sys_inv_def)
    have same: "givens ?s j = givens s j" "helds ?s j = helds s j" for j
      by (simp_all add: s' givens_def helds_def)
    have nact: "?i \<notin> queued (sch_queues (sys_sched s) ! k) \<union> set_mset (givens s k) \<union> set_mset (helds s k)"
      using active_assigned [OF inv k(2)] i(2) by (auto simp: active_in_def tq.active_def)
    have "TaskManager_IsValidID tm' ?i" using i(1) t(6) by (simp add: TaskManager_IsValidID_def)
    from tq_enqueue [OF qinv [OF k(2)] this nact k(3)]
    have q: "queue_inv tm' q (givens s k) (helds s k)" "queued q = insert ?i (queued (sch_queues (sys_sched s) ! k))"
      by auto
    have pr: "sys_tm ?s = tm'" "sys_sched ?s = sch" "sys_workers ?s = sys_workers s"
      "sys_phase ?s = sys_phase s" "sys_crashed ?s = sys_crashed s" "sys_log ?s = sys_log s"
      "sch_queues sch = (sch_queues (sys_sched s))[k := q]" "route sch = route (sys_sched s)"
      "doneq sch = doneq (sys_sched s)"
      by (simp_all add: s' Inr k(4))
    have act: "active_in ?s j = (if j = k then insert ?i (active_in s k) else active_in s j)" for j
      unfolding active_in_def tq.active_def same pr using k(2) q(2) by (auto simp: nth_list_update)
    have union: "(\<Union>j < ?n. active_in ?s j) = insert ?i (\<Union>j < ?n. active_in s j)"
      using k(2) by (auto simp: act split: if_splits)
    have "\<forall>j < ?n. queue_inv tm' (sch_queues sch ! j) (givens ?s j) (helds ?s j)"
      unfolding same pr using q(1) qinv k(2) by (simp add: nth_list_update)
    moreover have "\<forall>j < ?n. \<forall>x \<in> active_in ?s j.
        map_of (route sch) (get_task_type (tm_tasks tm' ! x)) = Some j"
      unfolding pr t(6) act using inv k(1) by (auto simp: sys_inv_def)
    moreover have "?i \<notin> set (doneq (sys_sched s))" using inv i(2) by (auto simp: sys_inv_def)
    then have "\<forall>j < ?n. active_in ?s j \<inter> set (doneq sch) = {}"
      unfolding pr act using inv by (auto simp: sys_inv_def)
    ultimately have "sys_inv ?s"
      using inv t(2-6) union unfolding sys_inv_def pr by auto
    moreover have "tm_weight tm' < tm_weight ?tm" using IterTaskPop_weight [OF ok ne t(1)] .
    ultimately show ?thesis by (simp add: s')
  qed
qed

subsection \<open>Every step\<close>

text \<open>The end of an iteration: every task has been reported, each after its dependencies.\<close>

definition iteration_complete :: "'v system \<Rightarrow> bool" where
  "iteration_complete s \<longleftrightarrow> log_ok (parents (sys_tm s)) (sys_log s) \<and>
     set (sys_log s) = {..<length (tm_tasks (sys_tm s))}"

lemma sched_finish_ok:
  assumes inv: "sys_inv s" and c: "pending_tasks (sys_tm s) = []" "assigned_tasks (sys_tm s) = []"
    "ready_tasks (sys_tm s) = []"
  shows "sys_phase (sched_finish s) = Finished \<and> iteration_complete (sched_finish s) \<and>
    iter_ok (sys_tm (sched_finish s)) \<and> sys_crashed (sched_finish s) = None \<and>
    parents (sys_tm (sched_finish s)) = parents (sys_tm s) \<and> tm_tasks (sys_tm (sched_finish s)) = tm_tasks (sys_tm s)"
proof -
  have ok: "iter_ok (sys_tm s)" and lg: "log_ok (parents (sys_tm s)) (sys_log s)"
    "set (sys_log s) = done_tasks (sys_tm s)" "sys_crashed s = None"
    using inv by (simp_all add: sys_inv_def)
  then have tm: "tm_ok (sys_tm s)" "finalised (sys_tm s)" by (simp_all add: iter_ok_def)
  obtain tm' where t: "TaskManager_IterReset (sys_tm s) = (Inr (), tm')" "iter_ok tm'"
    using IterReset_ok [OF tm] by (metis prod.collapse)
  have "parents tm' = parents (sys_tm s)" "tm_tasks tm' = tm_tasks (sys_tm s)"
    using t(1) tm(2) by (auto simp: TaskManager_IterReset_def check_finalised_def bindE_def)
  moreover have "done_tasks (sys_tm s) = {..<length (tm_tasks (sys_tm s))}" using c by (simp add: done_tasks_def)
  ultimately show ?thesis using t lg by (simp add: sched_finish_def iteration_complete_def)
qed

text \<open>Progress of the whole machine: tasks to report first, then work of the workers.\<close>

definition sys_order :: "('v system \<times> 'v system) set" where
  "sys_order = inv_image (less_than <*lex*> less_than) (\<lambda>s. (tm_weight (sys_tm s), worker_work s))"

lemma wf_sys_order: "wf sys_order"
  unfolding sys_order_def by (intro wf_inv_image wf_lex_prod wf_less_than)

text \<open>
  The cases of one step of any thread: the invariant is kept and progress is made, or the
  iteration ends, or \<open>RunIteration\<close> throws, or an exception ends the program.
\<close>

lemma sys_step_cases:
  assumes inv: "sys_inv s" and step: "sys_step b io th s = Some s'"
  shows "sys_inv s' \<and> (s', s) \<in> sys_order \<and> parents (sys_tm s') = parents (sys_tm s) \<and>
      tm_tasks (sys_tm s') = tm_tasks (sys_tm s)
    \<or> sys_phase s' = Finished \<and> iteration_complete s' \<and> parents (sys_tm s') = parents (sys_tm s) \<and>
      tm_tasks (sys_tm s') = tm_tasks (sys_tm s)
    \<or> (\<exists>e. sys_phase s' = Failed e) \<or> sys_crashed s' \<noteq> None"
proof (cases th)
  case SchedulerThread
  have ok: "iter_ok (sys_tm s)" and ph: "sys_phase s = Scheduling" "sys_crashed s = None"
    using inv by (simp_all add: sys_inv_def)
  have st: "sched_step b s = Some s'" using step SchedulerThread ph by simp
  consider (fin) "pending_tasks (sys_tm s) = []" "assigned_tasks (sys_tm s) = []" "ready_tasks (sys_tm s) = []"
    | (pop) "ready_tasks (sys_tm s) \<noteq> []" "s' = sched_pop b s"
    | (drain) "doneq (sys_sched s) \<noteq> []" "s' = sched_drain s"
    using st ph iter_checks [OF ok] by (auto simp: sched_step_def split: if_splits bool.splits)
  then show ?thesis
  proof cases
    case fin
    then have "s' = sched_finish s" using st ph iter_checks [OF ok] by (simp add: sched_step_def)
    then show ?thesis using sched_finish_ok [OF inv fin] by simp
  next
    case pop
    obtain tm' where "TaskManager_IterTaskPop (sys_tm s) = (Inr (last (ready_tasks (sys_tm s))), tm')"
      "parents tm' = parents (sys_tm s)" "tm_tasks tm' = tm_tasks (sys_tm s)"
      using IterTaskPop_ok [OF ok pop(1)] by blast
    then have "parents (sys_tm (sched_pop b s)) = parents (sys_tm s)"
      "tm_tasks (sys_tm (sched_pop b s)) = tm_tasks (sys_tm s)"
      by (simp_all add: sched_pop_def split: prod.splits)
    then show ?thesis using sched_pop_ok [OF inv pop(1), of b] pop(2) by (auto simp: sys_order_def)
  next
    case drain
    have "set (doneq (sys_sched s)) \<subseteq> set (assigned_tasks (sys_tm s))" "distinct (doneq (sys_sched s))"
      using inv by (simp_all add: sys_inv_def)
    then have "parents (sys_tm (sched_drain s)) = parents (sys_tm s)"
      "tm_tasks (sys_tm (sched_drain s)) = tm_tasks (sys_tm s)"
      using drain_ok [OF ok, of "rev (doneq (sys_sched s))"] by (auto simp: sched_drain_def)
    then show ?thesis using sched_drain_ok [OF inv drain(1)] drain(2) by (auto simp: sys_order_def)
  qed
next
  case (Worker w)
  then have w: "w < length (sys_workers s)" and st: "process_queue_step b io w s = Some s'"
    using step by (auto split: if_splits)
  show ?thesis
  proof (cases "sys_crashed s' = None")
    case True
    from process_queue_step_ok [OF inv w st True] obtain cb where
      eff: "worker_effect w (fst (sys_workers s ! w)) cb s s'" "worker_work s' < worker_work s" by blast
    have "sys_tm s' = sys_tm s" using eff(1) by (simp add: worker_effect_def)
    then show ?thesis using worker_effect_inv [OF inv w refl eff(1)] eff(2) by (simp add: sys_order_def)
  qed simp
qed

text \<open>While the graph is acyclic some thread can always go on.\<close>

lemma sys_progress:
  assumes inv: "sys_inv s" and ac: "acyclic (depends (parents (sys_tm s)))"
  shows "\<exists>th s'. sys_step b io th s = Some s'"
proof (rule ccontr)
  assume none: "\<nexists>th s'. sys_step b io th s = Some s'"
  then have stuck: "sys_step b io th s = None" for th by (metis option.exhaust)
  have ok: "iter_ok (sys_tm s)" and ph: "sys_phase s = Scheduling" "sys_crashed s = None"
    using inv by (simp_all add: sys_inv_def)
  have "sched_step b s = None" using stuck [of SchedulerThread] ph by simp
  then have blocked: "ready_tasks (sys_tm s) = []" "doneq (sys_sched s) = []"
    "pending_tasks (sys_tm s) \<noteq> [] \<or> assigned_tasks (sys_tm s) \<noteq> []"
    using ph iter_checks [OF ok] by (auto simp: sched_step_def split: if_splits bool.splits)
  then have "assigned_tasks (sys_tm s) \<noteq> []" using iter_progress [OF ok ac] by auto
  then obtain i where "i \<in> set (assigned_tasks (sys_tm s))" by fastforce
  then obtain k where k: "k < length (sch_queues (sys_sched s))" "i \<in> active_in s k"
    using inv blocked(2) by (auto simp: sys_inv_def)
  have idle: "sys_workers s ! w = (j, Idle) \<and> queued (sch_queues (sys_sched s) ! j) = {}"
    if wl: "w < length (sys_workers s)" and wf: "fst (sys_workers s ! w) = j" for w j
  proof -
    obtain st where wj: "sys_workers s ! w = (j, st)" using wf by (metis prod.collapse)
    have n: "process_queue_step b io w s = None" using stuck [of "Worker w"] wl ph by simp
    have "st = Idle" using n wj sys_inv_worker(2) [OF inv wl wj]
      by (cases st) (auto simp: process_queue_step_def Let_def split: prod.splits sum.splits)
    moreover have "queue_inv (sys_tm s) (sch_queues (sys_sched s) ! j) (givens s j) (helds s j)"
      using inv sys_inv_worker(1) [OF inv wl wj] by (simp add: sys_inv_def)
    note next_ok = tq_next [OF this, of b]
    have "TaskQueue_GetNextTask b (sch_queues (sys_sched s) ! j) = None"
      using n wj \<open>st = Idle\<close>
      by (auto simp: process_queue_step_def Let_def split: option.splits prod.splits sum.splits)
    with next_ok have "queued (sch_queues (sys_sched s) ! j) = {}" by (metis option.distinct(1))
    ultimately show ?thesis using wj by simp
  qed
  have "given_by k x = [] \<and> held_by k x = []" if x: "x \<in> set (sys_workers s)" for x
  proof -
    obtain w where w: "w < length (sys_workers s)" "sys_workers s ! w = x" using x by (metis in_set_conv_nth)
    then obtain j where "x = (j, Idle)" using idle [OF w(1) refl] by auto
    then show ?thesis by simp
  qed
  then have "givens s k = {#}" "helds s k = {#}" by (auto simp: givens_def helds_def)
  moreover obtain st where "(k, st) \<in> set (sys_workers s)" using inv k(1) by (auto simp: sys_inv_def)
  then obtain w where "w < length (sys_workers s)" "sys_workers s ! w = (k, st)" by (metis in_set_conv_nth)
  then have "queued (sch_queues (sys_sched s) ! k) = {}" using idle [of w k] by simp
  ultimately show False using k(2) by (simp add: active_in_def tq.active_def)
qed

section \<open>Runs of an iteration\<close>

definition sys_outcome :: "'v system \<Rightarrow> bool" where
  "sys_outcome s \<longleftrightarrow> sys_phase s = Finished \<and> iteration_complete s \<or> (\<exists>e. sys_phase s = Failed e) \<or>
     sys_crashed s \<noteq> None"

lemma sys_run_inv:
  assumes "sys_run b io s0 ths s" "sys_inv s0"
  shows "(sys_inv s \<or> sys_outcome s) \<and>
    (sys_inv s \<longrightarrow> parents (sys_tm s) = parents (sys_tm s0) \<and> tm_tasks (sys_tm s) = tm_tasks (sys_tm s0)) \<and>
    (sys_phase s = Finished \<longrightarrow> sys_crashed s = None \<longrightarrow>
       parents (sys_tm s) = parents (sys_tm s0) \<and> tm_tasks (sys_tm s) = tm_tasks (sys_tm s0))"
  using assms
proof (induction rule: sys_run.induct)
  case sys_start
  then show ?case by (auto simp: sys_inv_def)
next
  case (sys_more ths s th s')
  have "sys_crashed s = None" using sys_more.hyps(3) by (cases th) (auto split: if_splits)
  then have inv: "sys_inv s" using sys_more.IH [OF sys_more.prems] sys_more.hyps(2)
    by (auto simp: sys_outcome_def)
  then have "sys_phase s' = Scheduling \<and> sys_crashed s' = None" if "sys_inv s'" using that by (simp add: sys_inv_def)
  with sys_step_cases [OF inv sys_more.hyps(3)] inv sys_more.IH [OF sys_more.prems] show ?case
    unfolding sys_outcome_def by auto
qed

lemma sys_run_Scheduling:
  assumes "sys_run b io s0 ths s" "sys_inv s0" "sys_phase s = Scheduling" "sys_crashed s = None"
  shows "sys_inv s" "parents (sys_tm s) = parents (sys_tm s0)" "tm_tasks (sys_tm s) = tm_tasks (sys_tm s0)"
  using sys_run_inv [OF assms(1,2)] assms(3,4) by (auto simp: sys_outcome_def)

text \<open>The state in which an iteration starts: workers idle, nothing queued or reported.\<close>

definition sys_ready :: "'v system \<Rightarrow> bool" where
  "sys_ready s \<longleftrightarrow> tm_ok (sys_tm s) \<and> length (tm_tasks (sys_tm s)) < 2 ^ 64 \<and> sys_crashed s = None \<and>
     doneq (sys_sched s) = [] \<and>
     (\<forall>k < length (sch_queues (sys_sched s)). queue_inv (sys_tm s) (sch_queues (sys_sched s) ! k) {#} {#} \<and>
        queued (sch_queues (sys_sched s) ! k) = {} \<and> (k, Idle) \<in> set (sys_workers s)) \<and>
     (\<forall>(k, st) \<in> set (sys_workers s). k < length (sch_queues (sys_sched s)) \<and> st = Idle)"

lemma RunIteration_begin_ok:
  assumes r: "sys_ready s"
  shows "if roots (sys_tm s) = [] then
      sys_phase (RunIteration_begin s) = Failed (flame_exe_exception ''No runnable tasks'')
    else sys_inv (RunIteration_begin s) \<and> parents (sys_tm (RunIteration_begin s)) = parents (sys_tm s) \<and>
      tm_tasks (sys_tm (RunIteration_begin s)) = tm_tasks (sys_tm s) \<and>
      sys_sched (RunIteration_begin s) = sys_sched s"
proof -
  let ?tm0 = "(sys_tm s)\<lparr>finalised := True\<rparr>"
  have tm0: "tm_ok ?tm0" "finalised ?tm0" using r by (simp_all add: sys_ready_def tm_ok_def)
  note res = IterReset_ok [OF tm0]
  obtain tm where t: "TaskManager_Finalise (sys_tm s) = (Inr (), tm)" "iter_ok tm" "done_tasks tm = {}"
    using res by (metis TaskManager_Finalise_def prod.collapse)
  have f: "ready_tasks tm = roots (sys_tm s)" "parents tm = parents (sys_tm s)" "tm_tasks tm = tm_tasks (sys_tm s)"
    "assigned_tasks tm = []"
    using t(1) by (auto simp: TaskManager_Finalise_def TaskManager_IterReset_def check_finalised_def bindE_def)
  have av: "TaskManager_IterTaskAvailable tm = Inr (roots (sys_tm s) \<noteq> [])" using iter_checks(2) [OF t(2)] f(1) by simp
  show ?thesis
  proof (cases "roots (sys_tm s) = []")
    case True
    then show ?thesis using t(1) av by (simp add: RunIteration_begin_def)
  next
    case False
    let ?s = "RunIteration_begin s"
    have s': "?s = s\<lparr>sys_tm := tm, sys_world := (sys_world s)\<lparr>w_iteration := iter_count (sys_sched s)\<rparr>,
        sys_phase := Scheduling, sys_log := []\<rparr>"
      using False t(1) av by (simp add: RunIteration_begin_def)
    have "given_by k x = [] \<and> held_by k x = []" if "x \<in> set (sys_workers s)" for x k
      using r that by (cases x) (auto simp: sys_ready_def)
    then have g: "givens ?s k = {#}" "helds ?s k = {#}" for k by (auto simp: givens_def helds_def s')
    have qi: "queue_inv tm q A R = queue_inv (sys_tm s) q A R" for q A R by (rule queue_inv_tasks [OF f(3)])
    have pr: "sys_tm ?s = tm" "sys_sched ?s = sys_sched s" "sys_workers ?s = sys_workers s"
      "sys_phase ?s = Scheduling" "sys_crashed ?s = sys_crashed s" "sys_log ?s = []" by (simp_all add: s')
    have act: "active_in ?s k = {}" if "k < length (sch_queues (sys_sched s))" for k
      using r that unfolding active_in_def tq.active_def g pr sys_ready_def by simp
    have "sys_inv ?s"
      using r t(2,3) f(3,4) act unfolding sys_inv_def pr g qi sys_ready_def by (auto simp: log_ok_def)
    then show ?thesis using False f by (simp add: pr)
  qed
qed

section \<open>FIFO set-ups\<close>

text \<open>With FIFO queues for every task type, scheduling itself cannot fail.\<close>

definition all_fifo :: "'v scheduler \<Rightarrow> bool" where
  "all_fifo sch \<longleftrightarrow> (\<forall>q \<in> set (sch_queues sch). \<exists>f. q = FIFO f) \<and>
     (\<forall>t. \<exists>k < length (sch_queues sch). map_of (route sch) t = Some k)"

lemma fifo_ops:
  "TaskQueue_GetNextTask b (FIFO f) = Some (r, q) \<Longrightarrow> \<exists>f'. q = FIFO f'"
  "TaskQueue_GetTaskById b tm i (FIFO f) = (r', q) \<Longrightarrow> \<exists>f'. q = FIFO f'"
  "TaskQueue_TaskDone b i (FIFO f) = (r'', q) \<Longrightarrow> \<exists>f'. q = FIFO f'"
  by (auto split: prod.splits)

lemma all_fifo_update:
  assumes "all_fifo sch" "sch_queues sch' = (sch_queues sch)[k := FIFO f]" "route sch' = route sch"
  shows "all_fifo sch'"
  using assms set_update_subset_insert [of "sch_queues sch" k "FIFO f"]
  unfolding all_fifo_def by (metis insertE length_list_update subsetD)

lemma all_fifo_nth: "all_fifo sch \<Longrightarrow> k < length (sch_queues sch) \<Longrightarrow> \<exists>f. sch_queues sch ! k = FIFO f"
  unfolding all_fifo_def by (metis nth_mem)

lemma all_fifo_step:
  assumes inv: "sys_inv s" and af: "all_fifo (sys_sched s)" and step: "sys_step b io th s = Some s'"
  shows "all_fifo (sys_sched s') \<and> (\<forall>e. sys_phase s' \<noteq> Failed e)"
proof (cases th)
  case SchedulerThread
  have ok: "iter_ok (sys_tm s)" and ph: "sys_phase s = Scheduling" "sys_crashed s = None"
    using inv by (simp_all add: sys_inv_def)
  have st: "sched_step b s = Some s'" using step SchedulerThread ph by simp
  consider (fin) "pending_tasks (sys_tm s) = []" "assigned_tasks (sys_tm s) = []" "ready_tasks (sys_tm s) = []"
      "s' = sched_finish s"
    | (pop) "ready_tasks (sys_tm s) \<noteq> []" "s' = sched_pop b s"
    | (drain) "doneq (sys_sched s) \<noteq> []" "s' = sched_drain s"
    using st ph iter_checks [OF ok] by (auto simp: sched_step_def split: if_splits bool.splits)
  then show ?thesis
  proof cases
    case fin
    have "sch_queues (sys_sched s') = sch_queues (sys_sched s)" "route (sys_sched s') = route (sys_sched s)"
      using fin(4) by (auto simp: sched_finish_def split: prod.splits sum.splits)
    then have "all_fifo (sys_sched s')" using af by (simp add: all_fifo_def)
    then show ?thesis using sched_finish_ok [OF inv fin(1-3)] fin(4) by simp
  next
    case drain
    have "sch_queues (sys_sched s') = sch_queues (sys_sched s)" "route (sys_sched s') = route (sys_sched s)"
      using drain(2) by (auto simp: sched_drain_def split: prod.splits)
    then have "all_fifo (sys_sched s')" using af by (simp add: all_fifo_def)
    moreover have "sys_inv s'" using sched_drain_ok [OF inv drain(1)] drain(2) by simp
    ultimately show ?thesis by (simp add: sys_inv_def)
  next
    case pop
    let ?i = "last (ready_tasks (sys_tm s))"
    obtain tm' where t: "TaskManager_IterTaskPop (sys_tm s) = (Inr ?i, tm')" "tm_tasks tm' = tm_tasks (sys_tm s)"
      using IterTaskPop_ok [OF ok pop(1)] by blast
    have i: "?i < length (tm_tasks tm')" using ok last_in_set [OF pop(1)] t(2) by (auto simp: iter_ok_def)
    obtain k where k: "k < length (sch_queues (sys_sched s))"
      "map_of (route (sys_sched s)) (get_task_type (tm_tasks tm' ! ?i)) = Some k"
      using af unfolding all_fifo_def by blast
    obtain f where f: "sch_queues (sys_sched s) ! k = FIFO f" using all_fifo_nth [OF af k(1)] ..
    have "Scheduler_EnqueueTask b tm' ?i (w_mem (sys_world s), sys_sched s) = (Inr (), w_mem (sys_world s),
        (sys_sched s)\<lparr>sch_queues := (sch_queues (sys_sched s))[k := FIFO (f\<lparr>fq_queue := fq_queue f @ [tk_id (tm_tasks tm' ! ?i)]\<rparr>)]\<rparr>)"
      using i k f by (simp add: Scheduler_EnqueueTask_def TaskManager_GetTask_def FIFOTaskQueue_Enqueue_def)
    then show ?thesis using pop(2) t(1) ph af
      by (auto simp: sched_pop_def intro: all_fifo_update)
  qed
next
  case (Worker w)
  then have w: "w < length (sys_workers s)" and st: "process_queue_step b io w s = Some s'"
    using step by (auto split: if_splits)
  obtain k x where wk: "sys_workers s ! w = (k, x)" by (cases "sys_workers s ! w")
  note kn = sys_inv_worker(1) [OF inv w wk]
  obtain f where f: "sch_queues (sys_sched s) ! k = FIFO f" using all_fifo_nth [OF af kn] ..
  have "sys_phase s' = sys_phase s" "route (sys_sched s') = route (sys_sched s)"
    "\<exists>f'. sch_queues (sys_sched s') = (sch_queues (sys_sched s))[k := FIFO f']"
    using st wk f fifo_ops(1) [of b f] fifo_ops(2) [of b "sys_tm s" _ f] fifo_ops(3) [of b _ f]
    by (cases x; fastforce simp: process_queue_step_def Let_def Scheduler_TaskDoneCallback_def
        split: option.splits prod.splits sum.splits if_splits)+
  then show ?thesis using all_fifo_update [OF af] inv by (auto simp: sys_inv_def)
qed

end
