(* ===== verification/Iteration.thy ===== *)
theory Iteration
  imports Scheduler
begin

text \<open>
  Whole iterations of the machine of \<open>Scheduler\<close>: what holds when \<open>RunIteration\<close> returns,
  the system that \<open>Simulation::start\<close> sets up (\<open>src/flame2/sim/simulation.cpp\<close>), and the
  properties of every interleaving of the scheduler and its workers.
\<close>

section \<open>Whole iterations\<close>

text \<open>The task a worker has.\<close>

fun worker_task :: "'v worker \<Rightarrow> nat option" where
  "worker_task (Given i) = Some i"
| "worker_task (Runs i tk) = Some i"
| "worker_task (Ran i) = Some i"
| "worker_task st = None"

lemma worker_task_active:
  assumes "(k, st) \<in> set (sys_workers s)" "worker_task st = Some i"
  shows "i \<in> active_in s k"
proof -
  have "i \<in># givens s k \<or> i \<in># helds s k"
    using assms by (cases st) (force simp: givens_def helds_def)+
  then show ?thesis by (auto simp: active_in_def tq.active_def)
qed

lemma sys_inv_workers:
  assumes "sys_inv s" "(k, st) \<in> set (sys_workers s)"
  shows "k < length (sch_queues (sys_sched s))" "st \<noteq> Ended"
proof -
  obtain w where "w < length (sys_workers s)" "sys_workers s ! w = (k, st)"
    using assms(2) by (auto simp: in_set_conv_nth)
  then show "k < length (sch_queues (sys_sched s))" "st \<noteq> Ended" using sys_inv_worker [OF assms(1)] by blast+
qed

lemma no_active_idle:
  assumes "sys_inv s" "assigned_tasks (sys_tm s) = []" "(k, st) \<in> set (sys_workers s)"
  shows "st = Idle"
proof (rule ccontr)
  assume "st \<noteq> Idle"
  moreover have "st \<noteq> Ended" "k < length (sch_queues (sys_sched s))"
    using sys_inv_workers [OF assms(1,3)] by blast+
  ultimately obtain i where "worker_task st = Some i" by (cases st) auto
  then have "i \<in> active_in s k" by (rule worker_task_active [OF assms(3)])
  then show False using active_assigned [OF assms(1) \<open>k < _\<close>] assms(2) by simp
qed

lemma sched_finish_ready:
  assumes inv: "sys_inv s" and c: "pending_tasks (sys_tm s) = []" "assigned_tasks (sys_tm s) = []"
    "ready_tasks (sys_tm s) = []"
  shows "sys_ready (sched_finish s)"
proof -
  note fin = sched_finish_ok [OF inv c]
  have idle: "st = Idle" if "(k, st) \<in> set (sys_workers s)" for k st
    by (rule no_active_idle [OF inv c(2) that])
  have none: "active_in s k = {}" if "k < length (sch_queues (sys_sched s))" for k
    using active_assigned [OF inv that] c(2) by simp
  have s': "sys_workers (sched_finish s) = sys_workers s"
    "sch_queues (sys_sched (sched_finish s)) = sch_queues (sys_sched s)"
    "doneq (sys_sched (sched_finish s)) = doneq (sys_sched s)"
    by (auto simp: sched_finish_def split: prod.splits sum.splits)
  have empty: "givens s k = {#}" "helds s k = {#}" "queued (sch_queues (sys_sched s) ! k) = {}"
    if "k < length (sch_queues (sys_sched s))" for k
    using none [OF that] by (simp_all add: active_in_def tq.active_def)
  have "queue_inv (sys_tm (sched_finish s)) (sch_queues (sys_sched s) ! k) {#} {#}"
    if k: "k < length (sch_queues (sys_sched s))" for k
  proof -
    have "queue_inv (sys_tm s) (sch_queues (sys_sched s) ! k) (givens s k) (helds s k)"
      using inv k by (simp add: sys_inv_def)
    then show ?thesis using empty [OF k] fin queue_inv_tasks by metis
  qed
  moreover have "doneq (sys_sched s) = []" using inv c(2) by (auto simp: sys_inv_def)
  moreover have "(k, Idle) \<in> set (sys_workers s)" if k: "k < length (sch_queues (sys_sched s))" for k
  proof -
    have "\<exists>st. (k, st) \<in> set (sys_workers s)" using inv k by (simp add: sys_inv_def)
    then show ?thesis using idle by blast
  qed
  moreover note sys_inv_workers(1) [OF inv]
  ultimately show ?thesis
    using fin empty(3) idle inv unfolding sys_ready_def s' by (auto simp: iter_ok_def sys_inv_def)
qed

lemma sched_step_Finished:
  assumes inv: "sys_inv s" and step: "sys_step b io th s = Some s'" and fin: "sys_phase s' = Finished"
    and nc: "sys_crashed s' = None"
  shows "sys_ready s' \<and> iteration_complete s' \<and> parents (sys_tm s') = parents (sys_tm s) \<and>
    tm_tasks (sys_tm s') = tm_tasks (sys_tm s) \<and> iter_count (sys_sched s') = iter_count (sys_sched s) + 1"
proof -
  let ?c = "pending_tasks (sys_tm s) = [] \<and> assigned_tasks (sys_tm s) = [] \<and> ready_tasks (sys_tm s) = []"
  have ph: "sys_phase s = Scheduling" "sys_crashed s = None" using inv by (simp_all add: sys_inv_def)
  have it: "iter_ok (sys_tm s)" using inv by (simp add: sys_inv_def)
  have "th = SchedulerThread \<and> ?c"
  proof (cases th)
    case SchedulerThread
    have "sys_phase (sched_pop b s) \<noteq> Finished" using ph(1)
      by (auto simp: sched_pop_def split: prod.splits sum.splits)
    moreover have "sys_phase (sched_drain s) \<noteq> Finished" using ph(1)
      by (auto simp: sched_drain_def split: prod.splits sum.splits)
    ultimately show ?thesis
      using SchedulerThread step fin ph iter_checks [OF it]
      by (auto simp: sched_step_def split: bool.splits if_splits)
  next
    case (Worker w)
    then have w: "w < length (sys_workers s)" "process_queue_step b io w s = Some s'"
      using step by (auto split: if_splits)
    then have "sys_phase s' = sys_phase s"
      using process_queue_step_ok [OF inv w nc] by (auto simp: worker_effect_def)
    then show ?thesis using fin ph by simp
  qed
  then have c: "?c" and "s' = sched_finish s"
    using step ph iter_checks(1) [OF it] by (auto simp: sched_step_def)
  moreover have "iter_count (sys_sched (sched_finish s)) = iter_count (sys_sched s) + 1"
    using fin \<open>s' = _\<close> by (auto simp: sched_finish_def split: prod.splits sum.splits)
  ultimately show ?thesis using sched_finish_ready [OF inv] sched_finish_ok [OF inv] by simp
qed

lemma sys_run_Finished:
  assumes run: "sys_run b io s0 ths s" and inv: "sys_inv s0" and fin: "sys_phase s = Finished" "sys_crashed s = None"
  shows "sys_ready s \<and> iteration_complete s \<and> parents (sys_tm s) = parents (sys_tm s0) \<and>
    tm_tasks (sys_tm s) = tm_tasks (sys_tm s0)"
  using run
proof cases
  case sys_start
  then show ?thesis using fin inv by (simp add: sys_inv_def)
next
  case (sys_more ths' s1 th)
  have "sys_crashed s1 = None" using sys_more(4) by (cases th) (auto split: if_splits)
  note s1 = sys_run_Scheduling [OF sys_more(2) inv sys_more(3) this]
  from sched_step_Finished [OF s1(1) sys_more(4) fin] s1 show ?thesis by simp
qed

lemma iteration_complete_order:
  assumes "iteration_complete s" "parents (sys_tm s) = ps" "tm_tasks (sys_tm s) = ts"
  shows "mset (sys_log s) = mset [0..<length ts]"
    "\<forall>j < length (sys_log s). set (ps ! (sys_log s ! j)) \<subseteq> set (take j (sys_log s))"
proof -
  from assms have log: "distinct (sys_log s)" "set (sys_log s) = set [0..<length ts]"
    by (auto simp: iteration_complete_def log_ok_def)
  then show "mset (sys_log s) = mset [0..<length ts]" by (metis distinct_upt set_eq_iff_mset_eq_distinct)
  show "\<forall>j < length (sys_log s). set (ps ! (sys_log s ! j)) \<subseteq> set (take j (sys_log s))"
    using assms unfolding iteration_complete_def log_ok_def by blast
qed

text \<open>A non-empty acyclic graph has a task without dependencies.\<close>

lemma acyclic_roots:
  assumes ok: "tm_ok tm" and ac: "acyclic (depends (parents tm))" and ne: "tm_tasks tm \<noteq> []"
  shows "roots tm \<noteq> []"
proof -
  let ?N = "length (tm_tasks tm)"
  have "depends (parents tm) \<subseteq> {..<?N} \<times> {..<?N}" using tm_ok_edge [OF ok] by auto
  then have "finite (depends (parents tm))" by (rule finite_subset) simp
  then have wf: "wf ((depends (parents tm))\<inverse>)" using ac by (rule finite_acyclic_wf_converse)
  have "0 \<in> {..<?N}" using ne by simp
  from wfE_min [OF wf this] obtain z where z: "z < ?N" "\<And>y. (z, y) \<in> depends (parents tm) \<Longrightarrow> \<not> y < ?N"
    by auto
  have "parents tm ! z = []"
  proof (rule ccontr)
    assume "parents tm ! z \<noteq> []"
    then obtain p where "p \<in> set (parents tm ! z)" by fastforce
    then have "(z, p) \<in> depends (parents tm)" using ok z(1) by (simp add: depends_def tm_ok_def)
    then show False using z(2) tm_ok_edge(2) [OF ok] by blast
  qed
  then have "z \<in> set (roots tm)" using ok z(1) by (simp add: tm_ok_def)
  then show ?thesis by auto
qed

lemma begin_inv:
  assumes "sys_ready s" "roots (sys_tm s) \<noteq> []"
  shows "sys_inv (RunIteration_begin s)" "parents (sys_tm (RunIteration_begin s)) = parents (sys_tm s)"
    "tm_tasks (sys_tm (RunIteration_begin s)) = tm_tasks (sys_tm s)" "sys_sched (RunIteration_begin s) = sys_sched s"
  using RunIteration_begin_ok [OF assms(1)] assms(2) by simp_all

lemma sys_run_fifo:
  assumes "sys_run b io s0 ths s" "sys_inv s0" "all_fifo (sys_sched s0)"
  shows "all_fifo (sys_sched s) \<and> (\<forall>e. sys_phase s \<noteq> Failed e)"
  using assms
proof induction
  case sys_start
  then show ?case by (simp add: sys_inv_def)
next
  case (sys_more ths s th s')
  have "sys_crashed s = None" using sys_more.hyps(3) by (cases th) (auto split: if_splits)
  from sys_run_Scheduling(1) [OF sys_more.hyps(1) sys_more.prems(1) sys_more.hyps(2) this] sys_more
  show ?case using all_fifo_step by blast
qed

text \<open>
  The system that \<open>Simulation::start\<close> sets up around a task manager: the scheduler with
  its queue and the idle workers, before the first iteration.
\<close>

definition Simulation_system :: "size_t \<Rightarrow> 'v task_manager \<Rightarrow> 'v world \<Rightarrow> 'v system" where
  "Simulation_system num_cores tm wd =
     (let sch = snd (Simulation_setup num_cores (Scheduler_new 1))
      in \<lparr>sys_tm = tm, sys_world = wd, sys_sched = sch, sys_workers = start_workers sch,
          sys_phase = Finished, sys_crashed = None, sys_log = []\<rparr>)"

lemma Simulation_setup_eq:
  assumes "0 < n"
  shows "Simulation_setup n (Scheduler_new m) = (Inr (),
    \<lparr>sch_queues = [FIFO \<lparr>fq_slots = n, fq_queue = []\<rparr>],
     route = [(AGENT_FUNCTION, 0), (IO_FUNCTION, 0), (MB_FUNCTION, 0)], doneq = [], iter_count = m\<rparr>)"
proof -
  have "\<not> n < 1" using assms by (simp add: not_less_one word_gt_0)
  then show ?thesis
    by (simp add: Simulation_setup_def bindE_def bindR_def Scheduler_CreateQueue_def FIFOTaskQueue_new_def
        Scheduler_new_def Scheduler_AssignType_def Scheduler_IsValidQueueId_def omap_has_def omap_put_def
        less_task_type_def)
qed

lemma Simulation_system_ready:
  assumes "0 < n" "tm_ok tm" "length (tm_tasks tm) < 2 ^ 64"
  shows "sys_ready (Simulation_system n tm wd)" "all_fifo (sys_sched (Simulation_system n tm wd))"
    "sys_tm (Simulation_system n tm wd) = tm"
proof -
  have un: "0 < unat n" using assms(1) by (simp add: word_gt_0 unat_gt_0)
  have "\<exists>k < 1. map_of [(AGENT_FUNCTION, 0 :: nat), (IO_FUNCTION, 0), (MB_FUNCTION, 0)] t = Some k" for t
    by (cases t) auto
  then show "sys_ready (Simulation_system n tm wd)" "all_fifo (sys_sched (Simulation_system n tm wd))"
    "sys_tm (Simulation_system n tm wd) = tm"
    using assms(2,3) un
    by (auto simp: Simulation_system_def Simulation_setup_eq [OF assms(1)] Let_def sys_ready_def all_fifo_def
        start_workers_def fifo_inv_def)
qed

section \<open>Properties\<close>

text \<open>A system with two workers and the three tasks a, b (after a) and c (after b), for the witnesses.\<close>

definition sample_tm :: "nat task_manager" where
  "sample_tm = tm_calls Debug sample_calls"

definition sample_world :: "nat world" where
  "sample_world = \<lparr>w_mem = \<lparr>agent_map = []\<rparr>, w_mb = sample_boards, w_iteration = 1\<rparr>"

definition sample_system :: "nat system" where
  "sample_system = Simulation_system 2 sample_tm sample_world"

lemma sample_tm_ok: "tm_ok sample_tm" "acyclic (depends (parents sample_tm))" "length (tm_tasks sample_tm) = 3"
  "roots sample_tm = [0]" "parents sample_tm = [[], [0], [1]]"
proof -
  show "tm_ok sample_tm" "acyclic (depends (parents sample_tm))"
    using tm_calls_ok(1) [of Debug sample_calls] tm_calls_ok(2) [of sample_calls]
    by (simp_all add: sample_tm_def tm_inv_def)
  show "length (tm_tasks sample_tm) = 3" "roots sample_tm = [0]" "parents sample_tm = [[], [0], [1]]"
    by (simp_all add: sample_tm_def tm_eval)
qed

lemma sample_system_ok: "sys_ready sample_system" "all_fifo (sys_sched sample_system)" "sys_tm sample_system = sample_tm"
  unfolding sample_system_def
  using Simulation_system_ready [of 2 sample_tm sample_world] sample_tm_ok by (simp_all add: word_gt_0)

definition sample_io :: "nat io_backend" where
  "sample_io = \<lparr>io_writePop = \<lambda>_ _ _. returnE (), io_initialiseData = \<lambda>_. returnE (),
     io_finaliseData = \<lambda>_. returnE ()\<rparr>"

fun run_threads :: "build \<Rightarrow> 'v io_backend \<Rightarrow> thread list \<Rightarrow> 'v system \<Rightarrow> 'v system option" where
  "run_threads b io [] s = Some s"
| "run_threads b io (th # ths) s =
     (if sys_phase s \<noteq> Scheduling then None
      else case sys_step b io th s of None \<Rightarrow> None | Some s' \<Rightarrow> run_threads b io ths s')"

lemma run_threads_sys_run:
  assumes "sys_run b io s0 ths s" "run_threads b io ths' s = Some s'"
  shows "sys_run b io s0 (ths @ ths') s'"
  using assms
proof (induction ths' arbitrary: ths s)
  case Nil
  then show ?case by simp
next
  case (Cons th ths')
  then obtain s1 where "sys_phase s = Scheduling" "sys_step b io th s = Some s1" "run_threads b io ths' s1 = Some s'"
    by (auto split: if_splits option.splits)
  with Cons.IH [of "ths @ [th]" s1] Cons.prems(1) show ?case by (simp add: sys_more)
qed

lemmas run_threads_start = run_threads_sys_run [OF sys_start, simplified]

text \<open>The schedule in which worker 0 does one task after the other.\<close>

definition one_task :: "thread list" where
  "one_task = [SchedulerThread, Worker 0, Worker 0, Worker 0, Worker 0, SchedulerThread]"

lemma sample_roots: "roots (sys_tm sample_system) \<noteq> []" "tm_tasks (sys_tm sample_system) \<noteq> []"
  "acyclic (depends (parents (sys_tm sample_system)))"
  using sample_system_ok(3) sample_tm_ok by auto

lemmas sys_eval = sys_step.simps sched_step_def sched_pop_def sched_drain_def sched_finish_def process_queue_step_def
  put_worker_def TaskManager_IterReset_def TaskManager_IterTaskAvailable_def
  TaskManager_IterCompleted_def TaskManager_IterTaskPop_def TaskManager_IterTaskDone_def fulfil_def bindR_def bindE_def
  returnE_def check_finalised_def Scheduler_EnqueueTask_def TaskManager_GetTask_def FIFOTaskQueue_Enqueue_def
  FIFOTaskQueue_GetNextTask_def TaskQueue_GetTaskById_default_def FIFOTaskQueue_TaskDone_def Scheduler_TaskDoneCallback_def
  oset_insert_def oset_erase_def IsTermTask_def GetTermTaskId_def Let_def


lemma sample_sync: "MessageBoardManager_Sync ''m'' sample_boards = (Inr (), sample_boards)"
  by (simp add: sample_boards_def MessageBoardManager_RegisterMessage_def MessageBoardManager_new_def
      omap_has_def omap_put_def MessageBoard_create_def MessageBoardManager_Sync_def GetMessageBoard_def
      MessageBoard_Sync_def returnE_def VectorWrapper_reserve_def)

lemma sample_run:
  "tk_body tk = MessageBoardTask ''m'' OP_SYNC \<Longrightarrow> Task_Run b io tk sample_world = (Inr (), sample_world)"
  using sample_sync by (simp add: Task_Run_def sample_world_def MessageBoardTask_Run_def)

definition sample_tasks :: "nat task list" where
  "sample_tasks = map (\<lambda>(i, n). \<lparr>tk_id = i, tk_name = n, tk_proxy = None,
     tk_body = MessageBoardTask ''m'' OP_SYNC\<rparr>) [(0, ''a''), (1, ''b''), (2, ''c'')]"

lemma sample_tasks_simps:
  "length sample_tasks = 3" "sample_tasks \<noteq> []"
  "i < 3 \<Longrightarrow> tk_id (sample_tasks ! i) = i" "i < 3 \<Longrightarrow> tk_body (sample_tasks ! i) = MessageBoardTask ''m'' OP_SYNC"
  by (auto simp: sample_tasks_def less_Suc_eq numeral_3_eq_3)

lemma sample_tm_eq: "sample_tm = \<lparr>tm_tasks = sample_tasks, name_map = [(''a'', 0), (''b'', 1), (''c'', 2)],
    roots = [0], leaves = [2], parents = [[], [0], [1]], children = [[1], [2], []], finalised = False,
    pending_deps = [], ready_tasks = [], pending_tasks = [], assigned_tasks = []\<rparr>"
  by (simp add: sample_tm_def tm_eval sample_tasks_def)

lemma sample_workers: "replicate 2 (0, Idle) = [(0, Idle), (0, Idle)]"
  by (simp add: numeral_2_eq_2)

lemma sample_start: "RunIteration_begin sample_system = \<lparr>
  sys_tm = \<lparr>tm_tasks = sample_tasks, name_map = [(''a'', 0), (''b'', 1), (''c'', 2)], roots = [0], leaves = [2],
    parents = [[], [0], [1]], children = [[1], [2], []], finalised = True, pending_deps = [[], [0], [1]],
    ready_tasks = [0], pending_tasks = [1, 2], assigned_tasks = []\<rparr>,
  sys_world = sample_world,
  sys_sched = \<lparr>sch_queues = [FIFO \<lparr>fq_slots = 2, fq_queue = []\<rparr>],
    route = [(AGENT_FUNCTION, 0), (IO_FUNCTION, 0), (MB_FUNCTION, 0)], doneq = [], iter_count = 1\<rparr>,
  sys_workers = [(0, Idle), (0, Idle)], sys_phase = Scheduling, sys_crashed = None, sys_log = []\<rparr>"
proof -
  have "filter (\<lambda>i. i \<notin> {0}) [0..<3] = [1, 2 :: nat]" by (simp add: upt_rec)
  moreover have "sample_world\<lparr>w_iteration := 1\<rparr> = sample_world" by (simp add: sample_world_def)
  ultimately show ?thesis
    by (simp add: sample_system_def Simulation_system_def Simulation_setup_eq start_workers_def Let_def word_gt_0
        sample_tm_eq sample_workers RunIteration_begin_def TaskManager_Finalise_def TaskManager_IterReset_def
        TaskManager_IterTaskAvailable_def bindR_def bindE_def check_finalised_def sample_tasks_simps)
qed

lemmas sample_eval = one_task_def sample_start sys_eval sample_tasks_simps sample_run get_task_type_def

text \<open>
  C1. Dependency safety of the scheduler. In every interleaving of the scheduler and the
  workers of an iteration, with any queues and any splitting of tasks, a worker is given a
  task only after all tasks it depends on have been completed in this iteration, and never
  after the task itself has been reported as done.
\<close>

theorem worker_has_runnable_task:
  assumes "sys_ready s" "roots (sys_tm s) \<noteq> []"
    and "sys_run b io (RunIteration_begin s) ths s'" "sys_phase s' = Scheduling" "sys_crashed s' = None"
    and "w < length (sys_workers s')" "worker_task (snd (sys_workers s' ! w)) = Some i"
  shows "set (parents (sys_tm s) ! i) \<subseteq> set (sys_log s') \<and> i \<notin> set (sys_log s')"
proof -
  note ini = begin_inv [OF assms(1,2)]
  note s' = sys_run_Scheduling [OF assms(3) ini(1) assms(4,5)]
  obtain k st where kst: "sys_workers s' ! w = (k, st)" by (cases "sys_workers s' ! w")
  have "i \<in> active_in s' k"
    using worker_task_active [of k st s' i] assms(6,7) kst by (metis nth_mem snd_conv)
  then have i: "i \<in> set (assigned_tasks (sys_tm s'))"
    using active_assigned [OF s'(1)] sys_inv_worker(1) [OF s'(1) assms(6) kst] by blast
  have it: "iter_ok (sys_tm s')" and log: "set (sys_log s') = done_tasks (sys_tm s')"
    using s'(1) by (simp_all add: sys_inv_def)
  have "set (parents (sys_tm s') ! i) \<subseteq> done_tasks (sys_tm s')"
    by (rule iter_ok_deps_done [OF it]) (simp add: i)
  moreover have "i \<notin> done_tasks (sys_tm s')" using i by (simp add: done_tasks_def)
  ultimately show ?thesis using log s'(2) ini(2) by simp
qed

theorem worker_has_runnable_task_witness:
  "\<exists>s'. run_threads Debug sample_io (one_task @ [SchedulerThread, Worker 1]) (RunIteration_begin sample_system) = Some s' \<and>
     worker_task (snd (sys_workers s' ! 1)) = Some 1 \<and> 0 \<in> set (sys_log s') \<and> 1 \<notin> set (sys_log s')"
proof -
  let ?ths = "one_task @ [SchedulerThread, Worker 1]"
  have "case run_threads Debug sample_io ?ths (RunIteration_begin sample_system) of None \<Rightarrow> False
    | Some s' \<Rightarrow> sys_phase s' = Scheduling \<and> sys_crashed s' = None \<and> 1 < length (sys_workers s') \<and>
        worker_task (snd (sys_workers s' ! 1)) = Some 1 \<and> set (parents (sys_tm sample_system) ! 1) = {0}"
    by (simp add: sample_eval sample_system_ok(3) sample_tm_ok(5))
  then obtain s' where run: "run_threads Debug sample_io ?ths (RunIteration_begin sample_system) = Some s'"
    and s': "sys_phase s' = Scheduling" "sys_crashed s' = None" "1 < length (sys_workers s')"
      "worker_task (snd (sys_workers s' ! 1)) = Some 1" and p: "set (parents (sys_tm sample_system) ! 1) = {0}"
    by (auto split: option.splits)
  from worker_has_runnable_task [OF sample_system_ok(1) sample_roots(1) run_threads_start [OF run] s'] run s'(4) p
  show ?thesis by blast
qed

text \<open>
  C3. No deadlock: with an acyclic dependency graph, in every state an iteration can reach
  some thread can take a step, until \<open>RunIteration\<close> returns or throws.
\<close>

theorem iteration_never_blocks:
  assumes "sys_ready s" "acyclic (depends (parents (sys_tm s)))" "tm_tasks (sys_tm s) \<noteq> []"
    and "sys_run b io (RunIteration_begin s) ths s'" "sys_phase s' = Scheduling" "sys_crashed s' = None"
  shows "\<exists>th s''. sys_step b io th s' = Some s''"
proof -
  have "tm_ok (sys_tm s)" using assms(1) by (simp add: sys_ready_def)
  then have "roots (sys_tm s) \<noteq> []" using assms(2,3) by (rule acyclic_roots)
  note ini = begin_inv [OF assms(1) this]
  note s' = sys_run_Scheduling [OF assms(4) ini(1) assms(5,6)]
  show ?thesis by (rule sys_progress [OF s'(1)]) (simp add: s'(2) ini(2) assms(2))
qed

theorem iteration_never_blocks_witness:
  "\<exists>s' th s''. run_threads Production sample_io [SchedulerThread, Worker 0] (RunIteration_begin sample_system) = Some s' \<and>
     sys_step Production sample_io th s' = Some s''"
proof -
  have "case run_threads Production sample_io [SchedulerThread, Worker 0] (RunIteration_begin sample_system) of None \<Rightarrow> False
    | Some s' \<Rightarrow> sys_phase s' = Scheduling \<and> sys_crashed s' = None"
    by (simp add: sample_eval sample_system_ok(3) sample_tm_ok(5))
  then obtain s' where
    run: "run_threads Production sample_io [SchedulerThread, Worker 0] (RunIteration_begin sample_system) = Some s'"
    and s': "sys_phase s' = Scheduling" "sys_crashed s' = None"
    by (auto split: option.splits)
  from iteration_never_blocks [OF sample_system_ok(1) sample_roots(3,2) run_threads_start [OF run] s'] run
  show ?thesis by blast
qed



text \<open>
  C2. When \<open>RunIteration\<close> returns, every registered task has been reported as done exactly
  once, each after all its dependencies; all workers are idle and all queues empty, so
  that the next iteration can start.
\<close>

theorem finished_iteration_ran_every_task_once:
  assumes "sys_ready s" "roots (sys_tm s) \<noteq> []"
    and "sys_run b io (RunIteration_begin s) ths s'" "sys_phase s' = Finished" "sys_crashed s' = None"
  shows "mset (sys_log s') = mset [0..<length (tm_tasks (sys_tm s))] \<and>
    (\<forall>j < length (sys_log s'). set (parents (sys_tm s) ! (sys_log s' ! j)) \<subseteq> set (take j (sys_log s'))) \<and>
    sys_ready s' \<and> parents (sys_tm s') = parents (sys_tm s) \<and> tm_tasks (sys_tm s') = tm_tasks (sys_tm s)"
proof -
  note ini = begin_inv [OF assms(1,2)]
  note fin = sys_run_Finished [OF assms(3) ini(1) assms(4,5)]
  then show ?thesis using iteration_complete_order [of s'] ini(2,3) by simp
qed

theorem finished_iteration_ran_every_task_once_witness:
  "\<exists>s'. run_threads Debug sample_io (one_task @ one_task @ one_task @ [SchedulerThread]) (RunIteration_begin sample_system) =
       Some s' \<and> mset (sys_log s') = mset [0, 1, 2] \<and> sys_ready s'"
proof -
  let ?ths = "one_task @ one_task @ one_task @ [SchedulerThread]"
  have "case run_threads Debug sample_io ?ths (RunIteration_begin sample_system) of None \<Rightarrow> False
    | Some s' \<Rightarrow> sys_phase s' = Finished \<and> sys_crashed s' = None"
    by (simp add: sample_eval sample_system_ok(3) sample_tm_ok(5))
  then obtain s' where run: "run_threads Debug sample_io ?ths (RunIteration_begin sample_system) = Some s'"
    and s': "sys_phase s' = Finished" "sys_crashed s' = None"
    by (auto split: option.splits)
  have "length (tm_tasks (sys_tm sample_system)) = 3" using sample_system_ok(3) sample_tm_ok(3) by simp
  with finished_iteration_ran_every_task_once [OF sample_system_ok(1) sample_roots(1) run_threads_start [OF run] s'] run
  show ?thesis by (auto simp: upt_rec)
qed

text \<open>
  \<open>RunIteration\<close> throws \<open>No runnable tasks\<close> exactly when every registered task has a
  dependency (or there is no task), and otherwise starts scheduling.
\<close>

theorem no_runnable_tasks_reported:
  assumes "sys_ready s"
  shows "sys_phase (RunIteration_begin s) =
    (if \<exists>i < length (tm_tasks (sys_tm s)). parents (sys_tm s) ! i = [] then Scheduling
     else Failed (flame_exe_exception ''No runnable tasks''))"
proof -
  have "set (roots (sys_tm s)) = {i. i < length (tm_tasks (sys_tm s)) \<and> parents (sys_tm s) ! i = []}"
    using assms by (simp add: sys_ready_def tm_ok_def)
  then have "roots (sys_tm s) = [] \<longleftrightarrow> \<not> (\<exists>i < length (tm_tasks (sys_tm s)). parents (sys_tm s) ! i = [])"
    by (metis (mono_tags, lifting) empty_Collect_eq set_empty)
  then show ?thesis using RunIteration_begin_ok [OF assms] by (cases "roots (sys_tm s) = []") (simp_all add: sys_inv_def)
qed

theorem no_runnable_tasks_reported_witness:
  "sys_phase (RunIteration_begin (Simulation_system 2 TaskManager_new sample_world)) =
     Failed (flame_exe_exception ''No runnable tasks'')"
proof -
  have tm: "tm_tasks (TaskManager_new :: nat task_manager) = []" by (simp add: TaskManager_new_def)
  then have len: "length (tm_tasks (TaskManager_new :: nat task_manager)) < 2 ^ 64" by simp
  have "(0 :: size_t) < 2" by (simp add: word_gt_0)
  note Simulation_system_ready(1,3) [OF this tm_ok_new len, of sample_world]
  with no_runnable_tasks_reported [of "Simulation_system 2 TaskManager_new sample_world"] tm show ?thesis by simp
qed



end
