(* ===== verification/Xml_Documents.thy ===== *)
theory Xml_Documents
  imports Prelude
begin

text \<open>
  The part of \<open>src/flame2/io/io_xml_pop.cpp\<close> that talks to the text writer of libxml2,
  and the documents the two XML backends read and write. The library is not part of the
  sources. A writer is the sequence of the calls made on it so far, and the code such a call
  returns is an argument \<open>rc\<close> of the definitions: it may depend on the calls before and
  on the call (a full disk, an illegal name). A document is a tree of elements with their
  attributes, texts, and comments (which stand for every node with a content that is not an
  element); \<open>document_calls\<close> are the calls that write a tree, and
  \<open>tree_nodes\<close> the nodes that the pull reader of the library reports for it.
\<close>

section \<open>Numbers as text\<close>

text \<open>The conversions \<open>%d\<close> of an \<open>int\<close> and \<open>lexical_cast<std::string>\<close> of a \<open>size_t\<close>.\<close>

definition digit_char :: "nat \<Rightarrow> char" where
  "digit_char d = char_of (48 + d)"

fun decimal :: "nat \<Rightarrow> string" where
  "decimal n = (if n < 10 then [digit_char n] else decimal (n div 10) @ [digit_char (n mod 10)])"

declare decimal.simps [simp del]

definition decimal_int :: "int \<Rightarrow> string" where
  "decimal_int i = (if i < 0 then CHR ''-'' # decimal (nat (- i)) else decimal (nat i))"

section \<open>The writer\<close>

datatype xml_call =
    StartElement string
  | WriteAttribute string string
  | WriteElement string string
  | EndElement
  | EndDocument

type_synonym writer_codes = "xml_call list \<Rightarrow> xml_call \<Rightarrow> int"
type_synonym 'a writer = "(xml_call list, 'a) exec"

definition writer_call :: "writer_codes \<Rightarrow> string \<Rightarrow> xml_call \<Rightarrow> unit writer" where
  "writer_call rc msg c cs =
     (let cs' = cs @ [c] in
      if rc cs c < 0 then (Inl (flame_io_exception msg), cs') else (Inr (), cs'))"

definition writeXMLEndTag :: "writer_codes \<Rightarrow> unit writer" where
  "writeXMLEndTag rc = writer_call rc ''Failed while writing XML end element'' EndElement"

definition writeXMLEndTags :: "writer_codes \<Rightarrow> nat \<Rightarrow> unit writer" where
  "writeXMLEndTags rc n = forE (\<lambda>_. writeXMLEndTag rc) [0..<n]"

definition writeXMLTag :: "writer_codes \<Rightarrow> string \<Rightarrow> unit writer" where
  "writeXMLTag rc name = writer_call rc ''Failed while writing XML file'' (StartElement name)"

definition writeXMLTag_int :: "writer_codes \<Rightarrow> string \<Rightarrow> 32 word \<Rightarrow> unit writer" where
  "writeXMLTag_int rc name value =
     writer_call rc ''Failed while writing XML file'' (WriteElement name (decimal_int (sint value)))"

definition writeXMLTag_double :: "writer_codes \<Rightarrow> ('d \<Rightarrow> string) \<Rightarrow> string \<Rightarrow> 'd \<Rightarrow> unit writer" where
  "writeXMLTag_double rc fmt name value =
     writer_call rc ''Failed while writing XML file'' (WriteElement name (fmt value))"

definition writeXMLTag_string :: "writer_codes \<Rightarrow> string \<Rightarrow> string \<Rightarrow> unit writer" where
  "writeXMLTag_string rc name value =
     writer_call rc ''Failed while writing XML file'' (WriteElement name value)"

definition writeXMLTagAttribute :: "writer_codes \<Rightarrow> string \<Rightarrow> string \<Rightarrow> unit writer" where
  "writeXMLTagAttribute rc name value =
     writer_call rc ''Failed while writing XML file'' (WriteAttribute name value)"

definition writeXMLTagAndAttribute :: "writer_codes \<Rightarrow> string \<Rightarrow> string \<Rightarrow> string \<Rightarrow> unit writer" where
  "writeXMLTagAndAttribute rc tag name value =
     bindE (writeXMLTag rc tag) (\<lambda>_. writeXMLTagAttribute rc name value)"

definition writeXMLTagAndAttribute2 ::
    "writer_codes \<Rightarrow> string \<Rightarrow> string \<Rightarrow> string \<Rightarrow> string \<Rightarrow> string \<Rightarrow> unit writer" where
  "writeXMLTagAndAttribute2 rc tag name1 value1 name2 value2 =
     bindE (writeXMLTag rc tag) (\<lambda>_. bindE (writeXMLTagAttribute rc name1 value1)
       (\<lambda>_. writeXMLTagAttribute rc name2 value2))"

definition writeXMLTagAndAttribute3 ::
    "writer_codes \<Rightarrow> string \<Rightarrow> string \<Rightarrow> string \<Rightarrow> string \<Rightarrow> string \<Rightarrow> string \<Rightarrow> string \<Rightarrow> unit writer" where
  "writeXMLTagAndAttribute3 rc tag name1 value1 name2 value2 name3 value3 =
     bindE (writeXMLTag rc tag) (\<lambda>_. bindE (writeXMLTagAttribute rc name1 value1)
       (\<lambda>_. bindE (writeXMLTagAttribute rc name2 value2) (\<lambda>_. writeXMLTagAttribute rc name3 value3)))"

definition endXMLDoc :: "writer_codes \<Rightarrow> unit writer" where
  "endXMLDoc rc = writer_call rc ''Could not close xml file'' EndDocument"

section \<open>Documents\<close>

datatype xml =
    Element string "(string \<times> string) list" "xml list"
  | Text string
  | Comment string

text \<open>
  The calls that write a tree: an element that holds one text and no attribute is one call
  of the format writer, and the end of the document closes the element that is open.
\<close>

fun open_calls :: "string \<Rightarrow> (string \<times> string) list \<Rightarrow> xml_call list" where
  "open_calls n as = StartElement n # map (\<lambda>(k, v). WriteAttribute k v) as"

fun text_only :: "(string \<times> string) list \<Rightarrow> xml list \<Rightarrow> string option" where
  "text_only [] [Text t] = Some t"
| "text_only _ _ = None"

fun tree_calls :: "xml \<Rightarrow> xml_call list" where
  "tree_calls (Text t) = []"
| "tree_calls (Comment t) = []"
| "tree_calls (Element n as cs) =
     (case text_only as cs of
        Some t \<Rightarrow> [WriteElement n t]
      | None \<Rightarrow> open_calls n as @ concat (map tree_calls cs) @ [EndElement])"

fun document_calls :: "xml \<Rightarrow> xml_call list" where
  "document_calls (Text t) = []"
| "document_calls (Comment t) = []"
| "document_calls (Element n as cs) = open_calls n as @ concat (map tree_calls cs) @ [EndDocument]"

text \<open>
  A node the pull reader stops at: its type (1 start of an element, 3 text, 15 end of an
  element, others for white space, comments and so on), its name and its value. Texts have
  the name \<open>#text\<close>.
\<close>

record xml_node =
  xn_type :: int
  xn_name :: "string option"
  xn_value :: string

definition start_node :: "string \<Rightarrow> xml_node" where
  "start_node n = \<lparr>xn_type = 1, xn_name = Some n, xn_value = []\<rparr>"

definition text_node :: "string \<Rightarrow> xml_node" where
  "text_node t = \<lparr>xn_type = 3, xn_name = Some ''#text'', xn_value = t\<rparr>"

definition end_node :: "string \<Rightarrow> xml_node" where
  "end_node n = \<lparr>xn_type = 15, xn_name = Some n, xn_value = []\<rparr>"

text \<open>An element without content, \<open><x/>\<close>, has a start node and no end node.\<close>

fun tree_nodes :: "xml \<Rightarrow> xml_node list" where
  "tree_nodes (Text t) = [text_node t]"
| "tree_nodes (Comment t) = [\<lparr>xn_type = 8, xn_name = Some ''#comment'', xn_value = t\<rparr>]"
| "tree_nodes (Element n as cs) =
     (if cs = [] then [start_node n]
      else start_node n # concat (map tree_nodes cs) @ [end_node n])"

text \<open>
  What the reader reports for a file that was written by a sequence of calls: the stack has the
  names of the open elements, innermost first, and whether they have content yet. An element
  opened and closed at once is written \<open><x/>\<close>; one written with an empty text is written
  \<open><x></x>\<close> and has an end node.
\<close>

type_synonym open_elements = "(string \<times> bool) list"

fun touch :: "open_elements \<Rightarrow> open_elements" where
  "touch [] = []"
| "touch ((n, _) # st) = (n, True) # st"

fun close_elements :: "open_elements \<Rightarrow> xml_node list" where
  "close_elements [] = []"
| "close_elements ((n, c) # st) = (if c then [end_node n] else []) @ close_elements st"

fun call_nodes :: "open_elements \<Rightarrow> xml_call list \<Rightarrow> xml_node list" where
  "call_nodes st [] = []"
| "call_nodes st (StartElement n # cs) = start_node n # call_nodes ((n, False) # touch st) cs"
| "call_nodes st (WriteAttribute k v # cs) = call_nodes st cs"
| "call_nodes st (WriteElement n t # cs) =
     start_node n # (if t = [] then [] else [text_node t]) @ end_node n # call_nodes (touch st) cs"
| "call_nodes [] (EndElement # cs) = call_nodes [] cs"
| "call_nodes ((n, c) # st) (EndElement # cs) = (if c then [end_node n] else []) @ call_nodes st cs"
| "call_nodes st (EndDocument # cs) = close_elements st @ call_nodes [] cs"

definition is_content :: "xml_node \<Rightarrow> bool" where
  "is_content nd \<longleftrightarrow> xn_type nd = 1 \<or> xn_type nd = 3 \<or> xn_type nd = 15"

section \<open>Facts\<close>

text \<open>
  A computation of the writer that throws in no other way than by a failing call makes the
  same calls in the same order, whatever was written before.
\<close>

definition makes_calls :: "writer_codes \<Rightarrow> 'a writer \<Rightarrow> 'a \<Rightarrow> xml_call list \<Rightarrow> bool" where
  "makes_calls rc m a calls \<longleftrightarrow> (\<forall>cs. m cs = (Inr a, cs @ calls))"

definition never_fails :: "writer_codes \<Rightarrow> bool" where
  "never_fails rc \<longleftrightarrow> (\<forall>cs c. 0 \<le> rc cs c)"

named_theorems writer_intros \<open>what the operations of the writer write\<close>

lemma writesD: "makes_calls rc m a calls \<Longrightarrow> m cs = (Inr a, cs @ calls)"
  by (simp add: makes_calls_def)

lemma writes_call [writer_intros]: "never_fails rc \<Longrightarrow> makes_calls rc (writer_call rc msg c) () [c]"
  by (simp add: makes_calls_def writer_call_def never_fails_def Let_def leD)

lemma writes_return [writer_intros]: "makes_calls rc (returnE a) a []"
  by (simp add: makes_calls_def returnE_def)

lemma writes_bind:
  "makes_calls rc m a xs \<Longrightarrow> makes_calls rc (f a) b ys \<Longrightarrow> makes_calls rc (bindE m f) b (xs @ ys)"
  by (simp add: makes_calls_def bindE_def)

lemma writes_bind_unit [writer_intros]:
  "makes_calls rc m () xs \<Longrightarrow> makes_calls rc (f ()) b ys \<Longrightarrow> makes_calls rc (bindE m f) b (xs @ ys)"
  by (rule writes_bind)

lemma writes_forE:
  "(\<And>x. x \<in> set xs \<Longrightarrow> makes_calls rc (f x) () (g x)) \<Longrightarrow> makes_calls rc (forE f xs) () (concat (map g xs))"
  by (induction xs) (auto intro!: writes_return writes_bind)

lemma writes_ops [writer_intros]:
  assumes "never_fails rc"
  shows "makes_calls rc (writeXMLEndTag rc) () [EndElement]"
    and "makes_calls rc (writeXMLTag rc n) () [StartElement n]"
    and "makes_calls rc (writeXMLTag_int rc n i) () [WriteElement n (decimal_int (sint i))]"
    and "makes_calls rc (writeXMLTag_double rc fmt n x) () [WriteElement n (fmt x)]"
    and "makes_calls rc (writeXMLTag_string rc n s) () [WriteElement n s]"
    and "makes_calls rc (writeXMLTagAttribute rc n s) () [WriteAttribute n s]"
    and "makes_calls rc (endXMLDoc rc) () [EndDocument]"
  unfolding writeXMLEndTag_def writeXMLTag_def writeXMLTag_int_def writeXMLTag_double_def
    writeXMLTag_string_def writeXMLTagAttribute_def endXMLDoc_def
  by (rule writes_call [OF assms])+

lemma writes_attributes [writer_intros]:
  assumes "never_fails rc"
  shows "makes_calls rc (writeXMLTagAndAttribute rc t n1 v1) () (open_calls t [(n1, v1)])"
    and "makes_calls rc (writeXMLTagAndAttribute2 rc t n1 v1 n2 v2) () (open_calls t [(n1, v1), (n2, v2)])"
    and "makes_calls rc (writeXMLTagAndAttribute3 rc t n1 v1 n2 v2 n3 v3) ()
      (open_calls t [(n1, v1), (n2, v2), (n3, v3)])"
  using writes_ops [OF assms]
  by (simp_all add: writeXMLTagAndAttribute_def writeXMLTagAndAttribute2_def
      writeXMLTagAndAttribute3_def makes_calls_def bindE_def)

lemma writes_end_tags [writer_intros]:
  assumes "never_fails rc"
  shows "makes_calls rc (writeXMLEndTags rc k) () (replicate k EndElement)"
proof -
  have "makes_calls rc (writeXMLEndTags rc k) () (concat (map (\<lambda>_. [EndElement]) [0..<k]))"
    unfolding writeXMLEndTags_def by (rule writes_forE) (rule writes_ops(1) [OF assms])
  moreover have "concat (map (\<lambda>_. [EndElement]) [0..<k]) = replicate k EndElement"
    by (simp add: map_replicate_const concat_map_singleton)
  ultimately show ?thesis by (simp only:)
qed

section \<open>Reading what was written\<close>

text \<open>Trees without empty texts, and with texts only as the one content of an element.\<close>

fun plain_tree :: "xml \<Rightarrow> bool" where
  "plain_tree (Text t) \<longleftrightarrow> False"
| "plain_tree (Comment t) \<longleftrightarrow> False"
| "plain_tree (Element n as cs) \<longleftrightarrow>
     (case text_only as cs of Some t \<Rightarrow> t \<noteq> [] | None \<Rightarrow> list_all plain_tree cs)"

lemma touch_touch [simp]: "touch (touch st) = touch st"
  by (induction st rule: touch.induct) auto

lemma call_nodes_attributes:
  "call_nodes st (map (\<lambda>(k, v). WriteAttribute k v) as @ cs) = call_nodes st cs"
  by (induction as) auto

lemma text_only_Some: "text_only as cs = Some t \<Longrightarrow> as = [] \<and> cs = [Text t]"
  by (cases "(as, cs)" rule: text_only.cases) auto

lemma call_nodes_tree:
  "plain_tree t \<Longrightarrow> call_nodes st (tree_calls t @ cs) = tree_nodes t @ call_nodes (touch st) cs"
proof (induction t arbitrary: st cs)
  case (Text t)
  then show ?case by simp
next
  case (Comment t)
  then show ?case by simp
next
  case (Element n as ts)
  show ?case
  proof (cases "text_only as ts")
    case (Some t)
    with Element.prems text_only_Some [OF Some] show ?thesis by simp
  next
    case None
    have children: "call_nodes ((n, c) # st) (concat (map tree_calls us) @ EndElement # cs) =
        concat (map tree_nodes us) @ (if c \<or> us \<noteq> [] then [end_node n] else []) @ call_nodes st cs"
      if "set us \<subseteq> set ts" for us c st
      using that
    proof (induction us arbitrary: c)
      case Nil
      then show ?case by simp
    next
      case (Cons u us)
      have "plain_tree u" using Element.prems None Cons.prems by (auto simp: list_all_iff)
      with Cons Element.IH [of u] show ?case by simp
    qed
    show ?thesis using None children [of ts "False" "touch st"] by (simp add: call_nodes_attributes)
  qed
qed

lemma call_nodes_document:
  assumes "list_all plain_tree ts" "ts \<noteq> []"
  shows "call_nodes [] (document_calls (Element n as ts)) = tree_nodes (Element n as ts)"
proof -
  have "call_nodes [(n, c)] (concat (map tree_calls us) @ [EndDocument]) =
      concat (map tree_nodes us) @ (if c \<or> us \<noteq> [] then [end_node n] else [])"
    if "list_all plain_tree us" for us c
    using that by (induction us arbitrary: c) (simp_all add: call_nodes_tree)
  from this [OF assms(1), of False] show ?thesis using assms(2) by (simp add: call_nodes_attributes)
qed

section \<open>Decimal numbers\<close>

text \<open>The value of a decimal numeral, to state that printing loses nothing.\<close>

definition decimal_value :: "string \<Rightarrow> nat" where
  "decimal_value s = foldl (\<lambda>n c. 10 * n + (of_char c - 48)) 0 s"

definition decimal_int_value :: "string \<Rightarrow> int" where
  "decimal_int_value s =
     (case s of [] \<Rightarrow> 0 | c # cs \<Rightarrow> if c = CHR ''-'' then - int (decimal_value cs) else int (decimal_value s))"

lemma of_char_digit: "d < 10 \<Longrightarrow> of_char (digit_char d) = (48 + d :: nat)"
  by (simp add: digit_char_def)

lemma decimal_nonempty [simp]: "decimal n \<noteq> []"
  by (subst decimal.simps) simp

lemma decimal_value_decimal [simp]: "decimal_value (decimal n) = n"
proof (induction n rule: decimal.induct)
  case (1 n)
  show ?case
  proof (cases "n < 10")
    case True
    then show ?thesis by (subst decimal.simps) (simp add: decimal_value_def of_char_digit)
  next
    case False
    have "decimal_value (decimal n) = 10 * decimal_value (decimal (n div 10)) + n mod 10"
      using False by (subst decimal.simps) (simp add: decimal_value_def of_char_digit)
    with 1 False show ?thesis by simp
  qed
qed

lemma digit_not_minus: "d < 10 \<Longrightarrow> digit_char d \<noteq> CHR ''-''"
proof
  assume "d < 10" "digit_char d = CHR ''-''"
  then have "of_char (digit_char d) = (of_char (CHR ''-'') :: nat)" by simp
  with of_char_digit [OF \<open>d < 10\<close>] show False by simp
qed

lemma hd_decimal: "hd (decimal n) \<noteq> CHR ''-''"
proof (induction n rule: decimal.induct)
  case (1 n)
  show ?case
  proof (cases "n < 10")
    case True
    then show ?thesis by (subst decimal.simps) (simp add: digit_not_minus)
  next
    case False
    then have "hd (decimal n) = hd (decimal (n div 10))" by (subst decimal.simps) simp
    with 1 False show ?thesis by simp
  qed
qed

lemma decimal_int_value_decimal [simp]: "decimal_int_value (decimal_int i) = i"
proof (cases "i < 0")
  case True
  then show ?thesis by (simp add: decimal_int_def decimal_int_value_def)
next
  case False
  obtain c cs where "decimal (nat i) = c # cs" by (cases "decimal (nat i)") auto
  with False hd_decimal [of "nat i"] decimal_value_decimal [of "nat i"] show ?thesis
    by (simp add: decimal_int_def decimal_int_value_def)
qed

end
