(* ===== verification/Model_Graph.thy ===== *)
theory Model_Graph
  imports Task_Manager
begin

text \<open>
  \<open>src/flame2/model/task.{hpp,cpp}\<close>, \<open>dependency.{hpp,cpp}\<close> and the graph operations and
  the registration of \<open>xgraph.{hpp,cpp}\<close>: the graph of tasks that is derived from the
  transition functions of a model, and how it is entered into the task manager.

  A \<open>Task *\<close> is an index into the list of allocated tasks (\<open>g_heap\<close>), \<open>vertex2task_\<close>
  is a list of such pointers. The Boost graph (\<open>adjacency_list<vecS, vecS, bidirectionalS>\<close>)
  is its documented value: vertices are numbered from zero, edges are kept in the order in
  which they were added, and removing a vertex shifts the numbers above it down. An edge
  carries what \<open>edge2dependency_\<close> stores for it, if anything.
\<close>

section \<open>Tasks and dependencies of the model\<close>

datatype mtask_type =
    T_xfunction | T_xstate | T_xmessage_sync | T_xmessage_clear | T_io_pop_write | T_start_agent
  | T_finish_agent | T_xcondition | T_xvariable | T_start_model | T_finish_model | T_xmessage

text \<open>\<open>VarMapToVertices\<close>: vertices by variable name.\<close>

type_synonym var_vertices = "(string \<times> nat list) list"

record mtask =
  t_parentName :: string
  t_name :: string
  t_taskType :: mtask_type
  t_priorityLevel :: size_t
  t_level :: size_t
  t_readOnlyVariables :: "string list"
  t_readVariables :: "string list"
  t_writeVariables :: "string list"
  t_hasCondition :: bool
  t_lastWrites :: var_vertices
  t_lastReads :: var_vertices
  t_lastConditions :: "nat list"
  t_outputMessages :: "string list"
  t_inputMessages :: "string list"

definition mTask_new :: "string \<Rightarrow> string \<Rightarrow> mtask_type \<Rightarrow> mtask" where
  "mTask_new parentName name type =
     \<lparr>t_parentName = parentName, t_name = name, t_taskType = type,
      t_priorityLevel = (if type = T_xmessage_clear then 1 else if type = T_xfunction then 5
                         else if type = T_io_pop_write then 0 else 10),
      t_level = 0, t_readOnlyVariables = [], t_readVariables = [], t_writeVariables = [],
      t_hasCondition = False, t_lastWrites = [], t_lastReads = [], t_lastConditions = [],
      t_outputMessages = [], t_inputMessages = []\<rparr>"

definition mTask_getTaskName :: "mtask \<Rightarrow> string" where
  "mTask_getTaskName t =
     (if t_taskType t = T_xfunction then ''AF_'' @ t_parentName t
      else if t_taskType t = T_xcondition then ''AC_'' @ t_parentName t
      else if t_taskType t = T_io_pop_write then ''AD_'' @ t_parentName t
      else if t_taskType t = T_start_model \<or> t_taskType t = T_finish_model then ''MD_'' @ t_parentName t
      else if t_taskType t = T_xmessage_sync then ''MS''
      else if t_taskType t = T_xmessage_clear then ''MC''
      else []) @ ''_'' @ t_name t"

definition mTask_addReadWriteVariable :: "string \<Rightarrow> mtask \<Rightarrow> mtask" where
  "mTask_addReadWriteVariable n t =
     t\<lparr>t_readVariables := oset_insert n (t_readVariables t), t_writeVariables := oset_insert n (t_writeVariables t)\<rparr>"

definition mTask_addReadOnlyVariable :: "string \<Rightarrow> mtask \<Rightarrow> mtask" where
  "mTask_addReadOnlyVariable n t =
     t\<lparr>t_readOnlyVariables := oset_insert n (t_readOnlyVariables t),
       t_readVariables := oset_insert n (t_readVariables t)\<rparr>"

definition mTask_addReadVariable :: "string \<Rightarrow> mtask \<Rightarrow> mtask" where
  "mTask_addReadVariable n t = t\<lparr>t_readVariables := oset_insert n (t_readVariables t)\<rparr>"

definition mTask_addWriteVariable :: "string \<Rightarrow> mtask \<Rightarrow> mtask" where
  "mTask_addWriteVariable n t = t\<lparr>t_writeVariables := oset_insert n (t_writeVariables t)\<rparr>"

definition mTask_addOutputMessage :: "string \<Rightarrow> mtask \<Rightarrow> mtask" where
  "mTask_addOutputMessage n t = t\<lparr>t_outputMessages := oset_insert n (t_outputMessages t)\<rparr>"

definition mTask_addInputMessage :: "string \<Rightarrow> mtask \<Rightarrow> mtask" where
  "mTask_addInputMessage n t = t\<lparr>t_inputMessages := oset_insert n (t_inputMessages t)\<rparr>"

datatype dependency_type = D_state | D_communication | D_data | D_init | D_condition | D_variable | D_blank

record mdependency =
  d_name :: string
  d_type :: dependency_type

fun Dependency_getGraphName :: "dependency_type \<Rightarrow> string" where
  "Dependency_getGraphName D_communication = ''Message''"
| "Dependency_getGraphName D_data = ''Data''"
| "Dependency_getGraphName D_variable = ''Data''"
| "Dependency_getGraphName D_state = ''State''"
| "Dependency_getGraphName D_condition = ''Condition''"
| "Dependency_getGraphName D_init = []"
| "Dependency_getGraphName D_blank = []"

section \<open>The graph\<close>

record edge =
  e_source :: nat
  e_target :: nat
  e_dep :: "mdependency option"

record xgraph =
  g_heap :: "mtask list"
  g_vertex2task :: "nat list"
  g_edges :: "edge list"
  g_startTask :: "nat option"
  g_endTasks :: "nat list"
  g_endTask :: "nat option"
  g_agentName :: string

definition XGraph_new :: xgraph where
  "XGraph_new = \<lparr>g_heap = [], g_vertex2task = [], g_edges = [], g_startTask = None, g_endTasks = [],
     g_endTask = None, g_agentName = []\<rparr>"

abbreviation num_vertices :: "xgraph \<Rightarrow> nat" where
  "num_vertices g \<equiv> length (g_vertex2task g)"

definition XGraph_setAgentName :: "string \<Rightarrow> xgraph \<Rightarrow> xgraph" where
  "XGraph_setAgentName n g = g\<lparr>g_agentName := n\<rparr>"

text \<open>\<open>new Task\<close>: the pointer and the graph with the task allocated.\<close>

definition alloc_task :: "mtask \<Rightarrow> xgraph \<Rightarrow> nat \<times> xgraph" where
  "alloc_task t g = (length (g_heap g), g\<lparr>g_heap := g_heap g @ [t]\<rparr>)"

definition XGraph_addVertex :: "nat \<Rightarrow> xgraph \<Rightarrow> nat \<times> xgraph" where
  "XGraph_addVertex ptr g = (num_vertices g, g\<lparr>g_vertex2task := g_vertex2task g @ [ptr]\<rparr>)"

definition add_task :: "mtask \<Rightarrow> xgraph \<Rightarrow> nat \<times> xgraph" where
  "add_task t g = (case alloc_task t g of (p, g') \<Rightarrow> (p, snd (XGraph_addVertex p g')))"

definition in_edges :: "nat \<Rightarrow> xgraph \<Rightarrow> edge list" where
  "in_edges v g = filter (\<lambda>e. e_target e = v) (g_edges g)"

definition out_edges :: "nat \<Rightarrow> xgraph \<Rightarrow> edge list" where
  "out_edges v g = filter (\<lambda>e. e_source e = v) (g_edges g)"

definition XGraph_addEdge :: "nat \<Rightarrow> nat \<Rightarrow> string \<Rightarrow> dependency_type \<Rightarrow> xgraph \<Rightarrow> xgraph" where
  "XGraph_addEdge to from name type g =
     g\<lparr>g_edges := g_edges g @ [\<lparr>e_source = to, e_target = from, e_dep = Some \<lparr>d_name = name, d_type = type\<rparr>\<rparr>]\<rparr>"

text \<open>\<open>boost::add_edge\<close> alone, without an entry in \<open>edge2dependency_\<close>.\<close>

definition add_plain_edge :: "nat \<Rightarrow> nat \<Rightarrow> xgraph \<Rightarrow> xgraph" where
  "add_plain_edge s t g = g\<lparr>g_edges := g_edges g @ [\<lparr>e_source = s, e_target = t, e_dep = None\<rparr>]\<rparr>"

text \<open>\<open>getVertex\<close> returns the first vertex with that task, and 0 when there is none.\<close>

fun find_index :: "('a \<Rightarrow> bool) \<Rightarrow> 'a list \<Rightarrow> nat option" where
  "find_index P [] = None"
| "find_index P (x # xs) = (if P x then Some 0 else map_option Suc (find_index P xs))"

definition XGraph_getVertex :: "nat \<Rightarrow> xgraph \<Rightarrow> nat" where
  "XGraph_getVertex p g = (case find_index (\<lambda>q. q = p) (g_vertex2task g) of Some v \<Rightarrow> v | None \<Rightarrow> 0)"

definition XGraph_getTask :: "nat \<Rightarrow> xgraph \<Rightarrow> mtask" where
  "XGraph_getTask v g = g_heap g ! (g_vertex2task g ! v)"

definition modify_task :: "nat \<Rightarrow> (mtask \<Rightarrow> mtask) \<Rightarrow> xgraph \<Rightarrow> xgraph" where
  "modify_task p f g = g\<lparr>g_heap := (g_heap g)[p := f (g_heap g ! p)]\<rparr>"

text \<open>
  \<open>removeVertex\<close> removes the edges at the vertex with their dependencies, the task from
  the vertex map, and the vertex, which renumbers the vertices behind it.
\<close>

definition shift_down :: "nat \<Rightarrow> nat \<Rightarrow> nat" where
  "shift_down v u = (if v < u then u - 1 else u)"

definition XGraph_removeVertex :: "nat \<Rightarrow> xgraph \<Rightarrow> xgraph" where
  "XGraph_removeVertex v g =
     g\<lparr>g_vertex2task := take v (g_vertex2task g) @ drop (Suc v) (g_vertex2task g),
       g_edges := map (\<lambda>e. e\<lparr>e_source := shift_down v (e_source e), e_target := shift_down v (e_target e)\<rparr>)
         (filter (\<lambda>e. e_source e \<noteq> v \<and> e_target e \<noteq> v) (g_edges g))\<rparr>"

definition XGraph_removeVertices :: "nat list \<Rightarrow> xgraph \<Rightarrow> xgraph" where
  "XGraph_removeVertices vs g = fold XGraph_removeVertex (rev (sort vs)) g"

definition XGraph_removeStateDependencies :: "xgraph \<Rightarrow> xgraph" where
  "XGraph_removeStateDependencies g =
     g\<lparr>g_edges := filter (\<lambda>e. case e_dep e of Some d \<Rightarrow> d_type d \<noteq> D_state | None \<Rightarrow> True) (g_edges g)\<rparr>"

text \<open>Contraction: edges from every source to every target, then the vertices go.\<close>

definition contract_edges :: "dependency_type \<Rightarrow> nat \<Rightarrow> xgraph \<Rightarrow> xgraph" where
  "contract_edges dt v g =
     fold (\<lambda>ie g. fold (\<lambda>oe g. XGraph_addEdge (e_source ie) (e_target oe) [] dt g) (out_edges v g) g)
       (in_edges v g) g"

definition XGraph_contractVertices :: "mtask_type \<Rightarrow> dependency_type \<Rightarrow> xgraph \<Rightarrow> xgraph" where
  "XGraph_contractVertices tt dt g =
     (let vs = filter (\<lambda>v. t_taskType (XGraph_getTask v g) = tt) [0..<num_vertices g]
      in XGraph_removeVertices vs (fold (contract_edges dt) vs g))"

section \<open>Registration with the task manager\<close>

text \<open>The three managers (singletons of the program) that registration works on.\<close>

record 'v managers =
  mg_mem :: "'v memory_manager"
  mg_mb :: "'v board_manager"
  mg_tm :: "'v task_manager"

definition with_tm :: "('v task_manager, 'a) exec \<Rightarrow> ('v managers, 'a) exec" where
  "with_tm f mg = (case f (mg_tm mg) of (r, tm) \<Rightarrow> (r, mg\<lparr>mg_tm := tm\<rparr>))"

text \<open>A call through the reference to a registered task.\<close>

definition with_task :: "nat \<Rightarrow> ('v task, 'a) exec \<Rightarrow> ('v managers, 'a) exec" where
  "with_task i f mg =
     (case f (tm_tasks (mg_tm mg) ! i) of
        (r, tk) \<Rightarrow> (r, mg\<lparr>mg_tm := (mg_tm mg)\<lparr>tm_tasks := (tm_tasks (mg_tm mg))[i := tk]\<rparr>\<rparr>))"

definition allow_access :: "nat \<Rightarrow> bool \<Rightarrow> string \<Rightarrow> ('v managers, unit) exec" where
  "allow_access i writeable v mg =
     (let tk = tm_tasks (mg_tm mg) ! i in
      case tk_body tk of
        AgentTask ap \<Rightarrow>
          (case map_of (agent_map (mg_mem mg)) (sh_agent (at_shadow ap)) of
             None \<Rightarrow> (Inl (UB ''dangling agent memory''), mg)
           | Some am \<Rightarrow>
               (case Task_AllowAccess v writeable (am, tk) of
                  (r, am', tk') \<Rightarrow>
                    (r, mg\<lparr>mg_mem := (mg_mem mg)\<lparr>agent_map :=
                             omap_put (sh_agent (at_shadow ap)) am' (agent_map (mg_mem mg))\<rparr>,
                           mg_tm := (mg_tm mg)\<lparr>tm_tasks := (tm_tasks (mg_tm mg))[i := tk']\<rparr>\<rparr>)))
      | MessageBoardTask _ _ \<Rightarrow> (Inl (not_implemented ''method not applicable''), mg)
      | IOTask _ _ _ \<Rightarrow> (Inl (logic_error ''method not applicable''), mg))"

definition XGraph_registerAllowAccess :: "nat \<Rightarrow> string list \<Rightarrow> bool \<Rightarrow> ('v managers, unit) exec" where
  "XGraph_registerAllowAccess i vars writeable = forE (allow_access i writeable) vars"

definition XGraph_registerAllowMessage :: "build \<Rightarrow> nat \<Rightarrow> string list \<Rightarrow> bool \<Rightarrow> ('v managers, unit) exec" where
  "XGraph_registerAllowMessage b i messages post =
     forE (\<lambda>m mg. with_task i (if post then Task_AllowMessagePost b (mg_mb mg) m
                                 else Task_AllowMessageRead b (mg_mb mg) m) mg) messages"

text \<open>A function that is not in the map is reported on \<open>stderr\<close> and skipped (code 3).\<close>

definition XGraph_registerAgentTask ::
    "build \<Rightarrow> mtask \<Rightarrow> (string \<times> 'v agent_fun option) list \<Rightarrow> ('v managers, nat) exec" where
  "XGraph_registerAgentTask b t funcMap mg =
     (case map_of funcMap (t_name t) of
        None \<Rightarrow> (Inr 3, mg)
      | Some f \<Rightarrow>
          bindE (\<lambda>mg. with_tm (TaskManager_CreateAgentTask b (mg_mem mg) (mTask_getTaskName t) (t_parentName t) f) mg)
            (\<lambda>i. bindE (XGraph_registerAllowAccess i (t_readOnlyVariables t) False)
              (\<lambda>_. bindE (XGraph_registerAllowAccess i (t_writeVariables t) True)
                (\<lambda>_. bindE (XGraph_registerAllowMessage b i (t_outputMessages t) True)
                  (\<lambda>_. bindE (XGraph_registerAllowMessage b i (t_inputMessages t) False)
                    (\<lambda>_. returnE 0))))) mg)"

definition create_io :: "build \<Rightarrow> string \<Rightarrow> string \<Rightarrow> string \<Rightarrow> io_operation \<Rightarrow> ('v managers, unit) exec" where
  "create_io b task_name agent_name var_name op mg =
     (case with_tm (TaskManager_CreateIOTask b (mg_mem mg) task_name agent_name var_name op) mg of
        (Inl e, mg') \<Rightarrow> (Inl e, mg') | (Inr _, mg') \<Rightarrow> (Inr (), mg'))"

definition XGraph_registerDataTask :: "build \<Rightarrow> mtask \<Rightarrow> ('v managers, unit) exec" where
  "XGraph_registerDataTask b t =
     (if t_taskType t = T_io_pop_write then
        forE (\<lambda>v. create_io b (''AD_'' @ t_parentName t @ ''_'' @ v) (t_parentName t) v OP_OUTPUT) (t_writeVariables t)
      else if t_taskType t = T_start_model then create_io b (mTask_getTaskName t) [] [] OP_INIT
      else if t_taskType t = T_finish_model then create_io b (mTask_getTaskName t) [] [] OP_FIN
      else returnE ())"

definition create_mb :: "build \<Rightarrow> mtask \<Rightarrow> mb_operation \<Rightarrow> ('v managers, unit) exec" where
  "create_mb b t op mg =
     (case with_tm (TaskManager_CreateMessageBoardTask b (mg_mb mg) (mTask_getTaskName t) (t_name t) op) mg of
        (Inl e, mg') \<Rightarrow> (Inl e, mg') | (Inr _, mg') \<Rightarrow> (Inr (), mg'))"

definition XGraph_registerMessageTask :: "build \<Rightarrow> mtask \<Rightarrow> ('v managers, unit) exec" where
  "XGraph_registerMessageTask b t =
     (if t_taskType t = T_xmessage_sync then create_mb b t OP_SYNC
      else if t_taskType t = T_xmessage_clear then create_mb b t OP_CLEAR
      else returnE ())"

definition edge_names :: "xgraph \<Rightarrow> edge \<Rightarrow> string \<times> string" where
  "edge_names g e = (mTask_getTaskName (XGraph_getTask (e_target e) g), mTask_getTaskName (XGraph_getTask (e_source e) g))"

definition XGraph_registerDependencies :: "build \<Rightarrow> xgraph \<Rightarrow> ('v task_manager, unit) exec" where
  "XGraph_registerDependencies b g =
     forE (\<lambda>e. case edge_names g e of (target, source) \<Rightarrow> TaskManager_AddDependency_by_name b target source) (g_edges g)"

definition register_vertex ::
    "build \<Rightarrow> (string \<times> 'v agent_fun option) list \<Rightarrow> mtask \<Rightarrow> ('v managers, unit) exec" where
  "register_vertex b funcMap t =
     (if t_taskType t = T_xfunction \<or> t_taskType t = T_xcondition then
        bindE (XGraph_registerAgentTask b t funcMap) (\<lambda>_. returnE ())
      else if t_taskType t = T_io_pop_write \<or> t_taskType t = T_start_model \<or> t_taskType t = T_finish_model then
        XGraph_registerDataTask b t
      else if t_taskType t = T_xmessage_sync \<or> t_taskType t = T_xmessage_clear then XGraph_registerMessageTask b t
      else returnE ())"

definition XGraph_registerTasksAndDependencies ::
    "build \<Rightarrow> (string \<times> 'v agent_fun option) list \<Rightarrow> xgraph \<Rightarrow> ('v managers, unit) exec" where
  "XGraph_registerTasksAndDependencies b funcMap g =
     bindE (forE (register_vertex b funcMap) (map (\<lambda>v. XGraph_getTask v g) [0..<num_vertices g]))
       (\<lambda>_. bindE (with_tm (XGraph_registerDependencies b g)) (\<lambda>_. with_tm TaskManager_Finalise))"


section \<open>What registration enters into the task manager\<close>

text \<open>While tasks are registered the task manager stays consistent and has no dependencies yet.\<close>

definition reg_inv :: "'v managers \<Rightarrow> bool" where
  "reg_inv mg \<longleftrightarrow> tm_ok (mg_tm mg) \<and> depends (parents (mg_tm mg)) = {} \<and> \<not> finalised (mg_tm mg)"

definition keeps_reg :: "('v managers, 'a) exec \<Rightarrow> bool" where
  "keeps_reg f \<longleftrightarrow> (\<forall>mg. reg_inv mg \<longrightarrow> reg_inv (snd (f mg)))"

named_theorems keeps \<open>computations that keep the registration invariant\<close>

lemma keeps_return [keeps]: "keeps_reg (returnE a)"
  by (simp add: keeps_reg_def returnE_def)

lemma keeps_bind [keeps]: "keeps_reg f \<Longrightarrow> (\<And>a. keeps_reg (g a)) \<Longrightarrow> keeps_reg (bindE f g)"
  unfolding keeps_reg_def bindE_def by (auto split: prod.splits sum.splits)

lemma keeps_for [keeps]: "(\<And>x. keeps_reg (f x)) \<Longrightarrow> keeps_reg (forE f xs)"
  by (induction xs) (auto intro: keeps)

lemma keeps_if [keeps]: "keeps_reg f \<Longrightarrow> keeps_reg g \<Longrightarrow> keeps_reg (if c then f else g)"
  by simp

lemma RegisterTask_depends: "depends (parents (snd (TaskManager_RegisterTask b n tk tm))) = depends (parents tm)"
  by (simp add: TaskManager_RegisterTask_def Let_def)

lemma register_new_keeps:
  assumes "tm_ok tm" "depends (parents tm) = {}" "\<not> finalised tm"
  shows "tm_ok (snd (register_new b n c tm)) \<and> depends (parents (snd (register_new b n c tm))) = {} \<and>
    \<not> finalised (snd (register_new b n c tm))"
proof (cases c)
  case (Inr tk)
  obtain r tm' where tm': "TaskManager_RegisterTask b n tk tm = (r, tm')" by fastforce
  have "tm_ok tm'" "depends (parents tm') = {}" "\<not> finalised tm'"
    using RegisterTask_ok [OF assms(1), of b n tk] RegisterTask_depends [of b n tk tm]
      registration_keeps_open(1) [OF assms(3), of b n tk] assms(2) tm' by auto
  then show ?thesis using Inr tm' by (cases r) (auto simp: register_new_def)
qed (use assms in \<open>simp add: register_new_def\<close>)

lemma with_tm_eq_Inr_iff:
  "with_tm f mg = (Inr a, mg') \<longleftrightarrow> (\<exists>tm. f (mg_tm mg) = (Inr a, tm) \<and> mg' = mg\<lparr>mg_tm := tm\<rparr>)"
  by (auto simp: with_tm_def split: prod.splits)

lemma keeps_with_new:
  assumes "\<And>mg. \<exists>c. f mg = register_new b n c" shows "keeps_reg (\<lambda>mg. with_tm (f mg) mg)"
proof -
  have "reg_inv (snd (with_tm (f mg) mg))" if "reg_inv mg" for mg
  proof -
    obtain c where "f mg = register_new b n c" using assms by blast
    then show ?thesis using that register_new_keeps [of "mg_tm mg" b n c]
      by (auto simp: with_tm_def reg_inv_def split: prod.splits)
  qed
  then show ?thesis by (simp add: keeps_reg_def)
qed

lemma tm_ok_task_update:
  assumes "tm_ok tm" "tk_id tk = tk_id (tm_tasks tm ! i)"
  shows "tm_ok (tm\<lparr>tm_tasks := (tm_tasks tm)[i := tk]\<rparr>)"
proof -
  have "tk_id ((tm_tasks tm)[i := tk] ! j) = tk_id (tm_tasks tm ! j)" if "j < length (tm_tasks tm)" for j
    using assms(2) that by (cases "i = j") auto
  then show ?thesis using assms(1) by (simp add: tm_ok_def)
qed

lemma keeps_with_task:
  assumes "\<And>mg tk. tk_id (snd (f mg tk)) = tk_id tk" shows "keeps_reg (\<lambda>mg. with_task i (f mg) mg)"
  unfolding keeps_reg_def
proof (intro allI impI)
  fix mg :: "'a managers" assume "reg_inv mg"
  moreover obtain r tk where "f mg (tm_tasks (mg_tm mg) ! i) = (r, tk)" by fastforce
  moreover have "tk_id tk = tk_id (tm_tasks (mg_tm mg) ! i)" using assms calculation(2) by (metis snd_conv)
  ultimately show "reg_inv (snd (with_task i (f mg) mg))"
    using tm_ok_task_update [of "mg_tm mg" tk i] by (simp add: with_task_def reg_inv_def)
qed

lemma keeps_allow_access [keeps]: "keeps_reg (allow_access i w v)"
  unfolding keeps_reg_def
proof (intro allI impI)
  fix mg :: "'a managers" assume inv: "reg_inv mg"
  let ?tk = "tm_tasks (mg_tm mg) ! i"
  have "tk_id (snd (snd (Task_AllowAccess v w (am, ?tk)))) = tk_id ?tk" for am
    by (auto simp: Task_AllowAccess_def split: task_body.splits prod.splits)
  then have "Task_AllowAccess v w (am, ?tk) = (r, am', tk') \<Longrightarrow> tk_id tk' = tk_id ?tk" for am r am' tk'
    by (metis snd_conv)
  with inv show "reg_inv (snd (allow_access i w v mg))"
    by (auto simp: allow_access_def Let_def reg_inv_def tm_ok_task_update split: task_body.splits option.splits prod.splits)
qed

lemma keeps_unit:
  assumes "keeps_reg f"
  shows "keeps_reg (\<lambda>mg. case f mg of (Inl e, mg') \<Rightarrow> (Inl e, mg') | (Inr _, mg') \<Rightarrow> (Inr (), mg'))"
  using assms unfolding keeps_reg_def by (auto split: prod.splits sum.splits)

lemma keeps_create_io [keeps]: "keeps_reg (create_io b n a v op)"
  unfolding create_io_def [abs_def]
  by (rule keeps_unit, rule keeps_with_new [where b = b and n = n]) (auto simp: TaskManager_CreateIOTask_def)

lemma keeps_create_mb [keeps]: "keeps_reg (create_mb b t mop)"
  unfolding create_mb_def [abs_def]
  by (rule keeps_unit, rule keeps_with_new [where b = b and n = "mTask_getTaskName t"])
    (auto simp: TaskManager_CreateMessageBoardTask_def)

lemma keeps_registerAgentTask [keeps]: "keeps_reg (XGraph_registerAgentTask b t funcMap)"
proof (cases "map_of funcMap (t_name t)")
  case None
  then show ?thesis by (simp add: XGraph_registerAgentTask_def [abs_def] keeps_reg_def)
next
  case (Some f)
  have "keeps_reg (\<lambda>mg. with_tm (TaskManager_CreateAgentTask b (mg_mem mg) (mTask_getTaskName t) (t_parentName t) f) mg)"
    by (rule keeps_with_new) (auto simp: TaskManager_CreateAgentTask_def)
  moreover have "keeps_reg (XGraph_registerAllowMessage b i ms post)" for i ms post
    unfolding XGraph_registerAllowMessage_def
    by (rule keeps_for, rule keeps_with_task)
      (auto simp: Task_AllowMessagePost_def Task_AllowMessageRead_def split: prod.splits)
  ultimately show ?thesis using Some
    by (auto simp: XGraph_registerAgentTask_def [abs_def] XGraph_registerAllowAccess_def intro!: keeps)
qed

lemma keeps_register_vertex [keeps]: "keeps_reg (register_vertex b funcMap t)"
  unfolding register_vertex_def XGraph_registerDataTask_def XGraph_registerMessageTask_def by (intro keeps)

lemma forE_map: "forE f (map h xs) = forE (\<lambda>x. f (h x)) xs"
  by (induction xs) simp_all

text \<open>Adding dependencies by name adds exactly the named edges.\<close>

definition named_edges :: "(string \<times> nat) list \<Rightarrow> (string \<times> string) list \<Rightarrow> (nat \<times> nat) set" where
  "named_edges nm es = {(c, p). \<exists>(t, s) \<in> set es. map_of nm t = Some c \<and> map_of nm s = Some p}"

lemma AddDependency_by_name_effect:
  assumes ok: "tm_ok tm" and add: "TaskManager_AddDependency_by_name b t s tm = (Inr (), tm')"
  shows "tm_ok tm' \<and> name_map tm' = name_map tm \<and> tm_tasks tm' = tm_tasks tm \<and>
    depends (parents tm') = depends (parents tm) \<union> named_edges (name_map tm) [(t, s)] \<and>
    t \<in> fst ` set (name_map tm) \<and> s \<in> fst ` set (name_map tm)"
proof -
  obtain c p where cp: "map_of (name_map tm) t = Some c" "map_of (name_map tm) s = Some p"
    and e: "TaskManager_AddDependency b c p tm = (Inr (), tm')"
    using add by (auto simp: TaskManager_AddDependency_by_name_def TaskManager_GetId_def split: option.splits)
  have "tm_ok tm'" using AddDependency_ok [OF ok, of b c p] e by simp
  moreover have "c < length (parents tm)" using e ok
    by (auto simp: TaskManager_AddDependency_def TaskManager_IsValidID_def tm_ok_def split: if_splits)
  then have "depends (parents tm') = insert (c, p) (depends (parents tm))" "name_map tm' = name_map tm"
    "tm_tasks tm' = tm_tasks tm"
    using e by (auto simp: TaskManager_AddDependency_def check_not_finalised_def bindE_def depends_update split: if_splits)
  moreover have "t \<in> fst ` set (name_map tm)" "s \<in> fst ` set (name_map tm)"
    using cp by (force dest: map_of_SomeD)+
  ultimately show ?thesis using cp by (auto simp: named_edges_def)
qed

lemma registerDependencies_effect:
  assumes "tm_ok tm" "forE (\<lambda>(t, s). TaskManager_AddDependency_by_name b t s) es tm = (Inr (), tm')"
  shows "tm_ok tm' \<and> name_map tm' = name_map tm \<and> tm_tasks tm' = tm_tasks tm \<and>
    depends (parents tm') = depends (parents tm) \<union> named_edges (name_map tm) es \<and>
    (\<forall>(t, s) \<in> set es. t \<in> fst ` set (name_map tm) \<and> s \<in> fst ` set (name_map tm))"
  using assms
proof (induction es arbitrary: tm)
  case Nil
  then show ?case by (simp add: returnE_def named_edges_def)
next
  case (Cons e es)
  obtain t s where e: "e = (t, s)" by (cases e)
  obtain tm1 where tm1: "TaskManager_AddDependency_by_name b t s tm = (Inr (), tm1)"
    "forE (\<lambda>(t, s). TaskManager_AddDependency_by_name b t s) es tm1 = (Inr (), tm')"
    using Cons.prems(2) by (auto simp: e bindE_eq_Inr_iff)
  note st = AddDependency_by_name_effect [OF Cons.prems(1) tm1(1)]
  with Cons.IH [OF _ tm1(2)] have ih: "tm_ok tm' \<and> name_map tm' = name_map tm1 \<and> tm_tasks tm' = tm_tasks tm1 \<and>
    depends (parents tm') = depends (parents tm1) \<union> named_edges (name_map tm1) es \<and>
    (\<forall>(t, s) \<in> set es. t \<in> fst ` set (name_map tm1) \<and> s \<in> fst ` set (name_map tm1))" by blast
  have "named_edges nm (e # es) = named_edges nm [(t, s)] \<union> named_edges nm es" for nm
    by (auto simp: named_edges_def e)
  with st ih show ?case by (auto simp: e)
qed

lemma named_edges_graph:
  "named_edges nm (map (edge_names g) (g_edges g)) = {(c, p). \<exists>e \<in> set (g_edges g).
      map_of nm (fst (edge_names g e)) = Some c \<and> map_of nm (snd (edge_names g e)) = Some p}"
  by (auto simp: named_edges_def case_prod_unfold)

section \<open>Properties\<close>

text \<open>
  C19. When the registration of a task graph with an empty task manager succeeds, every edge
  of the graph connects two registered tasks, the dependencies of the task manager are
  exactly those between the tasks with the names of the end points, and the task manager is
  finalised and ready for the first iteration.
\<close>

theorem registration_enters_graph_edges:
  assumes run: "XGraph_registerTasksAndDependencies b funcMap g \<lparr>mg_mem = mm, mg_mb = bm, mg_tm = TaskManager_new\<rparr> =
      (Inr (), mg)"
  shows "iter_ok (mg_tm mg) \<and> done_tasks (mg_tm mg) = {} \<and>
    (\<forall>e \<in> set (g_edges g). \<exists>c p. map_of (name_map (mg_tm mg)) (fst (edge_names g e)) = Some c \<and>
       map_of (name_map (mg_tm mg)) (snd (edge_names g e)) = Some p) \<and>
    depends (parents (mg_tm mg)) = {(c, p). \<exists>e \<in> set (g_edges g).
       map_of (name_map (mg_tm mg)) (fst (edge_names g e)) = Some c \<and>
       map_of (name_map (mg_tm mg)) (snd (edge_names g e)) = Some p}"
proof -
  let ?mg0 = "\<lparr>mg_mem = mm, mg_mb = bm, mg_tm = TaskManager_new\<rparr>" and ?es = "map (edge_names g) (g_edges g)"
  let ?ts = "map (\<lambda>v. XGraph_getTask v g) [0..<num_vertices g]"
  obtain mg1 tm2 where mg1: "forE (register_vertex b funcMap) ?ts ?mg0 = (Inr (), mg1)"
    and tm2: "XGraph_registerDependencies b g (mg_tm mg1) = (Inr (), tm2)"
    and fin: "TaskManager_Finalise tm2 = (Inr (), mg_tm mg)"
    using run by (auto simp: XGraph_registerTasksAndDependencies_def bindE_eq_Inr_iff with_tm_eq_Inr_iff)
  have "reg_inv ?mg0" using tm_ok_new by (simp add: reg_inv_def TaskManager_new_def depends_def)
  moreover have "keeps_reg (forE (register_vertex b funcMap) ?ts)" by (intro keeps)
  ultimately have inv: "reg_inv mg1" using mg1 by (metis keeps_reg_def snd_conv)
  have "forE (\<lambda>(t, s). TaskManager_AddDependency_by_name b t s) ?es (mg_tm mg1) = (Inr (), tm2)"
    using tm2 by (simp add: XGraph_registerDependencies_def forE_map comp_def)
  from registerDependencies_effect [OF _ this] inv
  have tm2': "tm_ok tm2" "depends (parents tm2) = named_edges (name_map tm2) ?es"
    "\<forall>(t, s) \<in> set ?es. t \<in> fst ` set (name_map tm2) \<and> s \<in> fst ` set (name_map tm2)"
    by (auto simp: reg_inv_def)
  have keep: "parents (mg_tm mg) = parents tm2" "name_map (mg_tm mg) = name_map tm2"
    using fin [symmetric]
    by (simp_all add: TaskManager_Finalise_def TaskManager_IterReset_def check_finalised_def bindE_def split: if_splits)
  have "\<exists>c p. map_of (name_map tm2) (fst (edge_names g e)) = Some c \<and>
      map_of (name_map tm2) (snd (edge_names g e)) = Some p" if "e \<in> set (g_edges g)" for e
  proof -
    have "edge_names g e \<in> set ?es" using that by simp
    from bspec [OF tm2'(3) this] have "fst (edge_names g e) \<in> fst ` set (name_map tm2)" "snd (edge_names g e) \<in> fst ` set (name_map tm2)"
      by (simp_all add: case_prod_unfold)
    then show ?thesis by (metis domD dom_map_of_conv_image_fst)
  qed
  moreover have "iter_ok (mg_tm mg) \<and> done_tasks (mg_tm mg) = {}" using Finalise_ok [OF tm2'(1)] fin by simp
  ultimately show ?thesis using tm2'(2) unfolding keep named_edges_graph by blast
qed


text \<open>A model with one agent that has two variables, both written last by its start.\<close>

definition output_memory :: "nat memory_manager" where
  "output_memory = snd (bindE (MemoryManager_RegisterAgent ''a'')
     (\<lambda>_. MemoryManager_RegisterAgentVars ''int'' ''a'' [''x'', ''y'']) MemoryManager_new)"

definition output_graph :: xgraph where
  "output_graph =
     XGraph_addEdge 1 2 [] D_data (XGraph_addEdge 0 1 [] D_data
       (snd (add_task (mTask_new ''m'' ''Finish'' T_finish_model)
         (snd (add_task (mTask_addWriteVariable ''x'' (mTask_addWriteVariable ''y'' (mTask_new ''a'' ''x'' T_io_pop_write)))
           (snd (add_task (mTask_new ''m'' ''Start'' T_start_model) XGraph_new)))))))"

lemmas registration_eval = output_memory_def output_graph_def XGraph_new_def add_task_def alloc_task_def
  XGraph_addVertex_def XGraph_addEdge_def mTask_new_def mTask_addWriteVariable_def mTask_getTaskName_def
  XGraph_registerTasksAndDependencies_def XGraph_registerDataTask_def XGraph_registerDependencies_def
  register_vertex_def create_io_def with_tm_def edge_names_def XGraph_getTask_def TaskManager_CreateIOTask_def
  TaskManager_AddDependency_by_name_def TaskManager_GetId_def register_new_def IOTask_new_def bindR_def
  MemoryManager_AssertVarRegistered_def MemoryManager_RegisterAgent_def MemoryManager_RegisterAgentVars_def
  MemoryManager_RegisterAgentVar_def MemoryManager_new_def MemoryManager_GetAgentMemory_def
  AgentMemory_RegisterVar_def AgentMemory_new_def AgentMemory_IsRegistered_def VectorWrapper_new_def

lemma output_registration:
  "\<exists>mg. XGraph_registerTasksAndDependencies Debug [] output_graph
      \<lparr>mg_mem = output_memory, mg_mb = MessageBoardManager_new, mg_tm = TaskManager_new\<rparr> = (Inr (), mg) \<and>
    name_map (mg_tm mg) = [(''AD_a_x'', 1), (''AD_a_y'', 2), (''MD_m_Finish'', 3), (''MD_m_Start'', 0)] \<and>
    parents (mg_tm mg) = [[], [0], [], [1]]"
  by (simp add: tm_eval registration_eval)

theorem registration_enters_graph_edges_witness:
  "\<exists>mg. XGraph_registerTasksAndDependencies Debug [] output_graph
      \<lparr>mg_mem = output_memory, mg_mb = MessageBoardManager_new, mg_tm = TaskManager_new\<rparr> = (Inr (), mg) \<and>
    iter_ok (mg_tm mg) \<and> depends (parents (mg_tm mg)) = {(1, 0), (3, 1)}"
proof -
  obtain mg where run: "XGraph_registerTasksAndDependencies Debug [] output_graph
      \<lparr>mg_mem = output_memory, mg_mb = MessageBoardManager_new, mg_tm = TaskManager_new\<rparr> = (Inr (), mg)"
    and nm: "name_map (mg_tm mg) = [(''AD_a_x'', 1), (''AD_a_y'', 2), (''MD_m_Finish'', 3), (''MD_m_Start'', 0)]"
    using output_registration by blast
  have "map (edge_names output_graph) (g_edges output_graph) =
      [(''AD_a_x'', ''MD_m_Start''), (''MD_m_Finish'', ''AD_a_x'')]"
    by (simp add: registration_eval oset_insert_def)
  then have "named_edges (name_map (mg_tm mg)) (map (edge_names output_graph) (g_edges output_graph)) = {(1, 0), (3, 1)}"
    by (auto simp: nm named_edges_def)
  then show ?thesis using registration_enters_graph_edges [OF run] run by (auto simp: named_edges_graph)
qed

text \<open>
  An output vertex for several variables registers one output task per variable, but the
  dependencies only name the task of the vertex's first variable: the task that writes the
  second variable depends on nothing and nothing waits for it.
\<close>

theorem shared_output_loses_dependencies:
  "\<exists>mg. XGraph_registerTasksAndDependencies Debug [] output_graph
      \<lparr>mg_mem = output_memory, mg_mb = MessageBoardManager_new, mg_tm = TaskManager_new\<rparr> = (Inr (), mg) \<and>
    map_of (name_map (mg_tm mg)) ''AD_a_x'' = Some 1 \<and> parents (mg_tm mg) ! 1 = [0] \<and>
    map_of (name_map (mg_tm mg)) ''AD_a_y'' = Some 2 \<and> parents (mg_tm mg) ! 2 = [] \<and>
    (\<forall>c. (c, 2) \<notin> depends (parents (mg_tm mg)))"
proof -
  have "(c, 2) \<notin> depends [[], [0], [], [Suc 0]]" for c :: nat
    by (auto simp: depends_def less_Suc_eq numeral_3_eq_3 numeral_2_eq_2 nth_Cons split: nat.splits)
  then show ?thesis using output_registration by (auto intro: exI)
qed

end
