(* ===== verification/Model_Data.thy ===== *)
theory Model_Data
  imports Complex_Main Model_Graph
begin

text \<open>
  The description of a model as it is read in: \<open>src/flame2/model/xvariable\<close>, \<open>xadt\<close>,
  \<open>xtimeunit\<close>, \<open>xmessage\<close>, \<open>xcondition\<close> (data only), \<open>xioput\<close>, \<open>xfunction\<close>,
  \<open>xmachine\<close>, \<open>xmodel\<close> and the \<open>Model\<close> class with its validated flag.

  The fields of a record are the members of the class; their getters and setters are the
  selectors and updates of the record. A pointer returned by an \<open>add\<close> operation is the
  index of the new element in its \<open>ptr_vector\<close>. A C++ \<open>double\<close> is a real number; it is
  only stored, never computed with.
\<close>

section \<open>Variables, data types, time units and messages\<close>

record xvariable =
  xv_type :: string
  xv_name :: string
  xv_isDynamicArray :: bool
  xv_isStaticArray :: bool
  xv_staticArraySize :: int
  xv_hasADTType :: bool
  xv_holdsDynamicArray :: bool
  xv_constantString :: string
  xv_constantSet :: bool
  xv_constant :: bool

definition XVariable_new :: "string \<Rightarrow> xvariable" where
  "XVariable_new name =
     \<lparr>xv_type = [], xv_name = name, xv_isDynamicArray = False, xv_isStaticArray = False,
      xv_staticArraySize = 0, xv_hasADTType = False, xv_holdsDynamicArray = False,
      xv_constantString = [], xv_constantSet = False, xv_constant = False\<rparr>"

text \<open>\<open>addVariable(type, name)\<close> of agents and messages.\<close>

definition new_variable :: "string \<Rightarrow> string \<Rightarrow> xvariable" where
  "new_variable type name = (XVariable_new [])\<lparr>xv_type := type, xv_name := name\<rparr>"

record xadt =
  xd_name :: string
  xd_variables :: "xvariable list"
  xd_holdsDynamicArray :: bool

definition XADT_new :: xadt where
  "XADT_new = \<lparr>xd_name = [], xd_variables = [], xd_holdsDynamicArray = False\<rparr>"

definition XADT_addVariable :: "xadt \<Rightarrow> nat \<times> xadt" where
  "XADT_addVariable d = (length (xd_variables d), d\<lparr>xd_variables := xd_variables d @ [XVariable_new []]\<rparr>)"

record xtimeunit =
  xt_name :: string
  xt_unit :: string
  xt_periodString :: string
  xt_period :: int
  xt_id :: int

definition XTimeUnit_new :: xtimeunit where
  "XTimeUnit_new = \<lparr>xt_name = [], xt_unit = [], xt_periodString = [], xt_period = 0, xt_id = 0\<rparr>"

text \<open>The two task pointers of a message are set and read by nothing else.\<close>

record xmessage =
  xm_id :: int
  xm_name :: string
  xm_variables :: "xvariable list"

definition XMessage_new :: xmessage where
  "XMessage_new = \<lparr>xm_id = 0, xm_name = [], xm_variables = []\<rparr>"

definition XMessage_addVariable :: "string \<Rightarrow> string \<Rightarrow> xmessage \<Rightarrow> xmessage" where
  "XMessage_addVariable type name m = m\<lparr>xm_variables := xm_variables m @ [new_variable type name]\<rparr>"

definition XMessage_validateVariableName :: "xmessage \<Rightarrow> string \<Rightarrow> bool" where
  "XMessage_validateVariableName m name \<longleftrightarrow> list_ex (\<lambda>v. name = xv_name v) (xm_variables m)"

section \<open>Conditions\<close>

record cond_data =
  xc_tempValue :: string
  xc_lhs :: string
  xc_op :: string
  xc_rhs :: string
  xc_isNot :: bool
  xc_isTime :: bool
  xc_timePeriod :: string
  xc_timePhaseVariable :: string
  xc_timeDurationString :: string
  xc_timePhaseValue :: int
  xc_timePhaseIsVariable :: bool
  xc_timeDuration :: int
  xc_foundTimeDuration :: bool
  xc_isValues :: bool
  xc_lhsIsValue :: bool
  xc_rhsIsValue :: bool
  xc_lhsIsAgentVariable :: bool
  xc_rhsIsAgentVariable :: bool
  xc_lhsIsMessageVariable :: bool
  xc_rhsIsMessageVariable :: bool
  xc_lhsDouble :: real
  xc_rhsDouble :: real
  xc_isConditions :: bool
  xc_lhsIsCondition :: bool
  xc_rhsIsCondition :: bool
  xc_readOnlyVariables :: "string list"

text \<open>The nested conditions are owned by pointer; \<open>None\<close> is the null pointer.\<close>

datatype xcondition =
  XCondition (cond_of: cond_data) (lhsCondition: "xcondition option") (rhsCondition: "xcondition option")

definition cond_init :: cond_data where
  "cond_init =
     \<lparr>xc_tempValue = [], xc_lhs = [], xc_op = [], xc_rhs = [], xc_isNot = False, xc_isTime = False,
      xc_timePeriod = [], xc_timePhaseVariable = [], xc_timeDurationString = [], xc_timePhaseValue = 0,
      xc_timePhaseIsVariable = False, xc_timeDuration = 0, xc_foundTimeDuration = False,
      xc_isValues = False, xc_lhsIsValue = False, xc_rhsIsValue = False,
      xc_lhsIsAgentVariable = False, xc_rhsIsAgentVariable = False,
      xc_lhsIsMessageVariable = False, xc_rhsIsMessageVariable = False,
      xc_lhsDouble = 0, xc_rhsDouble = 0,
      xc_isConditions = False, xc_lhsIsCondition = False, xc_rhsIsCondition = False,
      xc_readOnlyVariables = []\<rparr>"

definition XCondition_new :: xcondition where
  "XCondition_new = XCondition cond_init None None"

definition XCondition_addReadOnlyVariable :: "string \<Rightarrow> cond_data \<Rightarrow> cond_data" where
  "XCondition_addReadOnlyVariable s d = d\<lparr>xc_readOnlyVariables := oset_insert s (xc_readOnlyVariables d)\<rparr>"

section \<open>Inputs, outputs and transition functions\<close>

record xioput =
  xi_messageName :: string
  xi_randomString :: string
  xi_randomSet :: bool
  xi_random :: bool
  xi_sort :: bool
  xi_sortKey :: string
  xi_sortOrder :: string
  xi_filter :: "xcondition option"

definition XIOput_new :: xioput where
  "XIOput_new =
     \<lparr>xi_messageName = [], xi_randomString = [], xi_randomSet = False, xi_random = False,
      xi_sort = False, xi_sortKey = [], xi_sortOrder = [], xi_filter = None\<rparr>"

definition XIOput_addFilter :: "(xioput, unit) exec" where
  "XIOput_addFilter i =
     (case xi_filter i of
        None \<Rightarrow> (Inr (), i\<lparr>xi_filter := Some XCondition_new\<rparr>)
      | Some _ \<Rightarrow> (Inl (std_invalid_argument ''a filter has already been added to the input''), i))"

record xfunction =
  xf_name :: string
  xf_currentState :: string
  xf_nextState :: string
  xf_inputs :: "xioput list"
  xf_outputs :: "xioput list"
  xf_condition :: "xcondition option"
  xf_memoryAccessInfoAvailable :: bool
  xf_readOnlyVariables :: "string list"
  xf_readWriteVariables :: "string list"

definition XFunction_new :: "string \<Rightarrow> xfunction" where
  "XFunction_new name =
     \<lparr>xf_name = name, xf_currentState = [], xf_nextState = [], xf_inputs = [], xf_outputs = [],
      xf_condition = None, xf_memoryAccessInfoAvailable = True, xf_readOnlyVariables = [],
      xf_readWriteVariables = []\<rparr>"

definition XFunction_addInput :: "string \<Rightarrow> xfunction \<Rightarrow> xfunction" where
  "XFunction_addInput name f = f\<lparr>xf_inputs := xf_inputs f @ [XIOput_new\<lparr>xi_messageName := name\<rparr>]\<rparr>"

definition XFunction_addOutput :: "string \<Rightarrow> xfunction \<Rightarrow> xfunction" where
  "XFunction_addOutput name f = f\<lparr>xf_outputs := xf_outputs f @ [XIOput_new\<lparr>xi_messageName := name\<rparr>]\<rparr>"

definition XFunction_addCondition :: "(xfunction, unit) exec" where
  "XFunction_addCondition f =
     (case xf_condition f of
        None \<Rightarrow> (Inr (), f\<lparr>xf_condition := Some XCondition_new\<rparr>)
      | Some _ \<Rightarrow> (Inl (std_invalid_argument ''a condition has already been added to the function''), f))"

definition XFunction_addReadOnlyVariable :: "string \<Rightarrow> (xfunction, unit) exec" where
  "XFunction_addReadOnlyVariable name f =
     (if \<not> xf_memoryAccessInfoAvailable f
      then (Inl (std_invalid_argument ''memory access info available has not been set to true''), f)
      else (Inr (), f\<lparr>xf_readOnlyVariables := xf_readOnlyVariables f @ [name]\<rparr>))"

definition XFunction_addReadWriteVariable :: "string \<Rightarrow> (xfunction, unit) exec" where
  "XFunction_addReadWriteVariable name f =
     (if \<not> xf_memoryAccessInfoAvailable f
      then (Inl (std_invalid_argument ''memory access info available has not been set to true''), f)
      else (Inr (), f\<lparr>xf_readWriteVariables := xf_readWriteVariables f @ [name]\<rparr>))"

section \<open>Agent types\<close>

record xmachine =
  xa_id :: int
  xa_name :: string
  xa_variables :: "xvariable list"
  xa_functions :: "xfunction list"
  xa_startState :: string
  xa_endStates :: "string list"
  xa_graph :: xgraph

definition XMachine_new :: xmachine where
  "XMachine_new =
     \<lparr>xa_id = 0, xa_name = [], xa_variables = [], xa_functions = [], xa_startState = [],
      xa_endStates = [], xa_graph = XGraph_new\<rparr>"

definition XMachine_setName :: "string \<Rightarrow> xmachine \<Rightarrow> xmachine" where
  "XMachine_setName name a = a\<lparr>xa_name := name, xa_graph := XGraph_setAgentName name (xa_graph a)\<rparr>"

definition XMachine_addVariable :: "string \<Rightarrow> string \<Rightarrow> xmachine \<Rightarrow> xmachine" where
  "XMachine_addVariable type name a = a\<lparr>xa_variables := xa_variables a @ [new_variable type name]\<rparr>"

definition XMachine_getVariable :: "xmachine \<Rightarrow> string \<Rightarrow> xvariable option" where
  "XMachine_getVariable a name = find (\<lambda>v. xv_name v = name) (xa_variables a)"

definition XMachine_addFunction :: "string \<Rightarrow> string \<Rightarrow> string \<Rightarrow> xmachine \<Rightarrow> xmachine" where
  "XMachine_addFunction name currentState nextState a =
     a\<lparr>xa_functions := xa_functions a @
        [(XFunction_new [])\<lparr>xf_name := name, xf_currentState := currentState, xf_nextState := nextState\<rparr>]\<rparr>"

definition XMachine_getFunction :: "xmachine \<Rightarrow> string \<Rightarrow> string \<Rightarrow> string \<Rightarrow> exn + nat" where
  "XMachine_getFunction a name current_state next_state =
     (case find_index (\<lambda>f. xf_name f = name \<and> xf_currentState f = current_state \<and> xf_nextState f = next_state)
          (xa_functions a) of
        Some i \<Rightarrow> Inr i
      | None \<Rightarrow> Inl (flame_model_exception ''Function does not exist''))"

definition XMachine_validateVariableName :: "xmachine \<Rightarrow> string \<Rightarrow> bool" where
  "XMachine_validateVariableName a name \<longleftrightarrow> list_ex (\<lambda>v. name = xv_name v) (xa_variables a)"

text \<open>
  The states without a function that leads to them are the possible start states, those
  without a function that leaves them are the end states; 0 for one start state, 1 for
  none, 2 for several.
\<close>

definition XMachine_findStartEndStates :: "xmachine \<Rightarrow> nat \<times> xmachine" where
  "XMachine_findStartEndStates a =
     (let fs = xa_functions a;
          ends0 = fold (\<lambda>f. oset_insert (xf_nextState f)) fs [];
          starts0 = fold (\<lambda>f. oset_insert (xf_currentState f)) fs [];
          starts = fold (\<lambda>f. oset_erase (xf_nextState f)) fs starts0;
          ends = fold (\<lambda>f. oset_erase (xf_currentState f)) fs ends0;
          a' = a\<lparr>xa_endStates := ends\<rparr>
      in case starts of
           [] \<Rightarrow> (1, a')
         | [s] \<Rightarrow> (0, a'\<lparr>xa_startState := s\<rparr>)
         | _ \<Rightarrow> (2, a'))"

text \<open>Only \<open>int\<close> and \<open>double\<close> variables are registered; the others are passed over.\<close>

definition XMachine_registerVariable :: "string \<Rightarrow> xvariable \<Rightarrow> ('v memory_manager, unit) exec" where
  "XMachine_registerVariable name v =
     (if xv_type v = ''int'' then MemoryManager_RegisterAgentVar ''int'' name (xv_name v)
      else if xv_type v = ''double'' then MemoryManager_RegisterAgentVar ''double'' name (xv_name v)
      else returnE ())"

definition XMachine_registerWithMemoryManager :: "xmachine \<Rightarrow> ('v memory_manager, unit) exec" where
  "XMachine_registerWithMemoryManager a =
     bindE (MemoryManager_RegisterAgent (xa_name a))
       (\<lambda>_. bindE (forE (XMachine_registerVariable (xa_name a)) (xa_variables a))
         (\<lambda>_. MemoryManager_HintPopulationSize (xa_name a) 100))"

section \<open>The model\<close>

record 'v xmodel =
  xo_name :: string
  xo_path :: string
  xo_includedModels :: "string list"
  xo_functionFiles :: "string list"
  xo_allowedDataTypes :: "string list"
  xo_constants :: "xvariable list"
  xo_adts :: "xadt list"
  xo_timeUnits :: "xtimeunit list"
  xo_agents :: "xmachine list"
  xo_messages :: "xmessage list"
  xo_funcMap :: "(string \<times> 'v agent_fun option) list"

definition XModel_new :: "'v xmodel" where
  "XModel_new =
     \<lparr>xo_name = [], xo_path = [], xo_includedModels = [], xo_functionFiles = [],
      xo_allowedDataTypes = [''int'', ''float'', ''double'', ''char''], xo_constants = [], xo_adts = [],
      xo_timeUnits = [], xo_agents = [], xo_messages = [], xo_funcMap = []\<rparr>"

text \<open>\<open>std::map::insert\<close> keeps the entry that is there.\<close>

definition XModel_registerAgentFunction :: "string \<Rightarrow> 'v agent_fun option \<Rightarrow> 'v xmodel \<Rightarrow> 'v xmodel" where
  "XModel_registerAgentFunction name f m =
     (if omap_has (xo_funcMap m) name then m else m\<lparr>xo_funcMap := omap_put name f (xo_funcMap m)\<rparr>)"

definition XModel_registerWithMemoryManager :: "'v xmodel \<Rightarrow> ('w memory_manager, unit) exec" where
  "XModel_registerWithMemoryManager m = forE XMachine_registerWithMemoryManager (xo_agents m)"

definition XModel_setName :: "string \<Rightarrow> 'v xmodel \<Rightarrow> 'v xmodel" where
  "XModel_setName name m = (if xo_name m = [] then m\<lparr>xo_name := name\<rparr> else m)"

definition XModel_addIncludedModel :: "string \<Rightarrow> 'v xmodel \<Rightarrow> bool \<times> 'v xmodel" where
  "XModel_addIncludedModel path m =
     (if path \<in> set (xo_includedModels m) then (False, m)
      else (True, m\<lparr>xo_includedModels := xo_includedModels m @ [path]\<rparr>))"

definition XModel_addConstant :: "'v xmodel \<Rightarrow> nat \<times> 'v xmodel" where
  "XModel_addConstant m = (length (xo_constants m), m\<lparr>xo_constants := xo_constants m @ [XVariable_new []]\<rparr>)"

definition XModel_addADT :: "'v xmodel \<Rightarrow> nat \<times> 'v xmodel" where
  "XModel_addADT m = (length (xo_adts m), m\<lparr>xo_adts := xo_adts m @ [XADT_new]\<rparr>)"

definition XModel_getADT :: "string \<Rightarrow> 'v xmodel \<Rightarrow> exn + nat" where
  "XModel_getADT name m =
     (case find_index (\<lambda>d. name = xd_name d) (xo_adts m) of
        Some i \<Rightarrow> Inr i | None \<Rightarrow> Inl (flame_model_exception ''ADT does not exist''))"

definition XModel_addTimeUnit :: "xtimeunit \<Rightarrow> 'v xmodel \<Rightarrow> 'v xmodel" where
  "XModel_addTimeUnit u m =
     (if list_ex (\<lambda>w. xt_name u = xt_name w \<and> xt_unit u = xt_unit w \<and> xt_periodString u = xt_periodString w)
          (xo_timeUnits m)
      then m
      else m\<lparr>xo_timeUnits := xo_timeUnits m @ [u\<lparr>xt_id := int (length (xo_timeUnits m))\<rparr>]\<rparr>)"

definition XModel_addFunctionFile :: "string \<Rightarrow> 'v xmodel \<Rightarrow> 'v xmodel" where
  "XModel_addFunctionFile file m = m\<lparr>xo_functionFiles := xo_functionFiles m @ [file]\<rparr>"

definition XModel_getAgent :: "string \<Rightarrow> 'v xmodel \<Rightarrow> nat option" where
  "XModel_getAgent name m = find_index (\<lambda>a. name = xa_name a) (xo_agents m)"

definition XModel_addAgent :: "string \<Rightarrow> 'v xmodel \<Rightarrow> nat \<times> 'v xmodel" where
  "XModel_addAgent name m =
     (case XModel_getAgent name m of
        Some i \<Rightarrow> (i, m)
      | None \<Rightarrow>
          (length (xo_agents m),
           m\<lparr>xo_agents := xo_agents m @
              [(XMachine_setName name XMachine_new)\<lparr>xa_id := int (length (xo_agents m))\<rparr>]\<rparr>))"

definition XModel_addMessage :: "string \<Rightarrow> 'v xmodel \<Rightarrow> nat \<times> 'v xmodel" where
  "XModel_addMessage name m =
     (length (xo_messages m),
      m\<lparr>xo_messages := xo_messages m @ [XMessage_new\<lparr>xm_id := int (length (xo_messages m)), xm_name := name\<rparr>]\<rparr>)"

definition XModel_getMessage :: "string \<Rightarrow> 'v xmodel \<Rightarrow> nat option" where
  "XModel_getMessage name m = find_index (\<lambda>g. name = xm_name g) (xo_messages m)"

definition XModel_addAllowedDataType :: "string \<Rightarrow> 'v xmodel \<Rightarrow> 'v xmodel" where
  "XModel_addAllowedDataType name m = m\<lparr>xo_allowedDataTypes := xo_allowedDataTypes m @ [name]\<rparr>"

end
