(* ===== verification/Data_Schema.thy ===== *)
theory Data_Schema
  imports Xml_Documents Model_Data
begin

text \<open>
  The XML schema that \<open>src/flame2/io/io_xml_pop.cpp\<close> generates from a model to check
  population files: \<open>createDataSchema\<close> and its parts, and the tree they write.
\<close>

definition createDataSchemaHead :: "writer_codes \<Rightarrow> unit writer" where
  "createDataSchemaHead rc =
     bindE (writeXMLTag rc ''xs:schema'') (\<lambda>_.
     bindE (writeXMLTagAttribute rc ''xmlns:xs'' ''http://www.w3.org/2001/XMLSchema'') (\<lambda>_.
     bindE (writeXMLTagAttribute rc ''elementFormDefault'' ''qualified'') (\<lambda>_.
     bindE (writeXMLTag rc ''xs:annotation'') (\<lambda>_.
     bindE (writeXMLTag_string rc ''xs:documentation'' ''Auto-generated data schema'') (\<lambda>_.
     writeXMLEndTag rc)))))"

definition createDataSchemaAgentNameType :: "writer_codes \<Rightarrow> 'v xmodel \<Rightarrow> unit writer" where
  "createDataSchemaAgentNameType rc model =
     bindE (writeXMLTagAndAttribute rc ''xs:simpleType'' ''name'' ''agentType'') (\<lambda>_.
     bindE (writeXMLTagAndAttribute rc ''xs:restriction'' ''base'' ''xs:string'') (\<lambda>_.
     bindE (forE (\<lambda>agent.
         bindE (writeXMLTag rc ''xs:enumeration'') (\<lambda>_.
         bindE (writeXMLTagAttribute rc ''value'' (xa_name agent)) (\<lambda>_.
         writeXMLEndTag rc))) (xo_agents model)) (\<lambda>_.
     bindE (writeXMLEndTag rc) (\<lambda>_. writeXMLEndTag rc))))"

definition agent_group :: "xmachine \<Rightarrow> string" where
  "agent_group agent = ''agent_'' @ xa_name agent @ ''_vars''"

definition createDataSchemaAgentVarChoice :: "writer_codes \<Rightarrow> 'v xmodel \<Rightarrow> unit writer" where
  "createDataSchemaAgentVarChoice rc model =
     bindE (writeXMLTagAndAttribute rc ''xs:group'' ''name'' ''agent_vars'') (\<lambda>_.
     bindE (writeXMLTag rc ''xs:choice'') (\<lambda>_.
     bindE (forE (\<lambda>agent.
         bindE (writeXMLTag rc ''xs:group'') (\<lambda>_.
         bindE (writeXMLTagAttribute rc ''ref'' (agent_group agent)) (\<lambda>_.
         writeXMLEndTag rc))) (xo_agents model)) (\<lambda>_.
     bindE (writeXMLEndTag rc) (\<lambda>_. writeXMLEndTag rc))))"

definition schema_type :: "string \<Rightarrow> string" where
  "schema_type type =
     (if type = ''int'' then ''xs:integer'' else if type = ''double'' then ''xs:double'' else ''xs:string'')"

definition createDataSchemaAgentVar :: "writer_codes \<Rightarrow> xvariable \<Rightarrow> unit writer" where
  "createDataSchemaAgentVar rc variable =
     bindE (writeXMLTagAndAttribute rc ''xs:element'' ''name'' (xv_name variable)) (\<lambda>_.
     bindE (writeXMLTagAttribute rc ''type'' (schema_type (xv_type variable))) (\<lambda>_.
     writeXMLEndTag rc))"

definition createDataSchemaAgentVars :: "writer_codes \<Rightarrow> 'v xmodel \<Rightarrow> unit writer" where
  "createDataSchemaAgentVars rc model =
     forE (\<lambda>agent.
       bindE (writeXMLTagAndAttribute rc ''xs:group'' ''name'' (agent_group agent)) (\<lambda>_.
       bindE (writeXMLTag rc ''xs:sequence'') (\<lambda>_.
       bindE (forE (createDataSchemaAgentVar rc) (xa_variables agent)) (\<lambda>_.
       bindE (writeXMLEndTag rc) (\<lambda>_. writeXMLEndTag rc))))) (xo_agents model)"

definition createDataSchemaDefineAgents :: "writer_codes \<Rightarrow> unit writer" where
  "createDataSchemaDefineAgents rc =
     bindE (writeXMLTagAndAttribute rc ''xs:element'' ''name'' ''xagent'') (\<lambda>_.
     bindE (writeXMLTag rc ''xs:annotation'') (\<lambda>_.
     bindE (writeXMLTag_string rc ''xs:documentation'' ''Agent data'') (\<lambda>_.
     bindE (writeXMLEndTag rc) (\<lambda>_.
     bindE (writeXMLTag rc ''xs:complexType'') (\<lambda>_.
     bindE (writeXMLTag rc ''xs:sequence'') (\<lambda>_.
     bindE (writeXMLTagAndAttribute2 rc ''xs:element'' ''name'' ''name'' ''type'' ''agentType'') (\<lambda>_.
     bindE (writeXMLEndTag rc) (\<lambda>_.
     bindE (writeXMLTagAndAttribute rc ''xs:group'' ''ref'' ''agent_vars'') (\<lambda>_.
     writeXMLEndTags rc 4)))))))))"

definition createDataSchemaDefineTags :: "writer_codes \<Rightarrow> unit writer" where
  "createDataSchemaDefineTags rc =
     bindE (writeXMLTagAndAttribute rc ''xs:element'' ''name'' ''states'') (\<lambda>_.
     bindE (writeXMLTag rc ''xs:complexType'') (\<lambda>_.
     bindE (writeXMLTag rc ''xs:sequence'') (\<lambda>_.
     bindE (writeXMLTagAndAttribute2 rc ''xs:element'' ''name'' ''itno'' ''type'' ''xs:nonNegativeInteger'') (\<lambda>_.
     bindE (writeXMLTag rc ''xs:annotation'') (\<lambda>_.
     bindE (writeXMLTag_string rc ''xs:documentation'' ''Iteration number'') (\<lambda>_.
     bindE (writeXMLEndTags rc 2) (\<lambda>_.
     bindE (writeXMLTagAndAttribute3 rc ''xs:element'' ''ref'' ''xagent'' ''minOccurs'' ''0''
         ''maxOccurs'' ''unbounded'') (\<lambda>_.
     writeXMLEndTags rc 4))))))))"

text \<open>
  The file is opened and the parts are written one after the other; the calls made are
  kept also when one of them fails.
\<close>

definition createDataSchema ::
    "(string \<Rightarrow> bool) \<Rightarrow> writer_codes \<Rightarrow> string \<Rightarrow> 'v xmodel \<Rightarrow> (exn + unit) \<times> xml_call list" where
  "createDataSchema can_open rc file model =
     (if \<not> can_open file then (Inl (flame_io_exception ''Could not load data schema file''), [])
      else
        bindE (createDataSchemaHead rc) (\<lambda>_.
        bindE (createDataSchemaAgentNameType rc model) (\<lambda>_.
        bindE (createDataSchemaAgentVarChoice rc model) (\<lambda>_.
        bindE (createDataSchemaAgentVars rc model) (\<lambda>_.
        bindE (createDataSchemaDefineAgents rc) (\<lambda>_.
        bindE (createDataSchemaDefineTags rc) (\<lambda>_.
        endXMLDoc rc)))))) [])"

section \<open>The tree of the schema\<close>

definition documentation :: "string \<Rightarrow> xml" where
  "documentation t = Element ''xs:annotation'' [] [Element ''xs:documentation'' [] [Text t]]"

definition name_type :: "'v xmodel \<Rightarrow> xml" where
  "name_type model =
     Element ''xs:simpleType'' [(''name'', ''agentType'')]
       [Element ''xs:restriction'' [(''base'', ''xs:string'')]
          (map (\<lambda>a. Element ''xs:enumeration'' [(''value'', xa_name a)] []) (xo_agents model))]"

definition var_choice :: "'v xmodel \<Rightarrow> xml" where
  "var_choice model =
     Element ''xs:group'' [(''name'', ''agent_vars'')]
       [Element ''xs:choice'' []
          (map (\<lambda>a. Element ''xs:group'' [(''ref'', agent_group a)] []) (xo_agents model))]"

definition var_element :: "xvariable \<Rightarrow> xml" where
  "var_element v = Element ''xs:element'' [(''name'', xv_name v), (''type'', schema_type (xv_type v))] []"

definition var_group :: "xmachine \<Rightarrow> xml" where
  "var_group a =
     Element ''xs:group'' [(''name'', agent_group a)]
       [Element ''xs:sequence'' [] (map var_element (xa_variables a))]"

definition agent_element :: xml where
  "agent_element =
     Element ''xs:element'' [(''name'', ''xagent'')]
       [documentation ''Agent data'',
        Element ''xs:complexType'' []
          [Element ''xs:sequence'' []
             [Element ''xs:element'' [(''name'', ''name''), (''type'', ''agentType'')] [],
              Element ''xs:group'' [(''ref'', ''agent_vars'')] []]]]"

definition states_element :: xml where
  "states_element =
     Element ''xs:element'' [(''name'', ''states'')]
       [Element ''xs:complexType'' []
          [Element ''xs:sequence'' []
             [Element ''xs:element'' [(''name'', ''itno''), (''type'', ''xs:nonNegativeInteger'')]
                [documentation ''Iteration number''],
              Element ''xs:element''
                [(''ref'', ''xagent''), (''minOccurs'', ''0''), (''maxOccurs'', ''unbounded'')] []]]]"

definition schema_tree :: "'v xmodel \<Rightarrow> xml" where
  "schema_tree model =
     Element ''xs:schema''
       [(''xmlns:xs'', ''http://www.w3.org/2001/XMLSchema''), (''elementFormDefault'', ''qualified'')]
       (documentation ''Auto-generated data schema'' # name_type model # var_choice model #
        map var_group (xo_agents model) @ [agent_element, states_element])"

section \<open>What is written\<close>

lemma element_calls:
  "text_only as cs = None \<Longrightarrow>
    tree_calls (Element n as cs) = open_calls n as @ concat (map tree_calls cs) @ [EndElement]"
  by simp

lemma writes_weaken: "makes_calls rc m a xs \<Longrightarrow> xs = ys \<Longrightarrow> makes_calls rc m a ys"
  by simp

lemma text_only_None [simp]: "as \<noteq> [] \<Longrightarrow> text_only as cs = None"
  by (cases as) auto

lemma text_only_map [simp]:
  "(\<And>x. x \<in> set xs \<Longrightarrow> \<exists>n as cs. f x = Element n as cs) \<Longrightarrow> text_only as (map f xs) = None"
  by (cases "(as, map f xs)" rule: text_only.cases) auto

lemma text_only_Element [simp]: "text_only as (Element n bs cs # ds) = None"
  by (cases as) auto

lemma writes_head:
  assumes "never_fails rc"
  shows "makes_calls rc (createDataSchemaHead rc) ()
    (open_calls ''xs:schema'' [(''xmlns:xs'', ''http://www.w3.org/2001/XMLSchema''),
       (''elementFormDefault'', ''qualified'')] @ tree_calls (documentation ''Auto-generated data schema''))"
  unfolding createDataSchemaHead_def
  by (rule writes_weaken, (rule writer_intros assms)+) (simp add: documentation_def)

lemma writes_name_type:
  assumes "never_fails rc"
  shows "makes_calls rc (createDataSchemaAgentNameType rc model) () (tree_calls (name_type model))"
  unfolding createDataSchemaAgentNameType_def
  by (rule writes_weaken, (rule writer_intros assms writes_forE)+) (simp add: name_type_def comp_def)

lemma writes_var_choice:
  assumes "never_fails rc"
  shows "makes_calls rc (createDataSchemaAgentVarChoice rc model) () (tree_calls (var_choice model))"
  unfolding createDataSchemaAgentVarChoice_def
  by (rule writes_weaken, (rule writer_intros assms writes_forE)+) (simp add: var_choice_def comp_def)

lemma writes_var:
  assumes "never_fails rc"
  shows "makes_calls rc (createDataSchemaAgentVar rc v) () (tree_calls (var_element v))"
  unfolding createDataSchemaAgentVar_def
  by (rule writes_weaken, (rule writer_intros assms)+) (simp add: var_element_def)

lemma writes_vars:
  assumes "never_fails rc"
  shows "makes_calls rc (createDataSchemaAgentVars rc model) ()
    (concat (map tree_calls (map var_group (xo_agents model))))"
  unfolding createDataSchemaAgentVars_def
  by (rule writes_weaken, (rule writer_intros assms writes_forE writes_var)+)
    (simp add: var_group_def var_element_def comp_def)

lemma writes_agents:
  assumes "never_fails rc"
  shows "makes_calls rc (createDataSchemaDefineAgents rc) () (tree_calls agent_element)"
  unfolding createDataSchemaDefineAgents_def
  by (rule writes_weaken, (rule writer_intros assms)+)
    (simp add: agent_element_def documentation_def eval_nat_numeral)

lemma writes_tags:
  assumes "never_fails rc"
  shows "makes_calls rc (createDataSchemaDefineTags rc) () (tree_calls states_element)"
  unfolding createDataSchemaDefineTags_def
  by (rule writes_weaken, (rule writer_intros assms)+)
    (simp add: states_element_def documentation_def eval_nat_numeral)

lemma schema_written:
  assumes "can_open file" and "never_fails rc"
  shows "createDataSchema can_open rc file model = (Inr (), document_calls (schema_tree model))"
proof -
  note ws = writes_head writes_name_type writes_var_choice writes_vars writes_agents writes_tags writes_ops(7)
  have "makes_calls rc (bindE (createDataSchemaHead rc) (\<lambda>_.
        bindE (createDataSchemaAgentNameType rc model) (\<lambda>_.
        bindE (createDataSchemaAgentVarChoice rc model) (\<lambda>_.
        bindE (createDataSchemaAgentVars rc model) (\<lambda>_.
        bindE (createDataSchemaDefineAgents rc) (\<lambda>_.
        bindE (createDataSchemaDefineTags rc) (\<lambda>_.
        endXMLDoc rc))))))) () (document_calls (schema_tree model))"
    by (rule writes_weaken, (rule writes_bind_unit ws assms(2))+)
      (simp add: schema_tree_def del: tree_calls.simps)
  from writesD [OF this, of "[]"] show ?thesis using assms(1) by (simp add: createDataSchema_def)
qed

section \<open>Properties\<close>

text \<open>
  C31. Creating the data schema of any model, with a file that can be opened and a library whose
  calls succeed, writes exactly the schema document of the model: the enumeration of the agent
  names, the choice between the groups of variables, for each agent type the sequence of its
  variables with the schema types of their types, the element of an agent and the element of a
  population with one iteration number and any number of agents.
\<close>

theorem schema_document_written:
  assumes "can_open file" and "never_fails rc"
  shows "createDataSchema can_open rc file model = (Inr (), document_calls (schema_tree model))"
  using assms by (rule schema_written)

theorem schema_document_written_witness:
  "createDataSchema (\<lambda>_. True) (\<lambda>_ _. 0) ''xmlpop.xsd'' (XModel_new :: nat xmodel) =
    (Inr (), document_calls (schema_tree (XModel_new :: nat xmodel)))"
  using schema_document_written [of "\<lambda>_. True" "''xmlpop.xsd''" "\<lambda>_ _. 0" "XModel_new :: nat xmodel"]
  by (simp add: never_fails_def)

end
