(* ===== verification/Population_Output.thy ===== *)
theory Population_Output
  imports Xml_Documents Model_Data
begin

text \<open>
  Writing a population: \<open>writeAgents\<close> and \<open>finaliseData\<close> of \<open>src/flame2/io/io_xml_pop.cpp\<close>, over the
  memory manager and the text writer.
\<close>

section \<open>Values\<close>

text \<open>
  The values of agent variables. Doubles are an arbitrary type: the text that \<open>%f\<close> makes of one and
  what \<open>boost::lexical_cast\<close> makes of a text are in the record \<open>text_format\<close>.
\<close>

datatype 'd pop_value = VInt "32 word" | VDouble 'd

record 'd text_format =
  tf_double :: "'d \<Rightarrow> string"
  tf_cast_int :: "string \<Rightarrow> 32 word option"
  tf_cast_double :: "string \<Rightarrow> 'd option"

section \<open>The object\<close>

record xml_pop =
  xml_pop_path :: string
  pop_iteration :: size_t
  xml_pop_path_is_set :: bool
  agentVarMap :: "(string \<times> string list) list"

definition IOXMLPop_new :: xml_pop where
  "IOXMLPop_new = \<lparr>xml_pop_path = [], pop_iteration = 0, xml_pop_path_is_set = False, agentVarMap = []\<rparr>"

definition IOXMLPop_setIteration :: "size_t \<Rightarrow> xml_pop \<Rightarrow> xml_pop" where
  "IOXMLPop_setIteration i pop = pop\<lparr>pop_iteration := i\<rparr>"

text \<open>The directory of a path is computed by \<open>boost::filesystem\<close>.\<close>

definition IOXMLPop_setXmlPopPath :: "(string \<Rightarrow> string) \<Rightarrow> string \<Rightarrow> xml_pop \<Rightarrow> xml_pop" where
  "IOXMLPop_setXmlPopPath parent_path path pop =
     (let dir = parent_path path in
      pop\<lparr>xml_pop_path := (if dir \<noteq> [] then dir @ ''/'' else dir), xml_pop_path_is_set := True\<rparr>)"

text \<open>
  \<open>std::map::insert\<close> keeps the entry that is there, so the variables of a second agent type of the
  same name are appended to those of the first.
\<close>

definition save_agent :: "xmachine \<Rightarrow> (string \<times> string list) list \<Rightarrow> (string \<times> string list) list" where
  "save_agent agent avm =
     (let old = (case map_of avm (xa_name agent) of None \<Rightarrow> [] | Some ns \<Rightarrow> ns)
      in omap_put (xa_name agent) (old @ map xv_name (xa_variables agent)) avm)"

definition IOXMLPop_saveAgentVariableData :: "'v xmodel \<Rightarrow> xml_pop \<Rightarrow> xml_pop" where
  "IOXMLPop_saveAgentVariableData model pop = pop\<lparr>agentVarMap := fold save_agent (xo_agents model) []\<rparr>"

section \<open>Writing agents\<close>

text \<open>The column a vector wrapper pointer refers to.\<close>

definition column :: "string \<Rightarrow> string \<Rightarrow> 'v memory_manager \<Rightarrow> 'v vector_wrapper option" where
  "column agent var mm =
     (case map_of (agent_map mm) agent of
        None \<Rightarrow> None
      | Some am \<Rightarrow> map_of (mem_map am) var)"

record var_vec_data =
  vd_name :: string
  vd_ptr :: raw_ptr

definition raw_ptr_of :: "string \<Rightarrow> string \<Rightarrow> ('v memory_manager, raw_ptr) exec" where
  "raw_ptr_of agent var mm =
     (case column agent var mm of
        None \<Rightarrow> (Inl (UB ''dangling vector wrapper''), mm)
      | Some w \<Rightarrow> (VectorWrapper_GetRawPtr w 0, mm))"

text \<open>The pointers to the first elements, and whether none of them is NULL.\<close>

fun collect_vars :: "string \<Rightarrow> string list \<Rightarrow> ('v memory_manager, var_vec_data list \<times> bool) exec" where
  "collect_vars agent [] = returnE ([], True)"
| "collect_vars agent (n # ns) =
     bindE (MemoryManager_GetVectorWrapper agent n) (\<lambda>vw.
     bindE (raw_ptr_of agent vw) (\<lambda>p.
     bindE (collect_vars agent ns) (\<lambda>(ds, stillData).
     returnE (\<lparr>vd_name = n, vd_ptr = p\<rparr> # ds, p \<noteq> None \<and> stillData))))"

text \<open>
  One element: a dereferenced NULL, a pointer past the end and an element of another type have no
  meaning. Variables of other types than \<open>int\<close> and \<open>double\<close> are passed over.
\<close>

definition write_value ::
    "'d text_format \<Rightarrow> writer_codes \<Rightarrow> 'd pop_value vector_wrapper \<Rightarrow> var_vec_data \<Rightarrow> unit writer" where
  "write_value fmt rc w d =
     (if vw_type w \<noteq> ''int'' \<and> vw_type w \<noteq> ''double'' then returnE ()
      else
        case VectorWrapper_ConvertToBoostAny w (vd_ptr d) of
          Inl e \<Rightarrow> throwE e
        | Inr (t, VInt i) \<Rightarrow>
            if t = ''int'' then writeXMLTag_int rc (vd_name d) i else throwE (UB ''value of another type'')
        | Inr (t, VDouble x) \<Rightarrow>
            if t = ''double'' then writeXMLTag_double rc (tf_double fmt) (vd_name d) x
            else throwE (UB ''value of another type''))"

definition write_var ::
    "'d text_format \<Rightarrow> writer_codes \<Rightarrow> 'd pop_value memory_manager \<Rightarrow> string \<Rightarrow> var_vec_data \<Rightarrow> raw_ptr writer" where
  "write_var fmt rc mm agent d =
     (case column agent (vd_name d) mm of
        None \<Rightarrow> throwE (UB ''dangling vector wrapper'')
      | Some w \<Rightarrow>
          bindE (write_value fmt rc w d) (\<lambda>_.
            case VectorWrapper_StepRawPtr w (vd_ptr d) of Inl e \<Rightarrow> throwE e | Inr p \<Rightarrow> returnE p))"

text \<open>The stepped pointers; no data is left when the pointer of the last variable becomes NULL.\<close>

fun write_vars ::
    "'d text_format \<Rightarrow> writer_codes \<Rightarrow> 'd pop_value memory_manager \<Rightarrow> string \<Rightarrow> var_vec_data list
      \<Rightarrow> (var_vec_data list \<times> bool) writer" where
  "write_vars fmt rc mm agent [] = returnE ([], True)"
| "write_vars fmt rc mm agent (d # ds) =
     bindE (write_var fmt rc mm agent d) (\<lambda>p.
     bindE (write_vars fmt rc mm agent ds) (\<lambda>(ds', stillData).
     returnE (d\<lparr>vd_ptr := p\<rparr> # ds', if p = None \<and> ds = [] then False else stillData)))"

definition write_agent ::
    "'d text_format \<Rightarrow> writer_codes \<Rightarrow> 'd pop_value memory_manager \<Rightarrow> string \<Rightarrow> var_vec_data list
      \<Rightarrow> (var_vec_data list \<times> bool) writer" where
  "write_agent fmt rc mm agent ds =
     bindE (writeXMLTag rc ''xagent'') (\<lambda>_.
     bindE (writeXMLTag_string rc ''name'' agent) (\<lambda>_.
     bindE (write_vars fmt rc mm agent ds) (\<lambda>r.
     bindE (writeXMLEndTag rc) (\<lambda>_. returnE r))))"

text \<open>
  The loop runs as long as there is data, which for an agent type without variables is for ever:
  \<open>None\<close> is a loop that does not end.
\<close>

partial_function (option) write_loop ::
    "'d text_format \<Rightarrow> writer_codes \<Rightarrow> 'd pop_value memory_manager \<Rightarrow> string \<Rightarrow> var_vec_data list \<Rightarrow> bool
      \<Rightarrow> xml_call list \<Rightarrow> ((exn + unit) \<times> xml_call list) option" where
  "write_loop fmt rc mm agent ds stillData cs =
     (if \<not> stillData then Some (Inr (), cs)
      else
        case write_agent fmt rc mm agent ds cs of
          (Inl e, cs') \<Rightarrow> Some (Inl e, cs')
        | (Inr (ds', still'), cs') \<Rightarrow> write_loop fmt rc mm agent ds' still' cs')"

definition write_agent_type ::
    "'d text_format \<Rightarrow> writer_codes \<Rightarrow> string \<Rightarrow> string list \<Rightarrow> 'd pop_value memory_manager \<times> xml_call list
      \<Rightarrow> ((exn + unit) \<times> 'd pop_value memory_manager \<times> xml_call list) option" where
  "write_agent_type fmt rc agent vars = (\<lambda>(mm, cs).
     case collect_vars agent vars mm of
       (Inl e, mm') \<Rightarrow> Some (Inl e, mm', cs)
     | (Inr (ds, stillData), mm') \<Rightarrow>
         (case write_loop fmt rc mm' agent ds stillData cs of
            None \<Rightarrow> None
          | Some (r, cs') \<Rightarrow> Some (r, mm', cs')))"

fun IOXMLPop_writeAgents ::
    "'d text_format \<Rightarrow> writer_codes \<Rightarrow> (string \<times> string list) list \<Rightarrow> 'd pop_value memory_manager \<times> xml_call list
      \<Rightarrow> ((exn + unit) \<times> 'd pop_value memory_manager \<times> xml_call list) option" where
  "IOXMLPop_writeAgents fmt rc [] s = Some (Inr (), s)"
| "IOXMLPop_writeAgents fmt rc ((agent, vars) # rest) s =
     (case write_agent_type fmt rc agent vars s of
        None \<Rightarrow> None
      | Some (Inl e, s') \<Rightarrow> Some (Inl e, s')
      | Some (Inr _, s') \<Rightarrow> IOXMLPop_writeAgents fmt rc rest s')"

text \<open>
  The whole file: its name, and the calls made on the writer. The iteration number is cast to
  \<open>int\<close>, which keeps the lower 32 bits.
\<close>

definition pop_file_name :: "xml_pop \<Rightarrow> string" where
  "pop_file_name pop = xml_pop_path pop @ decimal (unat (pop_iteration pop)) @ ''.xml''"

definition IOXMLPop_finaliseData ::
    "'d text_format \<Rightarrow> (string \<Rightarrow> bool) \<Rightarrow> writer_codes \<Rightarrow> xml_pop \<Rightarrow> 'd pop_value memory_manager
      \<Rightarrow> ((exn + unit) \<times> 'd pop_value memory_manager \<times> xml_call list) option" where
  "IOXMLPop_finaliseData fmt can_open rc pop mm =
     (if \<not> xml_pop_path_is_set pop then Some (Inl (flame_io_exception ''Path not set''), mm, [])
      else if \<not> can_open (pop_file_name pop) then
        Some (Inl (flame_io_exception ''Could not open xml population file for writing''), mm, [])
      else
        case bindE (writeXMLTag rc ''states'')
            (\<lambda>_. writeXMLTag_int rc ''itno'' (ucast (pop_iteration pop))) [] of
          (Inl e, cs) \<Rightarrow> Some (Inl e, mm, cs)
        | (Inr _, cs) \<Rightarrow>
            (case IOXMLPop_writeAgents fmt rc (agentVarMap pop) (mm, cs) of
               None \<Rightarrow> None
             | Some (Inl e, mm', cs') \<Rightarrow> Some (Inl e, mm', cs')
             | Some (Inr _, mm', cs') \<Rightarrow>
                 (case endXMLDoc rc cs' of (r, cs'') \<Rightarrow> Some (r, mm', cs''))))"

section \<open>The document of a population\<close>

definition field_text :: "'d text_format \<Rightarrow> 'd pop_value \<Rightarrow> string" where
  "field_text fmt v = (case v of VInt i \<Rightarrow> decimal_int (sint i) | VDouble x \<Rightarrow> tf_double fmt x)"

type_synonym written_agent = "string \<times> (string \<times> string) list"

definition record_tree :: "written_agent \<Rightarrow> xml" where
  "record_tree r =
     Element ''xagent'' []
       (Element ''name'' [] [Text (fst r)] # map (\<lambda>(v, t). Element v [] [Text t]) (snd r))"

definition agent_record ::
    "'d text_format \<Rightarrow> 'd pop_value memory_manager \<Rightarrow> string \<Rightarrow> string list \<Rightarrow> nat \<Rightarrow> written_agent" where
  "agent_record fmt mm agent vars k =
     (agent, map (\<lambda>v. (v, field_text fmt (vw_data (the (column agent v mm)) ! k))) vars)"

definition agent_records ::
    "'d text_format \<Rightarrow> 'd pop_value memory_manager \<Rightarrow> string \<times> string list \<Rightarrow> written_agent list" where
  "agent_records fmt mm p =
     map (agent_record fmt mm (fst p) (snd p))
       [0..<length (vw_data (the (column (fst p) (hd (snd p)) mm)))]"

definition population_tree :: "size_t \<Rightarrow> written_agent list \<Rightarrow> xml" where
  "population_tree it recs =
     Element ''states'' []
       (Element ''itno'' [] [Text (decimal_int (sint (ucast it :: 32 word)))] # map record_tree recs)"

section \<open>Populations that can be written\<close>

text \<open>The elements of a column have its type, and the columns of an agent type have one length.\<close>

fun has_type :: "dtype \<Rightarrow> 'd pop_value \<Rightarrow> bool" where
  "has_type t (VInt i) \<longleftrightarrow> t = ''int''"
| "has_type t (VDouble x) \<longleftrightarrow> t = ''double''"

definition col_ok :: "'d pop_value vector_wrapper \<Rightarrow> bool" where
  "col_ok w \<longleftrightarrow> (vw_type w = ''int'' \<or> vw_type w = ''double'') \<and> list_all (has_type (vw_type w)) (vw_data w)"

definition uniform :: "'d pop_value memory_manager \<Rightarrow> string \<Rightarrow> string list \<Rightarrow> nat \<Rightarrow> bool" where
  "uniform mm agent vars n \<longleftrightarrow>
     (\<forall>v \<in> set vars. \<exists>w. column agent v mm = Some w \<and> col_ok w \<and> length (vw_data w) = n)"

definition population_ok :: "(string \<times> string list) list \<Rightarrow> 'd pop_value memory_manager \<Rightarrow> bool" where
  "population_ok avm mm \<longleftrightarrow>
     (\<forall>(a, vs) \<in> set avm. omap_has (agent_map mm) a \<and> (\<exists>n. uniform mm a vs n))"

definition same_columns :: "'v memory_manager \<Rightarrow> 'v memory_manager \<Rightarrow> bool" where
  "same_columns mm mm' \<longleftrightarrow>
     (\<forall>a v. column a v mm' = column a v mm) \<and> (\<forall>a. omap_has (agent_map mm') a = omap_has (agent_map mm) a)"

lemma same_columns_refl [simp]: "same_columns mm mm"
  by (simp add: same_columns_def)

lemma same_columns_trans: "same_columns mm mm' \<Longrightarrow> same_columns mm' mm'' \<Longrightarrow> same_columns mm mm''"
  by (simp add: same_columns_def)

lemma same_columns_column: "same_columns mm mm' \<Longrightarrow> column a v mm' = column a v mm"
  by (simp add: same_columns_def)

lemma uniform_cong: "same_columns mm mm' \<Longrightarrow> uniform mm' a vs n = uniform mm a vs n"
  by (simp add: same_columns_def uniform_def)

lemma population_ok_cong: "same_columns mm mm' \<Longrightarrow> population_ok avm mm' = population_ok avm mm"
  by (simp add: same_columns_def population_ok_def uniform_def)

lemma agent_records_cong: "same_columns mm mm' \<Longrightarrow> agent_records fmt mm' p = agent_records fmt mm p"
  by (simp add: same_columns_def agent_records_def agent_record_def)

lemma uniform_Cons: "uniform mm a (v # vs) n \<longleftrightarrow> uniform mm a [v] n \<and> uniform mm a vs n"
  by (auto simp: uniform_def)

section \<open>Collecting the pointers\<close>

lemma GetVectorWrapper_column:
  assumes "column a v mm = Some w"
  shows "\<exists>mm'. MemoryManager_GetVectorWrapper a v mm = (Inr v, mm') \<and> same_columns mm mm'"
proof -
  obtain am where am: "map_of (agent_map mm) a = Some am" "map_of (mem_map am) v = Some w"
    using assms by (auto simp: column_def split: option.splits)
  then show ?thesis
    by (auto simp: MemoryManager_GetVectorWrapper_def MemoryManager_GetAgentMemory_def
        AgentMemory_GetVectorWrapper_def same_columns_def column_def omap_has_def fun_upd_def
        split: option.splits)
qed

abbreviation pointer :: "nat \<Rightarrow> nat \<Rightarrow> raw_ptr" where
  "pointer n k \<equiv> if k < n then Some k else None"

abbreviation pointers :: "nat \<Rightarrow> nat \<Rightarrow> string list \<Rightarrow> var_vec_data list" where
  "pointers n k vars \<equiv> map (\<lambda>v. \<lparr>vd_name = v, vd_ptr = pointer n k\<rparr>) vars"

lemma raw_ptr_of_column:
  "column a v mm = Some w \<Longrightarrow> raw_ptr_of a v mm = (Inr (pointer (length (vw_data w)) 0), mm)"
  by (simp add: raw_ptr_of_def VectorWrapper_GetRawPtr_def VectorWrapper_empty_def)

lemma collect_vars_uniform:
  assumes "uniform mm a vs n"
  shows "\<exists>mm'. collect_vars a vs mm = (Inr (pointers n 0 vs, vs = [] \<or> 0 < n), mm') \<and> same_columns mm mm'"
  using assms
proof (induction vs arbitrary: mm)
  case Nil
  then show ?case by (simp add: returnE_apply)
next
  case (Cons v vs)
  then obtain w where w: "column a v mm = Some w" "length (vw_data w) = n" "uniform mm a vs n"
    by (auto simp: uniform_def)
  obtain mm1 where mm1: "MemoryManager_GetVectorWrapper a v mm = (Inr v, mm1)" "same_columns mm mm1"
    using GetVectorWrapper_column [OF w(1)] by blast
  have c1: "column a v mm1 = Some w" using w(1) same_columns_column [OF mm1(2)] by simp
  obtain mm2 where mm2: "collect_vars a vs mm1 = (Inr (pointers n 0 vs, vs = [] \<or> 0 < n), mm2)"
    "same_columns mm1 mm2"
    using Cons.IH [of mm1] w(3) uniform_cong [OF mm1(2)] by auto
  have "collect_vars a (v # vs) mm = (Inr (pointers n 0 (v # vs), v # vs = [] \<or> 0 < n), mm2)"
    using mm1(1) raw_ptr_of_column [OF c1] mm2(1) w(2) by (auto simp: bindE_def returnE_def)
  with same_columns_trans [OF mm1(2) mm2(2)] show ?case by blast
qed

section \<open>One agent\<close>

lemma write_value_ok:
  assumes "never_fails rc" "col_ok w" "k < length (vw_data w)"
  shows "makes_calls rc (write_value fmt rc w \<lparr>vd_name = v, vd_ptr = Some k\<rparr>) ()
    [WriteElement v (field_text fmt (vw_data w ! k))]"
proof -
  have t: "has_type (vw_type w) (vw_data w ! k)" using assms(2,3) by (simp add: col_ok_def list_all_length)
  show ?thesis
    using assms t writes_ops(3,4) [OF assms(1)]
    by (cases "vw_data w ! k")
      (auto simp: write_value_def VectorWrapper_ConvertToBoostAny_def field_text_def)
qed

lemma write_var_ok:
  assumes "never_fails rc" "column a v mm = Some w" "col_ok w" "k < length (vw_data w)"
  shows "makes_calls rc (write_var fmt rc mm a \<lparr>vd_name = v, vd_ptr = Some k\<rparr>)
    (pointer (length (vw_data w)) (Suc k)) [WriteElement v (field_text fmt (vw_data w ! k))]"
proof -
  have "VectorWrapper_StepRawPtr w (Some k) = Inr (pointer (length (vw_data w)) (Suc k))"
    using assms(4) StepRawPtr_next [of k w] StepRawPtr_last [of k w]
    by (cases "Suc k < length (vw_data w)") auto
  moreover have "makes_calls rc (bindE (write_value fmt rc w \<lparr>vd_name = v, vd_ptr = Some k\<rparr>)
      (\<lambda>_. returnE p)) p ([WriteElement v (field_text fmt (vw_data w ! k))] @ [])" for p :: raw_ptr
    by (rule writes_bind_unit [OF write_value_ok [OF assms(1,3,4)] writes_return])
  ultimately show ?thesis using assms(2) by (simp add: write_var_def)
qed

lemma write_vars_ok:
  assumes "never_fails rc" "uniform mm a vs n" "k < n"
  shows "makes_calls rc (write_vars fmt rc mm a (pointers n k vs))
    (pointers n (Suc k) vs, vs = [] \<or> Suc k < n)
    (map (\<lambda>v. WriteElement v (field_text fmt (vw_data (the (column a v mm)) ! k))) vs)"
  using assms(2)
proof (induction vs)
  case Nil
  then show ?case by (simp add: writes_return)
next
  case (Cons v vs)
  then obtain w where w: "column a v mm = Some w" "col_ok w" "length (vw_data w) = n" and u: "uniform mm a vs n"
    by (auto simp: uniform_def)
  note one = write_var_ok [OF assms(1) w(1,2), of k fmt]
  note rest = Cons.IH [OF u]
  show ?case
    using one rest w assms(3) by (auto simp: makes_calls_def bindE_def returnE_def)
qed

lemma field_calls:
  "concat (map tree_calls (map (\<lambda>(v, t). Element v [] [Text t]) fs)) = map (\<lambda>(v, t). WriteElement v t) fs"
  by (induction fs) auto

lemma record_tree_calls:
  "tree_calls (record_tree (a, fs)) =
     StartElement ''xagent'' # WriteElement ''name'' a # map (\<lambda>(v, t). WriteElement v t) fs @ [EndElement]"
  using field_calls [of fs] by (simp add: record_tree_def)

lemma write_agent_ok:
  assumes "never_fails rc" "uniform mm a vs n" "k < n"
  shows "makes_calls rc (write_agent fmt rc mm a (pointers n k vs))
    (pointers n (Suc k) vs, vs = [] \<or> Suc k < n) (tree_calls (record_tree (agent_record fmt mm a vs k)))"
  using writes_ops(1,2,5) [OF assms(1)] write_vars_ok [OF assms, of fmt]
  by (simp add: write_agent_def makes_calls_def bindE_def returnE_def record_tree_calls agent_record_def comp_def)

section \<open>All agents of a type\<close>

lemma write_loop_ok:
  assumes "never_fails rc" "uniform mm a vs n" "vs \<noteq> []" "k \<le> n"
  shows "write_loop fmt rc mm a (pointers n k vs) (k < n) cs =
    Some (Inr (), cs @ concat (map tree_calls (map (\<lambda>i. record_tree (agent_record fmt mm a vs i)) [k..<n])))"
  using assms(4)
proof (induction "n - k" arbitrary: k cs)
  case 0
  then show ?case by (simp add: write_loop.simps)
next
  case (Suc m)
  then have k: "k < n" by simp
  have "write_loop fmt rc mm a (pointers n k vs) (k < n) cs =
      write_loop fmt rc mm a (pointers n (Suc k) vs) (Suc k < n)
        (cs @ tree_calls (record_tree (agent_record fmt mm a vs k)))"
    using writesD [OF write_agent_ok [OF assms(1,2) k, of fmt], of cs] k assms(3)
    by (subst write_loop.simps) simp
  also have "\<dots> = Some (Inr (), (cs @ tree_calls (record_tree (agent_record fmt mm a vs k))) @
      concat (map tree_calls (map (\<lambda>i. record_tree (agent_record fmt mm a vs i)) [Suc k..<n])))"
    using Suc by (intro Suc.hyps(1)) auto
  finally show ?case using k by (simp add: upt_conv_Cons)
qed

text \<open>Without variables the loop writes agents for ever.\<close>

lemma write_agent_no_vars:
  assumes "never_fails rc"
  shows "write_agent fmt rc mm a [] cs = (Inr ([], True), cs @ tree_calls (record_tree (a, [])))"
  using writes_ops(1,2,5) [OF assms]
  by (simp add: write_agent_def makes_calls_def bindE_def returnE_def record_tree_calls)

lemma write_loop_returns:
  assumes "write_loop fmt rc mm a ds stillData cs = Some r"
  shows "never_fails rc \<longrightarrow> stillData \<longrightarrow> ds \<noteq> []"
proof (rule write_loop.raw_induct
    [where P = "\<lambda>fmt rc mm a ds stillData cs r. never_fails rc \<longrightarrow> stillData \<longrightarrow> ds \<noteq> []", OF _ assms])
  fix f fmt1 rc1 mm1 a1 ds1 still1 cs1 r1
  assume IH: "\<And>fmt2 rc2 mm2 a2 ds2 still2 cs2 r2. f fmt2 rc2 mm2 a2 ds2 still2 cs2 = Some r2 \<Longrightarrow>
      never_fails rc2 \<longrightarrow> still2 \<longrightarrow> ds2 \<noteq> []"
    and eq: "(if \<not> still1 then Some (Inr (), cs1)
      else case write_agent fmt1 rc1 mm1 a1 ds1 cs1 of
          (Inl e, cs') \<Rightarrow> Some (Inl e, cs')
        | (Inr (ds', still'), cs') \<Rightarrow> f fmt1 rc1 mm1 a1 ds' still' cs') = Some r1"
  show "never_fails rc1 \<longrightarrow> still1 \<longrightarrow> ds1 \<noteq> []"
    using eq IH [of fmt1 rc1 mm1 a1 "[]" True _ r1] by (auto simp: write_agent_no_vars)
qed

lemma write_loop_no_vars: "never_fails rc \<Longrightarrow> write_loop fmt rc mm a [] True cs = None"
  using write_loop_returns [of fmt rc mm a "[]" True cs] by (cases "write_loop fmt rc mm a [] True cs") auto

lemma write_agent_type_ok:
  assumes "never_fails rc" "uniform mm a vs n" "vs \<noteq> []"
  shows "\<exists>mm'. write_agent_type fmt rc a vs (mm, cs) =
      Some (Inr (), mm', cs @ concat (map tree_calls (map record_tree (agent_records fmt mm (a, vs))))) \<and>
    same_columns mm mm'"
proof -
  obtain mm' where mm': "collect_vars a vs mm = (Inr (pointers n 0 vs, vs = [] \<or> 0 < n), mm')"
    "same_columns mm mm'" using collect_vars_uniform [OF assms(2)] by blast
  have u: "uniform mm' a vs n" using assms(2) uniform_cong [OF mm'(2)] by simp
  have n: "length (vw_data (the (column a (hd vs) mm))) = n"
    using assms(2,3) by (cases vs) (auto simp: uniform_def)
  have "agent_record fmt mm' a vs = agent_record fmt mm a vs"
    using mm'(2) by (simp add: fun_eq_iff agent_record_def same_columns_def)
  then show ?thesis
    using write_loop_ok [OF assms(1) u assms(3), of 0 fmt cs] mm' n assms(3)
    by (simp add: write_agent_type_def agent_records_def comp_def)
qed

lemma write_agent_type_no_vars:
  assumes "never_fails rc"
  shows "write_agent_type fmt rc a [] s = None"
  by (cases s) (simp add: write_agent_type_def returnE_apply write_loop_no_vars [OF assms])

section \<open>All agent types\<close>

lemma writeAgents_ok:
  assumes "never_fails rc" "population_ok avm mm" "\<forall>(a, vs) \<in> set avm. vs \<noteq> []"
  shows "\<exists>mm'. IOXMLPop_writeAgents fmt rc avm (mm, cs) =
      Some (Inr (), mm', cs @ concat (map tree_calls (map record_tree (concat (map (agent_records fmt mm) avm))))) \<and>
    same_columns mm mm'"
  using assms(2,3)
proof (induction avm arbitrary: mm cs)
  case Nil
  then show ?case by simp
next
  case (Cons p avm)
  obtain a vs where p: "p = (a, vs)" by (cases p)
  with Cons.prems obtain n where u: "uniform mm a vs n" "vs \<noteq> []" by (auto simp: population_ok_def)
  obtain mm1 where mm1: "write_agent_type fmt rc a vs (mm, cs) =
      Some (Inr (), mm1, cs @ concat (map tree_calls (map record_tree (agent_records fmt mm (a, vs)))))"
    "same_columns mm mm1" using write_agent_type_ok [OF assms(1) u] by blast
  have "population_ok avm mm1" "\<forall>(a, vs) \<in> set avm. vs \<noteq> []"
    using Cons.prems population_ok_cong [OF mm1(2), of avm] by (auto simp: population_ok_def)
  from Cons.IH [OF this] obtain mm2 where mm2: "IOXMLPop_writeAgents fmt rc avm
      (mm1, cs @ concat (map tree_calls (map record_tree (agent_records fmt mm (a, vs))))) =
      Some (Inr (), mm2, (cs @ concat (map tree_calls (map record_tree (agent_records fmt mm (a, vs))))) @
        concat (map tree_calls (map record_tree (concat (map (agent_records fmt mm1) avm)))))"
    "same_columns mm1 mm2" by blast
  have "agent_records fmt mm1 = agent_records fmt mm"
    using agent_records_cong [OF mm1(2)] by (simp add: fun_eq_iff)
  then have "IOXMLPop_writeAgents fmt rc (p # avm) (mm, cs) =
      Some (Inr (), mm2, cs @ concat (map tree_calls (map record_tree (concat (map (agent_records fmt mm) (p # avm))))))"
    using mm1(1) mm2(1) p by simp
  with same_columns_trans [OF mm1(2) mm2(2)] show ?case by blast
qed

lemma writeAgents_no_vars:
  assumes "never_fails rc" "population_ok avm mm" "(a, []) \<in> set avm"
  shows "IOXMLPop_writeAgents fmt rc avm (mm, cs) = None"
  using assms(2,3)
proof (induction avm arbitrary: mm cs)
  case Nil
  then show ?case by simp
next
  case (Cons p avm)
  obtain a' vs where p: "p = (a', vs)" by (cases p)
  show ?case
  proof (cases "vs = []")
    case True
    then show ?thesis using p by (simp add: write_agent_type_no_vars [OF assms(1)])
  next
    case False
    from Cons.prems p obtain n where u: "uniform mm a' vs n" by (auto simp: population_ok_def)
    obtain mm1 where mm1: "write_agent_type fmt rc a' vs (mm, cs) =
        Some (Inr (), mm1, cs @ concat (map tree_calls (map record_tree (agent_records fmt mm (a', vs)))))"
      "same_columns mm mm1" using write_agent_type_ok [OF assms(1) u False] by blast
    have "population_ok avm mm1" "(a, []) \<in> set avm"
      using Cons.prems p False population_ok_cong [OF mm1(2), of avm] by (auto simp: population_ok_def)
    from Cons.IH [OF this] mm1(1) p show ?thesis by simp
  qed
qed

lemma writes_pop_head:
  assumes "never_fails rc"
  shows "bindE (writeXMLTag rc ''states'') (\<lambda>_. writeXMLTag_int rc ''itno'' i) [] =
    (Inr (), [StartElement ''states'', WriteElement ''itno'' (decimal_int (sint i))])"
  using writes_ops(2,3) [OF assms] by (simp add: makes_calls_def bindE_def)

lemma finaliseData_ok:
  assumes "xml_pop_path_is_set pop" "can_open (pop_file_name pop)" "never_fails rc"
    and "population_ok (agentVarMap pop) mm" "\<forall>(a, vs) \<in> set (agentVarMap pop). vs \<noteq> []"
  shows "\<exists>mm'. IOXMLPop_finaliseData fmt can_open rc pop mm =
      Some (Inr (), mm', document_calls (population_tree (pop_iteration pop)
        (concat (map (agent_records fmt mm) (agentVarMap pop))))) \<and> same_columns mm mm'"
proof -
  obtain mm' where "IOXMLPop_writeAgents fmt rc (agentVarMap pop)
      (mm, [StartElement ''states'', WriteElement ''itno'' (decimal_int (sint (ucast (pop_iteration pop) :: 32 word)))]) =
      Some (Inr (), mm', [StartElement ''states'', WriteElement ''itno'' (decimal_int (sint (ucast (pop_iteration pop) :: 32 word)))] @
        concat (map tree_calls (map record_tree (concat (map (agent_records fmt mm) (agentVarMap pop))))))"
    "same_columns mm mm'" using writeAgents_ok [OF assms(3-5)] by blast
  then show ?thesis
    using assms(1,2) writesD [OF writes_ops(7) [OF assms(3)]]
    by (simp add: IOXMLPop_finaliseData_def writes_pop_head [OF assms(3)] population_tree_def)
qed

section \<open>Properties\<close>

text \<open>
  C23. For a population whose columns have the types and, per agent type, the length they should
  have, and a library whose calls succeed, writing the population ends exactly when every agent
  type has a variable; then it succeeds, writes the document that has the iteration number and
  one element for each agent in order with the texts of its variables, and leaves the columns as
  they are. For an agent type without variables it writes agents for ever.
\<close>

theorem population_written:
  assumes "xml_pop_path_is_set pop" "can_open (pop_file_name pop)" "never_fails rc"
    and "population_ok (agentVarMap pop) mm"
  shows "if \<exists>a. (a, []) \<in> set (agentVarMap pop)
    then IOXMLPop_finaliseData fmt can_open rc pop mm = None
    else \<exists>mm'. IOXMLPop_finaliseData fmt can_open rc pop mm =
        Some (Inr (), mm', document_calls (population_tree (pop_iteration pop)
          (concat (map (agent_records fmt mm) (agentVarMap pop))))) \<and> same_columns mm mm'"
proof (cases "\<exists>a. (a, []) \<in> set (agentVarMap pop)")
  case True
  then show ?thesis using assms(1,2) writeAgents_no_vars [OF assms(3,4)]
    by (auto simp: IOXMLPop_finaliseData_def writes_pop_head [OF assms(3)])
next
  case False
  then have "\<forall>(a, vs) \<in> set (agentVarMap pop). vs \<noteq> []" by auto
  with finaliseData_ok [of pop can_open rc mm fmt, OF assms] False show ?thesis by auto
qed

definition sample_population :: "nat pop_value memory_manager" where
  "sample_population =
     \<lparr>agent_map = [(''a'', \<lparr>am_name = ''a'',
        mem_map = [(''x'', \<lparr>vw_type = ''int'', vw_data = [VInt 7, VInt 8]\<rparr>)],
        cached_size = 0, registration_closed = True\<rparr>)]\<rparr>"

definition sample_format :: "nat text_format" where
  "sample_format = \<lparr>tf_double = (\<lambda>_. ''0''), tf_cast_int = (\<lambda>_. Some 7), tf_cast_double = (\<lambda>_. Some 0)\<rparr>"

definition sample_pop :: "(string \<times> string list) list \<Rightarrow> xml_pop" where
  "sample_pop avm = \<lparr>xml_pop_path = ''out/'', pop_iteration = 3, xml_pop_path_is_set = True, agentVarMap = avm\<rparr>"

lemma sample_population_ok: "population_ok [(''a'', [''x''])] sample_population" "population_ok [(''a'', [])] sample_population"
  by (auto simp: population_ok_def uniform_def sample_population_def column_def col_ok_def omap_has_def)

lemma decimal_samples: "decimal_int 3 = ''3''" "decimal_int 7 = ''7''" "decimal_int 8 = ''8''"
  by code_simp+

theorem population_written_witness:
  "IOXMLPop_finaliseData sample_format (\<lambda>_. True) (\<lambda>_ _. 0) (sample_pop [(''a'', [])]) sample_population = None \<and>
   (\<exists>mm'. IOXMLPop_finaliseData sample_format (\<lambda>_. True) (\<lambda>_ _. 0) (sample_pop [(''a'', [''x''])]) sample_population =
     Some (Inr (), mm', [StartElement ''states'', WriteElement ''itno'' ''3'',
       StartElement ''xagent'', WriteElement ''name'' ''a'', WriteElement ''x'' ''7'', EndElement,
       StartElement ''xagent'', WriteElement ''name'' ''a'', WriteElement ''x'' ''8'', EndElement,
       EndDocument]))"
proof -
  have recs: "agent_records sample_format sample_population (''a'', [''x'']) =
      [(''a'', [(''x'', ''7'')]), (''a'', [(''x'', ''8'')])]"
    by (simp add: agent_records_def agent_record_def sample_population_def column_def field_text_def
        decimal_samples upt_conv_Cons)
  show ?thesis
    using population_written [of "sample_pop [(''a'', [])]" "\<lambda>_. True" "\<lambda>_ _. 0" sample_population sample_format]
      population_written [of "sample_pop [(''a'', [''x''])]" "\<lambda>_. True" "\<lambda>_ _. 0" sample_population sample_format]
      sample_population_ok
    by (auto simp: sample_pop_def never_fails_def recs population_tree_def record_tree_calls decimal_samples)
qed

end
