(* ===== verification/Graph_Derivation.thy ===== *)
theory Graph_Derivation
  imports Model_Data
begin

text \<open>
  The derivation of the task graph in \<open>src/flame2/model/xgraph.cpp\<close>: from the transition
  functions of an agent to its state graph, from there to the graph of data dependencies,
  and the import of the agents' graphs into the graph of the model with its message
  synchronisation tasks.

  The code is modelled as it is built, without \<open>USE_VARIABLE_VERTICES\<close>, which no build file
  defines. The algorithms of the Boost graph library and \<open>boost::lexical_cast\<close> are
  parameters, collected in the record \<open>library\<close>. A graph is passed to them as the number
  of its vertices and the list of its edges.
\<close>

record library =
  topological_sort :: "nat \<Rightarrow> (nat \<times> nat) list \<Rightarrow> nat list option"
  dfs_back_edge :: "nat \<Rightarrow> (nat \<times> nat) list \<Rightarrow> nat option"
  transitive_reduction :: "nat \<Rightarrow> (nat \<times> nat) list \<Rightarrow> nat list \<times> (nat \<times> nat) list"
  cast_string :: "nat \<Rightarrow> string"
  cast_int :: "string \<Rightarrow> int option"
  cast_double :: "string \<Rightarrow> real option"

definition edge_pairs :: "xgraph \<Rightarrow> (nat \<times> nat) list" where
  "edge_pairs g = map (\<lambda>e. (e_source e, e_target e)) (g_edges g)"

text \<open>\<open>getVertex\<close> of a pointer that may be null: the null pointer is no vertex's task.\<close>

definition vertex_of :: "nat option \<Rightarrow> xgraph \<Rightarrow> nat" where
  "vertex_of p g = (case p of None \<Rightarrow> 0 | Some q \<Rightarrow> XGraph_getVertex q g)"

section \<open>The state graph\<close>

definition find_task :: "mtask_type \<Rightarrow> string \<Rightarrow> xgraph \<Rightarrow> nat option" where
  "find_task type name g =
     find (\<lambda>p. t_taskType (g_heap g ! p) = type \<and> t_name (g_heap g ! p) = name) (g_vertex2task g)"

definition XGraph_AddStateToGraph :: "string \<Rightarrow> string \<Rightarrow> xgraph \<Rightarrow> nat \<times> xgraph" where
  "XGraph_AddStateToGraph name startState g =
     (case find_task T_xstate name g of
        Some p \<Rightarrow> (p, g)
      | None \<Rightarrow>
          (case add_task (mTask_new (g_agentName g) name T_xstate) g of
             (p, g') \<Rightarrow> (p, if name = startState then g'\<lparr>g_startTask := Some p\<rparr> else g')))"

definition XGraph_generateStateGraphStates :: "xfunction \<Rightarrow> nat \<Rightarrow> string \<Rightarrow> xgraph \<Rightarrow> xgraph" where
  "XGraph_generateStateGraphStates f task startState g =
     (case XGraph_AddStateToGraph (xf_currentState f) startState g of
        (cur, g1) \<Rightarrow>
          (case XGraph_AddStateToGraph (xf_nextState f) startState g1 of
             (nxt, g2) \<Rightarrow>
               (let g3 = XGraph_addEdge (XGraph_getVertex cur g2) (XGraph_getVertex task g2) (xf_currentState f) D_state g2;
                    g4 = XGraph_addEdge (XGraph_getVertex task g3) (XGraph_getVertex nxt g3) (xf_nextState f) D_state g3
                in case xf_condition f of
                     None \<Rightarrow> g4
                   | Some c \<Rightarrow>
                       modify_task cur (fold mTask_addReadOnlyVariable (xc_readOnlyVariables (cond_of c)))
                         (modify_task task (\<lambda>t. t\<lparr>t_hasCondition := True\<rparr>) g4))))"

definition XGraph_generateStateGraphVariables :: "xfunction \<Rightarrow> nat \<Rightarrow> xgraph \<Rightarrow> xgraph" where
  "XGraph_generateStateGraphVariables f task =
     modify_task task (\<lambda>t. fold mTask_addReadWriteVariable (xf_readWriteVariables f)
       (fold mTask_addReadOnlyVariable (xf_readOnlyVariables f) t))"

definition XGraph_AddMessageToGraph :: "string \<Rightarrow> xgraph \<Rightarrow> nat \<times> xgraph" where
  "XGraph_AddMessageToGraph name g =
     (case find_task T_xmessage name g of
        Some p \<Rightarrow> (p, g)
      | None \<Rightarrow> add_task (mTask_new name name T_xmessage) g)"

definition add_output :: "nat \<Rightarrow> xioput \<Rightarrow> xgraph \<Rightarrow> xgraph" where
  "add_output task i g =
     (case XGraph_AddMessageToGraph (xi_messageName i)
            (modify_task task (mTask_addOutputMessage (xi_messageName i)) g) of
        (p, g') \<Rightarrow> XGraph_addEdge (XGraph_getVertex task g') (XGraph_getVertex p g') (xi_messageName i) D_communication g')"

definition add_input :: "nat \<Rightarrow> xioput \<Rightarrow> xgraph \<Rightarrow> xgraph" where
  "add_input task i g =
     (case XGraph_AddMessageToGraph (xi_messageName i)
            (modify_task task (mTask_addInputMessage (xi_messageName i)) g) of
        (p, g') \<Rightarrow> XGraph_addEdge (XGraph_getVertex p g') (XGraph_getVertex task g') (xi_messageName i) D_communication g')"

definition XGraph_generateStateGraphMessages :: "xfunction \<Rightarrow> nat \<Rightarrow> xgraph \<Rightarrow> xgraph" where
  "XGraph_generateStateGraphMessages f task g =
     fold (add_input task) (xf_inputs f) (fold (add_output task) (xf_outputs f) g)"

definition add_function :: "string \<Rightarrow> string list \<Rightarrow> xfunction \<Rightarrow> xgraph \<Rightarrow> xgraph" where
  "add_function startState endStates f g =
     (case add_task (mTask_new (g_agentName g) (xf_name f) T_xfunction) g of
        (task, g1) \<Rightarrow>
          (let g2 = XGraph_generateStateGraphMessages f task
                      (XGraph_generateStateGraphVariables f task
                        (XGraph_generateStateGraphStates f task startState g1))
           in if xf_nextState f \<in> set endStates
              then g2\<lparr>g_endTasks := oset_insert task (g_endTasks g2)\<rparr> else g2))"

definition XGraph_generateStateGraph :: "xfunction list \<Rightarrow> string \<Rightarrow> string list \<Rightarrow> xgraph \<Rightarrow> xgraph" where
  "XGraph_generateStateGraph functions startState endStates =
     fold (add_function startState endStates) functions"

definition XGraph_generateTaskList :: "library \<Rightarrow> xgraph \<Rightarrow> exn + mtask list" where
  "XGraph_generateTaskList lib g =
     (case topological_sort lib (num_vertices g) (edge_pairs g) of
        None \<Rightarrow> Inl (std_invalid_argument ''The graph must be a DAG.'')
      | Some vs \<Rightarrow> Inr (map (\<lambda>v. XGraph_getTask v g) (rev vs)))"

text \<open>Both checks return an error code and a message.\<close>

definition XGraph_checkCyclicDependencies :: "library \<Rightarrow> xgraph \<Rightarrow> nat \<times> string" where
  "XGraph_checkCyclicDependencies lib g =
     (case dfs_back_edge lib (num_vertices g) (edge_pairs g) of
        None \<Rightarrow> (0, [])
      | Some i \<Rightarrow>
          (let e = g_edges g ! i
           in (1, ''Error: cycle detected '' @ t_name (XGraph_getTask (e_source e) g) @ '' -> '' @
                  (case e_dep e of Some d \<Rightarrow> d_name d | None \<Rightarrow> []) @ '' -> '' @
                  t_name (XGraph_getTask (e_target e) g) @ [CHR 0x0A])))"

definition unconditional_branch :: "xgraph \<Rightarrow> nat \<Rightarrow> mtask option" where
  "unconditional_branch g v =
     (if t_taskType (XGraph_getTask v g) = T_xstate \<and> 1 < length (out_edges v g)
      then find (\<lambda>t. \<not> t_hasCondition t) (map (\<lambda>e. XGraph_getTask (e_target e) g) (out_edges v g))
      else None)"

definition XGraph_checkFunctionConditions :: "xgraph \<Rightarrow> nat \<times> string" where
  "XGraph_checkFunctionConditions g =
     (case List.map_filter (unconditional_branch g) [0..<num_vertices g] of
        [] \<Rightarrow> (0, [])
      | t # _ \<Rightarrow>
          (1, ''Error: Function '' @ [CHR 0x27] @ t_name t @ [CHR 0x27] @
              '' from a state with more than one out going function does not have a condition.'' @ [CHR 0x0A]))"

section \<open>From states to conditions\<close>

text \<open>A state with several ways out becomes a condition task that may access every variable.\<close>

definition transform_state :: "library \<Rightarrow> xvariable list \<Rightarrow> nat \<Rightarrow> nat \<times> xgraph \<Rightarrow> nat \<times> xgraph" where
  "transform_state lib variables v s =
     (case s of (n, g) \<Rightarrow>
       if 1 < length (out_edges v g) \<and> t_taskType (XGraph_getTask v g) = T_xstate
       then (Suc n, modify_task (g_vertex2task g ! v)
              (\<lambda>t. fold (\<lambda>x. mTask_addReadWriteVariable (xv_name x)) variables
                (t\<lparr>t_taskType := T_xcondition, t_name := cast_string lib n, t_priorityLevel := 5\<rparr>)) g)
       else (n, g))"

definition XGraph_transformConditionalStatesToConditions :: "library \<Rightarrow> xvariable list \<Rightarrow> xgraph \<Rightarrow> xgraph" where
  "XGraph_transformConditionalStatesToConditions lib variables g =
     snd (fold (transform_state lib variables) [0..<num_vertices g] (0, g))"

definition XGraph_contractStateVertices :: "xgraph \<Rightarrow> exn + xgraph" where
  "XGraph_contractStateVertices g =
     (case g_startTask g of
        None \<Rightarrow> Inl (UB ''null start task'')
      | Some p \<Rightarrow>
          Inr (XGraph_contractVertices T_xstate D_state
            (if t_taskType (g_heap g ! p) = T_xstate
             then fold (\<lambda>e g. g\<lparr>g_startTask := Some (g_vertex2task g ! e_target e)\<rparr>)
                    (out_edges (XGraph_getVertex p g) g) g
             else g)))"


section \<open>Data dependencies\<close>

text \<open>Maps from variables to the vertices that last wrote or read them.\<close>

definition getVertexSet :: "string \<Rightarrow> var_vertices \<Rightarrow> nat list" where
  "getVertexSet name m = (case map_of m name of None \<Rightarrow> [] | Some vs \<Rightarrow> vs)"

definition clearVarWriteSet :: "string \<Rightarrow> var_vertices \<Rightarrow> var_vertices" where
  "clearVarWriteSet name m = (if omap_has m name then omap_put name [] m else m)"

definition addVectorToVarWriteSet :: "string \<Rightarrow> nat \<Rightarrow> var_vertices \<Rightarrow> var_vertices" where
  "addVectorToVarWriteSet name v m = omap_put name (oset_insert v (getVertexSet name m)) m"

definition copyVarWriteSets :: "var_vertices \<Rightarrow> var_vertices \<Rightarrow> var_vertices" where
  "copyVarWriteSets from to =
     fold (\<lambda>(name, vs) to. omap_put name (fold oset_insert vs (getVertexSet name to)) to) from to"

definition XGraph_addStartTask :: "xvariable list \<Rightarrow> xgraph \<Rightarrow> xgraph" where
  "XGraph_addStartTask variables g =
     (case add_task (mTask_new (g_agentName g) (g_agentName g) T_start_agent) g of
        (p, g1) \<Rightarrow>
          (let v = XGraph_getVertex p g1
           in modify_task p
                (fold (\<lambda>x t. t\<lparr>t_writeVariables := oset_insert (xv_name x) (t_writeVariables t),
                               t_lastWrites := addVectorToVarWriteSet (xv_name x) v (t_lastWrites t),
                               t_lastReads := addVectorToVarWriteSet (xv_name x) v (t_lastReads t)\<rparr>) variables)
                (XGraph_addEdge v (vertex_of (g_startTask g1) g1) ''Start'' D_init g1)))"

definition XGraph_addEndTask :: "xgraph \<Rightarrow> xgraph" where
  "XGraph_addEndTask g =
     (case add_task (mTask_new (g_agentName g) (g_agentName g) T_finish_agent) g of
        (p, g1) \<Rightarrow>
          fold (\<lambda>t g. XGraph_addEdge (XGraph_getVertex t g) (XGraph_getVertex p g) ''End'' D_init g)
            (g_endTasks g1) (g1\<lparr>g_endTask := Some p\<rparr>))"

definition copy_from :: "nat \<Rightarrow> edge \<Rightarrow> xgraph \<Rightarrow> xgraph" where
  "copy_from task e g =
     (let t = XGraph_getTask (e_source e) g
      in modify_task task (\<lambda>u. u\<lparr>t_lastWrites := copyVarWriteSets (t_lastWrites t) (t_lastWrites u),
                                 t_lastReads := copyVarWriteSets (t_lastReads t) (t_lastReads u)\<rparr>) g)"

definition XGraph_copyWritingAndReadingVertices :: "nat \<Rightarrow> nat \<Rightarrow> xgraph \<Rightarrow> xgraph" where
  "XGraph_copyWritingAndReadingVertices v task g = fold (copy_from task) (in_edges v g) g"

definition XGraph_addConditionDependencies :: "nat \<Rightarrow> nat \<Rightarrow> xgraph \<Rightarrow> xgraph" where
  "XGraph_addConditionDependencies v task g =
     (let g1 = fold (\<lambda>c. XGraph_addEdge c v ''Condition'' D_condition) (t_lastConditions (g_heap g ! task)) g
      in if t_taskType (g_heap g1 ! task) = T_xcondition
         then modify_task task (\<lambda>t. t\<lparr>t_lastConditions := [v]\<rparr>) g1 else g1)"

definition XGraph_addWriteDependencies :: "nat \<Rightarrow> nat \<Rightarrow> xgraph \<Rightarrow> xgraph" where
  "XGraph_addWriteDependencies v task g =
     (let t = g_heap g ! task
      in fold (\<lambda>x. fold (\<lambda>(y, us). if y = x
                   then fold (\<lambda>u g. if u \<noteq> v then XGraph_addEdge u v x D_variable g else g) us else id)
                 (t_lastReads t))
           (t_writeVariables t) g)"

text \<open>The set \<open>alreadyUsed\<close> keeps one edge per vertex.\<close>

definition use_vertex :: "nat \<Rightarrow> nat \<Rightarrow> nat list \<times> xgraph \<Rightarrow> nat list \<times> xgraph" where
  "use_vertex v u s =
     (case s of (used, g) \<Rightarrow>
       if u \<noteq> v \<and> u \<notin> set used then (oset_insert u used, XGraph_addEdge u v ''Data'' D_variable g) else (used, g))"

definition XGraph_addReadDependencies :: "nat \<Rightarrow> nat \<Rightarrow> xgraph \<Rightarrow> xgraph" where
  "XGraph_addReadDependencies v task g =
     (let t = g_heap g ! task
      in snd (fold (\<lambda>x. fold (\<lambda>(y, us). if y = x then fold (use_vertex v) us else id) (t_lastWrites t))
           (t_readVariables t) ([], g)))"

definition XGraph_addWritingVerticesToList :: "nat \<Rightarrow> nat \<Rightarrow> xgraph \<Rightarrow> xgraph" where
  "XGraph_addWritingVerticesToList v task =
     modify_task task (\<lambda>t.
       fold (\<lambda>x t. t\<lparr>t_lastReads := addVectorToVarWriteSet x v (t_lastReads t)\<rparr>) (t_readVariables t)
         (fold (\<lambda>x t. t\<lparr>t_lastWrites := addVectorToVarWriteSet x v (clearVarWriteSet x (t_lastWrites t)),
                        t_lastReads := clearVarWriteSet x (t_lastReads t)\<rparr>) (t_writeVariables t) t))"

definition accesses_data :: "mtask_type \<Rightarrow> bool" where
  "accesses_data type \<longleftrightarrow> type \<in> {T_xfunction, T_xcondition, T_start_agent, T_finish_agent}"

definition add_dependencies_of :: "nat \<Rightarrow> xgraph \<Rightarrow> xgraph" where
  "add_dependencies_of v g =
     (let p = g_vertex2task g ! v
      in if accesses_data (t_taskType (g_heap g ! p))
         then XGraph_addWritingVerticesToList v p (XGraph_addWriteDependencies v p
                (XGraph_addReadDependencies v p (XGraph_copyWritingAndReadingVertices v p g)))
         else g)"

definition XGraph_addDataDependencies :: "library \<Rightarrow> xvariable list \<Rightarrow> xgraph \<Rightarrow> exn + xgraph" where
  "XGraph_addDataDependencies lib variables g =
     (let g1 = XGraph_addEndTask (XGraph_addStartTask variables g)
      in case topological_sort lib (num_vertices g1) (edge_pairs g1) of
           None \<Rightarrow> Inl (std_invalid_argument ''The graph must be a DAG.'')
         | Some vs \<Rightarrow> Inr (fold add_dependencies_of (rev vs) g1))"

section \<open>Output tasks and the agent's graph\<close>

definition XGraph_compareTaskSets :: "nat list \<Rightarrow> nat list \<Rightarrow> bool" where
  "XGraph_compareTaskSets a b \<longleftrightarrow> length a = length b \<and> list_all2 (=) a b"

text \<open>One output vertex for all variables with the same last writers.\<close>

function output_vertices :: "library \<Rightarrow> nat \<Rightarrow> var_vertices \<Rightarrow> xgraph \<Rightarrow> xgraph" where
  "output_vertices lib n [] g = g"
| "output_vertices lib n ((x, us) # lws) g =
     (let same = map fst (filter (\<lambda>(y, ws). XGraph_compareTaskSets us ws) lws);
          t = (mTask_new (g_agentName g) (cast_string lib (Suc n)) T_io_pop_write)\<lparr>t_name := x\<rparr>;
          g1 = snd (add_task (fold mTask_addWriteVariable (x # same) t) g);
          g2 = fold (\<lambda>u. XGraph_addEdge u (num_vertices g) [] D_data) us g1
      in output_vertices lib (Suc n) (filter (\<lambda>(y, ws). \<not> XGraph_compareTaskSets us ws) lws) g2)"
  by pat_completeness auto
termination
  by (relation "measure (\<lambda>(lib, n, lws, g). length lws)") (auto simp: less_Suc_eq_le)

definition XGraph_AddVariableOutput :: "library \<Rightarrow> xgraph \<Rightarrow> exn + xgraph" where
  "XGraph_AddVariableOutput lib g =
     (case g_endTask g of
        None \<Rightarrow> Inl (UB ''null end task'')
      | Some p \<Rightarrow>
          (let g1 = modify_task p (\<lambda>t. t\<lparr>t_lastWrites := []\<rparr>) (output_vertices lib 0 (t_lastWrites (g_heap g ! p)) g)
           in Inr (XGraph_removeVertex (XGraph_getVertex p g1) g1)))"

text \<open>
  The reduced graph has no dependencies attached. \<open>to_tc_vec\<close> gives the new vertex of every
  vertex; the new vertex map starts with null pointers.
\<close>

definition XGraph_removeRedundantDependencies :: "library \<Rightarrow> xgraph \<Rightarrow> exn + xgraph" where
  "XGraph_removeRedundantDependencies lib g =
     (case transitive_reduction lib (num_vertices g) (edge_pairs g) of (to_tc, es) \<Rightarrow>
       if \<not> list_all (\<lambda>i. i < num_vertices g) to_tc then Inl (std_out_of_range ''vector::at'')
       else case those (fold (\<lambda>(i, p) tr. tr[i := Some p]) (zip to_tc (g_vertex2task g)) (replicate (num_vertices g) None)) of
              None \<Rightarrow> Inl (UB ''null task'')
            | Some v2t \<Rightarrow> Inr (g\<lparr>g_vertex2task := v2t,
                               g_edges := map (\<lambda>(s, t). \<lparr>e_source = s, e_target = t, e_dep = None\<rparr>) es\<rparr>))"

definition XGraph_generateDependencyGraph :: "library \<Rightarrow> xvariable list \<Rightarrow> xgraph \<Rightarrow> exn + xgraph" where
  "XGraph_generateDependencyGraph lib variables g =
     bindR (XGraph_contractStateVertices (XGraph_transformConditionalStatesToConditions lib variables g))
       (\<lambda>g1. bindR (XGraph_addDataDependencies lib variables g1)
         (\<lambda>g2. bindR (XGraph_AddVariableOutput lib (XGraph_removeStateDependencies g2))
           (XGraph_removeRedundantDependencies lib)))"

section \<open>The graph of the model\<close>

definition XGraph_getMessageVertex :: "string \<Rightarrow> mtask_type \<Rightarrow> xgraph \<Rightarrow> nat \<times> xgraph" where
  "XGraph_getMessageVertex name type g =
     (case find_index (\<lambda>p. t_name (g_heap g ! p) = name \<and> t_taskType (g_heap g ! p) = type) (g_vertex2task g) of
        Some v \<Rightarrow> (v, g)
      | None \<Rightarrow> (num_vertices g, snd (add_task (mTask_new name name type) g)))"

text \<open>The edges at the message vertices are removed with the vertices.\<close>

definition sync_vertex :: "nat \<Rightarrow> xgraph \<Rightarrow> xgraph" where
  "sync_vertex v g =
     (if t_taskType (XGraph_getTask v g) = T_xmessage
      then (case XGraph_getMessageVertex (t_name (XGraph_getTask v g)) T_xmessage_sync g of
              (s, g1) \<Rightarrow>
                (let g2 = fold (\<lambda>e. add_plain_edge (e_source e) s) (in_edges v g1) g1
                 in fold (\<lambda>e. add_plain_edge s (e_target e)) (out_edges v g2) g2))
      else g)"

definition XGraph_changeMessageTasksToSync :: "xgraph \<Rightarrow> xgraph" where
  "XGraph_changeMessageTasksToSync g =
     (let vs = filter (\<lambda>v. t_taskType (XGraph_getTask v g) = T_xmessage) [0..<num_vertices g];
          g1 = fold sync_vertex [0..<num_vertices g] g
      in XGraph_removeVertices vs
           (g1\<lparr>g_edges := filter (\<lambda>e. e_source e \<notin> set vs \<and> e_target e \<notin> set vs) (g_edges g1)\<rparr>))"

definition clear_vertex :: "nat \<Rightarrow> xgraph \<Rightarrow> xgraph" where
  "clear_vertex v g =
     (let t = XGraph_getTask v g
      in if t_taskType t = T_xmessage_sync
         then fold (\<lambda>e. add_plain_edge (e_target e) (num_vertices g)) (out_edges v g)
                (snd (add_task (mTask_new (t_parentName t) (t_name t) T_xmessage_clear) g))
         else g)"

definition XGraph_addMessageClearTasks :: "xgraph \<Rightarrow> xgraph" where
  "XGraph_addMessageClearTasks g = fold clear_vertex [0..<num_vertices g] g"

text \<open>The imported tasks are shared, so they keep their places behind those allocated so far.\<close>

definition import_vertex :: "nat \<Rightarrow> xgraph \<Rightarrow> xgraph" where
  "import_vertex ptr g =
     (case XGraph_addVertex ptr g of
        (v, g1) \<Rightarrow>
          (let type = t_taskType (g_heap g1 ! ptr);
               g2 = (if type = T_start_agent then add_plain_edge (vertex_of (g_startTask g1) g1) v g1 else g1)
           in if type = T_io_pop_write then add_plain_edge v (vertex_of (g_endTask g2) g2) g2 else g2))"

definition XGraph_import :: "xgraph \<Rightarrow> xgraph \<Rightarrow> xgraph" where
  "XGraph_import imp g =
     (let base = length (g_heap g); first = num_vertices g;
          g1 = fold import_vertex (map (\<lambda>p. base + p) (g_vertex2task imp)) (g\<lparr>g_heap := g_heap g @ g_heap imp\<rparr>)
      in fold (\<lambda>e. add_plain_edge (first + e_source e) (first + e_target e)) (g_edges imp) g1)"

text \<open>The set of graphs is ordered by address: the list is any order of the agents' graphs.\<close>

definition XGraph_importGraphs :: "xgraph list \<Rightarrow> xgraph \<Rightarrow> xgraph" where
  "XGraph_importGraphs graphs g =
     (case add_task (mTask_new (g_agentName g) ''Start'' T_start_model) g of
        (s, g1) \<Rightarrow>
          (case add_task (mTask_new (g_agentName g1) ''Finish'' T_finish_model) (g1\<lparr>g_startTask := Some s\<rparr>) of
             (f, g2) \<Rightarrow>
               XGraph_addMessageClearTasks (XGraph_changeMessageTasksToSync
                 (XGraph_contractVertices T_start_agent D_blank
                   (fold XGraph_import graphs (g2\<lparr>g_endTask := Some f\<rparr>))))))"

definition XMachine_generateDependencyGraph :: "library \<Rightarrow> xmachine \<Rightarrow> exn + xmachine" where
  "XMachine_generateDependencyGraph lib a =
     bindR (XGraph_generateDependencyGraph lib (xa_variables a) (xa_graph a)) (\<lambda>g. Inr (a\<lparr>xa_graph := g\<rparr>))"

definition XMachine_generateStateGraph :: "xmachine \<Rightarrow> xmachine" where
  "XMachine_generateStateGraph a =
     a\<lparr>xa_graph := XGraph_generateStateGraph (xa_functions a) (xa_startState a) (xa_endStates a) (xa_graph a)\<rparr>"

definition XMachine_addToModelGraph :: "xmachine \<Rightarrow> xgraph \<Rightarrow> xgraph" where
  "XMachine_addToModelGraph a = XGraph_import (xa_graph a)"

fun agent_graphs :: "library \<Rightarrow> xmachine list \<Rightarrow> exn + xmachine list" where
  "agent_graphs lib [] = Inr []"
| "agent_graphs lib (a # as) =
     bindR (XMachine_generateDependencyGraph lib a) (\<lambda>a'. bindR (agent_graphs lib as) (\<lambda>as'. Inr (a' # as')))"

text \<open>
  The agents keep their derived graphs. An exception ends the set-up of the simulation, so
  the graphs of that case are not described.
\<close>

definition XModel_generateGraph :: "library \<Rightarrow> 'v xmodel \<Rightarrow> exn + 'v xmodel \<times> xgraph" where
  "XModel_generateGraph lib m =
     bindR (agent_graphs lib (xo_agents m))
       (\<lambda>as. Inr (m\<lparr>xo_agents := as\<rparr>,
                  XGraph_importGraphs (map xa_graph as) (XGraph_setAgentName (xo_name m) XGraph_new)))"

definition XModel_registerWithTaskManager :: "library \<Rightarrow> build \<Rightarrow> ('v xmodel \<times> 'v managers, unit) exec" where
  "XModel_registerWithTaskManager lib b s =
     (case s of (m, mg) \<Rightarrow>
       (case XModel_generateGraph lib m of
          Inl e \<Rightarrow> (Inl e, m, mg)
        | Inr (m', g) \<Rightarrow>
            (case XGraph_registerTasksAndDependencies b (xo_funcMap m') g mg of (r, mg') \<Rightarrow> (r, m', mg'))))"

end
