(* ===== verification/Graph_Library.thy ===== *)
theory Graph_Library
  imports Graph_Derivation
begin

text \<open>
  The documented behaviour of the Boost graph algorithms that the derivation of the task
  graph relies on, as named hypotheses on the record \<open>library\<close>, and a small library that
  has this behaviour.
\<close>


section \<open>What is relied on of the graph library\<close>

definition edges_within :: "nat \<Rightarrow> (nat \<times> nat) list \<Rightarrow> bool" where
  "edges_within n es \<longleftrightarrow> set es \<subseteq> {..<n} \<times> {..<n}"

text \<open>\<open>vs\<close> is a topological order, sources first.\<close>

definition topological :: "nat \<Rightarrow> (nat \<times> nat) list \<Rightarrow> nat list \<Rightarrow> bool" where
  "topological n es vs \<longleftrightarrow> distinct vs \<and> set vs = {..<n} \<and>
     (\<forall>xs v ys. vs = xs @ v # ys \<longrightarrow> (\<forall>(s, t) \<in> set es. t = v \<longrightarrow> s \<in> set xs))"

text \<open>\<open>topological_sort\<close> succeeds on acyclic graphs, with the targets of edges first.\<close>

definition sorts_topologically :: "library \<Rightarrow> bool" where
  "sorts_topologically lib \<longleftrightarrow> (\<forall>n es. edges_within n es \<longrightarrow> acyclic (set es) \<longrightarrow>
     (\<exists>vs. topological_sort lib n es = Some vs \<and> topological n es (rev vs)))"

text \<open>
  \<open>transitive_reduction\<close> of an acyclic graph gives a graph over as many vertices, renamed
  by a bijection, with the same paths.
\<close>

definition keeps_paths :: "library \<Rightarrow> bool" where
  "keeps_paths lib \<longleftrightarrow> (\<forall>n es. edges_within n es \<longrightarrow> acyclic (set es) \<longrightarrow>
     (case transitive_reduction lib n es of (m, es') \<Rightarrow>
        length m = n \<and> distinct m \<and> set m = {..<n} \<and> edges_within n es' \<and>
        (\<forall>i < n. \<forall>j < n. (m ! i, m ! j) \<in> (set es')\<^sup>+ \<longleftrightarrow> (i, j) \<in> (set es)\<^sup>+)))"

text \<open>A depth first search meets a back edge exactly on graphs with a cycle.\<close>

definition finds_cycles :: "library \<Rightarrow> bool" where
  "finds_cycles lib \<longleftrightarrow> (\<forall>n es. edges_within n es \<longrightarrow>
     (case dfs_back_edge lib n es of None \<Rightarrow> acyclic (set es) | Some i \<Rightarrow> i < length es \<and> \<not> acyclic (set es)))"

text \<open>
  A library that fulfils these: repeatedly take a vertex without predecessors among those
  left, reduce nothing, and report the first edge of a cyclic graph.
\<close>

fun take_sources :: "nat \<Rightarrow> (nat \<times> nat) list \<Rightarrow> nat list \<Rightarrow> nat list option" where
  "take_sources 0 es rest = (if rest = [] then Some [] else None)"
| "take_sources (Suc k) es rest =
     (case find (\<lambda>v. \<forall>(s, t) \<in> set es. t = v \<longrightarrow> s \<notin> set rest) rest of
        None \<Rightarrow> None
      | Some v \<Rightarrow> map_option (Cons v) (take_sources k es (remove1 v rest)))"

lemma acyclic_source:
  assumes "acyclic (set es)" "rest \<noteq> []"
  shows "\<exists>v \<in> set rest. \<forall>(s, t) \<in> set es. t = v \<longrightarrow> s \<notin> set rest"
proof -
  let ?r = "{(s, t) \<in> set es. s \<in> set rest}"
  have "finite ?r" by (rule finite_subset [of _ "set es"]) auto
  moreover have "acyclic ?r" by (rule acyclic_subset [OF assms(1)]) auto
  ultimately have "wf ?r" by (rule finite_acyclic_wf)
  obtain a where "a \<in> set rest" using assms(2) by (cases rest) auto
  with \<open>wf ?r\<close> obtain v where "v \<in> set rest" "\<And>y. (y, v) \<in> ?r \<Longrightarrow> y \<notin> set rest"
    by (rule wfE_min) blast
  then show ?thesis by blast
qed

lemma take_sources_total:
  assumes "acyclic (set es)" "distinct rest" "length rest = k"
  shows "take_sources k es rest \<noteq> None"
  using assms(2,3)
proof (induction k arbitrary: rest)
  case (Suc k)
  let ?P = "\<lambda>v. \<forall>(s, t) \<in> set es. t = v \<longrightarrow> s \<notin> set rest"
  have "rest \<noteq> []" using Suc.prems by auto
  then have "\<exists>v \<in> set rest. ?P v" by (rule acyclic_source [OF assms(1)])
  then obtain v where v: "find ?P rest = Some v" by (cases "find ?P rest") (auto simp: find_None_iff)
  then have "v \<in> set rest" by (auto simp: find_Some_iff)
  then have "distinct (remove1 v rest)" "length (remove1 v rest) = k"
    using Suc.prems by (auto simp: length_remove1)
  then show ?case using Suc.IH [of "remove1 v rest"] v by auto
qed simp

lemma take_sources_order:
  assumes "take_sources k es rest = Some vs" "distinct rest"
  shows "distinct vs \<and> set vs = set rest \<and>
    (\<forall>xs v ys. vs = xs @ v # ys \<longrightarrow> (\<forall>(s, t) \<in> set es. t = v \<longrightarrow> s \<in> set xs \<or> s \<notin> set rest))"
  using assms
proof (induction k arbitrary: rest vs)
  case 0
  then show ?case by (auto split: if_splits)
next
  case (Suc k)
  let ?P = "\<lambda>v. \<forall>(s, t) \<in> set es. t = v \<longrightarrow> s \<notin> set rest"
  obtain v us where v: "find ?P rest = Some v" and us: "take_sources k es (remove1 v rest) = Some us" "vs = v # us"
    using Suc.prems(1) by (auto split: option.splits)
  have "v \<in> set rest" "?P v" using v by (auto simp: find_Some_iff)
  have ih: "distinct us" "set us = set rest - {v}"
    "\<And>xs w ys. us = xs @ w # ys \<Longrightarrow> \<forall>(s, t) \<in> set es. t = w \<longrightarrow> s \<in> set xs \<or> s \<notin> set rest - {v}"
    using Suc.IH [OF us(1)] Suc.prems(2) by auto
  have "\<forall>(s, t) \<in> set es. t = w \<longrightarrow> s \<in> set xs \<or> s \<notin> set rest" if eq: "v # us = xs @ w # ys" for xs w ys
  proof (cases xs)
    case Nil
    then show ?thesis using eq \<open>?P v\<close> by auto
  next
    case (Cons a xs')
    then have "us = xs' @ w # ys" "a = v" using eq by auto
    then show ?thesis using ih(3) [of xs' w ys] Cons by auto
  qed
  then show ?case using us(2) ih(1,2) \<open>v \<in> set rest\<close> by auto
qed

lemma take_sources_topological:
  assumes "edges_within n es" "take_sources n es [0..<n] = Some vs" shows "topological n es vs"
proof -
  have "distinct vs" "set vs = {..<n}"
    "\<And>xs v ys. vs = xs @ v # ys \<Longrightarrow> \<forall>(s, t) \<in> set es. t = v \<longrightarrow> s \<in> set xs \<or> s \<notin> {..<n}"
    using take_sources_order [OF assms(2)] by (auto simp: atLeast0LessThan lessThan_def)
  then show ?thesis unfolding topological_def using assms(1) by (fastforce simp: edges_within_def)
qed

definition simple_library :: library where
  "simple_library =
     \<lparr>topological_sort = \<lambda>n es. map_option rev (take_sources n es [0..<n]),
      dfs_back_edge = \<lambda>n es. (case take_sources n es [0..<n] of None \<Rightarrow> Some 0 | Some _ \<Rightarrow> None),
      transitive_reduction = \<lambda>n es. ([0..<n], es),
      cast_string = \<lambda>n. replicate n CHR ''1'', cast_int = \<lambda>s. None, cast_double = \<lambda>s. None\<rparr>"

lemma simple_library_sorts: "sorts_topologically simple_library"
  unfolding sorts_topologically_def
proof (intro allI impI)
  fix n es assume es: "edges_within n es" "acyclic (set es)"
  obtain vs where "take_sources n es [0..<n] = Some vs"
    using take_sources_total [OF es(2), of "[0..<n]" n] by auto
  then show "\<exists>vs. topological_sort simple_library n es = Some vs \<and> topological n es (rev vs)"
    using take_sources_topological [OF es(1)] by (auto simp: simple_library_def)
qed

lemma simple_library_keeps_paths: "keeps_paths simple_library"
  by (auto simp: keeps_paths_def simple_library_def)

lemma topological_before:
  assumes "topological n es vs" "(s, t) \<in> (set es)\<^sup>+" "vs = xs @ t # ys"
  shows "s \<in> set xs"
  using assms(2,3)
proof (induction arbitrary: xs ys rule: trancl.induct)
  case (r_into_trancl s t)
  then show ?case using assms(1) unfolding topological_def by fast
next
  case (trancl_into_trancl s t u)
  then have "t \<in> set xs" using assms(1) unfolding topological_def by fast
  then obtain xs1 xs2 where "xs = xs1 @ t # xs2" by (meson split_list)
  then show ?case using trancl_into_trancl.IH [of xs1 "xs2 @ u # ys"] trancl_into_trancl.prems by simp
qed

lemma topological_acyclic:
  assumes top: "topological n es vs" and es: "edges_within n es" shows "acyclic (set es)"
proof (rule acyclicI, intro allI notI)
  fix a assume a: "(a, a) \<in> (set es)\<^sup>+"
  then obtain b where "(b, a) \<in> set es" by (meson tranclD2)
  then have "a \<in> set vs" using es top by (auto simp: edges_within_def topological_def)
  then obtain xs ys where vs: "vs = xs @ a # ys" by (meson split_list)
  then have "a \<in> set xs" using topological_before [OF top a] by blast
  then show False using top vs by (simp add: topological_def)
qed

lemma simple_library_finds_cycles: "finds_cycles simple_library"
  unfolding finds_cycles_def
proof (intro allI impI)
  fix n es assume es: "edges_within n es"
  show "case dfs_back_edge simple_library n es of None \<Rightarrow> acyclic (set es)
    | Some i \<Rightarrow> i < length es \<and> \<not> acyclic (set es)"
  proof (cases "take_sources n es [0..<n]")
    case None
    then have "\<not> acyclic (set es)" using take_sources_total [of es "[0..<n]" n] by auto
    moreover have "es \<noteq> []" using calculation by (auto simp: acyclic_def)
    ultimately show ?thesis using None by (simp add: simple_library_def)
  next
    case (Some vs)
    then have "acyclic (set es)" using topological_acyclic take_sources_topological es by blast
    then show ?thesis using Some by (simp add: simple_library_def)
  qed
qed

end
