(* ===== verification/Data_Dependencies.thy ===== *)
theory Data_Dependencies
  imports Graph_Library
begin

text \<open>
  Correctness of the data dependencies of \<open>XGraph::addDataDependencies\<close>: whatever the agent's
  functions read and write, two tasks that are ordered by the states and conflict on a
  variable (both access it, one of them writes it) are connected by a path of data
  dependencies, so the scheduler keeps their order although the state dependencies are
  dropped afterwards.
\<close>


section \<open>Last readers and writers\<close>

text \<open>The vertices a map of last accesses has for a variable.\<close>

definition vertices_at :: "string \<Rightarrow> var_vertices \<Rightarrow> nat set" where
  "vertices_at x m = {u. \<exists>us. (x, us) \<in> set m \<and> u \<in> set us}"

lemma vertices_at_Nil [simp]: "vertices_at x [] = {}"
  by (simp add: vertices_at_def)

lemma vertices_at_put [simp]: "vertices_at x (omap_put y us m) = (if x = y then set us else vertices_at x m)"
  by (auto simp: vertices_at_def omap_put_def neq_iff)

lemma set_getVertexSet:
  assumes "omap_ok m" shows "set (getVertexSet x m) = vertices_at x m"
proof -
  have "(x, us) \<in> set m \<longleftrightarrow> map_of m x = Some us" for us using omap_ok_distinct [OF assms] by simp
  then show ?thesis by (cases "map_of m x") (auto simp: getVertexSet_def vertices_at_def)
qed

lemma vertices_at_clear [simp]: "vertices_at x (clearVarWriteSet y m) = (if x = y then {} else vertices_at x m)"
proof -
  have "vertices_at y m = {}" if "y \<notin> fst ` set m" using that by (force simp: vertices_at_def)
  then show ?thesis by (auto simp: clearVarWriteSet_def omap_has_iff)
qed

lemma omap_ok_clear [simp]: "omap_ok m \<Longrightarrow> omap_ok (clearVarWriteSet y m)"
  by (simp add: clearVarWriteSet_def)

lemma omap_ok_addVector [simp]: "omap_ok m \<Longrightarrow> omap_ok (addVectorToVarWriteSet y v m)"
  by (simp add: addVectorToVarWriteSet_def)

lemma vertices_at_addVector [simp]:
  "omap_ok m \<Longrightarrow> vertices_at x (addVectorToVarWriteSet y v m) = (if x = y then insert v (vertices_at x m) else vertices_at x m)"
  by (simp add: addVectorToVarWriteSet_def set_getVertexSet)

lemma set_fold_oset_insert [simp]: "set (fold oset_insert us vs) = set us \<union> set vs"
  by (induction us arbitrary: vs) auto

lemma copyVarWriteSets_effect:
  assumes "omap_ok dest"
  shows "omap_ok (copyVarWriteSets src dest) \<and>
    vertices_at x (copyVarWriteSets src dest) = vertices_at x src \<union> vertices_at x dest"
  using assms unfolding copyVarWriteSets_def
proof (induction src arbitrary: dest)
  case (Cons e src)
  obtain y us where e: "e = (y, us)" by (cases e)
  let ?d = "omap_put y (fold oset_insert us (getVertexSet y dest)) dest"
  have "vertices_at x (e # src) = (if x = y then set us else {}) \<union> vertices_at x src"
    by (auto simp: vertices_at_def e)
  with Cons.IH [of ?d] Cons.prems show ?case by (auto simp: e set_getVertexSet)
qed simp

lemmas omap_ok_copy [simp] = copyVarWriteSets_effect [THEN conjunct1]
lemmas vertices_at_copy [simp] = copyVarWriteSets_effect [THEN conjunct2]

text \<open>The effect of \<open>addWritingVerticesToList\<close> on the maps of a task.\<close>

abbreviation LW :: "mtask \<Rightarrow> string \<Rightarrow> nat set" where
  "LW t x \<equiv> vertices_at x (t_lastWrites t)"

abbreviation LR :: "mtask \<Rightarrow> string \<Rightarrow> nat set" where
  "LR t x \<equiv> vertices_at x (t_lastReads t)"

definition maps_ok :: "mtask \<Rightarrow> bool" where
  "maps_ok t \<longleftrightarrow> omap_ok (t_lastWrites t) \<and> omap_ok (t_lastReads t)"

text \<open>What the derivation of the dependencies does not change of a task.\<close>

definition same_kind :: "mtask \<Rightarrow> mtask \<Rightarrow> bool" where
  "same_kind t u \<longleftrightarrow> t_taskType t = t_taskType u \<and> t_name t = t_name u \<and> t_parentName t = t_parentName u \<and>
     t_readVariables t = t_readVariables u \<and> t_writeVariables t = t_writeVariables u"

lemma same_kind_refl [simp]: "same_kind t t"
  by (simp add: same_kind_def)

lemma same_kind_trans: "same_kind t u \<Longrightarrow> same_kind u w \<Longrightarrow> same_kind t w"
  by (simp add: same_kind_def)

definition note_write :: "nat \<Rightarrow> string \<Rightarrow> mtask \<Rightarrow> mtask" where
  "note_write v x t = t\<lparr>t_lastWrites := addVectorToVarWriteSet x v (clearVarWriteSet x (t_lastWrites t)),
     t_lastReads := clearVarWriteSet x (t_lastReads t)\<rparr>"

definition note_read :: "nat \<Rightarrow> string \<Rightarrow> mtask \<Rightarrow> mtask" where
  "note_read v x t = t\<lparr>t_lastReads := addVectorToVarWriteSet x v (t_lastReads t)\<rparr>"

lemma note_writes_effect:
  assumes "maps_ok t"
  shows "maps_ok (fold (note_write v) ws t) \<and> same_kind (fold (note_write v) ws t) t \<and>
    LW (fold (note_write v) ws t) x = (if x \<in> set ws then {v} else LW t x) \<and>
    LR (fold (note_write v) ws t) x = (if x \<in> set ws then {} else LR t x)"
  using assms
proof (induction ws arbitrary: t)
  case (Cons w ws)
  from Cons.prems have "maps_ok (note_write v w t)" "same_kind (note_write v w t) t"
    "LW (note_write v w t) x = (if x = w then {v} else LW t x)"
    "LR (note_write v w t) x = (if x = w then {} else LR t x)"
    by (auto simp: note_write_def maps_ok_def same_kind_def)
  with Cons.IH [of "note_write v w t"] show ?case by (auto simp: same_kind_def)
qed simp

lemma note_reads_effect:
  assumes "maps_ok t"
  shows "maps_ok (fold (note_read v) rs t) \<and> same_kind (fold (note_read v) rs t) t \<and>
    LW (fold (note_read v) rs t) x = LW t x \<and>
    LR (fold (note_read v) rs t) x = (if x \<in> set rs then insert v (LR t x) else LR t x)"
  using assms
proof (induction rs arbitrary: t)
  case (Cons r rs)
  from Cons.prems have "maps_ok (note_read v r t)" "same_kind (note_read v r t) t"
    "LW (note_read v r t) x = LW t x" "LR (note_read v r t) x = (if x = r then insert v (LR t x) else LR t x)"
    by (auto simp: note_read_def maps_ok_def same_kind_def)
  with Cons.IH [of "note_read v r t"] show ?case by (auto simp: same_kind_def)
qed simp

definition updated :: "nat \<Rightarrow> mtask \<Rightarrow> mtask" where
  "updated v t = fold (note_read v) (t_readVariables t) (fold (note_write v) (t_writeVariables t) t)"

lemma addWritingVerticesToList_eq: "XGraph_addWritingVerticesToList v task = modify_task task (updated v)"
  unfolding XGraph_addWritingVerticesToList_def updated_def note_read_def note_write_def by (rule refl)

lemma updated_effect:
  assumes "maps_ok t"
  shows "maps_ok (updated v t)" "same_kind (updated v t) t"
    "LW (updated v t) x = (if x \<in> set (t_writeVariables t) then {v} else LW t x)"
    "LR (updated v t) x = (if x \<in> set (t_writeVariables t) then {} else LR t x) \<union>
       (if x \<in> set (t_readVariables t) then {v} else {})"
  using note_writes_effect [OF assms, of v "t_writeVariables t" x]
    note_reads_effect [of "fold (note_write v) (t_writeVariables t) t" v "t_readVariables t" x]
  by (auto simp: updated_def intro: same_kind_trans)

section \<open>Accumulating steps\<close>

text \<open>
  Loops of the derivation add edges from a growing set of vertices. A step relation that is
  indexed by the vertices it adds, has an empty step and composes by union, composes over
  loops.
\<close>

locale accumulation =
  fixes R :: "'b set \<Rightarrow> 's \<Rightarrow> 's \<Rightarrow> bool"
  assumes none: "R {} s s"
    and join: "R A s s' \<Longrightarrow> R B s' s'' \<Longrightarrow> R (A \<union> B) s s''"
begin

lemma loop:
  assumes "\<And>x s. x \<in> set xs \<Longrightarrow> R (F x) s (f x s)"
    and "A = (\<Union>x \<in> set xs. F x)"
  shows "R A s (fold f xs s)"
  unfolding assms(2) using assms(1)
proof (induction xs arbitrary: s)
  case Nil
  then show ?case using none by simp
next
  case (Cons x xs)
  have "R (F x) s (f x s)" using Cons.prems by simp
  from join [OF this Cons.IH [of "f x s"]] Cons.prems show ?case by simp
qed

end

definition var_edge :: "nat \<Rightarrow> edge \<Rightarrow> bool" where
  "var_edge v e \<longleftrightarrow> e_target e = v \<and> (\<exists>d. e_dep e = Some d \<and> d_type d = D_variable)"

definition adds_edges :: "nat \<Rightarrow> nat set \<Rightarrow> xgraph \<Rightarrow> xgraph \<Rightarrow> bool" where
  "adds_edges v A g g' \<longleftrightarrow>
     (\<exists>es. g' = g\<lparr>g_edges := g_edges g @ es\<rparr> \<and> list_all (var_edge v) es \<and> e_source ` set es = A)"

interpretation adding: accumulation "adds_edges v"
proof
  show "adds_edges v {} s s" for s by (auto simp: adds_edges_def intro: exI [of _ "[]"])
next
  fix A B s s' s'' assume "adds_edges v A s s'" "adds_edges v B s' s''"
  then obtain es es' where "s' = s\<lparr>g_edges := g_edges s @ es\<rparr>" "list_all (var_edge v) es" "e_source ` set es = A"
    "s'' = s'\<lparr>g_edges := g_edges s' @ es'\<rparr>" "list_all (var_edge v) es'" "e_source ` set es' = B"
    by (auto simp: adds_edges_def)
  then have "s'' = s\<lparr>g_edges := g_edges s @ es @ es'\<rparr>" "list_all (var_edge v) (es @ es')"
    "e_source ` set (es @ es') = A \<union> B" by (auto simp: image_Un)
  then show "adds_edges v (A \<union> B) s s''" unfolding adds_edges_def by blast
qed

lemma adds_edge: "adds_edges v {u} g (XGraph_addEdge u v n D_variable g)"
  unfolding adds_edges_def XGraph_addEdge_def
  by (rule exI [of _ "[\<lparr>e_source = u, e_target = v, e_dep = Some \<lparr>d_name = n, d_type = D_variable\<rparr>\<rparr>]"])
    (simp add: var_edge_def)

text \<open>With \<open>alreadyUsed\<close>: only vertices that have not been used get an edge.\<close>

definition uses :: "nat \<Rightarrow> nat set \<Rightarrow> nat list \<times> xgraph \<Rightarrow> nat list \<times> xgraph \<Rightarrow> bool" where
  "uses v A s s' \<longleftrightarrow> set (fst s') = set (fst s) \<union> A \<and> adds_edges v (A - set (fst s)) (snd s) (snd s')"

interpretation using_vertices: accumulation "uses v"
proof
  show "uses v {} s s" for s by (simp add: uses_def adding.none)
next
  fix A B s s' s'' assume st: "uses v A s s'" "uses v B s' s''"
  have "(A - set (fst s)) \<union> (B - set (fst s')) = (A \<union> B) - set (fst s)" using st by (auto simp: uses_def)
  then show "uses v (A \<union> B) s s''" using st adding.join [of v "A - set (fst s)" "snd s" "snd s'" "B - set (fst s')"]
    by (auto simp: uses_def)
qed

lemma uses_vertex: "uses v ({u} - {v}) s (use_vertex v u s)"
proof (cases s)
  case (Pair used g)
  show ?thesis
  proof (cases "u \<noteq> v \<and> u \<notin> set used")
    case True
    then have "({u} - {v}) - set used = {u}" by auto
    then show ?thesis using True adds_edge [of v u g] by (auto simp: Pair use_vertex_def uses_def)
  next
    case False
    then have e: "({u} - {v}) - set used = {}" "set used = set used \<union> ({u} - {v})" by auto
    have "use_vertex v u (used, g) = (used, g)" using False by (auto simp: use_vertex_def)
    then show ?thesis using e adding.none [of v g] unfolding Pair uses_def by (metis fst_conv snd_conv)
  qed
qed

lemma entries_at:
  "vertices_at x m - B = (\<Union>yu \<in> set m. if fst yu = x then set (snd yu) - B else {})"
  by (force simp: vertices_at_def split: if_splits)

lemma addWriteDependencies_effect:
  "adds_edges v (\<Union>x \<in> set (t_writeVariables (g_heap g ! p)). LR (g_heap g ! p) x - {v}) g (XGraph_addWriteDependencies v p g)"
proof -
  let ?t = "g_heap g ! p"
  let ?add = "\<lambda>x u g. if u \<noteq> v then XGraph_addEdge u v x D_variable g else g"
  have "adds_edges v ({u} - {v}) g (?add x u g)" for u x g
    using adds_edge [of v u g x] adding.none [of v g] by (cases "u = v") (auto simp: Diff_insert_absorb)
  then have "adds_edges v (set us - {v}) g (fold (?add x) us g)" for us x g
    by (intro adding.loop [where F = "\<lambda>u. {u} - {v}"]) auto
  then have one: "adds_edges v (if fst yu = x then set (snd yu) - {v} else {}) g
      ((case yu of (y, us) \<Rightarrow> if y = x then fold (?add x) us else id) g)" for yu x g
    using adding.none [of v g] by (cases yu) auto
  have "adds_edges v (LR ?t x - {v}) g
      (fold (\<lambda>(y, us). if y = x then fold (?add x) us else id) (t_lastReads ?t) g)" for x g
    by (rule adding.loop [OF one entries_at])
  then show ?thesis unfolding XGraph_addWriteDependencies_def Let_def
    by (intro adding.loop [where F = "\<lambda>x. LR ?t x - {v}"]) auto
qed

lemma addReadDependencies_effect:
  "adds_edges v (\<Union>x \<in> set (t_readVariables (g_heap g ! p)). LW (g_heap g ! p) x - {v}) g (XGraph_addReadDependencies v p g)"
proof -
  let ?t = "g_heap g ! p"
  have "uses v (set us - {v}) s (fold (use_vertex v) us s)" for us s
    by (intro using_vertices.loop [where F = "\<lambda>u. {u} - {v}"]) (use uses_vertex in auto)
  then have one: "uses v (if fst yu = x then set (snd yu) - {v} else {}) s
      ((case yu of (y, us) \<Rightarrow> if y = x then fold (use_vertex v) us else id) s)" for yu x s
    using using_vertices.none [of v s] by (cases yu) auto
  have "uses v (LW ?t x - {v}) s
      (fold (\<lambda>(y, us). if y = x then fold (use_vertex v) us else id) (t_lastWrites ?t) s)" for x s
    by (rule using_vertices.loop [OF one entries_at])
  then have "uses v (\<Union>x \<in> set (t_readVariables ?t). LW ?t x - {v}) ([], g)
      (fold (\<lambda>x. fold (\<lambda>(y, us). if y = x then fold (use_vertex v) us else id) (t_lastWrites ?t)) (t_readVariables ?t) ([], g))"
    by (intro using_vertices.loop [where F = "\<lambda>x. LW ?t x - {v}"]) auto
  then show ?thesis by (simp add: XGraph_addReadDependencies_def Let_def uses_def)
qed


section \<open>One vertex\<close>

definition graph_ok :: "xgraph \<Rightarrow> bool" where
  "graph_ok g \<longleftrightarrow> distinct (g_vertex2task g) \<and> (\<forall>p \<in> set (g_vertex2task g). p < length (g_heap g)) \<and>
     (\<forall>e \<in> set (g_edges g). e_source e < num_vertices g \<and> e_target e < num_vertices g)"

definition incoming :: "xgraph \<Rightarrow> nat \<Rightarrow> (mtask \<Rightarrow> nat set) \<Rightarrow> nat set" where
  "incoming g v L = L (XGraph_getTask v g) \<union> (\<Union>e \<in> set (in_edges v g). L (XGraph_getTask (e_source e) g))"

lemma getTask_update_other:
  assumes "graph_ok g" "u < num_vertices g" "v < num_vertices g" "u \<noteq> v"
  shows "XGraph_getTask u (g\<lparr>g_heap := (g_heap g)[g_vertex2task g ! v := t]\<rparr>) = XGraph_getTask u g"
  using assms by (simp add: XGraph_getTask_def graph_ok_def nth_eq_iff_index_eq)

lemma getTask_update_same:
  assumes "graph_ok g" "v < num_vertices g"
  shows "XGraph_getTask v (g\<lparr>g_heap := (g_heap g)[g_vertex2task g ! v := t]\<rparr>) = t"
  using assms by (simp add: XGraph_getTask_def graph_ok_def)

lemma graph_ok_heap: "graph_ok g \<Longrightarrow> graph_ok (g\<lparr>g_heap := (g_heap g)[p := t]\<rparr>)"
  by (simp add: graph_ok_def)

lemma copy_loop:
  assumes "graph_ok g" "v < num_vertices g" "maps_ok (XGraph_getTask v g)" "p = g_vertex2task g ! v"
    and "\<forall>e \<in> set es. e_source e < num_vertices g \<and> e_source e \<noteq> v"
  shows "\<exists>t. fold (copy_from p) es g = g\<lparr>g_heap := (g_heap g)[p := t]\<rparr> \<and> maps_ok t \<and> same_kind t (XGraph_getTask v g) \<and>
     (\<forall>x. LW t x = LW (XGraph_getTask v g) x \<union> (\<Union>e \<in> set es. LW (XGraph_getTask (e_source e) g) x)) \<and>
     (\<forall>x. LR t x = LR (XGraph_getTask v g) x \<union> (\<Union>e \<in> set es. LR (XGraph_getTask (e_source e) g) x))"
  using assms
proof (induction es arbitrary: g)
  case Nil
  then show ?case by (intro exI [of _ "XGraph_getTask v g"]) (simp add: XGraph_getTask_def)
next
  case (Cons e es)
  let ?s = "XGraph_getTask (e_source e) g" and ?u = "XGraph_getTask v g"
  let ?t = "?u\<lparr>t_lastWrites := copyVarWriteSets (t_lastWrites ?s) (t_lastWrites ?u),
    t_lastReads := copyVarWriteSets (t_lastReads ?s) (t_lastReads ?u)\<rparr>"
  let ?g = "g\<lparr>g_heap := (g_heap g)[p := ?t]\<rparr>"
  have t: "maps_ok ?t" "same_kind ?t ?u" "\<And>x. LW ?t x = LW ?s x \<union> LW ?u x" "\<And>x. LR ?t x = LR ?s x \<union> LR ?u x"
    using Cons.prems(3) by (auto simp: maps_ok_def same_kind_def)
  have v: "XGraph_getTask v ?g = ?t" using getTask_update_same [OF Cons.prems(1,2)] Cons.prems(4) by simp
  have other: "XGraph_getTask (e_source e') ?g = XGraph_getTask (e_source e') g" if "e' \<in> set es" for e'
    using getTask_update_other [OF Cons.prems(1)] Cons.prems(2,4,5) that by simp
  have step: "copy_from p e g = ?g"
    using Cons.prems(4) by (simp add: copy_from_def modify_task_def XGraph_getTask_def Let_def)
  have "graph_ok ?g" "v < num_vertices ?g" "maps_ok (XGraph_getTask v ?g)" "p = g_vertex2task ?g ! v"
    "\<forall>e \<in> set es. e_source e < num_vertices ?g \<and> e_source e \<noteq> v"
    using Cons.prems graph_ok_heap [OF Cons.prems(1)] t(1) v by simp_all
  from Cons.IH [OF this] obtain t' where t': "fold (copy_from p) es ?g = ?g\<lparr>g_heap := (g_heap ?g)[p := t']\<rparr>"
    "maps_ok t'" "same_kind t' (XGraph_getTask v ?g)"
    "\<And>x. LW t' x = LW (XGraph_getTask v ?g) x \<union> (\<Union>e \<in> set es. LW (XGraph_getTask (e_source e) ?g) x)"
    "\<And>x. LR t' x = LR (XGraph_getTask v ?g) x \<union> (\<Union>e \<in> set es. LR (XGraph_getTask (e_source e) ?g) x)"
    by blast
  have "fold (copy_from p) (e # es) g = g\<lparr>g_heap := (g_heap g)[p := t']\<rparr>" using t'(1) step by simp
  moreover have "same_kind t' ?u" using t'(3) t(2) same_kind_trans unfolding v by blast
  moreover have "LW t' x = LW ?u x \<union> (\<Union>e \<in> set (e # es). LW (XGraph_getTask (e_source e) g) x)" for x
    using t'(4) [of x] t(3) [of x] other unfolding v by auto
  moreover have "LR t' x = LR ?u x \<union> (\<Union>e \<in> set (e # es). LR (XGraph_getTask (e_source e) g) x)" for x
    using t'(5) [of x] t(4) [of x] other unfolding v by auto
  ultimately show ?case using t'(2) by blast
qed

lemma copy_effect:
  assumes "graph_ok g" "v < num_vertices g" "maps_ok (XGraph_getTask v g)" "\<forall>e \<in> set (in_edges v g). e_source e \<noteq> v"
  shows "\<exists>t. XGraph_copyWritingAndReadingVertices v (g_vertex2task g ! v) g = g\<lparr>g_heap := (g_heap g)[g_vertex2task g ! v := t]\<rparr> \<and>
    maps_ok t \<and> same_kind t (XGraph_getTask v g) \<and>
    (\<forall>x. LW t x = incoming g v (\<lambda>t. LW t x)) \<and> (\<forall>x. LR t x = incoming g v (\<lambda>t. LR t x))"
proof -
  have "\<forall>e \<in> set (in_edges v g). e_source e < num_vertices g \<and> e_source e \<noteq> v"
    using assms(1,4) by (auto simp: graph_ok_def in_edges_def)
  from copy_loop [OF assms(1-3) refl this] show ?thesis
    unfolding incoming_def XGraph_copyWritingAndReadingVertices_def .
qed

text \<open>The effect of one vertex with access to data.\<close>

definition handles :: "xgraph \<Rightarrow> nat \<Rightarrow> mtask \<Rightarrow> edge list \<Rightarrow> xgraph \<Rightarrow> bool" where
  "handles g v t es g' \<longleftrightarrow>
     g' = g\<lparr>g_heap := (g_heap g)[g_vertex2task g ! v := t], g_edges := g_edges g @ es\<rparr> \<and>
     maps_ok t \<and> same_kind t (XGraph_getTask v g) \<and> list_all (var_edge v) es \<and>
     e_source ` set es = (\<Union>x \<in> set (t_readVariables t). incoming g v (\<lambda>t. LW t x)) \<union>
       (\<Union>x \<in> set (t_writeVariables t). incoming g v (\<lambda>t. LR t x)) - {v} \<and>
     (\<forall>x. LW t x = (if x \<in> set (t_writeVariables t) then {v} else incoming g v (\<lambda>t. LW t x))) \<and>
     (\<forall>x. LR t x = (if x \<in> set (t_writeVariables t) then {} else incoming g v (\<lambda>t. LR t x)) \<union>
       (if x \<in> set (t_readVariables t) then {v} else {}))"

lemma add_dependencies_effect:
  assumes ok: "graph_ok g" "v < num_vertices g" "maps_ok (XGraph_getTask v g)" "\<forall>e \<in> set (in_edges v g). e_source e \<noteq> v"
    and data: "accesses_data (t_taskType (XGraph_getTask v g))"
  shows "\<exists>t es. handles g v t es (add_dependencies_of v g)"
proof -
  let ?p = "g_vertex2task g ! v"
  obtain c where c: "XGraph_copyWritingAndReadingVertices v ?p g = g\<lparr>g_heap := (g_heap g)[?p := c]\<rparr>"
    "maps_ok c" "same_kind c (XGraph_getTask v g)"
    "\<And>x. LW c x = incoming g v (\<lambda>t. LW t x)" "\<And>x. LR c x = incoming g v (\<lambda>t. LR t x)"
    using copy_effect [OF ok] by blast
  let ?g1 = "g\<lparr>g_heap := (g_heap g)[?p := c]\<rparr>"
  have p: "?p < length (g_heap g)" using ok(1,2) by (simp add: graph_ok_def)
  obtain es1 where es1: "XGraph_addReadDependencies v ?p ?g1 = ?g1\<lparr>g_edges := g_edges ?g1 @ es1\<rparr>"
    "list_all (var_edge v) es1" "e_source ` set es1 = (\<Union>x \<in> set (t_readVariables c). LW c x - {v})"
    using addReadDependencies_effect [where v = v and p = ?p and g = ?g1] p unfolding adds_edges_def by auto
  let ?g2 = "?g1\<lparr>g_edges := g_edges ?g1 @ es1\<rparr>"
  obtain es2 where es2: "XGraph_addWriteDependencies v ?p ?g2 = ?g2\<lparr>g_edges := g_edges ?g2 @ es2\<rparr>"
    "list_all (var_edge v) es2" "e_source ` set es2 = (\<Union>x \<in> set (t_writeVariables c). LR c x - {v})"
    using addWriteDependencies_effect [where v = v and p = ?p and g = ?g2] p unfolding adds_edges_def by auto
  have "add_dependencies_of v g = XGraph_addWritingVerticesToList v ?p (?g2\<lparr>g_edges := g_edges ?g2 @ es2\<rparr>)"
    using data c(1) es1(1) es2(1) by (simp add: add_dependencies_of_def XGraph_getTask_def Let_def)
  then have eq: "add_dependencies_of v g = g\<lparr>g_heap := (g_heap g)[?p := updated v c], g_edges := g_edges g @ (es1 @ es2)\<rparr>"
    using p by (simp add: addWritingVerticesToList_eq modify_task_def)
  have k: "same_kind (updated v c) c" by (rule updated_effect(2) [OF c(2)])
  note u = updated_effect [OF c(2)]
  have "e_source ` set (es1 @ es2) = (\<Union>x \<in> set (t_readVariables (updated v c)). incoming g v (\<lambda>t. LW t x)) \<union>
      (\<Union>x \<in> set (t_writeVariables (updated v c)). incoming g v (\<lambda>t. LR t x)) - {v}"
    using k es1(3) es2(3) c(4,5) by (auto simp: same_kind_def image_Un)
  moreover have "list_all (var_edge v) (es1 @ es2)" using es1(2) es2(2) by simp
  moreover have "same_kind (updated v c) (XGraph_getTask v g)" using same_kind_trans [OF k c(3)] .
  moreover have "t_writeVariables (updated v c) = t_writeVariables c" "t_readVariables (updated v c) = t_readVariables c"
    using k by (simp_all add: same_kind_def)
  ultimately have "handles g v (updated v c) (es1 @ es2) (add_dependencies_of v g)"
    unfolding handles_def eq using u(1,3,4) c(4,5) by simp
  then show ?thesis by blast
qed


section \<open>All vertices in topological order\<close>

abbreviation data_vertex :: "xgraph \<Rightarrow> nat \<Rightarrow> bool" where
  "data_vertex g v \<equiv> accesses_data (t_taskType (XGraph_getTask v g))"

definition reads :: "xgraph \<Rightarrow> nat \<Rightarrow> string set" where
  "reads g v = set (t_readVariables (XGraph_getTask v g))"

definition writes :: "xgraph \<Rightarrow> nat \<Rightarrow> string set" where
  "writes g v = set (t_writeVariables (XGraph_getTask v g))"

text \<open>The order given by the states, and the order established by data dependencies.\<close>

definition flow :: "xgraph \<Rightarrow> (nat \<times> nat) set" where
  "flow g = {(s, t) \<in> set (edge_pairs g). data_vertex g s \<and> data_vertex g t}"

definition var_rel :: "xgraph \<Rightarrow> (nat \<times> nat) set" where
  "var_rel g = {(e_source e, e_target e) |e. e \<in> set (g_edges g) \<and> var_edge (e_target e) e}"

abbreviation accesses :: "xgraph \<Rightarrow> nat \<Rightarrow> string set" where
  "accesses g v \<equiv> reads g v \<union> writes g v"

definition conflicting :: "xgraph \<Rightarrow> nat \<Rightarrow> nat \<Rightarrow> string \<Rightarrow> bool" where
  "conflicting g u v x \<longleftrightarrow> x \<in> accesses g u \<and> x \<in> accesses g v \<and> (x \<in> writes g u \<or> x \<in> writes g v)"

text \<open>
  What is known of the vertices \<open>D\<close> handled so far: whoever accessed a variable on the way
  to a vertex is followed, along data dependencies, by one of the last writers or readers
  that the vertex keeps.
\<close>

definition tracked :: "xgraph \<Rightarrow> xgraph \<Rightarrow> nat set \<Rightarrow> nat \<Rightarrow> string \<Rightarrow> bool" where
  "tracked g0 g D v x \<longleftrightarrow>
     (let t = XGraph_getTask v g
      in LW t x \<union> LR t x \<subseteq> {w \<in> D. x \<in> accesses g0 w} \<and>
         (\<forall>u. (u, v) \<in> (flow g0)\<^sup>* \<longrightarrow> x \<in> writes g0 u \<longrightarrow> (\<exists>w \<in> LW t x. (u, w) \<in> (var_rel g)\<^sup>*)) \<and>
         (\<forall>u. (u, v) \<in> (flow g0)\<^sup>* \<longrightarrow> x \<in> reads g0 u \<union> writes g0 u \<longrightarrow>
           (\<exists>w \<in> LW t x \<union> LR t x. (u, w) \<in> (var_rel g)\<^sup>*)))"

definition new_edge :: "xgraph \<Rightarrow> nat set \<Rightarrow> edge \<Rightarrow> bool" where
  "new_edge g0 D e \<longleftrightarrow> e_source e \<in> D \<and> e_target e \<in> D \<and> var_edge (e_target e) e \<and> accesses g0 (e_source e) \<noteq> {}"

definition dep_inv :: "xgraph \<Rightarrow> nat set \<Rightarrow> xgraph \<Rightarrow> bool" where
  "dep_inv g0 D g \<longleftrightarrow>
     g_vertex2task g = g_vertex2task g0 \<and> graph_ok g \<and>
     (\<forall>v < num_vertices g0. same_kind (XGraph_getTask v g) (XGraph_getTask v g0) \<and> maps_ok (XGraph_getTask v g)) \<and>
     (\<exists>es. g_edges g = g_edges g0 @ es \<and> Ball (set es) (new_edge g0 D)) \<and>
     (\<forall>v < num_vertices g0. v \<notin> D \<or> \<not> data_vertex g0 v \<longrightarrow> XGraph_getTask v g = XGraph_getTask v g0) \<and>
     (\<forall>v \<in> D. data_vertex g0 v \<longrightarrow> (\<forall>x. tracked g0 g D v x)) \<and>
     (\<forall>v \<in> D. \<forall>u x. (u, v) \<in> (flow g0)\<^sup>+ \<longrightarrow> conflicting g0 u v x \<longrightarrow> (u, v) \<in> (var_rel g)\<^sup>+)"

text \<open>The graph that the loop starts with.\<close>

definition start_ok :: "xgraph \<Rightarrow> bool" where
  "start_ok g \<longleftrightarrow> graph_ok g \<and>
     (\<forall>v < num_vertices g. maps_ok (XGraph_getTask v g) \<and>
        (\<forall>x. LW (XGraph_getTask v g) x \<union> LR (XGraph_getTask v g) x \<subseteq> {w. w = v \<and> x \<in> accesses g w})) \<and>
     (\<forall>(s, v) \<in> flow g. writes g v \<subseteq> reads g v)"

lemma dep_inv_start: "start_ok g \<Longrightarrow> dep_inv g {} g"
  by (simp add: dep_inv_def start_ok_def)

lemma flow_last:
  assumes "(u, v) \<in> (flow g)\<^sup>+"
  obtains p where "(u, p) \<in> (flow g)\<^sup>*" "(p, v) \<in> flow g"
  using assms by (meson tranclD2)

lemma same_kind_sets:
  assumes "same_kind (XGraph_getTask v g) (XGraph_getTask v g0)"
  shows "reads g v = reads g0 v" "writes g v = writes g0 v" "data_vertex g v = data_vertex g0 v"
  using assms by (simp_all add: same_kind_def reads_def writes_def)

lemma tracked_mono:
  assumes "tracked g0 g D v x" "var_rel g \<subseteq> var_rel g'" "D \<subseteq> D'" "XGraph_getTask v g' = XGraph_getTask v g"
  shows "tracked g0 g' D' v x"
  using assms(1,3) rtrancl_mono [OF assms(2)] unfolding tracked_def assms(4) Let_def by blast

lemma edges_of_unhandled:
  assumes "dep_inv g0 D g" "v \<notin> D" shows "in_edges v g = in_edges v g0"
  using assms by (auto simp: dep_inv_def in_edges_def filter_empty_conv new_edge_def)

text \<open>Before a vertex is handled its predecessors know who accessed the variable.\<close>

lemma incoming_tracked:
  assumes inv: "dep_inv g0 D g" and v: "v \<notin> D" and preds: "\<And>s. (s, v) \<in> set (edge_pairs g0) \<Longrightarrow> s \<in> D"
    and u: "(u, v) \<in> (flow g0)\<^sup>+"
  shows "x \<in> writes g0 u \<Longrightarrow> \<exists>w \<in> incoming g v (\<lambda>t. LW t x) \<inter> D. (u, w) \<in> (var_rel g)\<^sup>*"
    and "x \<in> reads g0 u \<union> writes g0 u \<Longrightarrow>
      \<exists>w \<in> (incoming g v (\<lambda>t. LW t x) \<union> incoming g v (\<lambda>t. LR t x)) \<inter> D. (u, w) \<in> (var_rel g)\<^sup>*"
proof -
  obtain p where p: "(u, p) \<in> (flow g0)\<^sup>*" "(p, v) \<in> flow g0" using u by (rule flow_last)
  then have "p \<in> D" "data_vertex g0 p" using preds by (auto simp: flow_def)
  then have tr: "tracked g0 g D p x" using inv by (auto simp: dep_inv_def)
  obtain e where "e \<in> set (g_edges g0)" "e_source e = p" "e_target e = v"
    using p(2) by (auto simp: flow_def edge_pairs_def)
  then have "e \<in> set (in_edges v g)" using edges_of_unhandled [OF inv v] by (simp add: in_edges_def)
  then have sub: "LW (XGraph_getTask p g) x \<subseteq> incoming g v (\<lambda>t. LW t x)" "LR (XGraph_getTask p g) x \<subseteq> incoming g v (\<lambda>t. LR t x)"
    using \<open>e_source e = p\<close> by (auto simp: incoming_def)
  show "x \<in> writes g0 u \<Longrightarrow> \<exists>w \<in> incoming g v (\<lambda>t. LW t x) \<inter> D. (u, w) \<in> (var_rel g)\<^sup>*"
    using tr p(1) sub unfolding tracked_def Let_def by blast
  show "x \<in> reads g0 u \<union> writes g0 u \<Longrightarrow>
      \<exists>w \<in> (incoming g v (\<lambda>t. LW t x) \<union> incoming g v (\<lambda>t. LR t x)) \<inter> D. (u, w) \<in> (var_rel g)\<^sup>*"
    using tr p(1) sub unfolding tracked_def Let_def by blast
qed

lemma incoming_handled:
  assumes inv: "dep_inv g0 D g" and start: "start_ok g0" and v: "v \<notin> D" "v < num_vertices g0"
    and preds: "\<And>s. (s, v) \<in> set (edge_pairs g0) \<Longrightarrow> s \<in> D" and D: "D \<subseteq> {..<num_vertices g0}"
  shows "incoming g v (\<lambda>t. LW t x) \<union> incoming g v (\<lambda>t. LR t x) \<subseteq> {w \<in> insert v D. x \<in> accesses g0 w}"
proof -
  have "LW (XGraph_getTask s g) x \<union> LR (XGraph_getTask s g) x \<subseteq> {w \<in> insert v D. x \<in> accesses g0 w}" if s: "s \<in> insert v D" for s
  proof (cases "s \<in> D \<and> data_vertex g0 s")
    case True
    then have "tracked g0 g D s x" using inv by (auto simp: dep_inv_def)
    then show ?thesis by (auto simp: tracked_def Let_def)
  next
    case False
    have "s < num_vertices g0" using s v(2) D by auto
    then have "XGraph_getTask s g = XGraph_getTask s g0" using inv False by (auto simp: dep_inv_def)
    moreover have "LW (XGraph_getTask s g0) x \<union> LR (XGraph_getTask s g0) x \<subseteq> {w. w = s \<and> x \<in> accesses g0 w}"
      using start \<open>s < num_vertices g0\<close> unfolding start_ok_def by blast
    ultimately show ?thesis using s by (metis (mono_tags, lifting) Collect_mono subset_trans)
  qed
  moreover have "e_source e \<in> D" if "e \<in> set (in_edges v g)" for e
  proof -
    have "e \<in> set (in_edges v g0)" using that edges_of_unhandled [OF inv v(1)] by simp
    then show ?thesis by (intro preds) (auto simp: in_edges_def edge_pairs_def)
  qed
  ultimately show ?thesis unfolding incoming_def by blast
qed

lemma handles_edges:
  assumes "handles g v t es g'" "graph_ok g" "v < num_vertices g"
  shows "var_rel g' = var_rel g \<union> {(w, v) |w. w \<noteq> v \<and>
      ((\<exists>x \<in> reads g v. w \<in> incoming g v (\<lambda>t. LW t x)) \<or> (\<exists>x \<in> writes g v. w \<in> incoming g v (\<lambda>t. LR t x)))}"
    "XGraph_getTask v g' = t" "u < num_vertices g \<Longrightarrow> u \<noteq> v \<Longrightarrow> XGraph_getTask u g' = XGraph_getTask u g"
proof -
  have g': "g' = g\<lparr>g_heap := (g_heap g)[g_vertex2task g ! v := t], g_edges := g_edges g @ es\<rparr>"
    and k: "same_kind t (XGraph_getTask v g)" and va: "list_all (var_edge v) es"
    and src: "e_source ` set es = (\<Union>x \<in> set (t_readVariables t). incoming g v (\<lambda>t. LW t x)) \<union>
       (\<Union>x \<in> set (t_writeVariables t). incoming g v (\<lambda>t. LR t x)) - {v}"
    using assms(1) by (auto simp: handles_def)
  have "var_rel g' = var_rel g \<union> {(w, v) |w. w \<in> e_source ` set es}"
    using va by (force simp: var_rel_def g' list_all_iff var_edge_def)
  also have "\<dots> = var_rel g \<union> {(w, v) |w. w \<noteq> v \<and>
      ((\<exists>x \<in> reads g v. w \<in> incoming g v (\<lambda>t. LW t x)) \<or> (\<exists>x \<in> writes g v. w \<in> incoming g v (\<lambda>t. LR t x)))}"
    using k unfolding src by (auto simp: same_kind_def reads_def writes_def)
  finally show "var_rel g' = \<dots>" .
  show "XGraph_getTask v g' = t" using assms(2,3) by (simp add: XGraph_getTask_def g' graph_ok_def)
  show "u < num_vertices g \<Longrightarrow> u \<noteq> v \<Longrightarrow> XGraph_getTask u g' = XGraph_getTask u g"
    using assms(2,3) by (simp add: XGraph_getTask_def g' graph_ok_def nth_eq_iff_index_eq)
qed

lemma handled_vertex:
  assumes inv: "dep_inv g0 D g" and start: "start_ok g0" and v: "v \<notin> D" "v < num_vertices g0" "data_vertex g0 v"
    and preds: "\<And>s. (s, v) \<in> set (edge_pairs g0) \<Longrightarrow> s \<in> D" and D: "D \<subseteq> {..<num_vertices g0}"
    and h: "handles g v t es g'"
  shows "(u, v) \<in> (flow g0)\<^sup>+ \<Longrightarrow> conflicting g0 u v x \<Longrightarrow> (u, v) \<in> (var_rel g')\<^sup>+"
    and "tracked g0 g' (insert v D) v x"
proof -
  have n: "num_vertices g = num_vertices g0" and ok: "graph_ok g"
    and k: "same_kind (XGraph_getTask v g) (XGraph_getTask v g0)" using inv v by (auto simp: dep_inv_def)
  have rw: "reads g v = reads g0 v" "writes g v = writes g0 v" using same_kind_sets [OF k] by auto
  have tk: "XGraph_getTask v g' = t" and
    rel: "var_rel g' = var_rel g \<union> {(w, v) |w. w \<noteq> v \<and>
      ((\<exists>x \<in> reads g0 v. w \<in> incoming g v (\<lambda>t. LW t x)) \<or> (\<exists>x \<in> writes g0 v. w \<in> incoming g v (\<lambda>t. LR t x)))}"
    using handles_edges(1,2) [OF h ok] n v(2) rw by simp_all
  have sub: "var_rel g \<subseteq> var_rel g'" using rel by blast
  have edge: "(w, v) \<in> var_rel g'" if "w \<in> D" "x \<in> reads g0 v \<and> w \<in> incoming g v (\<lambda>t. LW t x) \<or>
      x \<in> writes g0 v \<and> w \<in> incoming g v (\<lambda>t. LR t x)" for w x
    using that v(1) rel by blast
  have wr: "writes g0 v \<subseteq> reads g0 v" if "(u, v) \<in> (flow g0)\<^sup>+" for u
    by (rule flow_last [OF that]) (use start in \<open>auto simp: start_ok_def\<close>)
  have reach: "(u, v) \<in> (var_rel g')\<^sup>+" if uv: "(u, v) \<in> (flow g0)\<^sup>+" and c: "conflicting g0 u v x" for u x
  proof -
    have "\<exists>w \<in> D. (u, w) \<in> (var_rel g)\<^sup>* \<and> (w, v) \<in> var_rel g'"
    proof (cases "x \<in> writes g0 v")
      case True
      obtain w where "w \<in> incoming g v (\<lambda>t. LW t x) \<union> incoming g v (\<lambda>t. LR t x)" "w \<in> D" "(u, w) \<in> (var_rel g)\<^sup>*"
        using incoming_tracked(2) [OF inv v(1) preds uv, of x] c unfolding conflicting_def by blast
      moreover have "x \<in> reads g0 v" using wr [OF uv] True by blast
      ultimately show ?thesis using edge [of w x] True by blast
    next
      case False
      then have "x \<in> writes g0 u" "x \<in> reads g0 v" using c by (auto simp: conflicting_def)
      then show ?thesis using incoming_tracked(1) [OF inv v(1) preds uv, of x] edge [of _ x] by blast
    qed
    then show ?thesis using rtrancl_mono [OF sub] by (meson rtrancl_into_trancl1 subsetD)
  qed
  then show "(u, v) \<in> (flow g0)\<^sup>+ \<Longrightarrow> conflicting g0 u v x \<Longrightarrow> (u, v) \<in> (var_rel g')\<^sup>+" .
  have t: "set (t_writeVariables t) = writes g0 v" "set (t_readVariables t) = reads g0 v"
    using h k by (auto simp: handles_def same_kind_def reads_def writes_def)
  have LWt: "LW t x = (if x \<in> writes g0 v then {v} else incoming g v (\<lambda>t. LW t x))"
    and LRt: "LR t x = (if x \<in> writes g0 v then {} else incoming g v (\<lambda>t. LR t x)) \<union> (if x \<in> reads g0 v then {v} else {})"
    using h unfolding handles_def t by auto
  have "LW t x \<union> LR t x \<subseteq> {w \<in> insert v D. x \<in> accesses g0 w}"
    using incoming_handled [OF inv start v(1,2) preds D, of x] unfolding LWt LRt by (auto split: if_splits)
  moreover have "\<exists>w \<in> LW t x. (u, w) \<in> (var_rel g')\<^sup>*" if uv: "(u, v) \<in> (flow g0)\<^sup>*" and x: "x \<in> writes g0 u" for u
  proof (cases "x \<in> writes g0 v")
    case True
    have "(u, v) \<in> (var_rel g')\<^sup>*"
      using uv True x reach [of u x] by (auto simp: rtrancl_eq_or_trancl conflicting_def intro: trancl_into_rtrancl)
    then show ?thesis using LWt True by auto
  next
    case False
    then have "(u, v) \<in> (flow g0)\<^sup>+" using uv x by (auto simp: rtrancl_eq_or_trancl)
    from incoming_tracked(1) [OF inv v(1) preds this x] show ?thesis
      using LWt False rtrancl_mono [OF sub] by auto
  qed
  moreover have "\<exists>w \<in> LW t x \<union> LR t x. (u, w) \<in> (var_rel g')\<^sup>*"
    if uv: "(u, v) \<in> (flow g0)\<^sup>*" and x: "x \<in> reads g0 u \<union> writes g0 u" for u
  proof (cases "x \<in> writes g0 v")
    case True
    have "(u, v) \<in> (var_rel g')\<^sup>*"
      using uv True x reach [of u x] by (auto simp: rtrancl_eq_or_trancl conflicting_def intro: trancl_into_rtrancl)
    then show ?thesis using LWt True by auto
  next
    case False
    show ?thesis
    proof (cases "u = v")
      case True
      then show ?thesis using x False LRt by auto
    next
      case neq: False
      then have "(u, v) \<in> (flow g0)\<^sup>+" using uv by (auto simp: rtrancl_eq_or_trancl)
      from incoming_tracked(2) [OF inv v(1) preds this x] show ?thesis
        using LWt LRt False rtrancl_mono [OF sub] by auto
    qed
  qed
  ultimately show "tracked g0 g' (insert v D) v x" unfolding tracked_def tk Let_def by blast
qed


lemma flow_data: "(u, v) \<in> (flow g)\<^sup>+ \<Longrightarrow> data_vertex g v"
  by (erule flow_last) (simp add: flow_def)

lemma dep_inv_cases:
  assumes "dep_inv g0 D g"
  shows "g_vertex2task g = g_vertex2task g0" "graph_ok g"
    "v < num_vertices g0 \<Longrightarrow> same_kind (XGraph_getTask v g) (XGraph_getTask v g0)"
    "v < num_vertices g0 \<Longrightarrow> maps_ok (XGraph_getTask v g)"
    "v < num_vertices g0 \<Longrightarrow> v \<notin> D \<or> \<not> data_vertex g0 v \<Longrightarrow> XGraph_getTask v g = XGraph_getTask v g0"
    "v \<in> D \<Longrightarrow> data_vertex g0 v \<Longrightarrow> tracked g0 g D v x"
    "v \<in> D \<Longrightarrow> (u, v) \<in> (flow g0)\<^sup>+ \<Longrightarrow> conflicting g0 u v x \<Longrightarrow> (u, v) \<in> (var_rel g)\<^sup>+"
    "\<exists>es. g_edges g = g_edges g0 @ es \<and> Ball (set es) (new_edge g0 D)"
  using assms unfolding dep_inv_def by blast+

lemma dep_inv_skip:
  assumes inv: "dep_inv g0 D g" and v: "\<not> data_vertex g0 v"
  shows "dep_inv g0 (insert v D) g"
proof -
  have "\<exists>es. g_edges g = g_edges g0 @ es \<and> Ball (set es) (new_edge g0 (insert v D))"
    using dep_inv_cases(8) [OF inv] by (auto simp: new_edge_def)
  moreover have "\<forall>u \<in> insert v D. data_vertex g0 u \<longrightarrow> (\<forall>x. tracked g0 g (insert v D) u x)"
    using dep_inv_cases(6) [OF inv] tracked_mono [where g' = g and D' = "insert v D"] v by blast
  ultimately show ?thesis using dep_inv_cases [OF inv] flow_data [of _ v g0] v unfolding dep_inv_def by blast
qed

lemma graph_ok_extend:
  assumes "graph_ok g" "\<forall>e \<in> set es. e_source e < num_vertices g \<and> e_target e < num_vertices g"
  shows "graph_ok (g\<lparr>g_heap := (g_heap g)[p := t], g_edges := g_edges g @ es\<rparr>)"
  using assms by (auto simp: graph_ok_def)

lemma handled_edges:
  assumes inv: "dep_inv g0 D g" and start: "start_ok g0" and v: "v \<notin> D" "v < num_vertices g0"
    and preds: "\<And>s. (s, v) \<in> set (edge_pairs g0) \<Longrightarrow> s \<in> D" and D: "D \<subseteq> {..<num_vertices g0}"
    and h: "handles g v t es g'" and e: "e \<in> set es"
  shows "e_source e \<in> D \<and> e_target e = v \<and> var_edge v e \<and> accesses g0 (e_source e) \<noteq> {}"
proof -
  have "e_source ` set es = (\<Union>x \<in> set (t_readVariables t). incoming g v (\<lambda>t. LW t x)) \<union>
      (\<Union>x \<in> set (t_writeVariables t). incoming g v (\<lambda>t. LR t x)) - {v}"
    using h by (simp add: handles_def)
  then have "e_source e \<in> (\<Union>x \<in> set (t_readVariables t). incoming g v (\<lambda>t. LW t x)) \<union>
      (\<Union>x \<in> set (t_writeVariables t). incoming g v (\<lambda>t. LR t x)) - {v}"
    using imageI [OF e, of e_source] by simp
  then obtain x where "e_source e \<in> incoming g v (\<lambda>t. LW t x) \<union> incoming g v (\<lambda>t. LR t x)" "e_source e \<noteq> v"
    by auto
  then have "e_source e \<in> D \<and> x \<in> accesses g0 (e_source e)"
    using incoming_handled [OF inv start v preds D, of x] by blast
  moreover have "var_edge v e" using h e by (simp add: handles_def list_all_iff)
  ultimately show ?thesis by (auto simp: var_edge_def)
qed

lemma dep_inv_handle:
  assumes inv: "dep_inv g0 D g" and start: "start_ok g0" and v: "v \<notin> D" "v < num_vertices g0" "data_vertex g0 v"
    and preds: "\<And>s. (s, v) \<in> set (edge_pairs g0) \<Longrightarrow> s \<in> D" and D: "D \<subseteq> {..<num_vertices g0}"
    and h: "handles g v t es g'"
  shows "dep_inv g0 (insert v D) g'"
proof -
  note c = dep_inv_cases [OF inv]
  have n: "num_vertices g = num_vertices g0" using c(1) by simp
  have g': "g' = g\<lparr>g_heap := (g_heap g)[g_vertex2task g ! v := t], g_edges := g_edges g @ es\<rparr>"
    and t: "maps_ok t" "same_kind t (XGraph_getTask v g)" and va: "list_all (var_edge v) es"
    using h by (auto simp: handles_def)
  have tk: "XGraph_getTask v g' = t" "\<And>u. u < num_vertices g0 \<Longrightarrow> u \<noteq> v \<Longrightarrow> XGraph_getTask u g' = XGraph_getTask u g"
    using handles_edges(2,3) [OF h c(2)] n v(2) by auto
  have sub: "var_rel g \<subseteq> var_rel g'" using handles_edges(1) [OF h c(2)] n v(2) by auto
  note src = handled_edges [OF inv start v(1,2) preds D h]
  obtain es0 where es0: "g_edges g = g_edges g0 @ es0" "Ball (set es0) (new_edge g0 D)"
    using c(8) by blast
  have "\<exists>es. g_edges g' = g_edges g0 @ es \<and> Ball (set es) (new_edge g0 (insert v D))"
    using es0 src by (intro exI [of _ "es0 @ es"]) (auto simp: g' new_edge_def)
  moreover have "graph_ok g'"
    unfolding g' by (rule graph_ok_extend [OF c(2)]) (use src D v(2) n in auto)
  moreover have "g_vertex2task g' = g_vertex2task g0" using c(1) by (simp add: g')
  moreover have "same_kind (XGraph_getTask u g') (XGraph_getTask u g0) \<and> maps_ok (XGraph_getTask u g')"
    if "u < num_vertices g0" for u
    using that c(3,4) [of u] tk t same_kind_trans by (cases "u = v") auto
  moreover have "XGraph_getTask u g' = XGraph_getTask u g0"
    if "u < num_vertices g0" "u \<notin> insert v D \<or> \<not> data_vertex g0 u" for u
    using that c(5) [of u] tk(2) [of u] v(3) by (cases "u = v") auto
  moreover have "tracked g0 g' (insert v D) u x" if "u \<in> insert v D" "data_vertex g0 u" for u x
  proof (cases "u = v")
    case True
    then show ?thesis using handled_vertex(2) [OF inv start v preds D h] by simp
  next
    case False
    then show ?thesis using that tracked_mono [OF c(6) sub, where v = u and x = x and D' = "insert v D"] tk(2) [of u] D by auto
  qed
  moreover have "(u, w) \<in> (var_rel g')\<^sup>+"
    if "w \<in> insert v D" "(u, w) \<in> (flow g0)\<^sup>+" "conflicting g0 u w x" for u w x
    using that handled_vertex(1) [OF inv start v preds D h, of u x] c(7) [of w u x] trancl_mono [OF _ sub] by blast
  ultimately show ?thesis unfolding dep_inv_def by blast
qed

lemma dep_inv_step:
  assumes inv: "dep_inv g0 D g" and start: "start_ok g0" and v: "v \<notin> D" "v < num_vertices g0"
    and preds: "\<And>s. (s, v) \<in> set (edge_pairs g0) \<Longrightarrow> s \<in> D" and D: "D \<subseteq> {..<num_vertices g0}"
  shows "dep_inv g0 (insert v D) (add_dependencies_of v g) \<and>
    (\<exists>es. g_edges (add_dependencies_of v g) = g_edges g @ es \<and> (\<forall>e \<in> set es. e_source e \<in> D \<and> e_target e = v))"
proof -
  note c = dep_inv_cases [OF inv]
  have type: "data_vertex g v = data_vertex g0 v" using c(3) [OF v(2)] by (simp add: same_kind_def)
  show ?thesis
  proof (cases "data_vertex g0 v")
    case True
    have "\<forall>e \<in> set (in_edges v g). e_source e \<noteq> v"
      using edges_of_unhandled [OF inv v(1)] preds v(1) by (force simp: in_edges_def edge_pairs_def)
    then obtain t es where h: "handles g v t es (add_dependencies_of v g)"
      using add_dependencies_effect [OF c(2), of v] c(1) c(4) [OF v(2)] v(2) type True by auto
    have "g_edges (add_dependencies_of v g) = g_edges g @ es" using h by (simp add: handles_def)
    then show ?thesis using dep_inv_handle [OF inv start v True preds D h] handled_edges [OF inv start v preds D h] by blast
  next
    case False
    then have "add_dependencies_of v g = g" using type by (simp add: add_dependencies_of_def XGraph_getTask_def Let_def)
    then show ?thesis using dep_inv_skip [OF inv False] by simp
  qed
qed

lemma topological_iff:
  "topological n es vs \<longleftrightarrow> distinct vs \<and> set vs = {..<n} \<and>
     (\<forall>(s, t) \<in> set es. t \<in> set vs \<longrightarrow> (\<exists>xs ys. vs = xs @ t # ys \<and> s \<in> set xs))"
proof (cases "distinct vs")
  case True
  have "(\<forall>xs v ys. vs = xs @ v # ys \<longrightarrow> (\<forall>(s, t) \<in> set es. t = v \<longrightarrow> s \<in> set xs)) \<longleftrightarrow>
    (\<forall>(s, t) \<in> set es. t \<in> set vs \<longrightarrow> (\<exists>xs ys. vs = xs @ t # ys \<and> s \<in> set xs))" (is "?l \<longleftrightarrow> ?r")
  proof
    assume l: ?l
    show ?r
    proof (clarify)
      fix s t assume "(s, t) \<in> set es" "t \<in> set vs"
      moreover obtain xs ys where "vs = xs @ t # ys" using \<open>t \<in> set vs\<close> by (meson split_list)
      ultimately show "\<exists>xs ys. vs = xs @ t # ys \<and> s \<in> set xs" using l by fast
    qed
  next
    assume r: ?r
    show ?l
    proof (clarify)
      fix xs t ys s assume vs: "vs = xs @ t # ys" and "(s, t) \<in> set es"
      then obtain xs' ys' where "vs = xs' @ t # ys'" "s \<in> set xs'" using r by fastforce
      moreover have "xs' = xs" using vs calculation(1) True
        by (auto simp: append_eq_append_conv2 append_eq_Cons_conv Cons_eq_append_conv)
      ultimately show "s \<in> set xs" by simp
    qed
  qed
  then show ?thesis unfolding topological_def by simp
qed (simp add: topological_def)

lemma dep_inv_all:
  assumes start: "start_ok g0" and top: "topological (num_vertices g0) (edge_pairs g0) vs"
  shows "dep_inv g0 {..<num_vertices g0} (fold add_dependencies_of vs g0)"
    and "topological (num_vertices g0) (edge_pairs (fold add_dependencies_of vs g0)) vs"
proof -
  have all: "dep_inv g0 (set xs) (fold add_dependencies_of xs g0) \<and>
      topological (num_vertices g0) (edge_pairs (fold add_dependencies_of xs g0)) vs" if "vs = xs @ ys" for xs ys
    using that
  proof (induction xs arbitrary: ys rule: rev_induct)
    case Nil
    then show ?case using dep_inv_start [OF start] top by simp
  next
    case (snoc v xs)
    let ?g = "fold add_dependencies_of xs g0"
    have inv: "dep_inv g0 (set xs) ?g" and tp: "topological (num_vertices g0) (edge_pairs ?g) vs" using snoc by simp_all
    have "v \<notin> set xs" "v < num_vertices g0" "set xs \<subseteq> {..<num_vertices g0}"
      using top snoc.prems by (auto simp: topological_def)
    moreover have "s \<in> set xs" if "(s, v) \<in> set (edge_pairs g0)" for s
      using top that snoc.prems unfolding topological_def by fastforce
    ultimately obtain es where inv': "dep_inv g0 (insert v (set xs)) (add_dependencies_of v ?g)"
      and es: "g_edges (add_dependencies_of v ?g) = g_edges ?g @ es" "\<forall>e \<in> set es. e_source e \<in> set xs \<and> e_target e = v"
      using dep_inv_step [OF inv start, of v] by blast
    have "topological (num_vertices g0) (edge_pairs (add_dependencies_of v ?g)) vs"
      using tp es(2) snoc.prems unfolding topological_iff edge_pairs_def es(1) by auto
    then show ?case using inv' by simp
  qed
  have "set vs = {..<num_vertices g0}" using top by (simp add: topological_def)
  with all [of vs "[]"] show "dep_inv g0 {..<num_vertices g0} (fold add_dependencies_of vs g0)"
    "topological (num_vertices g0) (edge_pairs (fold add_dependencies_of vs g0)) vs" by simp_all
qed

end
