(* ===== verification/Graph_Paths.thy ===== *)
theory Graph_Paths
  imports Data_Dependencies
begin

text \<open>
  Lemmas on the operations of \<open>src/flame2/model/xgraph.cpp\<close> that change the shape of the
  graph: adding the start and the end of an agent, the relation between the tasks that the
  edges of a kind give, removing vertices and contracting them. Removing a vertex renumbers
  the others, so paths are stated between tasks; contraction keeps the paths between the
  tasks that stay.
\<close>

section \<open>Start and end of an agent\<close>

lemma find_index_Some:
  "find_index P xs = Some i \<Longrightarrow> i < length xs \<and> P (xs ! i)"
  by (induction xs arbitrary: i) (auto split: if_splits)

lemma find_index_None: "find_index P xs = None \<longleftrightarrow> (\<forall>x \<in> set xs. \<not> P x)"
  by (induction xs) auto

lemma find_index_snoc:
  "find_index P (xs @ [x]) = (case find_index P xs of Some i \<Rightarrow> Some i | None \<Rightarrow> if P x then Some (length xs) else None)"
  by (induction xs) (auto split: option.splits)

lemma getVertex_task:
  assumes "p \<in> set (g_vertex2task g)"
  shows "XGraph_getVertex p g < num_vertices g" "g_vertex2task g ! XGraph_getVertex p g = p"
proof -
  obtain i where i: "find_index (\<lambda>q. q = p) (g_vertex2task g) = Some i"
    using assms find_index_None [of "\<lambda>q. q = p" "g_vertex2task g"] by (cases "find_index (\<lambda>q. q = p) (g_vertex2task g)") auto
  then show "XGraph_getVertex p g < num_vertices g" "g_vertex2task g ! XGraph_getVertex p g = p"
    using find_index_Some [OF i] by (auto simp: XGraph_getVertex_def)
qed

lemma getVertex_new:
  assumes "p \<notin> set (g_vertex2task g)"
  shows "XGraph_getVertex p (g\<lparr>g_heap := hp, g_vertex2task := g_vertex2task g @ [p]\<rparr>) = num_vertices g"
proof -
  have "find_index (\<lambda>q. q = p) (g_vertex2task g) = None" using assms by (auto simp: find_index_None)
  then show ?thesis by (simp add: XGraph_getVertex_def find_index_snoc)
qed

text \<open>The task that writes all variables first.\<close>

definition start_task :: "nat \<Rightarrow> xvariable list \<Rightarrow> mtask \<Rightarrow> mtask" where
  "start_task v = fold (\<lambda>x t. t\<lparr>t_writeVariables := oset_insert (xv_name x) (t_writeVariables t),
     t_lastWrites := addVectorToVarWriteSet (xv_name x) v (t_lastWrites t),
     t_lastReads := addVectorToVarWriteSet (xv_name x) v (t_lastReads t)\<rparr>)"

lemma start_task_effect:
  assumes "maps_ok t" "\<And>x. LW t x \<union> LR t x \<subseteq> {w. w = v \<and> x \<in> set (t_writeVariables t)}"
  shows "maps_ok (start_task v vars t) \<and> t_taskType (start_task v vars t) = t_taskType t \<and>
    t_readVariables (start_task v vars t) = t_readVariables t \<and>
    (\<forall>x. LW (start_task v vars t) x \<union> LR (start_task v vars t) x \<subseteq> {w. w = v \<and> x \<in> set (t_writeVariables (start_task v vars t))})"
  using assms
proof (induction vars arbitrary: t)
  case (Cons y vars)
  let ?t = "t\<lparr>t_writeVariables := oset_insert (xv_name y) (t_writeVariables t),
     t_lastWrites := addVectorToVarWriteSet (xv_name y) v (t_lastWrites t),
     t_lastReads := addVectorToVarWriteSet (xv_name y) v (t_lastReads t)\<rparr>"
  have "maps_ok ?t" "\<And>x. LW ?t x \<union> LR ?t x \<subseteq> {w. w = v \<and> x \<in> set (t_writeVariables ?t)}"
    using Cons.prems unfolding maps_ok_def by (fastforce split: if_splits)+
  from Cons.IH [OF this] show ?case by (simp add: start_task_def)
qed (simp add: start_task_def)

lemma addStartTask_eq:
  assumes "graph_ok g"
  shows "XGraph_addStartTask vars g = g\<lparr>g_heap := g_heap g @ [start_task (num_vertices g) vars (mTask_new (g_agentName g) (g_agentName g) T_start_agent)],
    g_vertex2task := g_vertex2task g @ [length (g_heap g)],
    g_edges := g_edges g @ [\<lparr>e_source = num_vertices g,
      e_target = vertex_of (g_startTask g) (snd (add_task (mTask_new (g_agentName g) (g_agentName g) T_start_agent) g)),
      e_dep = Some \<lparr>d_name = ''Start'', d_type = D_init\<rparr>\<rparr>]\<rparr>"
proof -
  have "length (g_heap g) \<notin> set (g_vertex2task g)" using assms by (auto simp: graph_ok_def)
  then show ?thesis
    by (simp add: XGraph_addStartTask_def add_task_def alloc_task_def XGraph_addVertex_def getVertex_new Let_def
        XGraph_addEdge_def modify_task_def start_task_def)
qed

lemma addEndTask_eq:
  assumes "graph_ok g"
  shows "\<exists>es. XGraph_addEndTask g = g\<lparr>g_heap := g_heap g @ [mTask_new (g_agentName g) (g_agentName g) T_finish_agent],
    g_vertex2task := g_vertex2task g @ [length (g_heap g)], g_endTask := Some (length (g_heap g)), g_edges := g_edges g @ es\<rparr> \<and>
    list_all (\<lambda>e. e_target e = num_vertices g \<and> (\<exists>p \<in> set (g_endTasks g). e_source e = XGraph_getVertex p (XGraph_addEndTask g)) \<and>
      (\<exists>d. e_dep e = Some d \<and> d_type d = D_init)) es"
proof -
  let ?t = "mTask_new (g_agentName g) (g_agentName g) T_finish_agent" and ?p = "length (g_heap g)"
  let ?g1 = "g\<lparr>g_heap := g_heap g @ [?t], g_vertex2task := g_vertex2task g @ [?p], g_endTask := Some ?p\<rparr>"
  have "?p \<notin> set (g_vertex2task g)" using assms by (auto simp: graph_ok_def)
  then have new: "XGraph_getVertex ?p ?g1 = num_vertices g" using getVertex_new [of ?p g] by (simp add: XGraph_getVertex_def)
  have gv: "XGraph_getVertex q (h\<lparr>g_edges := es\<rparr>) = XGraph_getVertex q h" for q h es by (simp add: XGraph_getVertex_def)
  let ?add = "\<lambda>t g. XGraph_addEdge (XGraph_getVertex t g) (XGraph_getVertex ?p g) ''End'' D_init g"
  have "\<exists>es. fold ?add ps ?g1 = ?g1\<lparr>g_edges := g_edges ?g1 @ es\<rparr> \<and>
    list_all (\<lambda>e. e_target e = num_vertices g \<and> (\<exists>p \<in> set ps. e_source e = XGraph_getVertex p ?g1) \<and>
      (\<exists>d. e_dep e = Some d \<and> d_type d = D_init)) es" for ps
  proof (induction ps rule: rev_induct)
    case Nil
    then show ?case by (intro exI [of _ "[]"]) simp
  next
    case (snoc q ps)
    then obtain es where es: "fold ?add ps ?g1 = ?g1\<lparr>g_edges := g_edges ?g1 @ es\<rparr>"
      "list_all (\<lambda>e. e_target e = num_vertices g \<and> (\<exists>p \<in> set ps. e_source e = XGraph_getVertex p ?g1) \<and>
      (\<exists>d. e_dep e = Some d \<and> d_type d = D_init)) es" by blast
    let ?e = "\<lparr>e_source = XGraph_getVertex q ?g1, e_target = num_vertices g, e_dep = Some \<lparr>d_name = ''End'', d_type = D_init\<rparr>\<rparr>"
    have "fold ?add (ps @ [q]) ?g1 = ?g1\<lparr>g_edges := g_edges ?g1 @ es @ [?e]\<rparr>"
      using es(1) gv new by (simp add: XGraph_addEdge_def)
    moreover have "list_all (\<lambda>e. e_target e = num_vertices g \<and> (\<exists>p \<in> set (ps @ [q]). e_source e = XGraph_getVertex p ?g1) \<and>
      (\<exists>d. e_dep e = Some d \<and> d_type d = D_init)) (es @ [?e])" using es(2) by (auto simp: list_all_iff)
    ultimately show ?case by blast
  qed
  from this [of "g_endTasks g"] obtain es where es: "fold ?add (g_endTasks g) ?g1 = ?g1\<lparr>g_edges := g_edges ?g1 @ es\<rparr>"
    "list_all (\<lambda>e. e_target e = num_vertices g \<and> (\<exists>p \<in> set (g_endTasks g). e_source e = XGraph_getVertex p ?g1) \<and>
      (\<exists>d. e_dep e = Some d \<and> d_type d = D_init)) es" by blast
  have eq: "XGraph_addEndTask g = ?g1\<lparr>g_edges := g_edges ?g1 @ es\<rparr>"
    using es(1) by (simp add: XGraph_addEndTask_def add_task_def alloc_task_def XGraph_addVertex_def)
  have "XGraph_getVertex q (XGraph_addEndTask g) = XGraph_getVertex q ?g1" for q unfolding eq by (rule gv)
  then show ?thesis using eq es(2) by (intro exI [of _ es]) simp
qed

lemma acyclic_add_source:
  assumes R: "acyclic R" and n: "n \<notin> Range (R \<union> S)" and S: "S \<subseteq> {n} \<times> UNIV"
  shows "acyclic (R \<union> S)"
proof -
  have path: "(a, b) \<in> R\<^sup>+" if "(a, b) \<in> (R \<union> S)\<^sup>+" "a \<noteq> n" for a b
    using that
  proof (induction rule: trancl.induct)
    case (r_into_trancl a b)
    then show ?case using S by auto
  next
    case (trancl_into_trancl a b c)
    have "b \<noteq> n" using trancl_into_trancl.hyps(1) n by (metis Range.intros trancl_range)
    then have "(b, c) \<in> R" using trancl_into_trancl.hyps(2) S by auto
    then show ?case using trancl_into_trancl.IH [OF trancl_into_trancl.prems] by (meson Transitive_Closure.trancl_into_trancl)
  qed
  show ?thesis
  proof (rule acyclicI, intro allI notI)
    fix a assume a: "(a, a) \<in> (R \<union> S)\<^sup>+"
    then have "a \<noteq> n" using n by (metis Range.intros trancl_range)
    then show False using path [OF a] R by (simp add: acyclic_def)
  qed
qed

lemma acyclic_add_sink:
  assumes "acyclic R" "n \<notin> Domain (R \<union> S)" "S \<subseteq> UNIV \<times> {n}"
  shows "acyclic (R \<union> S)"
proof -
  have "acyclic (R\<inverse> \<union> S\<inverse>)" using assms by (intro acyclic_add_source [of _ n]) (auto simp: acyclic_converse)
  then show ?thesis by (metis acyclic_converse converse_Un)
qed

text \<open>What the derivation of data dependencies expects of an agent's graph.\<close>

definition deps_ready :: "xgraph \<Rightarrow> bool" where
  "deps_ready g \<longleftrightarrow> graph_ok g \<and> acyclic (set (edge_pairs g)) \<and>
     (\<forall>v < num_vertices g. t_lastWrites (XGraph_getTask v g) = [] \<and> t_lastReads (XGraph_getTask v g) = [] \<and>
        (data_vertex g v \<longrightarrow> writes g v \<subseteq> reads g v)) \<and>
     (\<exists>p \<in> set (g_vertex2task g). g_startTask g = Some p) \<and> set (g_endTasks g) \<subseteq> set (g_vertex2task g)"

definition ends_added :: "xgraph \<Rightarrow> xgraph \<Rightarrow> bool" where
  "ends_added g g1 \<longleftrightarrow>
     (let n = num_vertices g in
      num_vertices g1 = n + 2 \<and> take n (g_vertex2task g1) = g_vertex2task g \<and>
      (\<forall>v < n. XGraph_getTask v g1 = XGraph_getTask v g) \<and>
      t_taskType (XGraph_getTask n g1) = T_start_agent \<and> t_readVariables (XGraph_getTask n g1) = [] \<and>
      accesses g1 (n + 1) = {} \<and> t_taskType (XGraph_getTask (n + 1) g1) = T_finish_agent \<and>
      g_endTask g1 = Some (g_vertex2task g1 ! (n + 1)) \<and>
      (\<exists>es. g_edges g1 = g_edges g @ es \<and> (\<forall>e \<in> set es. (\<exists>d. e_dep e = Some d \<and> d_type d = D_init) \<and>
         (e_source e = n \<and> e_target e < n \<or> e_source e < n \<and> e_target e = n + 1))))"

lemma reads_writes_eq: "XGraph_getTask v g = XGraph_getTask v h \<Longrightarrow> reads g v = reads h v \<and> writes g v = writes h v"
  by (simp add: reads_def writes_def)

lemma getVertex_mono:
  assumes "p \<in> set (g_vertex2task g)" "g_vertex2task h = g_vertex2task g @ ps"
  shows "XGraph_getVertex p h = XGraph_getVertex p g"
proof -
  have "find_index P (xs @ ys) = find_index P xs" if "find_index P xs \<noteq> None" for P and xs ys :: "nat list"
    using that by (induction xs) auto
  moreover have "find_index (\<lambda>q. q = p) (g_vertex2task g) \<noteq> None" using assms(1) by (auto simp: find_index_None)
  ultimately show ?thesis using assms(2) by (simp add: XGraph_getVertex_def)
qed

lemma add_ends:
  assumes ready: "deps_ready g" and g1: "g1 = XGraph_addEndTask (XGraph_addStartTask vars g)"
  shows "ends_added g g1" "graph_ok g1" "start_ok g1" "acyclic (set (edge_pairs g1))"
proof -
  let ?n = "num_vertices g" and ?h = "length (g_heap g)"
  let ?init = "start_task ?n vars (mTask_new (g_agentName g) (g_agentName g) T_start_agent)"
  have ok: "graph_ok g" using ready by (simp add: deps_ready_def)
  obtain p where p: "p \<in> set (g_vertex2task g)" "g_startTask g = Some p" using ready by (auto simp: deps_ready_def)
  define gs where "gs = XGraph_addStartTask vars g"
  have vs: "vertex_of (g_startTask g) (snd (add_task (mTask_new (g_agentName g) (g_agentName g) T_start_agent) g)) < ?n"
    using getVertex_mono [OF p(1), of "snd (add_task (mTask_new (g_agentName g) (g_agentName g) T_start_agent) g)" "[?h]"]
      getVertex_task [OF p(1)] by (simp add: vertex_of_def p(2) add_task_def alloc_task_def XGraph_addVertex_def)
  obtain e0 where gs: "gs = g\<lparr>g_heap := g_heap g @ [?init], g_vertex2task := g_vertex2task g @ [?h], g_edges := g_edges g @ [e0]\<rparr>"
    and e0: "e_source e0 = ?n" "e_target e0 < ?n" "\<exists>d. e_dep e0 = Some d \<and> d_type d = D_init"
    using addStartTask_eq [OF ok, of vars] vs unfolding gs_def by simp
  have oks: "graph_ok gs" using ok e0 by (auto simp: graph_ok_def gs less_Suc_eq)
  obtain es where g1': "g1 = gs\<lparr>g_heap := g_heap gs @ [mTask_new (g_agentName gs) (g_agentName gs) T_finish_agent],
      g_vertex2task := g_vertex2task gs @ [length (g_heap gs)], g_endTask := Some (length (g_heap gs)), g_edges := g_edges gs @ es\<rparr>"
    and es: "list_all (\<lambda>e. e_target e = num_vertices gs \<and> (\<exists>p \<in> set (g_endTasks gs). e_source e = XGraph_getVertex p g1) \<and>
      (\<exists>d. e_dep e = Some d \<and> d_type d = D_init)) es"
    using addEndTask_eq [OF oks] unfolding g1 gs_def by blast
  have v2t: "g_vertex2task g1 = g_vertex2task g @ [?h, Suc ?h]" by (simp add: g1' gs)
  have heap: "g_heap g1 = g_heap g @ [?init, mTask_new (g_agentName g) (g_agentName g) T_finish_agent]" by (simp add: g1' gs)
  have edges: "g_edges g1 = g_edges g @ e0 # es" by (simp add: g1' gs)
  have es': "e_target e = ?n + 1 \<and> e_source e < ?n \<and> (\<exists>d. e_dep e = Some d \<and> d_type d = D_init)" if e: "e \<in> set es" for e
  proof -
    obtain q where "q \<in> set (g_endTasks g)" "e_source e = XGraph_getVertex q g1" "e_target e = Suc ?n"
      "\<exists>d. e_dep e = Some d \<and> d_type d = D_init" using es e by (auto simp: list_all_iff gs)
    moreover from this have "q \<in> set (g_vertex2task g)" using ready by (auto simp: deps_ready_def)
    ultimately show ?thesis using getVertex_mono [OF _ v2t] getVertex_task by simp
  qed
  have old: "XGraph_getTask v g1 = XGraph_getTask v g" if "v < ?n" for v
    using that ok by (simp add: XGraph_getTask_def v2t heap nth_append graph_ok_def)
  have start: "XGraph_getTask ?n g1 = ?init" by (simp add: XGraph_getTask_def v2t heap nth_append)
  have fin: "XGraph_getTask (?n + 1) g1 = mTask_new (g_agentName g) (g_agentName g) T_finish_agent"
    by (simp add: XGraph_getTask_def v2t heap nth_append)
  have init: "maps_ok ?init" "t_taskType ?init = T_start_agent" "t_readVariables ?init = []"
    "LW ?init x \<union> LR ?init x \<subseteq> {w. w = ?n \<and> x \<in> set (t_writeVariables ?init)}" for x
    using start_task_effect [of "mTask_new (g_agentName g) (g_agentName g) T_start_agent" ?n vars]
    by (auto simp: mTask_new_def maps_ok_def)
  show ea: "ends_added g g1" unfolding ends_added_def Let_def
    using old start fin init(2,3) es' e0 edges
    by (auto simp: v2t reads_def writes_def mTask_new_def nth_append g1' gs)
  show ok1: "graph_ok g1" using ok e0 es' by (auto simp: graph_ok_def v2t heap edges less_Suc_eq)
  show "start_ok g1" unfolding start_ok_def
  proof (intro conjI ok1 allI impI)
    fix v assume "v < num_vertices g1"
    then have v: "v < ?n \<or> v = ?n \<or> v = ?n + 1" by (auto simp: v2t)
    have kind: "maps_ok (XGraph_getTask v g1) \<and> (\<forall>x. LW (XGraph_getTask v g1) x \<union> LR (XGraph_getTask v g1) x
        \<subseteq> {w. w = v \<and> x \<in> set (t_writeVariables (XGraph_getTask v g1))})"
      using v
    proof (elim disjE)
      assume "v < ?n"
      then show ?thesis using old [of v] ready by (simp add: deps_ready_def maps_ok_def)
    next
      assume "v = ?n"
      then show ?thesis using start init by simp
    next
      assume "v = ?n + 1"
      then show ?thesis using fin by (simp add: mTask_new_def maps_ok_def)
    qed
    then show "maps_ok (XGraph_getTask v g1)" by simp
    show "LW (XGraph_getTask v g1) x \<union> LR (XGraph_getTask v g1) x \<subseteq> {w. w = v \<and> x \<in> accesses g1 w}" for x
      using kind by (auto simp: writes_def)
  next
    show "\<forall>(s, v) \<in> flow g1. writes g1 v \<subseteq> reads g1 v"
    proof (clarify)
      fix s v x assume f: "(s, v) \<in> flow g1" and x: "x \<in> writes g1 v"
      then have "v < ?n \<or> v = ?n + 1" using ok e0 es' by (auto simp: flow_def edge_pairs_def edges graph_ok_def)
      then show "x \<in> reads g1 v"
      proof
        assume "v < ?n"
        then have "data_vertex g v" "writes g v \<subseteq> reads g v" using f old [of v] ready
          by (auto simp: flow_def deps_ready_def)
        then show ?thesis using x old [OF \<open>v < ?n\<close>] by (auto simp: reads_def writes_def)
      next
        assume "v = ?n + 1"
        then show ?thesis using x fin by (simp add: writes_def mTask_new_def)
      qed
    qed
  qed
  let ?R = "set (edge_pairs g)" and ?S = "{(e_source e0, e_target e0)}" and ?T = "(\<lambda>e. (e_source e, e_target e)) ` set es"
  have R: "s < ?n" "t < ?n" if "(s, t) \<in> ?R" for s t using that ok by (auto simp: edge_pairs_def graph_ok_def)
  have RS: "acyclic (?R \<union> ?S)"
    by (rule acyclic_add_source [of _ ?n]) (use ready R(2) e0 in \<open>auto simp: deps_ready_def\<close>)
  have "s < ?n + 1" if "(s, t) \<in> ?R \<union> ?S \<union> ?T" for s t
    using that R(1) [of s t] e0(1) es' by (auto intro: less_SucI)
  then have "?n + 1 \<notin> Domain (?R \<union> ?S \<union> ?T)" by auto
  moreover have "?T \<subseteq> UNIV \<times> {?n + 1}" using es' by auto
  ultimately have "acyclic (?R \<union> ?S \<union> ?T)" by (intro acyclic_add_sink [OF RS])
  then show "acyclic (set (edge_pairs g1))" by (simp add: edge_pairs_def edges Un_commute)
qed

section \<open>Edges between tasks\<close>

text \<open>
  The vertices are renumbered when vertices are removed, so the order of tasks is stated
  for the pointers to them. \<open>P\<close> selects edges by the dependency they carry.
\<close>

definition vertex_rel :: "(mdependency option \<Rightarrow> bool) \<Rightarrow> xgraph \<Rightarrow> (nat \<times> nat) set" where
  "vertex_rel P g = {(e_source e, e_target e) |e. e \<in> set (g_edges g) \<and> P (e_dep e)}"

definition task_rel :: "(mdependency option \<Rightarrow> bool) \<Rightarrow> xgraph \<Rightarrow> (nat \<times> nat) set" where
  "task_rel P g = map_prod ((!) (g_vertex2task g)) ((!) (g_vertex2task g)) ` vertex_rel P g"

lemma set_edge_pairs: "set (edge_pairs g) = vertex_rel (\<lambda>_. True) g"
  by (auto simp: edge_pairs_def vertex_rel_def)

lemma task_rel_image:
  "task_rel P g = (\<lambda>e. (g_vertex2task g ! e_source e, g_vertex2task g ! e_target e)) ` {e \<in> set (g_edges g). P (e_dep e)}"
proof -
  have "vertex_rel P g = (\<lambda>e. (e_source e, e_target e)) ` {e \<in> set (g_edges g). P (e_dep e)}"
    by (auto simp: vertex_rel_def)
  then show ?thesis by (simp add: task_rel_def image_image)
qed

lemma vertex_rel_bounds: "graph_ok g \<Longrightarrow> vertex_rel P g \<subseteq> {..<num_vertices g} \<times> {..<num_vertices g}"
  by (auto simp: vertex_rel_def graph_ok_def)

lemma vertex_rel_mono: "(\<And>d. P d \<Longrightarrow> Q d) \<Longrightarrow> vertex_rel P g \<subseteq> vertex_rel Q g"
  by (auto simp: vertex_rel_def)

lemma trancl_image: "(i, j) \<in> R\<^sup>+ \<Longrightarrow> (f i, f j) \<in> (map_prod f f ` R)\<^sup>+"
proof (induction rule: trancl.induct)
  case (r_into_trancl i j)
  then have "(f i, f j) \<in> map_prod f f ` R" by (metis image_eqI map_prod_simp)
  then show ?case by (rule trancl.r_into_trancl)
next
  case (trancl_into_trancl i j k)
  then have "(f j, f k) \<in> map_prod f f ` R" by (metis image_eqI map_prod_simp)
  with trancl_into_trancl.IH show ?case by (meson Transitive_Closure.trancl_into_trancl)
qed

lemma trancl_image_inj:
  assumes "inj_on f A" "R \<subseteq> A \<times> A" "(f i, f j) \<in> (map_prod f f ` R)\<^sup>+" "i \<in> A" "j \<in> A"
  shows "(i, j) \<in> R\<^sup>+"
proof -
  have "\<exists>k \<in> A. q = f k \<and> (i, k) \<in> R\<^sup>+" if "(f i, q) \<in> (map_prod f f ` R)\<^sup>+" for q
    using that
  proof (induction rule: trancl_induct)
    case (base y)
    then obtain i' k where "f i = f i'" "y = f k" "(i', k) \<in> R" by auto
    moreover from this have "i' \<in> A" "k \<in> A" using assms(2) by auto
    ultimately show ?case using assms(1,4) by (metis inj_onD trancl.r_into_trancl)
  next
    case (step y z)
    then obtain k where k: "k \<in> A" "y = f k" "(i, k) \<in> R\<^sup>+" by blast
    from step(2) obtain k' l where "y = f k'" "z = f l" "(k', l) \<in> R" by auto
    moreover from this have "k' \<in> A" "l \<in> A" using assms(2) by auto
    ultimately show ?case using k assms(1) by (metis inj_onD trancl_into_trancl)
  qed
  then obtain k where "k \<in> A" "f j = f k" "(i, k) \<in> R\<^sup>+" using assms(3) by blast
  then show ?thesis using assms(1,5) by (metis inj_onD)
qed

lemma task_inj: "graph_ok g \<Longrightarrow> inj_on ((!) (g_vertex2task g)) {..<num_vertices g}"
  by (auto simp: inj_on_def graph_ok_def nth_eq_iff_index_eq)

lemma task_path:
  assumes "graph_ok g" "u < num_vertices g" "v < num_vertices g"
  shows "(g_vertex2task g ! u, g_vertex2task g ! v) \<in> (task_rel P g)\<^sup>+ \<longleftrightarrow> (u, v) \<in> (vertex_rel P g)\<^sup>+"
  unfolding task_rel_def
  using trancl_image [of u v "vertex_rel P g" "(!) (g_vertex2task g)"]
    trancl_image_inj [OF task_inj [OF assms(1)] vertex_rel_bounds [OF assms(1)], of u v P] assms(2,3) by blast

lemma task_rel_tasks: "graph_ok g \<Longrightarrow> task_rel P g \<subseteq> set (g_vertex2task g) \<times> set (g_vertex2task g)"
  using vertex_rel_bounds [of g P] by (auto simp: task_rel_def)

lemma acyclic_tasks:
  assumes "graph_ok g"
  shows "acyclic (task_rel P g) \<longleftrightarrow> acyclic (vertex_rel P g)"
proof -
  have bound: "(vertex_rel P g)\<^sup>+ \<subseteq> {..<num_vertices g} \<times> {..<num_vertices g}"
    using vertex_rel_bounds [OF assms] by (rule trancl_subset_Sigma)
  have bound': "(task_rel P g)\<^sup>+ \<subseteq> set (g_vertex2task g) \<times> set (g_vertex2task g)"
    using task_rel_tasks [OF assms] by (rule trancl_subset_Sigma)
  have "(\<exists>p. (p, p) \<in> (task_rel P g)\<^sup>+) \<longleftrightarrow> (\<exists>v. (v, v) \<in> (vertex_rel P g)\<^sup>+)"
  proof
    assume "\<exists>p. (p, p) \<in> (task_rel P g)\<^sup>+"
    then obtain v where "v < num_vertices g" "(g_vertex2task g ! v, g_vertex2task g ! v) \<in> (task_rel P g)\<^sup>+"
      using bound' by (metis SigmaD1 in_set_conv_nth subsetD)
    then show "\<exists>v. (v, v) \<in> (vertex_rel P g)\<^sup>+" using task_path [OF assms] by blast
  next
    assume "\<exists>v. (v, v) \<in> (vertex_rel P g)\<^sup>+"
    then obtain v where "v < num_vertices g" "(v, v) \<in> (vertex_rel P g)\<^sup>+" using bound by blast
    then show "\<exists>p. (p, p) \<in> (task_rel P g)\<^sup>+" using task_path [OF assms] by blast
  qed
  then show ?thesis by (auto simp: acyclic_def)
qed

section \<open>Removing vertices\<close>

lemma shift_down_task:
  assumes "v < length xs" "u < length xs" "u \<noteq> v"
  shows "shift_down v u < length xs - 1" "(take v xs @ drop (Suc v) xs) ! shift_down v u = xs ! u"
  using assms by (auto simp: shift_down_def nth_append min_def)

lemma set_remove_nth:
  assumes "distinct xs" "v < length xs"
  shows "set (take v xs @ drop (Suc v) xs) = set xs - {xs ! v}" "distinct (take v xs @ drop (Suc v) xs)"
proof -
  have eq: "xs = take v xs @ xs ! v # drop (Suc v) xs" using assms(2) by (rule id_take_nth_drop)
  then have d: "distinct (take v xs @ xs ! v # drop (Suc v) xs)" using assms(1) by simp
  have "set xs = set (take v xs @ xs ! v # drop (Suc v) xs)" using eq by metis
  then show "set (take v xs @ drop (Suc v) xs) = set xs - {xs ! v}" using d by auto
  show "distinct (take v xs @ drop (Suc v) xs)" using d by auto
qed

lemma removeVertex_effect:
  assumes ok: "graph_ok g" and v: "v < num_vertices g" and g': "g' = XGraph_removeVertex v g"
  shows "graph_ok g'" "g_heap g' = g_heap g" "set (g_vertex2task g') = set (g_vertex2task g) - {g_vertex2task g ! v}"
    "task_rel P g' = {(p, q) \<in> task_rel P g. p \<noteq> g_vertex2task g ! v \<and> q \<noteq> g_vertex2task g ! v}"
    "take v (g_vertex2task g') = take v (g_vertex2task g)"
    "g_startTask g' = g_startTask g" "g_endTasks g' = g_endTasks g" "g_endTask g' = g_endTask g" "g_agentName g' = g_agentName g"
proof -
  let ?xs = "g_vertex2task g"
  have v2t: "g_vertex2task g' = take v ?xs @ drop (Suc v) ?xs" by (simp add: g' XGraph_removeVertex_def)
  have len: "length (g_vertex2task g') = length ?xs - 1" using v by (simp add: v2t)
  have d: "distinct ?xs" using ok by (simp add: graph_ok_def)
  show set: "set (g_vertex2task g') = set ?xs - {?xs ! v}" unfolding v2t using d v by (rule set_remove_nth)
  let ?es = "filter (\<lambda>e. e_source e \<noteq> v \<and> e_target e \<noteq> v) (g_edges g)"
  let ?m = "\<lambda>e. e\<lparr>e_source := shift_down v (e_source e), e_target := shift_down v (e_target e)\<rparr>"
  have edges: "g_edges g' = map ?m ?es" by (simp add: g' XGraph_removeVertex_def)
  have b: "e_source e < length ?xs" "e_target e < length ?xs" if "e \<in> set (g_edges g)" for e
    using ok that by (auto simp: graph_ok_def)
  have sd: "shift_down v u < length ?xs - 1" "g_vertex2task g' ! shift_down v u = ?xs ! u" if "u < length ?xs" "u \<noteq> v" for u
    using shift_down_task [OF v that] by (simp_all add: v2t)
  have heap: "g_heap g' = g_heap g" by (simp add: g' XGraph_removeVertex_def)
  have "distinct (g_vertex2task g')" unfolding v2t using d v by (rule set_remove_nth)
  moreover have "p < length (g_heap g')" if "p \<in> set (g_vertex2task g')" for p
    using that ok unfolding set heap graph_ok_def by blast
  moreover have "e_source e < length ?xs - 1 \<and> e_target e < length ?xs - 1" if e: "e \<in> set (g_edges g')" for e
  proof -
    obtain e' where "e' \<in> set (g_edges g)" "e_source e' \<noteq> v" "e_target e' \<noteq> v" "e = ?m e'" using e by (auto simp: edges)
    then show ?thesis using b sd(1) by simp
  qed
  ultimately show "graph_ok g'" unfolding graph_ok_def len by blast
  show "task_rel P g' = {(p, q) \<in> task_rel P g. p \<noteq> ?xs ! v \<and> q \<noteq> ?xs ! v}"
  proof -
    have pt: "(g_vertex2task g' ! shift_down v (e_source e), g_vertex2task g' ! shift_down v (e_target e)) =
        (?xs ! e_source e, ?xs ! e_target e)" if "e \<in> {e \<in> set ?es. P (e_dep e)}" for e
      using that b [of e] sd(2) by auto
    have "task_rel P g' = (\<lambda>e. (g_vertex2task g' ! shift_down v (e_source e), g_vertex2task g' ! shift_down v (e_target e))) `
        {e \<in> set ?es. P (e_dep e)}"
    proof -
      have "{e \<in> set (g_edges g'). P (e_dep e)} = ?m ` {e \<in> set ?es. P (e_dep e)}" by (auto simp: edges)
      then show ?thesis by (simp add: task_rel_image image_image)
    qed
    also have "\<dots> = (\<lambda>e. (?xs ! e_source e, ?xs ! e_target e)) ` {e \<in> set ?es. P (e_dep e)}"
      by (rule image_cong [OF refl pt])
    also have "{e \<in> set ?es. P (e_dep e)} =
        {e \<in> set (g_edges g). P (e_dep e) \<and> ?xs ! e_source e \<noteq> ?xs ! v \<and> ?xs ! e_target e \<noteq> ?xs ! v}"
    proof -
      have "?xs ! u = ?xs ! v \<longleftrightarrow> u = v" if "u < length ?xs" for u using d v that by (simp add: nth_eq_iff_index_eq)
      then show ?thesis using b by auto
    qed
    also have "(\<lambda>e. (?xs ! e_source e, ?xs ! e_target e)) `
        {e \<in> set (g_edges g). P (e_dep e) \<and> ?xs ! e_source e \<noteq> ?xs ! v \<and> ?xs ! e_target e \<noteq> ?xs ! v} =
        {(p, q) \<in> (\<lambda>e. (?xs ! e_source e, ?xs ! e_target e)) ` {e \<in> set (g_edges g). P (e_dep e)}. p \<noteq> ?xs ! v \<and> q \<noteq> ?xs ! v}"
      by auto
    also have "(\<lambda>e. (?xs ! e_source e, ?xs ! e_target e)) ` {e \<in> set (g_edges g). P (e_dep e)} = task_rel P g"
      by (simp add: task_rel_image)
    finally show ?thesis .
  qed
  show "take v (g_vertex2task g') = take v ?xs" using v by (simp add: v2t)
qed (simp_all add: g' XGraph_removeVertex_def)

lemma removeVertices_loop:
  assumes "graph_ok g" "sorted_wrt (>) vs" "\<forall>v \<in> set vs. v < num_vertices g"
  shows "let g' = fold XGraph_removeVertex vs g; gone = (!) (g_vertex2task g) ` set vs in
    graph_ok g' \<and> g_heap g' = g_heap g \<and> set (g_vertex2task g') = set (g_vertex2task g) - gone \<and>
    (\<forall>P. task_rel P g' = {(p, q) \<in> task_rel P g. p \<notin> gone \<and> q \<notin> gone}) \<and>
    g_startTask g' = g_startTask g \<and> g_endTasks g' = g_endTasks g \<and> g_endTask g' = g_endTask g \<and> g_agentName g' = g_agentName g"
  using assms
proof (induction vs arbitrary: g)
  case (Cons v vs)
  let ?g = "XGraph_removeVertex v g"
  have v: "v < num_vertices g" using Cons.prems by simp
  note e = removeVertex_effect [OF Cons.prems(1) v refl]
  have len: "num_vertices ?g = num_vertices g - 1" using v by (simp add: XGraph_removeVertex_def)
  have lt: "w < v" if "w \<in> set vs" for w using Cons.prems(2) that by auto
  then have keep: "g_vertex2task ?g ! w = g_vertex2task g ! w" if "w \<in> set vs" for w
    using e(5) that by (metis nth_take)
  have "\<forall>w \<in> set vs. w < num_vertices ?g" using lt v len by fastforce
  moreover have "sorted_wrt (>) vs" using Cons.prems(2) by simp
  ultimately have ih: "let g' = fold XGraph_removeVertex vs ?g; gone = (!) (g_vertex2task ?g) ` set vs in
    graph_ok g' \<and> g_heap g' = g_heap ?g \<and> set (g_vertex2task g') = set (g_vertex2task ?g) - gone \<and>
    (\<forall>P. task_rel P g' = {(p, q) \<in> task_rel P ?g. p \<notin> gone \<and> q \<notin> gone}) \<and>
    g_startTask g' = g_startTask ?g \<and> g_endTasks g' = g_endTasks ?g \<and> g_endTask g' = g_endTask ?g \<and> g_agentName g' = g_agentName ?g"
    using Cons.IH [OF e(1)] by blast
  have gone: "(!) (g_vertex2task g) ` set (v # vs) = insert (g_vertex2task g ! v) ((!) (g_vertex2task ?g) ` set vs)"
    using keep by auto
  show ?case using ih e unfolding Let_def gone by auto
qed simp

section \<open>Contraction\<close>

lemma sorted_rev_sort: "distinct vs \<Longrightarrow> sorted_wrt (>) (rev (sort vs))" for vs :: "nat list"
  by (simp add: sorted_wrt_rev strict_sorted_iff)

lemma removeVertices_effect:
  assumes "graph_ok g" "distinct vs" "\<forall>v \<in> set vs. v < num_vertices g"
  shows "let g' = XGraph_removeVertices vs g; gone = (!) (g_vertex2task g) ` set vs in
    graph_ok g' \<and> g_heap g' = g_heap g \<and> set (g_vertex2task g') = set (g_vertex2task g) - gone \<and>
    (\<forall>P. task_rel P g' = {(p, q) \<in> task_rel P g. p \<notin> gone \<and> q \<notin> gone}) \<and>
    g_startTask g' = g_startTask g \<and> g_endTasks g' = g_endTasks g \<and> g_endTask g' = g_endTask g \<and> g_agentName g' = g_agentName g"
  using removeVertices_loop [of g "rev (sort vs)"] assms sorted_rev_sort [OF assms(2)]
  by (simp add: XGraph_removeVertices_def)

lemma addEdge_loop:
  "fold (\<lambda>x. XGraph_addEdge (a x) (b x) n dt) xs g =
   g\<lparr>g_edges := g_edges g @ map (\<lambda>x. \<lparr>e_source = a x, e_target = b x, e_dep = Some \<lparr>d_name = n, d_type = dt\<rparr>\<rparr>) xs\<rparr>"
  by (induction xs arbitrary: g) (simp_all add: XGraph_addEdge_def)

definition bypass :: "dependency_type \<Rightarrow> nat \<Rightarrow> xgraph \<Rightarrow> edge list" where
  "bypass dt v g = concat (map (\<lambda>ie. map (\<lambda>oe. \<lparr>e_source = e_source ie, e_target = e_target oe,
     e_dep = Some \<lparr>d_name = [], d_type = dt\<rparr>\<rparr>) (out_edges v g)) (in_edges v g))"

lemma contract_edges_eq:
  assumes "\<forall>e \<in> set (in_edges v g). e_source e \<noteq> v"
  shows "contract_edges dt v g = g\<lparr>g_edges := g_edges g @ bypass dt v g\<rparr>"
proof -
  let ?new = "\<lambda>ie. map (\<lambda>oe. \<lparr>e_source = e_source ie, e_target = e_target oe, e_dep = Some \<lparr>d_name = [], d_type = dt\<rparr>\<rparr>) (out_edges v g)"
  have "fold (\<lambda>ie g. fold (\<lambda>oe g. XGraph_addEdge (e_source ie) (e_target oe) [] dt g) (out_edges v g) g) es h =
      h\<lparr>g_edges := g_edges h @ concat (map ?new es)\<rparr>"
    if "\<forall>e \<in> set es. e_source e \<noteq> v" "out_edges v h = out_edges v g" for es h
    using that
  proof (induction es arbitrary: h)
    case (Cons ie es)
    have "out_edges v (h\<lparr>g_edges := g_edges h @ ?new ie\<rparr>) = out_edges v g"
      using Cons.prems by (simp add: out_edges_def filter_empty_conv)
    then show ?case using Cons addEdge_loop [of "\<lambda>_. e_source ie" e_target "[]" dt "out_edges v g" h] by simp
  qed simp
  from this [OF assms refl] show ?thesis by (simp add: contract_edges_def bypass_def)
qed

lemma bypass_step:
  assumes R': "R \<subseteq> R'" "\<And>s t. (s, v) \<in> R \<Longrightarrow> (v, t) \<in> R \<Longrightarrow> (s, t) \<in> R'"
    and path: "(a, b) \<in> (Restr R (- D))\<^sup>+" and ends: "a \<noteq> v" "b \<noteq> v"
  shows "(a, b) \<in> (Restr R' (- insert v D))\<^sup>+"
proof -
  let ?R' = "Restr R' (- insert v D)"
  have "(x \<noteq> v \<longrightarrow> (a, x) \<in> ?R'\<^sup>+) \<and> (x = v \<longrightarrow> (\<exists>s. (a = s \<or> (a, s) \<in> ?R'\<^sup>+) \<and> s \<noteq> v \<and> s \<notin> D \<and> (s, v) \<in> R))"
    if "(a, x) \<in> (Restr R (- D))\<^sup>+" for x
    using that
  proof (induction rule: trancl_induct)
    case (base y)
    then have "(a, y) \<in> ?R'" if "y \<noteq> v" using R'(1) ends(1) that by auto
    then show ?case using base ends(1) by blast
  next
    case (step y z)
    show ?case
    proof (cases "y = v")
      case False
      then have "(a, y) \<in> ?R'\<^sup>+" using step.IH by simp
      moreover have "(y, z) \<in> ?R'" if "z \<noteq> v" using that step.hyps(2) False R'(1) by auto
      ultimately show ?thesis using step.hyps(2) False by (auto intro: trancl_into_trancl)
    next
      case True
      then obtain s where s: "a = s \<or> (a, s) \<in> ?R'\<^sup>+" "s \<noteq> v" "s \<notin> D" "(s, v) \<in> R" using step.IH by blast
      have "(s, z) \<in> ?R'" if "z \<noteq> v" using that s R'(2) [OF s(4), of z] step.hyps(2) True by auto
      then show ?thesis using s by (auto intro: trancl_into_trancl)
    qed
  qed
  from this [OF path] ends(2) show ?thesis by simp
qed

text \<open>The edges after the vertices have been bypassed, before they are removed.\<close>

definition bypassed :: "(mdependency option \<Rightarrow> bool) \<Rightarrow> nat set \<Rightarrow> xgraph \<Rightarrow> xgraph \<Rightarrow> bool" where
  "bypassed P D g h \<longleftrightarrow>
     (\<exists>es. h = g\<lparr>g_edges := g_edges g @ es\<rparr>) \<and> graph_ok h \<and> acyclic (vertex_rel (\<lambda>_. True) h) \<and>
     (\<forall>a b. a \<notin> D \<longrightarrow> b \<notin> D \<longrightarrow> (a, b) \<in> (vertex_rel P g)\<^sup>+ \<longrightarrow> (a, b) \<in> (Restr (vertex_rel P h) (- D))\<^sup>+)"

lemma set_bypass: "set (bypass dt v g) = (\<lambda>(ie, oe). \<lparr>e_source = e_source ie, e_target = e_target oe, e_dep = Some \<lparr>d_name = [], d_type = dt\<rparr>\<rparr>) `
    (set (in_edges v g) \<times> set (out_edges v g))"
  by (auto simp: bypass_def)

lemma vertex_rel_append:
  "(s, t) \<in> vertex_rel P (g\<lparr>g_edges := g_edges g @ es\<rparr>) \<longleftrightarrow>
     (s, t) \<in> vertex_rel P g \<or> (\<exists>e \<in> set es. e_source e = s \<and> e_target e = t \<and> P (e_dep e))"
  by (auto simp: vertex_rel_def)

lemma in_vertex_rel: "(s, t) \<in> vertex_rel P g \<longleftrightarrow> (\<exists>e \<in> set (g_edges g). e_source e = s \<and> e_target e = t \<and> P (e_dep e))"
  by (auto simp: vertex_rel_def)

lemma bypassed_step:
  assumes h: "bypassed P D g h" and P: "\<And>n. P (Some \<lparr>d_name = n, d_type = dt\<rparr>)"
  shows "bypassed P (insert v D) g (contract_edges dt v h)"
proof -
  obtain es where es: "h = g\<lparr>g_edges := g_edges g @ es\<rparr>" and ok: "graph_ok h" and ac: "acyclic (vertex_rel (\<lambda>_. True) h)"
    and path: "\<And>a b. a \<notin> D \<Longrightarrow> b \<notin> D \<Longrightarrow> (a, b) \<in> (vertex_rel P g)\<^sup>+ \<Longrightarrow> (a, b) \<in> (Restr (vertex_rel P h) (- D))\<^sup>+"
    using h by (auto simp: bypassed_def)
  have "\<forall>e \<in> set (in_edges v h). e_source e \<noteq> v"
  proof (rule ballI, rule notI)
    fix e assume "e \<in> set (in_edges v h)" "e_source e = v"
    then have "(v, v) \<in> vertex_rel (\<lambda>_. True) h" by (auto simp: in_edges_def vertex_rel_def)
    then show False using ac by (auto simp: acyclic_def)
  qed
  then have eq: "contract_edges dt v h = h\<lparr>g_edges := g_edges h @ bypass dt v h\<rparr>" by (rule contract_edges_eq)
  let ?h = "h\<lparr>g_edges := g_edges h @ bypass dt v h\<rparr>"
  have rel: "vertex_rel Q ?h = vertex_rel Q h \<union> {(s, t). Q (Some \<lparr>d_name = [], d_type = dt\<rparr>) \<and>
      (s, v) \<in> vertex_rel (\<lambda>_. True) h \<and> (v, t) \<in> vertex_rel (\<lambda>_. True) h}" for Q
  proof -
    have ie: "(\<exists>ie \<in> set (in_edges v h). e_source ie = s) \<longleftrightarrow> (s, v) \<in> vertex_rel (\<lambda>_. True) h" for s
      by (auto simp: in_edges_def in_vertex_rel)
    have oe: "(\<exists>oe \<in> set (out_edges v h). e_target oe = t) \<longleftrightarrow> (v, t) \<in> vertex_rel (\<lambda>_. True) h" for t
      by (auto simp: out_edges_def in_vertex_rel)
    have "(\<exists>e \<in> set (bypass dt v h). e_source e = s \<and> e_target e = t \<and> Q (e_dep e)) \<longleftrightarrow>
        Q (Some \<lparr>d_name = [], d_type = dt\<rparr>) \<and> (s, v) \<in> vertex_rel (\<lambda>_. True) h \<and> (v, t) \<in> vertex_rel (\<lambda>_. True) h" for s t
      unfolding set_bypass bex_simps ie [symmetric] oe [symmetric] by fastforce
    then show ?thesis by (simp add: set_eq_iff vertex_rel_append split_paired_all)
  qed
  have "graph_ok ?h" using ok by (auto simp: graph_ok_def set_bypass in_edges_def out_edges_def)
  moreover have "acyclic (vertex_rel (\<lambda>_. True) ?h)"
  proof -
    have "vertex_rel (\<lambda>_. True) ?h \<subseteq> (vertex_rel (\<lambda>_. True) h)\<^sup>+" unfolding rel by auto
    moreover have "acyclic ((vertex_rel (\<lambda>_. True) h)\<^sup>+)" using ac by (simp add: acyclic_def)
    ultimately show ?thesis by (rule acyclic_subset [rotated])
  qed
  moreover have "(a, b) \<in> (Restr (vertex_rel P ?h) (- insert v D))\<^sup>+"
    if ab: "a \<notin> insert v D" "b \<notin> insert v D" "(a, b) \<in> (vertex_rel P g)\<^sup>+" for a b
  proof (rule bypass_step)
    show "(a, b) \<in> (Restr (vertex_rel P h) (- D))\<^sup>+" using path ab by blast
    show "vertex_rel P h \<subseteq> vertex_rel P ?h" unfolding rel by blast
    show "(s, t) \<in> vertex_rel P ?h" if "(s, v) \<in> vertex_rel P h" "(v, t) \<in> vertex_rel P h" for s t
      using that P vertex_rel_mono [of P "\<lambda>_. True" h] unfolding rel by blast
  qed (use ab in auto)
  ultimately show ?thesis unfolding bypassed_def eq using es by auto
qed

lemma bypassed_all:
  assumes "graph_ok g" "acyclic (vertex_rel (\<lambda>_. True) g)" "\<And>n. P (Some \<lparr>d_name = n, d_type = dt\<rparr>)"
  shows "bypassed P (set vs) g (fold (contract_edges dt) vs g)"
proof (induction vs rule: rev_induct)
  case Nil
  have "g\<lparr>g_edges := g_edges g @ []\<rparr> = g" by simp
  then have "\<exists>es. g = g\<lparr>g_edges := g_edges g @ es\<rparr>" by metis
  then show ?case using assms(1,2) by (simp add: bypassed_def)
next
  case (snoc v vs)
  then show ?case using bypassed_step [OF snoc assms(3), of v] by simp
qed

end
