(* ===== verification/Population_Input.thy ===== *)
theory Population_Input
  imports Population_Output Graph_Paths
begin

text \<open>
  Reading a population: \<open>readPop\<close>, \<open>validateData\<close> and their parts in
  \<open>src/flame2/io/io_xml_pop.cpp\<close>, and the dispatch of \<open>src/flame2/io/io_manager.cpp\<close>. The pull reader
  of libxml2 is the list of the nodes it stops at and its last return code.
\<close>

section \<open>The nodes of a population file\<close>

text \<open>
  The names of the elements that are open, outermost first, the agent type that is being read (a
  pointer into the model, here an index) and the memory that receives the values.
\<close>

record 'd reader_state =
  rs_tags :: "string list"
  rs_agent :: "nat option"
  rs_mem :: "'d pop_value memory_manager"

definition processStartNode :: "string \<Rightarrow> ('d reader_state, unit) exec" where
  "processStartNode name s =
     (let tags = rs_tags s in
      if (length tags = 0 \<and> name = ''states'')
        \<or> (length tags = 1 \<and> (name = ''itno'' \<or> name = ''environment'' \<or> name = ''xagent''))
        \<or> length tags = 2
      then (Inr (), s\<lparr>rs_tags := tags @ [name]\<rparr>)
      else (Inl (unparseable_file (''Unknown xml tag: '' @ name)), s))"

text \<open>\<open>push_back\<close> on the vector of a column.\<close>

definition push_value :: "string \<Rightarrow> string \<Rightarrow> 'v \<Rightarrow> 'v memory_manager \<Rightarrow> 'v memory_manager" where
  "push_value agent var x mm =
     snd (MemoryManager_GetAgentMemory agent
       (\<lambda>am. (Inr (), AgentMemory_modify var (\<lambda>w. w\<lparr>vw_data := vw_data w @ [x]\<rparr>) am)) mm)"

definition processTextVariableCast ::
    "build \<Rightarrow> dtype \<Rightarrow> (string \<Rightarrow> 'd pop_value option) \<Rightarrow> string \<Rightarrow> string \<Rightarrow> ('d reader_state, nat) exec" where
  "processTextVariableCast b t cast value agent s =
     (case cast value of
        None \<Rightarrow>
          (Inl (invalid_pop_file (''Variable could not be cast to correct type: '' @ value @ '' in '' @ last (rs_tags s))), s)
      | Some x \<Rightarrow>
          (case MemoryManager_GetVector b t agent (last (rs_tags s)) (rs_mem s) of
             (Inl e, mm) \<Rightarrow> (Inl e, s\<lparr>rs_mem := mm\<rparr>)
           | (Inr v, mm) \<Rightarrow> (Inr 0, s\<lparr>rs_mem := push_value agent v x mm\<rparr>)))"

definition processTextVariable ::
    "build \<Rightarrow> 'd text_format \<Rightarrow> string \<Rightarrow> xmachine \<Rightarrow> ('d reader_state, nat) exec" where
  "processTextVariable b fmt value agent s =
     (case XMachine_getVariable agent (last (rs_tags s)) of
        None \<Rightarrow> (Inl (invalid_pop_file (''Agent variable is not recognised: '' @ last (rs_tags s))), s)
      | Some var \<Rightarrow>
          if xv_type var = ''int'' then
            processTextVariableCast b ''int'' (map_option VInt \<circ> tf_cast_int fmt) value (xa_name agent) s
          else if xv_type var = ''double'' then
            processTextVariableCast b ''double'' (map_option VDouble \<circ> tf_cast_double fmt) value (xa_name agent) s
          else (Inr 0, s))"

definition processTextAgent ::
    "build \<Rightarrow> 'd text_format \<Rightarrow> 'v xmodel \<Rightarrow> string \<Rightarrow> ('d reader_state, nat) exec" where
  "processTextAgent b fmt model value s =
     (if last (rs_tags s) = ''name'' then
        (case XModel_getAgent value model of
           None \<Rightarrow> (Inl (invalid_pop_file (''Agent type is not recognised: '' @ value)), s\<lparr>rs_agent := None\<rparr>)
         | Some i \<Rightarrow> (Inr 0, s\<lparr>rs_agent := Some i\<rparr>))
      else
        case rs_agent s of
          None \<Rightarrow> (Inr 0, s)
        | Some i \<Rightarrow> processTextVariable b fmt value (xo_agents model ! i) s)"

definition processEndNode :: "string \<Rightarrow> ('d reader_state, nat) exec" where
  "processEndNode name s =
     (if rs_tags s = [] then (Inl (UB ''back() of an empty vector''), s)
      else if last (rs_tags s) = name then
        (Inr 0, (if name = ''xagent'' then s\<lparr>rs_agent := None\<rparr> else s)\<lparr>rs_tags := butlast (rs_tags s)\<rparr>)
      else (Inr 9, s))"

definition processNode ::
    "build \<Rightarrow> 'd text_format \<Rightarrow> 'v xmodel \<Rightarrow> xml_node \<Rightarrow> ('d reader_state, nat) exec" where
  "processNode b fmt model nd s =
     (let name = (case xn_name nd of None \<Rightarrow> ''--'' | Some n \<Rightarrow> n) in
      if xn_type nd = 1 then bindE (processStartNode name) (\<lambda>_. returnE 0) s
      else if xn_type nd = 3 then
        (if length (rs_tags s) = 3 \<and> rs_tags s ! 1 = ''xagent''
         then processTextAgent b fmt model (xn_value nd) s else (Inr 0, s))
      else if xn_type nd = 15 then processEndNode name s
      else (Inr 0, s))"

text \<open>The code that a node yields is dropped.\<close>

definition process_nodes ::
    "build \<Rightarrow> 'd text_format \<Rightarrow> 'v xmodel \<Rightarrow> xml_node list \<Rightarrow> ('d reader_state, unit) exec" where
  "process_nodes b fmt model = forE (\<lambda>nd. bindE (processNode b fmt model nd) (\<lambda>_. returnE ()))"

text \<open>A file that cannot be opened has no reader.\<close>

type_synonym reader_result = "(xml_node list \<times> int) option"

definition IOXMLPop_readPop ::
    "build \<Rightarrow> 'd text_format \<Rightarrow> reader_result \<Rightarrow> 'v xmodel \<Rightarrow> (xml_pop \<times> 'd pop_value memory_manager, unit) exec" where
  "IOXMLPop_readPop b fmt reader model = (\<lambda>(pop, mm).
     case reader of
       None \<Rightarrow> (Inl (inaccessable_file ''Unable to open xml pop file''), pop, mm)
     | Some (nodes, ret) \<Rightarrow>
         (case process_nodes b fmt model nodes \<lparr>rs_tags = [], rs_agent = None, rs_mem = mm\<rparr> of
            (Inl e, s) \<Rightarrow> (Inl e, pop, rs_mem s)
          | (Inr _, s) \<Rightarrow>
              if ret \<noteq> 0 then (Inl (unparseable_file ''Failed to parse xml pop file''), pop, rs_mem s)
              else (Inr (), IOXMLPop_saveAgentVariableData model pop, rs_mem s)))"

section \<open>Validation against the schema\<close>

text \<open>
  The validator of the library: the documents it reads from files, and the objects made from the
  schema document, each of which can fail to be made. A validation gets the context, or a null
  pointer.
\<close>

record ('doc, 'p, 's, 'c) schema_library =
  sl_read_file :: "string \<Rightarrow> 'doc option"
  sl_read_schema :: "string \<Rightarrow> 'doc option"
  sl_parser :: "'doc \<Rightarrow> 'p option"
  sl_parse :: "'p \<Rightarrow> 's option"
  sl_context :: "'s option \<Rightarrow> 'c option"
  sl_validate :: "'c option \<Rightarrow> 'doc \<Rightarrow> int"

definition openXMLDoc :: "('doc, 'p, 's, 'c) schema_library \<Rightarrow> string \<Rightarrow> exn + 'doc" where
  "openXMLDoc lib data_file =
     (case sl_read_file lib data_file of
        None \<Rightarrow> Inl (flame_io_exception ''Parsing of XML file failed'')
      | Some doc \<Rightarrow> Inr doc)"

text \<open>
  The code and the context. The test after the parse looks at the address of the pointer, which is
  never null, and not at the pointer.
\<close>

definition openXMLSchema :: "('doc, 'p, 's, 'c) schema_library \<Rightarrow> string \<Rightarrow> int \<times> 'c option" where
  "openXMLSchema lib schema_file =
     (case sl_read_schema lib schema_file of
        None \<Rightarrow> (-1, None)
      | Some schema_doc \<Rightarrow>
          (case sl_parser lib schema_doc of
             None \<Rightarrow> (-2, None)
           | Some parser_ctxt \<Rightarrow>
               (case sl_context lib (sl_parse lib parser_ctxt) of
                  None \<Rightarrow> (-4, None)
                | Some valid_ctxt \<Rightarrow> (0, Some valid_ctxt))))"

definition validateData :: "('doc, 'p, 's, 'c) schema_library \<Rightarrow> string \<Rightarrow> string \<Rightarrow> exn + unit" where
  "validateData lib data_file schema_file =
     bindR (openXMLDoc lib data_file) (\<lambda>doc.
       let (code, valid_ctxt) = openXMLSchema lib schema_file;
           rc = sl_validate lib valid_ctxt doc in
       if rc = -1 then Inl (flame_io_exception ''Internal error validating pop file'')
       else if rc \<noteq> 0 then Inl (flame_io_exception ''Error validating pop file'')
       else Inr ())"

section \<open>Memory while a population is read\<close>

lemma column_GetVector:
  "column a' v' (snd (MemoryManager_GetVector b t a v mm)) = column a' v' mm"
  by (auto simp: MemoryManager_GetVector_def MemoryManager_GetAgentMemory_def AgentMemory_GetVector_def
      column_def Let_def split: option.splits)

lemma column_push_value:
  "column a' v' (push_value a v x mm) =
    (if a' = a \<and> v' = v then map_option (\<lambda>w. w\<lparr>vw_data := vw_data w @ [x]\<rparr>) (column a v mm)
     else column a' v' mm)"
  by (auto simp: push_value_def MemoryManager_GetAgentMemory_def AgentMemory_modify_def column_def
      split: option.splits)

lemma GetVector_succeeds:
  "column a v mm = Some w \<Longrightarrow> vw_type w = t \<Longrightarrow>
    MemoryManager_GetVector b t a v mm = (Inr v, snd (MemoryManager_GetVector b t a v mm))"
  by (auto simp: MemoryManager_GetVector_def MemoryManager_GetAgentMemory_def AgentMemory_GetVector_def
      column_def Let_def split: option.splits)

lemma GetVector_Inr:
  "MemoryManager_GetVector b t a v mm = (Inr v', mm') \<Longrightarrow>
    v' = v \<and> (\<exists>w. column a v mm = Some w \<and> vw_type w = t)"
  by (auto simp: MemoryManager_GetVector_def MemoryManager_GetAgentMemory_def AgentMemory_GetVector_def
      column_def Let_def split: option.splits if_splits)

text \<open>Values of the type of the column are appended, and nothing else happens to it.\<close>

definition grows :: "'d pop_value memory_manager \<Rightarrow> 'd pop_value memory_manager \<Rightarrow> bool" where
  "grows mm mm' \<longleftrightarrow>
     (\<forall>a v. \<exists>xs. column a v mm' = map_option (\<lambda>w. w\<lparr>vw_data := vw_data w @ xs\<rparr>) (column a v mm) \<and>
        (\<forall>w. column a v mm = Some w \<longrightarrow> list_all (has_type (vw_type w)) xs))"

lemma growsD:
  "grows mm mm' \<Longrightarrow> \<exists>xs. column a v mm' = map_option (\<lambda>w. w\<lparr>vw_data := vw_data w @ xs\<rparr>) (column a v mm) \<and>
    (\<forall>w. column a v mm = Some w \<longrightarrow> list_all (has_type (vw_type w)) xs)"
  by (simp add: grows_def)

lemma grows_same: "(\<And>a v. column a v mm' = column a v mm) \<Longrightarrow> grows mm mm'"
  unfolding grows_def by (intro allI exI [of _ "[]"]) (simp add: option.map_ident)

lemma grows_refl [simp]: "grows mm mm"
  by (rule grows_same) simp

lemma grows_trans:
  assumes "grows mm mm'" "grows mm' mm''"
  shows "grows mm mm''"
  unfolding grows_def
proof (intro allI)
  fix a v
  obtain xs where xs: "column a v mm' = map_option (\<lambda>w. w\<lparr>vw_data := vw_data w @ xs\<rparr>) (column a v mm)"
      "\<forall>w. column a v mm = Some w \<longrightarrow> list_all (has_type (vw_type w)) xs"
    using growsD [OF assms(1)] by blast
  obtain ys where ys: "column a v mm'' = map_option (\<lambda>w. w\<lparr>vw_data := vw_data w @ ys\<rparr>) (column a v mm')"
      "\<forall>w. column a v mm' = Some w \<longrightarrow> list_all (has_type (vw_type w)) ys"
    using growsD [OF assms(2)] by blast
  show "\<exists>zs. column a v mm'' = map_option (\<lambda>w. w\<lparr>vw_data := vw_data w @ zs\<rparr>) (column a v mm) \<and>
      (\<forall>w. column a v mm = Some w \<longrightarrow> list_all (has_type (vw_type w)) zs)"
    using xs ys by (intro exI [of _ "xs @ ys"]) (cases "column a v mm"; simp)
qed

lemma grows_push:
  assumes "column a v mm = Some w" "has_type (vw_type w) x"
  shows "grows mm (push_value a v x mm)"
  unfolding grows_def
proof (intro allI)
  fix a' v'
  show "\<exists>xs. column a' v' (push_value a v x mm) =
        map_option (\<lambda>w. w\<lparr>vw_data := vw_data w @ xs\<rparr>) (column a' v' mm) \<and>
      (\<forall>w. column a' v' mm = Some w \<longrightarrow> list_all (has_type (vw_type w)) xs)"
    using assms
    by (intro exI [of _ "if a' = a \<and> v' = v then [x] else []"]) (simp add: column_push_value option.map_ident)
qed

lemma grows_cast:
  assumes "\<And>x. cast value = Some x \<Longrightarrow> has_type t x"
  shows "grows (rs_mem s) (rs_mem (snd (processTextVariableCast b t cast value agent s)))"
proof (cases "cast value")
  case None
  then show ?thesis by (simp add: processTextVariableCast_def)
next
  case (Some x)
  let ?v = "last (rs_tags s)"
  obtain r mm where mm: "MemoryManager_GetVector b t agent ?v (rs_mem s) = (r, mm)" by (cases "MemoryManager_GetVector b t agent ?v (rs_mem s)")
  have same: "grows (rs_mem s) mm"
    using column_GetVector [of _ _ b t agent ?v "rs_mem s"] mm by (intro grows_same) simp
  show ?thesis
  proof (cases r)
    case (Inl e)
    then show ?thesis using Some mm same by (simp add: processTextVariableCast_def)
  next
    case (Inr v')
    then obtain w where w: "v' = ?v" "column agent ?v (rs_mem s) = Some w" "vw_type w = t"
      using GetVector_Inr [of b t agent ?v "rs_mem s" v' mm] mm by auto
    moreover have "column agent ?v mm = Some w"
      using column_GetVector [of agent ?v b t agent ?v "rs_mem s"] mm w by simp
    ultimately have "grows mm (push_value agent v' x mm)"
      using assms [OF Some] by (intro grows_push [where w = w]) auto
    then show ?thesis
      using Some mm Inr grows_trans [OF same] by (simp add: processTextVariableCast_def)
  qed
qed

lemma grows_variable: "grows (rs_mem s) (rs_mem (snd (processTextVariable b fmt value agent s)))"
  by (auto simp: processTextVariable_def intro!: grows_cast split: option.split)

lemma grows_node: "grows (rs_mem s) (rs_mem (snd (processNode b fmt model nd s)))"
proof -
  have "grows (rs_mem s) (rs_mem (snd (processTextAgent b fmt model t s)))" for t
    using grows_variable by (auto simp: processTextAgent_def split: option.split)
  moreover have "rs_mem (snd (processStartNode n s)) = rs_mem s" for n
    by (simp add: processStartNode_def Let_def)
  moreover have "rs_mem (snd (processEndNode n s)) = rs_mem s" for n
    by (simp add: processEndNode_def)
  ultimately show ?thesis
    by (auto simp: processNode_def Let_def bindE_def returnE_def split: prod.splits sum.splits)
      (metis snd_conv grows_refl)+
qed

lemma grows_nodes:
  fixes s :: "'d reader_state"
  shows "grows (rs_mem s) (rs_mem (snd (process_nodes b fmt model nodes s)))"
  unfolding process_nodes_def
proof (rule forE_invariant [where P = "\<lambda>s'. grows (rs_mem s) (rs_mem s')"])
  fix nd and s' :: "'d reader_state" assume s': "grows (rs_mem s) (rs_mem s')"
  have "snd (bindE (processNode b fmt model nd) (\<lambda>_. returnE ()) s') = snd (processNode b fmt model nd s')"
    by (auto simp: bindE_def returnE_def split: prod.split sum.split)
  with grows_trans [OF s' grows_node]
  show "grows (rs_mem s) (rs_mem (snd (bindE (processNode b fmt model nd) (\<lambda>_. returnE ()) s')))"
    by simp
qed simp

section \<open>One agent of a population file\<close>

definition parse_value :: "'d text_format \<Rightarrow> dtype \<Rightarrow> string \<Rightarrow> 'd pop_value option" where
  "parse_value fmt t value =
     (if t = ''int'' then map_option VInt (tf_cast_int fmt value)
      else if t = ''double'' then map_option VDouble (tf_cast_double fmt value) else None)"

text \<open>The values that a column of a type receives from the agents of a file.\<close>

definition field_values :: "'d text_format \<Rightarrow> dtype \<Rightarrow> string \<Rightarrow> (string \<times> string) list \<Rightarrow> 'd pop_value list" where
  "field_values fmt t v fs = map (\<lambda>f. the (parse_value fmt t (snd f))) (filter (\<lambda>f. fst f = v) fs)"

definition received :: "'d text_format \<Rightarrow> dtype \<Rightarrow> string \<Rightarrow> string \<Rightarrow> written_agent list \<Rightarrow> 'd pop_value list" where
  "received fmt t a v recs =
     concat (map (\<lambda>r. if fst r = a then field_values fmt t v (snd r) else []) recs)"

definition after_reading ::
    "'d text_format \<Rightarrow> written_agent list \<Rightarrow> 'd pop_value memory_manager \<Rightarrow> 'd pop_value memory_manager \<Rightarrow> bool" where
  "after_reading fmt recs mm mm' \<longleftrightarrow>
     (\<forall>a v. column a v mm' =
        map_option (\<lambda>w. w\<lparr>vw_data := vw_data w @ received fmt (vw_type w) a v recs\<rparr>) (column a v mm))"

lemma received_simps [simp]:
  "received fmt t a v [] = []"
  "received fmt t a v (r # rs) = (if fst r = a then field_values fmt t v (snd r) else []) @ received fmt t a v rs"
  "received fmt t a v (rs @ rs') = received fmt t a v rs @ received fmt t a v rs'"
  by (simp_all add: received_def)

lemma field_values_simps [simp]:
  "field_values fmt t v [] = []"
  "field_values fmt t v (f # fs) =
    (if fst f = v then the (parse_value fmt t (snd f)) # field_values fmt t v fs else field_values fmt t v fs)"
  by (simp_all add: field_values_def)

lemma after_reading_column:
  "after_reading fmt recs mm mm' \<Longrightarrow> column a v mm' =
    map_option (\<lambda>w. w\<lparr>vw_data := vw_data w @ received fmt (vw_type w) a v recs\<rparr>) (column a v mm)"
  by (simp add: after_reading_def)

lemma after_reading_Nil [simp]: "after_reading fmt [] mm mm"
  by (simp add: after_reading_def option.map_ident)

lemma after_reading_append:
  assumes "after_reading fmt rs mm mm'" "after_reading fmt rs' mm' mm''"
  shows "after_reading fmt (rs @ rs') mm mm''"
  unfolding after_reading_def
proof (intro allI)
  fix a v
  show "column a v mm'' =
      map_option (\<lambda>w. w\<lparr>vw_data := vw_data w @ received fmt (vw_type w) a v (rs @ rs')\<rparr>) (column a v mm)"
    using after_reading_column [OF assms(1), of a v] after_reading_column [OF assms(2), of a v]
    by (cases "column a v mm") simp_all
qed

text \<open>A field that can be read into the memory: its variable, its column and its text.\<close>

definition field_readable ::
    "'d text_format \<Rightarrow> xmachine \<Rightarrow> 'd pop_value memory_manager \<Rightarrow> string \<times> string \<Rightarrow> bool" where
  "field_readable fmt agent mm f \<longleftrightarrow>
     fst f \<noteq> ''name'' \<and> fst f \<noteq> ''xagent'' \<and>
     (\<exists>var w. XMachine_getVariable agent (fst f) = Some var \<and> column (xa_name agent) (fst f) mm = Some w \<and>
        vw_type w = xv_type var \<and> parse_value fmt (xv_type var) (snd f) \<noteq> None)"

definition record_readable ::
    "'d text_format \<Rightarrow> 'v xmodel \<Rightarrow> 'd pop_value memory_manager \<Rightarrow> written_agent \<Rightarrow> bool" where
  "record_readable fmt model mm r \<longleftrightarrow>
     (\<exists>i. XModel_getAgent (fst r) model = Some i \<and> (\<forall>f \<in> set (snd r). field_readable fmt (xo_agents model ! i) mm f))"

lemma field_readable_stable:
  assumes "after_reading fmt recs mm mm'" "field_readable fmt agent mm f"
  shows "field_readable fmt agent mm' f"
  using assms(2) after_reading_column [OF assms(1), of "xa_name agent" "fst f"]
  unfolding field_readable_def by auto

lemma record_readable_stable:
  "after_reading fmt recs mm mm' \<Longrightarrow> record_readable fmt model mm r \<Longrightarrow> record_readable fmt model mm' r"
  unfolding record_readable_def using field_readable_stable by blast

lemma getAgent_name: "XModel_getAgent a model = Some i \<Longrightarrow> xa_name (xo_agents model ! i) = a"
  unfolding XModel_getAgent_def using find_index_Some [of "\<lambda>ag. a = xa_name ag"] by auto

definition in_agent :: "nat \<Rightarrow> 'd pop_value memory_manager \<Rightarrow> 'd reader_state" where
  "in_agent i mm = \<lparr>rs_tags = [''states'', ''xagent''], rs_agent = Some i, rs_mem = mm\<rparr>"

definition between_agents :: "'d pop_value memory_manager \<Rightarrow> 'd reader_state" where
  "between_agents mm = \<lparr>rs_tags = [''states''], rs_agent = None, rs_mem = mm\<rparr>"

lemma process_nodes_Cons:
  "processNode b fmt model nd s = (Inr c, s') \<Longrightarrow>
    process_nodes b fmt model (nd # nds) s = process_nodes b fmt model nds s'"
  by (simp add: process_nodes_def bindE_def returnE_def)

lemma process_nodes_append:
  "process_nodes b fmt model xs s = (Inr (), s') \<Longrightarrow>
    process_nodes b fmt model (xs @ ys) s = process_nodes b fmt model ys s'"
  by (simp add: process_nodes_def forE_append bindE_Inr)

lemma process_nodes_Nil: "process_nodes b fmt model [] s = (Inr (), s)"
  by (simp add: process_nodes_def returnE_def)

lemmas node_simps = processNode_def start_node_def text_node_def end_node_def processStartNode_def
  processEndNode_def bindE_def returnE_def

lemma read_text:
  assumes "field_readable fmt (xo_agents model ! i) mm (v, t)"
  shows "\<exists>mm'. processTextVariable b fmt t (xo_agents model ! i)
        \<lparr>rs_tags = [''states'', ''xagent'', v], rs_agent = Some i, rs_mem = mm\<rparr> =
      (Inr 0, \<lparr>rs_tags = [''states'', ''xagent'', v], rs_agent = Some i, rs_mem = mm'\<rparr>) \<and>
    after_reading fmt [(xa_name (xo_agents model ! i), [(v, t)])] mm mm'"
proof -
  let ?a = "xa_name (xo_agents model ! i)"
  obtain var w x where var: "XMachine_getVariable (xo_agents model ! i) v = Some var"
      "column ?a v mm = Some w" "vw_type w = xv_type var" "parse_value fmt (xv_type var) t = Some x"
    using assms by (auto simp: field_readable_def)
  define mm1 where "mm1 = snd (MemoryManager_GetVector b (xv_type var) ?a v mm)"
  have get: "MemoryManager_GetVector b (xv_type var) ?a v mm = (Inr v, mm1)"
    using GetVector_succeeds [OF var(2,3), of b] by (simp add: mm1_def)
  have "after_reading fmt [(?a, [(v, t)])] mm (push_value ?a v x mm1)"
    unfolding after_reading_def
  proof (intro allI)
    fix a' v'
    have "column a' v' mm1 = column a' v' mm" "column ?a v mm1 = Some w"
      unfolding mm1_def using var(2) by (simp_all add: column_GetVector)
    with var show "column a' v' (push_value ?a v x mm1) = map_option
        (\<lambda>w. w\<lparr>vw_data := vw_data w @ received fmt (vw_type w) a' v' [(?a, [(v, t)])]\<rparr>) (column a' v' mm)"
      by (cases "a' = ?a"; cases "v' = v") (auto simp: column_push_value option.map_ident)
  qed
  then show ?thesis using var(1,4) get
    by (auto simp: processTextVariable_def processTextVariableCast_def parse_value_def split: if_splits)
qed

lemma read_field:
  assumes "field_readable fmt (xo_agents model ! i) mm (v, t)"
  shows "\<exists>mm'. process_nodes b fmt model (tree_nodes (Element v [] [Text t])) (in_agent i mm) =
      (Inr (), in_agent i mm') \<and>
    after_reading fmt [(xa_name (xo_agents model ! i), [(v, t)])] mm mm'"
proof -
  have v: "v \<noteq> ''name''" "v \<noteq> ''xagent''" using assms unfolding field_readable_def by auto
  obtain mm' where mm': "processTextVariable b fmt t (xo_agents model ! i)
        \<lparr>rs_tags = [''states'', ''xagent'', v], rs_agent = Some i, rs_mem = mm\<rparr> =
      (Inr 0, \<lparr>rs_tags = [''states'', ''xagent'', v], rs_agent = Some i, rs_mem = mm'\<rparr>)"
    "after_reading fmt [(xa_name (xo_agents model ! i), [(v, t)])] mm mm'"
    using read_text [OF assms] by blast
  have s1: "processNode b fmt model (start_node v) (in_agent i mm) =
      (Inr 0, \<lparr>rs_tags = [''states'', ''xagent'', v], rs_agent = Some i, rs_mem = mm\<rparr>)"
    by (simp add: node_simps in_agent_def)
  have s2: "processNode b fmt model (text_node t)
        \<lparr>rs_tags = [''states'', ''xagent'', v], rs_agent = Some i, rs_mem = mm\<rparr> =
      (Inr 0, \<lparr>rs_tags = [''states'', ''xagent'', v], rs_agent = Some i, rs_mem = mm'\<rparr>)"
    using v mm'(1) by (simp add: processNode_def text_node_def processTextAgent_def)
  have s3: "processNode b fmt model (end_node v)
        \<lparr>rs_tags = [''states'', ''xagent'', v], rs_agent = Some i, rs_mem = mm'\<rparr> = (Inr 0, in_agent i mm')"
    using v by (simp add: node_simps in_agent_def)
  have "process_nodes b fmt model (tree_nodes (Element v [] [Text t])) (in_agent i mm) = (Inr (), in_agent i mm')"
    by (simp add: process_nodes_Cons [OF s1] process_nodes_Cons [OF s2] process_nodes_Cons [OF s3] process_nodes_Nil)
  with mm'(2) show ?thesis by blast
qed

lemma read_fields:
  assumes "\<forall>f \<in> set fs. field_readable fmt (xo_agents model ! i) mm f"
  shows "\<exists>mm'. process_nodes b fmt model (concat (map (\<lambda>(v, t). tree_nodes (Element v [] [Text t])) fs))
        (in_agent i mm) = (Inr (), in_agent i mm') \<and>
    after_reading fmt (map (\<lambda>f. (xa_name (xo_agents model ! i), [f])) fs) mm mm'"
  using assms
proof (induction fs arbitrary: mm)
  case Nil
  then show ?case by (auto simp: process_nodes_Nil intro: exI [of _ mm])
next
  case (Cons f fs)
  obtain v t where f: "f = (v, t)" by (cases f)
  obtain mm1 where mm1: "process_nodes b fmt model (tree_nodes (Element v [] [Text t])) (in_agent i mm) =
      (Inr (), in_agent i mm1)" "after_reading fmt [(xa_name (xo_agents model ! i), [(v, t)])] mm mm1"
    using read_field [of fmt model i mm v t b] Cons.prems f by auto
  have "\<forall>f \<in> set fs. field_readable fmt (xo_agents model ! i) mm1 f"
    using Cons.prems field_readable_stable [OF mm1(2)] by auto
  from Cons.IH [OF this] obtain mm2 where mm2:
    "process_nodes b fmt model (concat (map (\<lambda>(v, t). tree_nodes (Element v [] [Text t])) fs)) (in_agent i mm1) =
      (Inr (), in_agent i mm2)"
    "after_reading fmt (map (\<lambda>f. (xa_name (xo_agents model ! i), [f])) fs) mm1 mm2" by blast
  have "process_nodes b fmt model (concat (map (\<lambda>(v, t). tree_nodes (Element v [] [Text t])) (f # fs)))
      (in_agent i mm) = (Inr (), in_agent i mm2)"
    using process_nodes_append [OF mm1(1)] mm2(1) f by (simp del: tree_nodes.simps)
  moreover have "after_reading fmt (map (\<lambda>f. (xa_name (xo_agents model ! i), [f])) (f # fs)) mm mm2"
    using after_reading_append [OF mm1(2) mm2(2)] f by simp
  ultimately show ?case by blast
qed

lemma received_fields: "received fmt t a v (map (\<lambda>f. (a', [f])) fs) = received fmt t a v [(a', fs)]"
  by (induction fs) auto

lemma after_reading_fields:
  "after_reading fmt (map (\<lambda>f. (a, [f])) fs) mm mm' = after_reading fmt [(a, fs)] mm mm'"
  unfolding after_reading_def received_fields ..

lemma record_nodes:
  "tree_nodes (record_tree (a, fs)) =
    [start_node ''xagent'', start_node ''name'', text_node a, end_node ''name''] @
    concat (map (\<lambda>(v, t). tree_nodes (Element v [] [Text t])) fs) @ [end_node ''xagent'']"
  by (simp add: record_tree_def comp_def case_prod_unfold)

lemma read_record:
  assumes "record_readable fmt model mm (a, fs)"
  shows "\<exists>mm'. process_nodes b fmt model (tree_nodes (record_tree (a, fs))) (between_agents mm) =
      (Inr (), between_agents mm') \<and> after_reading fmt [(a, fs)] mm mm'"
proof -
  obtain i where i: "XModel_getAgent a model = Some i"
      "\<forall>f \<in> set fs. field_readable fmt (xo_agents model ! i) mm f"
    using assms by (auto simp: record_readable_def)
  have s1: "processNode b fmt model (start_node ''xagent'') (between_agents mm) =
      (Inr 0, \<lparr>rs_tags = [''states'', ''xagent''], rs_agent = None, rs_mem = mm\<rparr>)"
    by (simp add: node_simps between_agents_def)
  have s2: "processNode b fmt model (start_node ''name'')
        \<lparr>rs_tags = [''states'', ''xagent''], rs_agent = None, rs_mem = mm\<rparr> =
      (Inr 0, \<lparr>rs_tags = [''states'', ''xagent'', ''name''], rs_agent = None, rs_mem = mm\<rparr>)"
    by (simp add: node_simps)
  have s3: "processNode b fmt model (text_node a)
        \<lparr>rs_tags = [''states'', ''xagent'', ''name''], rs_agent = None, rs_mem = mm\<rparr> =
      (Inr 0, \<lparr>rs_tags = [''states'', ''xagent'', ''name''], rs_agent = Some i, rs_mem = mm\<rparr>)"
    using i(1) by (simp add: processNode_def text_node_def processTextAgent_def)
  have s4: "processNode b fmt model (end_node ''name'')
        \<lparr>rs_tags = [''states'', ''xagent'', ''name''], rs_agent = Some i, rs_mem = mm\<rparr> = (Inr 0, in_agent i mm)"
    by (simp add: node_simps in_agent_def)
  obtain mm' where mm': "process_nodes b fmt model (concat (map (\<lambda>(v, t). tree_nodes (Element v [] [Text t])) fs))
        (in_agent i mm) = (Inr (), in_agent i mm')" "after_reading fmt [(a, fs)] mm mm'"
    using read_fields [OF i(2), of b] unfolding getAgent_name [OF i(1)] after_reading_fields by blast
  have s5: "processNode b fmt model (end_node ''xagent'') (in_agent i mm') = (Inr 0, between_agents mm')"
    by (simp add: node_simps in_agent_def between_agents_def)
  have "process_nodes b fmt model (tree_nodes (record_tree (a, fs))) (between_agents mm) =
      (Inr (), between_agents mm')"
    unfolding record_nodes append.simps
    unfolding process_nodes_Cons [OF s1] process_nodes_Cons [OF s2] process_nodes_Cons [OF s3]
      process_nodes_Cons [OF s4] process_nodes_append [OF mm'(1)] process_nodes_Cons [OF s5]
    by (rule process_nodes_Nil)
  with mm'(2) show ?thesis by blast
qed

section \<open>A population file\<close>

lemma read_records:
  assumes "\<forall>r \<in> set recs. record_readable fmt model mm r"
  shows "\<exists>mm'. process_nodes b fmt model (concat (map tree_nodes (map record_tree recs))) (between_agents mm) =
      (Inr (), between_agents mm') \<and> after_reading fmt recs mm mm'"
  using assms
proof (induction recs arbitrary: mm)
  case Nil
  then show ?case by (auto simp: process_nodes_Nil intro: exI [of _ mm])
next
  case (Cons r recs)
  obtain a fs where r: "r = (a, fs)" by (cases r)
  obtain mm1 where mm1: "process_nodes b fmt model (tree_nodes (record_tree r)) (between_agents mm) =
      (Inr (), between_agents mm1)" "after_reading fmt [r] mm mm1"
    using read_record [of fmt model mm a fs b] Cons.prems r by auto
  have "\<forall>r \<in> set recs. record_readable fmt model mm1 r"
    using Cons.prems record_readable_stable [OF mm1(2)] by auto
  from Cons.IH [OF this] obtain mm2 where mm2:
    "process_nodes b fmt model (concat (map tree_nodes (map record_tree recs))) (between_agents mm1) =
      (Inr (), between_agents mm2)" "after_reading fmt recs mm1 mm2" by blast
  have "process_nodes b fmt model (concat (map tree_nodes (map record_tree (r # recs)))) (between_agents mm) =
      (Inr (), between_agents mm2)"
    using process_nodes_append [OF mm1(1)] mm2(1) by simp
  moreover have "after_reading fmt (r # recs) mm mm2"
    using after_reading_append [OF mm1(2) mm2(2)] by simp
  ultimately show ?case by blast
qed

text \<open>White space, comments and the other nodes are passed over.\<close>

lemma process_content: "process_nodes b fmt model nodes s = process_nodes b fmt model (filter is_content nodes) s"
proof (induction nodes arbitrary: s)
  case Nil
  then show ?case by simp
next
  case (Cons nd nodes)
  show ?case
  proof (cases "is_content nd")
    case True
    with Cons show ?thesis by (auto simp: process_nodes_def bindE_def returnE_def split: prod.split sum.split)
  next
    case False
    then have "processNode b fmt model nd s = (Inr 0, s)" by (simp add: processNode_def is_content_def)
    with Cons False show ?thesis by (simp add: process_nodes_Cons)
  qed
qed

lemma read_population:
  assumes "filter is_content nodes = tree_nodes (population_tree it recs)"
    and "\<forall>r \<in> set recs. record_readable fmt model mm r"
  shows "\<exists>mm'. IOXMLPop_readPop b fmt (Some (nodes, 0)) model (pop, mm) =
      (Inr (), IOXMLPop_saveAgentVariableData model pop, mm') \<and> after_reading fmt recs mm mm'"
proof -
  let ?t = "decimal_int (sint (ucast it :: 32 word))"
  have nodes: "tree_nodes (population_tree it recs) =
      [start_node ''states'', start_node ''itno'', text_node ?t, end_node ''itno''] @
      concat (map tree_nodes (map record_tree recs)) @ [end_node ''states'']"
    by (simp add: population_tree_def)
  obtain mm' where mm': "process_nodes b fmt model (concat (map tree_nodes (map record_tree recs)))
      (between_agents mm) = (Inr (), between_agents mm')" "after_reading fmt recs mm mm'"
    using read_records [OF assms(2), of b] by blast
  have s: "processNode b fmt model (start_node ''states'') \<lparr>rs_tags = [], rs_agent = None, rs_mem = mm\<rparr> =
      (Inr 0, between_agents mm)"
    "processNode b fmt model (start_node ''itno'') (between_agents mm) =
      (Inr 0, \<lparr>rs_tags = [''states'', ''itno''], rs_agent = None, rs_mem = mm\<rparr>)"
    "processNode b fmt model (text_node ?t) \<lparr>rs_tags = [''states'', ''itno''], rs_agent = None, rs_mem = mm\<rparr> =
      (Inr 0, \<lparr>rs_tags = [''states'', ''itno''], rs_agent = None, rs_mem = mm\<rparr>)"
    "processNode b fmt model (end_node ''itno'') \<lparr>rs_tags = [''states'', ''itno''], rs_agent = None, rs_mem = mm\<rparr> =
      (Inr 0, between_agents mm)"
    "processNode b fmt model (end_node ''states'') (between_agents mm') =
      (Inr 0, \<lparr>rs_tags = [], rs_agent = None, rs_mem = mm'\<rparr>)"
    by (simp_all add: node_simps between_agents_def)
  have "process_nodes b fmt model nodes \<lparr>rs_tags = [], rs_agent = None, rs_mem = mm\<rparr> =
      (Inr (), \<lparr>rs_tags = [], rs_agent = None, rs_mem = mm'\<rparr>)"
    unfolding process_content [of b fmt model nodes] assms(1) nodes append.simps
    unfolding process_nodes_Cons [OF s(1)] process_nodes_Cons [OF s(2)] process_nodes_Cons [OF s(3)]
      process_nodes_Cons [OF s(4)] process_nodes_append [OF mm'(1)] process_nodes_Cons [OF s(5)]
    by (rule process_nodes_Nil)
  with mm'(2) show ?thesis by (auto simp: IOXMLPop_readPop_def)
qed

end
