(* ===== verification/Population_Files.thy ===== *)
theory Population_Files
  imports Population_Input
begin

text \<open>
  Populations that are written by \<open>Population_Output\<close> and read by \<open>Population_Input\<close>: what a file
  restores, and what the reader makes of other files.
\<close>

section \<open>Writing and reading back\<close>

text \<open>The library's conversions: a cast recognises what the conversions to text produce.\<close>

definition conversions_ok :: "'d text_format \<Rightarrow> bool" where
  "conversions_ok fmt \<longleftrightarrow>
     (\<forall>i. tf_cast_int fmt (decimal_int (sint i)) = Some i) \<and>
     (\<forall>x. tf_double fmt x \<noteq> [] \<and> tf_cast_double fmt (tf_double fmt x) \<noteq> None)"

text \<open>What is left of a value after it has been written and read: a double keeps what \<open>%f\<close> prints.\<close>

definition restored :: "'d text_format \<Rightarrow> 'd pop_value \<Rightarrow> 'd pop_value" where
  "restored fmt v =
     (case v of VInt i \<Rightarrow> VInt i | VDouble x \<Rightarrow> VDouble (the (tf_cast_double fmt (tf_double fmt x))))"

lemma parse_field_text:
  "conversions_ok fmt \<Longrightarrow> has_type t x \<Longrightarrow> parse_value fmt t (field_text fmt x) = Some (restored fmt x)"
  by (cases x) (auto simp: conversions_ok_def parse_value_def field_text_def restored_def)

text \<open>
  A second memory that can take the population: the model knows the agent types and variables, and
  the columns have the same types and are empty.
\<close>

definition restorable ::
    "'v xmodel \<Rightarrow> (string \<times> string list) list \<Rightarrow> 'd pop_value memory_manager \<Rightarrow> 'd pop_value memory_manager \<Rightarrow> bool" where
  "restorable model avm mm mm0 \<longleftrightarrow>
     (\<forall>(a, vs) \<in> set avm. a \<noteq> [] \<and> vs \<noteq> [] \<and> distinct vs \<and>
        (\<exists>i. XModel_getAgent a model = Some i \<and>
           (\<forall>v \<in> set vs. v \<noteq> ''name'' \<and> v \<noteq> ''xagent'' \<and>
              (\<exists>var w w0. XMachine_getVariable (xo_agents model ! i) v = Some var \<and>
                 column a v mm = Some w \<and> xv_type var = vw_type w \<and>
                 column a v mm0 = Some w0 \<and> vw_type w0 = vw_type w \<and> vw_data w0 = []))))"

lemma received_concat: "received fmt t a v (concat rss) = concat (map (received fmt t a v) rss)"
  by (induction rss) auto

lemma field_values_distinct:
  "distinct vs \<Longrightarrow> field_values fmt t v (map (\<lambda>v. (v, f v)) vs) =
    (if v \<in> set vs then [the (parse_value fmt t (f v))] else [])"
  by (induction vs) auto

lemma received_other: "fst p \<noteq> a \<Longrightarrow> received fmt t a v (agent_records fmt' mm p) = []"
  by (simp add: received_def agent_records_def agent_record_def comp_def)

lemma map_indices: "map (\<lambda>k. f (xs ! k)) [0..<length xs] = map f xs"
  by (rule nth_equalityI) auto

lemma received_own:
  assumes "conversions_ok fmt" "uniform mm a vs n" "distinct vs" "v \<in> set vs" "column a v mm = Some w"
  shows "received fmt (vw_type w) a v (agent_records fmt mm (a, vs)) = map (restored fmt) (vw_data w)"
proof -
  obtain u vs' where vs: "vs = u # vs'" using assms(4) by (cases vs) auto
  have "length (vw_data (the (column a (hd vs) mm))) = n" using assms(2) vs by (auto simp: uniform_def)
  moreover have n: "length (vw_data w) = n" "col_ok w" using assms(2,4,5) by (auto simp: uniform_def)
  ultimately have "received fmt (vw_type w) a v (agent_records fmt mm (a, vs)) =
      concat (map (\<lambda>k. [the (parse_value fmt (vw_type w) (field_text fmt (vw_data w ! k)))]) [0..<length (vw_data w)])"
    using assms(3-5) by (simp add: received_def agent_records_def agent_record_def comp_def field_values_distinct)
  also have "\<dots> = map (\<lambda>x. the (parse_value fmt (vw_type w) (field_text fmt x))) (vw_data w)"
    unfolding concat_map_singleton by (rule map_indices)
  also have "\<dots> = map (restored fmt) (vw_data w)"
    using n(2) parse_field_text [OF assms(1)] by (auto simp: col_ok_def list_all_iff)
  finally show ?thesis .
qed

lemma received_population:
  assumes "conversions_ok fmt" "population_ok avm mm" "distinct (map fst avm)"
    and "(a, vs) \<in> set avm" "distinct vs" "v \<in> set vs" "column a v mm = Some w"
  shows "received fmt (vw_type w) a v (concat (map (agent_records fmt mm) avm)) = map (restored fmt) (vw_data w)"
proof -
  obtain xs ys where avm: "avm = xs @ (a, vs) # ys" using split_list [OF assms(4)] by auto
  have "fst p \<noteq> a" if "p \<in> set xs \<union> set ys" for p using assms(3) that avm by (force simp: image_iff)
  then have "received fmt (vw_type w) a v (concat (map (agent_records fmt mm) xs)) = []"
    "received fmt (vw_type w) a v (concat (map (agent_records fmt mm) ys)) = []"
    by (auto simp: received_concat received_other)
  moreover obtain n where "uniform mm a vs n" using assms(2,4) by (auto simp: population_ok_def)
  ultimately show ?thesis using received_own [OF assms(1) _ assms(5-7)] avm by simp
qed

lemma population_readable:
  assumes "conversions_ok fmt" "population_ok avm mm" "restorable model avm mm mm0"
  shows "\<forall>r \<in> set (concat (map (agent_records fmt mm) avm)). record_readable fmt model mm0 r"
proof
  fix r assume "r \<in> set (concat (map (agent_records fmt mm) avm))"
  then obtain a vs k where p: "(a, vs) \<in> set avm" and r: "r = agent_record fmt mm a vs k"
    and k: "k < length (vw_data (the (column a (hd vs) mm)))"
    by (auto simp: agent_records_def)
  obtain n where u: "uniform mm a vs n" using assms(2) p by (auto simp: population_ok_def)
  obtain i where i: "vs \<noteq> []" "XModel_getAgent a model = Some i"
    "\<And>v. v \<in> set vs \<Longrightarrow> v \<noteq> ''name'' \<and> v \<noteq> ''xagent'' \<and>
              (\<exists>var w w0. XMachine_getVariable (xo_agents model ! i) v = Some var \<and>
                 column a v mm = Some w \<and> xv_type var = vw_type w \<and>
                 column a v mm0 = Some w0 \<and> vw_type w0 = vw_type w \<and> vw_data w0 = [])"
    using assms(3) p unfolding restorable_def by fastforce
  have kn: "k < n" using u k i(1) by (cases vs) (auto simp: uniform_def)
  have "field_readable fmt (xo_agents model ! i) mm0 (v, field_text fmt (vw_data (the (column a v mm)) ! k))"
    if v: "v \<in> set vs" for v
  proof -
    obtain var w w0 where w: "XMachine_getVariable (xo_agents model ! i) v = Some var"
      "column a v mm = Some w" "xv_type var = vw_type w" "column a v mm0 = Some w0" "vw_type w0 = vw_type w"
      using i(3) [OF v] by blast
    have "has_type (vw_type w) (vw_data w ! k)"
      using u v w(2) kn by (auto simp: uniform_def col_ok_def list_all_length)
    then show ?thesis
      using i(3) [OF v] w parse_field_text [OF assms(1)] getAgent_name [OF i(2)] by (simp add: field_readable_def)
  qed
  then show "record_readable fmt model mm0 r"
    using i(2) r by (auto simp: record_readable_def agent_record_def)
qed

text \<open>The reader reports the whole document.\<close>

lemma population_plain:
  assumes "conversions_ok fmt" "restorable model avm mm mm0"
    and "r \<in> set (concat (map (agent_records fmt mm) avm))"
  shows "plain_tree (record_tree r)"
proof -
  obtain a vs k where r: "r = agent_record fmt mm a vs k" "(a, vs) \<in> set avm"
    using assms(3) by (auto simp: agent_records_def)
  have "a \<noteq> []" using assms(2) r(2) by (auto simp: restorable_def)
  moreover have "field_text fmt x \<noteq> []" for x
    using assms(1) by (auto simp: field_text_def conversions_ok_def decimal_int_def split: pop_value.split)
  ultimately show ?thesis
    using r(1) by (simp add: record_tree_def agent_record_def list_all_iff)
qed

lemma population_nodes:
  assumes "\<And>r. r \<in> set recs \<Longrightarrow> plain_tree (record_tree r)"
  shows "call_nodes [] (document_calls (population_tree it recs)) = tree_nodes (population_tree it recs)"
  unfolding population_tree_def
  by (rule call_nodes_document) (use assms in \<open>auto simp: list_all_iff decimal_int_def\<close>)

section \<open>Properties\<close>


definition sample_conversions :: "nat text_format" where
  "sample_conversions =
     \<lparr>tf_double = decimal, tf_cast_int = (\<lambda>s. Some (word_of_int (decimal_int_value s))),
      tf_cast_double = (\<lambda>s. Some (decimal_value s))\<rparr>"

definition sample_people :: "nat pop_value list \<Rightarrow> nat pop_value list \<Rightarrow> nat pop_value memory_manager" where
  "sample_people xs ys =
     \<lparr>agent_map = [(''a'', \<lparr>am_name = ''a'',
        mem_map = [(''x'', \<lparr>vw_type = ''int'', vw_data = xs\<rparr>), (''y'', \<lparr>vw_type = ''double'', vw_data = ys\<rparr>)],
        cached_size = 0, registration_closed = False\<rparr>)]\<rparr>"

definition people_model :: "nat xmodel" where
  "people_model = XModel_new\<lparr>xo_agents :=
     [XMachine_addVariable ''double'' ''y'' (XMachine_addVariable ''int'' ''x'' (XMachine_setName ''a'' XMachine_new))]\<rparr>"

lemma sample_facts:
  "conversions_ok sample_conversions"
  "population_ok [(''a'', [''x'', ''y''])] (sample_people [VInt 7, VInt (- 8)] [VDouble 1, VDouble 2])"
  "restorable people_model [(''a'', [''x'', ''y''])] (sample_people [VInt 7, VInt (- 8)] [VDouble 1, VDouble 2])
     (sample_people [] [])"
  by (auto simp: conversions_ok_def sample_conversions_def population_ok_def uniform_def sample_people_def
      column_def col_ok_def omap_has_def restorable_def people_model_def XModel_getAgent_def XMachine_setName_def
      XMachine_addVariable_def XMachine_getVariable_def XMachine_new_def new_variable_def XVariable_new_def)


text \<open>
  C30. Whatever nodes a population file has, and also when reading it fails, reading changes the
  memory in one way only: to the columns that exist, values of their type are appended; no column
  appears, disappears, changes its type or loses a value.
\<close>

theorem reading_appends_typed_values:
  "grows mm (snd (snd (IOXMLPop_readPop b fmt reader model (pop, mm))))"
proof (cases reader)
  case None
  then show ?thesis by (simp add: IOXMLPop_readPop_def)
next
  case (Some p)
  obtain nodes ret where p: "p = (nodes, ret)" by (cases p)
  let ?s = "\<lparr>rs_tags = [], rs_agent = None, rs_mem = mm\<rparr>"
  obtain r s where s: "process_nodes b fmt model nodes ?s = (r, s)" by (cases "process_nodes b fmt model nodes ?s")
  have "grows mm (rs_mem s)" using grows_nodes [of ?s b fmt model nodes] s by simp
  then show ?thesis using Some p s by (cases r) (auto simp: IOXMLPop_readPop_def)
qed

text \<open>
  An element without content, for which the pull reader reports no end, stays open for the
  program: written as \<open><x/>\<close> in the place of a variable it makes the next element of the file an
  unknown tag, whatever it is.
\<close>

theorem empty_element_rejects_file:
  assumes "length (rs_tags s) = 2"
  shows "fst (process_nodes b fmt model (tree_nodes (Element v [] []) @ tree_nodes (Element u as cs) @ nodes) s) =
    Inl (unparseable_file (''Unknown xml tag: '' @ u))"
  using assms
  by (auto simp: process_nodes_def node_simps eval_nat_numeral)

theorem empty_element_rejects_file_witness:
  "fst (process_nodes Debug sample_conversions people_model
      (tree_nodes (Element ''s'' [] []) @ tree_nodes (Element ''x'' [] [Text ''7'']) @ [end_node ''xagent''])
      (in_agent 0 (sample_people [] []))) = Inl (unparseable_file ''Unknown xml tag: x'')"
  using empty_element_rejects_file [of "in_agent 0 (sample_people [] [])" Debug sample_conversions people_model
      "''s''" "''x''" "[]" "[Text ''7'']" "[end_node ''xagent'']"]
  by (simp add: in_agent_def)

lemma GetVectorWrapper_unknown:
  assumes "omap_has (agent_map mm) a" "column a v mm = None"
  shows "fst (MemoryManager_GetVectorWrapper a v mm) = Inl (invalid_variable ''Invalid agent memory variable'')"
  using assms by (auto simp: MemoryManager_GetVectorWrapper_def MemoryManager_GetAgentMemory_def
      AgentMemory_GetVectorWrapper_def column_def omap_has_def Let_def split: option.splits)

lemma collect_vars_unknown:
  assumes "omap_has (agent_map mm) a" "v \<in> set vs" "column a v mm = None"
  shows "fst (collect_vars a vs mm) = Inl (invalid_variable ''Invalid agent memory variable'')"
  using assms
proof (induction vs arbitrary: mm)
  case Nil
  then show ?case by simp
next
  case (Cons u us)
  show ?case
  proof (cases "column a u mm")
    case None
    with GetVectorWrapper_unknown [OF Cons.prems(1) None] show ?thesis
      by (auto simp: bindE_def split: prod.splits)
  next
    case (Some w)
    obtain mm1 where mm1: "MemoryManager_GetVectorWrapper a u mm = (Inr u, mm1)" "same_columns mm mm1"
      using GetVectorWrapper_column [OF Some] by blast
    have "column a u mm1 = Some w" "omap_has (agent_map mm1) a" "column a v mm1 = None"
      using mm1(2) Some Cons.prems by (simp_all add: same_columns_def)
    moreover have "v \<in> set us" using Cons.prems Some by auto
    ultimately have "fst (collect_vars a us mm1) = Inl (invalid_variable ''Invalid agent memory variable'')"
      and "raw_ptr_of a u mm1 = (Inr (pointer (length (vw_data w)) 0), mm1)"
      using Cons.IH [of mm1] raw_ptr_of_column by blast+
    then show ?thesis using mm1(1) by (auto simp: bindE_def split: prod.splits)
  qed
qed

text \<open>
  A variable that the memory manager does not have, as those of the types \<open>float\<close>, \<open>char\<close> and of
  the model's own data types, stops the output of the whole population.
\<close>

theorem unregistered_variable_stops_output:
  assumes "xml_pop_path_is_set pop" "can_open (pop_file_name pop)" "never_fails rc"
    and "agentVarMap pop = (a, vs) # rest" "omap_has (agent_map mm) a" "v \<in> set vs" "column a v mm = None"
  shows "\<exists>mm' calls. IOXMLPop_finaliseData fmt can_open rc pop mm =
    Some (Inl (invalid_variable ''Invalid agent memory variable''), mm', calls)"
proof -
  obtain mm' where "collect_vars a vs mm = (Inl (invalid_variable ''Invalid agent memory variable''), mm')"
    using collect_vars_unknown [OF assms(5-7)] by (cases "collect_vars a vs mm") auto
  then show ?thesis using assms(1,2,4)
    by (simp add: IOXMLPop_finaliseData_def writes_pop_head [OF assms(3)] write_agent_type_def)
qed

theorem unregistered_variable_stops_output_witness:
  "\<exists>mm' calls. IOXMLPop_finaliseData sample_conversions (\<lambda>_. True) (\<lambda>_ _. 0) (sample_pop [(''a'', [''x'', ''f''])])
      (sample_people [] []) = Some (Inl (invalid_variable ''Invalid agent memory variable''), mm', calls)"
  using unregistered_variable_stops_output [of "sample_pop [(''a'', [''x'', ''f''])]" "\<lambda>_. True" "\<lambda>_ _. 0"
      "''a''" "[''x'', ''f'']" "[]" "sample_people [] []" "''f''" sample_conversions]
  by (simp add: sample_pop_def never_fails_def sample_people_def omap_has_def column_def)

end
