(* ===== verification/Conditions.thy ===== *)
theory Conditions
  imports Graph_Library
begin

text \<open>
  Processing and validation of the conditions of transition functions and the filters of
  their inputs: \<open>src/flame2/model/xcondition.cpp\<close>. A condition as read in has its symbols as
  strings; \<open>processSymbols\<close> replaces them and sets the flags, \<open>validate\<close> looks the variables up
  in the agent and the message. Both return the number of errors; the messages they print are
  not modelled. The casts of \<open>boost::lexical_cast\<close> are parameters.
\<close>

section \<open>Symbols\<close>

text \<open>
  The symbols of a condition as read in are strings: \<open>a.x\<close> is a variable of the agent, \<open>m.x\<close>
  one of the message, anything else a number.
\<close>

definition has_prefix :: "char \<Rightarrow> string \<Rightarrow> bool" where
  "has_prefix c s \<longleftrightarrow> take 2 s = [c, CHR ''.'']"

definition XCondition_processSymbolsTime :: "library \<Rightarrow> cond_data \<Rightarrow> nat \<times> cond_data" where
  "XCondition_processSymbolsTime lib d =
     (let (e1, d1) =
            (if has_prefix CHR ''a'' (xc_timePhaseVariable d)
             then (0, d\<lparr>xc_timePhaseVariable := drop 2 (xc_timePhaseVariable d), xc_timePhaseIsVariable := True\<rparr>)
             else case cast_int lib (xc_timePhaseVariable d) of
                    Some i \<Rightarrow> (0, d\<lparr>xc_timePhaseIsVariable := False, xc_timePhaseValue := i\<rparr>)
                  | None \<Rightarrow> (1, d\<lparr>xc_timePhaseIsVariable := False\<rparr>))
      in if xc_foundTimeDuration d1
         then case cast_int lib (xc_timeDurationString d1) of
                Some i \<Rightarrow> (e1, d1\<lparr>xc_timeDuration := i\<rparr>)
              | None \<Rightarrow> (e1 + 1, d1)
         else (e1, d1))"

text \<open>One side of a comparison: symbol, agent variable?, value?, message variable?, number.\<close>

type_synonym side = "string \<times> bool \<times> bool \<times> bool \<times> real"

definition XCondition_processSymbolsValue :: "library \<Rightarrow> side \<Rightarrow> nat \<times> side" where
  "XCondition_processSymbolsValue lib = (\<lambda>(hs, isAgentVariable, isValue, isMessageVariable, dbl).
     if has_prefix CHR ''a'' hs then (0, drop 2 hs, True, False, isMessageVariable, dbl)
     else if has_prefix CHR ''m'' hs then (0, drop 2 hs, isAgentVariable, False, True, dbl)
     else case cast_double lib hs of
            Some r \<Rightarrow> (0, hs, isAgentVariable, True, isMessageVariable, r)
          | None \<Rightarrow> (1, hs, isAgentVariable, True, isMessageVariable, dbl))"

definition lhs_side :: "cond_data \<Rightarrow> side" where
  "lhs_side d = (xc_lhs d, xc_lhsIsAgentVariable d, xc_lhsIsValue d, xc_lhsIsMessageVariable d, xc_lhsDouble d)"

definition rhs_side :: "cond_data \<Rightarrow> side" where
  "rhs_side d = (xc_rhs d, xc_rhsIsAgentVariable d, xc_rhsIsValue d, xc_rhsIsMessageVariable d, xc_rhsDouble d)"

definition put_lhs :: "side \<Rightarrow> cond_data \<Rightarrow> cond_data" where
  "put_lhs = (\<lambda>(hs, a, v, m, r) d. d\<lparr>xc_lhs := hs, xc_lhsIsAgentVariable := a, xc_lhsIsValue := v,
     xc_lhsIsMessageVariable := m, xc_lhsDouble := r\<rparr>)"

definition put_rhs :: "side \<Rightarrow> cond_data \<Rightarrow> cond_data" where
  "put_rhs = (\<lambda>(hs, a, v, m, r) d. d\<lparr>xc_rhs := hs, xc_rhsIsAgentVariable := a, xc_rhsIsValue := v,
     xc_rhsIsMessageVariable := m, xc_rhsDouble := r\<rparr>)"

text \<open>An operator that is not in the table is an error and stays as it is.\<close>

definition process_operator :: "(string \<times> string) list \<Rightarrow> cond_data \<Rightarrow> nat \<times> cond_data" where
  "process_operator table d =
     (case map_of table (xc_op d) of Some op \<Rightarrow> (0, d\<lparr>xc_op := op\<rparr>) | None \<Rightarrow> (1, d))"

definition comparison_operators :: "(string \<times> string) list" where
  "comparison_operators =
     [(''EQ'', ''==''), (''NEQ'', ''!=''), (''LEQ'', ''<=''), (''GEQ'', ''>=''), (''LT'', ''<''), (''GT'', ''>'')]"

definition logic_operators :: "(string \<times> string) list" where
  "logic_operators = [(''AND'', ''&&''), (''OR'', ''||'')]"

definition XCondition_processSymbolsValues :: "library \<Rightarrow> cond_data \<Rightarrow> nat \<times> cond_data" where
  "XCondition_processSymbolsValues lib d =
     (case XCondition_processSymbolsValue lib (lhs_side d) of (e1, l) \<Rightarrow>
        (case XCondition_processSymbolsValue lib (rhs_side d) of (e2, r) \<Rightarrow>
           (case process_operator comparison_operators (put_rhs r (put_lhs l d)) of (e3, d') \<Rightarrow> (e1 + e2 + e3, d'))))"

text \<open>
  The nested conditions are processed first; the function is given the results of doing so,
  a null pointer is followed to undefined behaviour.
\<close>

definition XCondition_processSymbolsConditions ::
  "(exn + nat \<times> xcondition) \<Rightarrow> (exn + nat \<times> xcondition) \<Rightarrow> cond_data \<Rightarrow> exn + nat \<times> xcondition" where
  "XCondition_processSymbolsConditions lhs rhs d =
     bindR lhs (\<lambda>(e1, l). bindR rhs (\<lambda>(e2, r).
       case process_operator logic_operators d of (e3, d') \<Rightarrow> Inr (e1 + e2 + e3, XCondition d' (Some l) (Some r))))"

definition null_condition :: exn where
  "null_condition = UB ''null condition''"

fun XCondition_processSymbols :: "library \<Rightarrow> xcondition \<Rightarrow> exn + nat \<times> xcondition" where
  "XCondition_processSymbols lib (XCondition d l r) =
     (if xc_isTime d then
        (case XCondition_processSymbolsTime lib d of (e, d') \<Rightarrow> Inr (e, XCondition d' l r))
      else if xc_lhsIsValue d \<and> xc_rhsIsValue d then
        (case XCondition_processSymbolsValues lib (d\<lparr>xc_isValues := True\<rparr>) of (e, d') \<Rightarrow> Inr (e, XCondition d' l r))
      else if xc_lhsIsCondition d \<and> xc_rhsIsCondition d then
        XCondition_processSymbolsConditions
          (case l of None \<Rightarrow> Inl null_condition | Some c \<Rightarrow> XCondition_processSymbols lib c)
          (case r of None \<Rightarrow> Inl null_condition | Some c \<Rightarrow> XCondition_processSymbols lib c)
          (d\<lparr>xc_isConditions := True\<rparr>)
      else Inr (1, XCondition d l r))"

section \<open>Validation\<close>

text \<open>
  The agent variables of a condition and of its nested conditions are collected in the set of
  the outermost one, here \<open>acc\<close>. \<open>getVariable\<close> is applied to names that are variables only.
\<close>

definition add_read_variable :: "xmachine \<Rightarrow> string \<Rightarrow> string list \<Rightarrow> string list" where
  "add_read_variable agent name acc =
     (case XMachine_getVariable agent name of None \<Rightarrow> acc | Some v \<Rightarrow> oset_insert (xv_name v) acc)"

definition XCondition_validateTime ::
  "xmachine \<Rightarrow> xtimeunit list \<Rightarrow> cond_data \<Rightarrow> string list \<Rightarrow> nat \<times> string list" where
  "XCondition_validateTime agent timeUnits d acc =
     (let e1 = (if list_ex (\<lambda>u. xc_timePeriod d = xt_name u) timeUnits then 0 else 1)
      in if xc_timePhaseIsVariable d
         then if \<not> XMachine_validateVariableName agent (xc_timePhaseVariable d) then (e1 + 1, acc)
              else (e1, add_read_variable agent (xc_timePhaseVariable d) acc)
         else (e1, acc))"

definition XCondition_validateValue ::
  "xmachine \<Rightarrow> xmessage option \<Rightarrow> side \<Rightarrow> string list \<Rightarrow> nat \<times> string list" where
  "XCondition_validateValue agent xmessage = (\<lambda>(hs, isAgentVariable, _, isMessageVariable, _) acc.
     if isAgentVariable then
       (if \<not> XMachine_validateVariableName agent hs then (1, acc) else (0, add_read_variable agent hs acc))
     else if isMessageVariable then
       (case xmessage of
          Some m \<Rightarrow> (if \<not> XMessage_validateVariableName m hs then (1, acc) else (0, acc))
        | None \<Rightarrow> (1, acc))
     else (0, acc))"

definition XCondition_validateValues ::
  "xmachine \<Rightarrow> xmessage option \<Rightarrow> cond_data \<Rightarrow> string list \<Rightarrow> nat \<times> string list" where
  "XCondition_validateValues agent xmessage d acc =
     (case XCondition_validateValue agent xmessage (lhs_side d) acc of (e1, acc1) \<Rightarrow>
        (case XCondition_validateValue agent xmessage (rhs_side d) acc1 of (e2, acc2) \<Rightarrow> (e1 + e2, acc2)))"

definition condition_type :: "cond_data \<Rightarrow> cond_data" where
  "condition_type d =
     (if xc_lhsIsCondition d \<and> xc_rhsIsCondition d then d\<lparr>xc_isConditions := True\<rparr>
      else if xc_lhsIsValue d \<and> xc_rhsIsValue d then d\<lparr>xc_isValues := True\<rparr> else d)"

fun XCondition_validate ::
  "xmachine \<Rightarrow> xmessage option \<Rightarrow> xtimeunit list \<Rightarrow> xcondition \<Rightarrow> string list \<Rightarrow> exn + nat \<times> xcondition \<times> string list" where
  "XCondition_validate agent xmessage timeUnits (XCondition d0 l r) acc =
     (let d = condition_type d0
      in if xc_isTime d then
           (case XCondition_validateTime agent timeUnits d acc of (e, acc') \<Rightarrow> Inr (e, XCondition d l r, acc'))
         else if xc_isValues d then
           (case XCondition_validateValues agent xmessage d acc of (e, acc') \<Rightarrow> Inr (e, XCondition d l r, acc'))
         else if xc_isConditions d then
           bindR (case l of None \<Rightarrow> Inl null_condition | Some c \<Rightarrow> XCondition_validate agent xmessage timeUnits c acc)
             (\<lambda>(e1, l', acc1).
                bindR (case r of None \<Rightarrow> Inl null_condition | Some c \<Rightarrow> XCondition_validate agent xmessage timeUnits c acc1)
                  (\<lambda>(e2, r', acc2). Inr (e1 + e2, XCondition d (Some l') (Some r'), acc2)))
         else Inr (1, XCondition d l r, acc))"

text \<open>
  \<open>XModelValidate::validateAgentConditionOrFilter\<close>: the condition is its own root.
\<close>

definition XModelValidate_validateAgentConditionOrFilter ::
  "library \<Rightarrow> xmachine \<Rightarrow> xmessage option \<Rightarrow> xtimeunit list \<Rightarrow> xcondition \<Rightarrow> exn + nat \<times> xcondition" where
  "XModelValidate_validateAgentConditionOrFilter lib agent xmessage timeUnits c =
     bindR (XCondition_processSymbols lib c) (\<lambda>(e1, c1).
       bindR (XCondition_validate agent xmessage timeUnits c1 (xc_readOnlyVariables (cond_of c1))) (\<lambda>(e2, c2, acc).
         case c2 of XCondition d l r \<Rightarrow> Inr (e1 + e2, XCondition (d\<lparr>xc_readOnlyVariables := acc\<rparr>) l r)))"

section \<open>When a condition is accepted\<close>

text \<open>
  The condition as read in: the flags that processing sets are not set. What is required of it:
  \<open>symbol_ok\<close> of the sides of a comparison, \<open>cond_ok\<close> of the condition; \<open>cond_vars\<close> are the
  variables of the agent in it.
\<close>

definition symbol_ok :: "library \<Rightarrow> xmachine \<Rightarrow> xmessage option \<Rightarrow> string \<Rightarrow> bool" where
  "symbol_ok lib agent xmessage s \<longleftrightarrow>
     (if has_prefix CHR ''a'' s then drop 2 s \<in> xv_name ` set (xa_variables agent)
      else if has_prefix CHR ''m'' s then (\<exists>m. xmessage = Some m \<and> drop 2 s \<in> xv_name ` set (xm_variables m))
      else cast_double lib s \<noteq> None)"

definition symbol_vars :: "string \<Rightarrow> string set" where
  "symbol_vars s = (if has_prefix CHR ''a'' s then {drop 2 s} else {})"

definition unprocessed_data :: "cond_data \<Rightarrow> bool" where
  "unprocessed_data d \<longleftrightarrow> \<not> xc_isValues d \<and> \<not> xc_isConditions d \<and> \<not> xc_lhsIsAgentVariable d \<and>
     \<not> xc_rhsIsAgentVariable d \<and> \<not> xc_lhsIsMessageVariable d \<and> \<not> xc_rhsIsMessageVariable d"

fun unprocessed :: "xcondition \<Rightarrow> bool" where
  "unprocessed (XCondition d l r) \<longleftrightarrow> unprocessed_data d \<and> pred_option unprocessed l \<and> pred_option unprocessed r"

definition time_ok :: "library \<Rightarrow> xmachine \<Rightarrow> xtimeunit list \<Rightarrow> cond_data \<Rightarrow> bool" where
  "time_ok lib agent timeUnits d \<longleftrightarrow>
     xc_timePeriod d \<in> xt_name ` set timeUnits \<and>
     (if has_prefix CHR ''a'' (xc_timePhaseVariable d)
      then drop 2 (xc_timePhaseVariable d) \<in> xv_name ` set (xa_variables agent)
      else cast_int lib (xc_timePhaseVariable d) \<noteq> None) \<and>
     (xc_foundTimeDuration d \<longrightarrow> cast_int lib (xc_timeDurationString d) \<noteq> None)"

fun cond_ok :: "library \<Rightarrow> xmachine \<Rightarrow> xmessage option \<Rightarrow> xtimeunit list \<Rightarrow> xcondition \<Rightarrow> bool" where
  "cond_ok lib agent xmessage timeUnits (XCondition d l r) \<longleftrightarrow>
     (if xc_isTime d then time_ok lib agent timeUnits d
      else if xc_lhsIsValue d \<and> xc_rhsIsValue d
      then symbol_ok lib agent xmessage (xc_lhs d) \<and> symbol_ok lib agent xmessage (xc_rhs d) \<and>
        xc_op d \<in> {''EQ'', ''NEQ'', ''LEQ'', ''GEQ'', ''LT'', ''GT''}
      else xc_lhsIsCondition d \<and> xc_rhsIsCondition d \<and> xc_op d \<in> {''AND'', ''OR''} \<and>
        (case l of None \<Rightarrow> False | Some c \<Rightarrow> cond_ok lib agent xmessage timeUnits c) \<and>
        (case r of None \<Rightarrow> False | Some c \<Rightarrow> cond_ok lib agent xmessage timeUnits c))"

fun cond_vars :: "xcondition \<Rightarrow> string set" where
  "cond_vars (XCondition d l r) =
     (if xc_isTime d then symbol_vars (xc_timePhaseVariable d)
      else if xc_lhsIsValue d \<and> xc_rhsIsValue d then symbol_vars (xc_lhs d) \<union> symbol_vars (xc_rhs d)
      else (case l of None \<Rightarrow> {} | Some c \<Rightarrow> cond_vars c) \<union> (case r of None \<Rightarrow> {} | Some c \<Rightarrow> cond_vars c))"

lemma validateVariableName_iff: "XMachine_validateVariableName agent s \<longleftrightarrow> s \<in> xv_name ` set (xa_variables agent)"
  by (auto simp: XMachine_validateVariableName_def list_ex_iff)

lemma message_variable_iff: "XMessage_validateVariableName m s \<longleftrightarrow> s \<in> xv_name ` set (xm_variables m)"
  by (auto simp: XMessage_validateVariableName_def list_ex_iff)

lemma set_add_read_variable:
  "s \<in> xv_name ` set (xa_variables agent) \<Longrightarrow> set (add_read_variable agent s acc) = insert s (set acc)"
  by (auto simp: add_read_variable_def XMachine_getVariable_def find_None_iff find_Some_iff split: option.splits)

lemma operator_iff: "fst (process_operator table d) = 0 \<longleftrightarrow> xc_op d \<in> fst ` set table"
  by (auto simp: process_operator_def map_of_eq_None_iff split: option.splits dest: map_of_SomeD)
     (metis map_of_eq_None_iff option.distinct(1) fst_conv image_eqI)

lemma operator_keeps:
  "process_operator table d = (e, d') \<Longrightarrow> \<exists>op. d' = d\<lparr>xc_op := op\<rparr>"
  by (auto simp: process_operator_def split: option.splits) (metis cond_data.surjective cond_data.update_convs(3))

lemma value_accepted:
  assumes "XCondition_processSymbolsValue lib (s, False, True, False, r) = (e, side)"
  shows "(e = 0 \<and> fst (XCondition_validateValue agent xmessage side acc) = 0) = symbol_ok lib agent xmessage s"
    and "e = 0 \<Longrightarrow> fst (XCondition_validateValue agent xmessage side acc) = 0 \<Longrightarrow>
      set (snd (XCondition_validateValue agent xmessage side acc)) = set acc \<union> symbol_vars s"
  using assms
  by (auto simp: XCondition_processSymbolsValue_def XCondition_validateValue_def symbol_ok_def symbol_vars_def
      validateVariableName_iff message_variable_iff set_add_read_variable split: option.splits if_splits)

lemma time_accepted:
  assumes "XCondition_processSymbolsTime lib d = (e, d')"
  shows "(e = 0 \<and> fst (XCondition_validateTime agent timeUnits d' acc) = 0) = time_ok lib agent timeUnits d"
    and "e = 0 \<Longrightarrow> fst (XCondition_validateTime agent timeUnits d' acc) = 0 \<Longrightarrow>
      set (snd (XCondition_validateTime agent timeUnits d' acc)) = set acc \<union> symbol_vars (xc_timePhaseVariable d)"
  using assms
  by (auto simp: XCondition_processSymbolsTime_def XCondition_validateTime_def time_ok_def symbol_vars_def Let_def
      list_ex_iff validateVariableName_iff set_add_read_variable split: option.splits if_splits)

lemma time_keeps: "XCondition_processSymbolsTime lib d = (e, d') \<Longrightarrow> xc_isTime d' = xc_isTime d"
  by (auto simp: XCondition_processSymbolsTime_def Let_def split: option.splits if_splits)

text \<open>Processing and validation without an error, from the variables \<open>acc\<close> to \<open>acc'\<close>.\<close>

definition accepted ::
  "library \<Rightarrow> xmachine \<Rightarrow> xmessage option \<Rightarrow> xtimeunit list \<Rightarrow> xcondition \<Rightarrow> string list \<Rightarrow> string list \<Rightarrow> bool" where
  "accepted lib agent xmessage timeUnits c acc acc' \<longleftrightarrow>
     (\<exists>c1 c2. XCondition_processSymbols lib c = Inr (0, c1) \<and>
        XCondition_validate agent xmessage timeUnits c1 acc = Inr (0, c2, acc'))"

lemma sides_put [simp]:
  "lhs_side (put_lhs l d) = l" "rhs_side (put_rhs r d) = r" "lhs_side (put_rhs r d) = lhs_side d" "rhs_side (put_lhs l d) = rhs_side d"
  by (simp_all add: lhs_side_def rhs_side_def put_lhs_def put_rhs_def split: prod.splits)

lemma flags_put [simp]:
  "xc_isTime (put_lhs l d) = xc_isTime d" "xc_isTime (put_rhs r d) = xc_isTime d"
  "xc_isValues (put_lhs l d) = xc_isValues d" "xc_isValues (put_rhs r d) = xc_isValues d"
  "xc_op (put_lhs l d) = xc_op d" "xc_op (put_rhs r d) = xc_op d"
  by (simp_all add: put_lhs_def put_rhs_def split: prod.splits)

lemma sides_op [simp]: "lhs_side (d\<lparr>xc_op := op\<rparr>) = lhs_side d" "rhs_side (d\<lparr>xc_op := op\<rparr>) = rhs_side d"
  by (simp_all add: lhs_side_def rhs_side_def)

lemma condition_type_simps [simp]:
  "xc_isTime (condition_type d) = xc_isTime d" "lhs_side (condition_type d) = lhs_side d" "rhs_side (condition_type d) = rhs_side d"
  "xc_isValues d \<Longrightarrow> xc_isValues (condition_type d)"
  "XCondition_validateTime agent timeUnits (condition_type d) = XCondition_validateTime agent timeUnits d"
  by (auto simp: condition_type_def lhs_side_def rhs_side_def XCondition_validateTime_def fun_eq_iff)

lemma values_accepted:
  assumes "XCondition_processSymbolsValues lib (d\<lparr>xc_isValues := True\<rparr>) = (e, d')"
    and "unprocessed_data d" "xc_lhsIsValue d" "xc_rhsIsValue d"
  shows "(e = 0 \<and> fst (XCondition_validateValues agent xmessage d' acc) = 0) \<longleftrightarrow>
      symbol_ok lib agent xmessage (xc_lhs d) \<and> symbol_ok lib agent xmessage (xc_rhs d) \<and> xc_op d \<in> fst ` set comparison_operators"
    and "e = 0 \<Longrightarrow> fst (XCondition_validateValues agent xmessage d' acc) = 0 \<Longrightarrow>
      set (snd (XCondition_validateValues agent xmessage d' acc)) = set acc \<union> symbol_vars (xc_lhs d) \<union> symbol_vars (xc_rhs d)"
proof -
  let ?d = "d\<lparr>xc_isValues := True\<rparr>"
  obtain e1 l where l: "XCondition_processSymbolsValue lib (lhs_side ?d) = (e1, l)"
    by (cases "XCondition_processSymbolsValue lib (lhs_side ?d)")
  obtain e2 r where r: "XCondition_processSymbolsValue lib (rhs_side ?d) = (e2, r)"
    by (cases "XCondition_processSymbolsValue lib (rhs_side ?d)")
  obtain e3 where op: "process_operator comparison_operators (put_rhs r (put_lhs l ?d)) = (e3, d')" and e: "e = e1 + e2 + e3"
    using assms(1) by (auto simp: XCondition_processSymbolsValues_def l r split: prod.splits)
  obtain op' where d': "d' = (put_rhs r (put_lhs l ?d))\<lparr>xc_op := op'\<rparr>" using operator_keeps [OF op] by blast
  have e3: "e3 = 0 \<longleftrightarrow> xc_op d \<in> fst ` set comparison_operators"
    using operator_iff [of comparison_operators "put_rhs r (put_lhs l ?d)"] op by simp
  have ls: "XCondition_processSymbolsValue lib (xc_lhs d, False, True, False, xc_lhsDouble d) = (e1, l)"
    and rs: "XCondition_processSymbolsValue lib (xc_rhs d, False, True, False, xc_rhsDouble d) = (e2, r)"
    using l r assms(2-4) by (simp_all add: lhs_side_def rhs_side_def unprocessed_data_def)
  note lv = value_accepted [OF ls, of agent xmessage] and rv = value_accepted [OF rs, of agent xmessage]
  have sides: "lhs_side d' = l" "rhs_side d' = r" by (simp_all add: d')
  define v1 where "v1 = XCondition_validateValue agent xmessage l acc"
  define v2 where "v2 = XCondition_validateValue agent xmessage r (snd v1)"
  have v: "XCondition_validateValues agent xmessage d' acc = (fst v1 + fst v2, snd v2)"
    by (simp add: XCondition_validateValues_def sides v1_def v2_def split_beta)
  have "e1 = 0 \<and> fst v1 = 0 \<longleftrightarrow> symbol_ok lib agent xmessage (xc_lhs d)"
    "e2 = 0 \<and> fst v2 = 0 \<longleftrightarrow> symbol_ok lib agent xmessage (xc_rhs d)"
    using lv(1) rv(1) by (simp_all add: v1_def v2_def)
  then show "(e = 0 \<and> fst (XCondition_validateValues agent xmessage d' acc) = 0) \<longleftrightarrow>
      symbol_ok lib agent xmessage (xc_lhs d) \<and> symbol_ok lib agent xmessage (xc_rhs d) \<and> xc_op d \<in> fst ` set comparison_operators"
    unfolding v e using e3 by auto
  show "set (snd (XCondition_validateValues agent xmessage d' acc)) = set acc \<union> symbol_vars (xc_lhs d) \<union> symbol_vars (xc_rhs d)"
    if "e = 0" "fst (XCondition_validateValues agent xmessage d' acc) = 0"
    using that lv(2) [of acc] rv(2) [of "snd v1"] unfolding v e by (simp add: v1_def v2_def)
qed

lemma values_keep:
  "XCondition_processSymbolsValues lib d = (e, d') \<Longrightarrow> xc_isTime d' = xc_isTime d \<and> xc_isValues d' = xc_isValues d"
  by (auto simp: XCondition_processSymbolsValues_def dest!: operator_keeps split: prod.splits)

lemma nested_accepted:
  assumes "\<not> xc_isTime d" "\<not> (xc_lhsIsValue d \<and> xc_rhsIsValue d)" "unprocessed_data d"
  shows "accepted lib agent xmessage timeUnits (XCondition d l r) acc acc' \<longleftrightarrow>
    xc_lhsIsCondition d \<and> xc_rhsIsCondition d \<and> xc_op d \<in> fst ` set logic_operators \<and>
    (\<exists>lc rc acc1. l = Some lc \<and> r = Some rc \<and> accepted lib agent xmessage timeUnits lc acc acc1 \<and>
       accepted lib agent xmessage timeUnits rc acc1 acc')"
proof (cases "xc_lhsIsCondition d \<and> xc_rhsIsCondition d")
  case False
  then show ?thesis using assms by (auto simp: accepted_def unprocessed_data_def condition_type_def)
next
  case True
  obtain e d' where op: "process_operator logic_operators (d\<lparr>xc_isConditions := True\<rparr>) = (e, d')" by fastforce
  then obtain op' where d': "d' = d\<lparr>xc_isConditions := True, xc_op := op'\<rparr>" using operator_keeps by fastforce
  have e: "e = 0 \<longleftrightarrow> xc_op d \<in> fst ` set logic_operators"
    using operator_iff [of logic_operators "d\<lparr>xc_isConditions := True\<rparr>"] op by simp
  have p: "XCondition_processSymbols lib (XCondition d l r) = Inr (0, c1) \<longleftrightarrow>
      e = 0 \<and> (\<exists>lc rc lc1 rc1. l = Some lc \<and> r = Some rc \<and> XCondition_processSymbols lib lc = Inr (0, lc1) \<and>
        XCondition_processSymbols lib rc = Inr (0, rc1) \<and> c1 = XCondition d' (Some lc1) (Some rc1))" for c1
    using True assms op
    by (auto simp: XCondition_processSymbolsConditions_def bindR_def split: option.splits sum.splits prod.splits)
  have v: "XCondition_validate agent xmessage timeUnits (XCondition d' (Some lc1) (Some rc1)) acc = Inr (0, c2, acc') \<longleftrightarrow>
      (\<exists>lc2 rc2 acc1 d2. XCondition_validate agent xmessage timeUnits lc1 acc = Inr (0, lc2, acc1) \<and>
        XCondition_validate agent xmessage timeUnits rc1 acc1 = Inr (0, rc2, acc') \<and>
        d2 = condition_type d' \<and> c2 = XCondition d2 (Some lc2) (Some rc2))" for lc1 rc1 c2 acc'
    using True assms by (auto simp: d' condition_type_def unprocessed_data_def bindR_def Let_def split: sum.splits prod.splits)
  show ?thesis
  proof
    assume "accepted lib agent xmessage timeUnits (XCondition d l r) acc acc'"
    then obtain lc rc lc1 rc1 c2 where 1: "e = 0" "l = Some lc" "r = Some rc" "XCondition_processSymbols lib lc = Inr (0, lc1)"
      "XCondition_processSymbols lib rc = Inr (0, rc1)"
      "XCondition_validate agent xmessage timeUnits (XCondition d' (Some lc1) (Some rc1)) acc = Inr (0, c2, acc')"
      unfolding accepted_def p by blast
    then show "xc_lhsIsCondition d \<and> xc_rhsIsCondition d \<and> xc_op d \<in> fst ` set logic_operators \<and>
      (\<exists>lc rc acc1. l = Some lc \<and> r = Some rc \<and> accepted lib agent xmessage timeUnits lc acc acc1 \<and>
         accepted lib agent xmessage timeUnits rc acc1 acc')"
      using True e unfolding v accepted_def by blast
  next
    assume "xc_lhsIsCondition d \<and> xc_rhsIsCondition d \<and> xc_op d \<in> fst ` set logic_operators \<and>
      (\<exists>lc rc acc1. l = Some lc \<and> r = Some rc \<and> accepted lib agent xmessage timeUnits lc acc acc1 \<and>
         accepted lib agent xmessage timeUnits rc acc1 acc')"
    then obtain lc rc lc1 rc1 lc2 rc2 acc1 where 1: "l = Some lc" "r = Some rc"
      "XCondition_processSymbols lib lc = Inr (0, lc1)" "XCondition_validate agent xmessage timeUnits lc1 acc = Inr (0, lc2, acc1)"
      "XCondition_processSymbols lib rc = Inr (0, rc1)" "XCondition_validate agent xmessage timeUnits rc1 acc1 = Inr (0, rc2, acc')"
      and "e = 0" using e unfolding accepted_def by blast
    have "XCondition_validate agent xmessage timeUnits (XCondition d' (Some lc1) (Some rc1)) acc =
        Inr (0, XCondition (condition_type d') (Some lc2) (Some rc2), acc')"
      unfolding v using 1 by blast
    moreover have "XCondition_processSymbols lib (XCondition d l r) = Inr (0, XCondition d' (Some lc1) (Some rc1))"
      unfolding p using 1 \<open>e = 0\<close> by blast
    ultimately show "accepted lib agent xmessage timeUnits (XCondition d l r) acc acc'" unfolding accepted_def by blast
  qed
qed

lemma accepted_iff:
  assumes "unprocessed c"
  shows "(accepted lib agent xmessage timeUnits c acc acc' \<longrightarrow>
      cond_ok lib agent xmessage timeUnits c \<and> set acc' = set acc \<union> cond_vars c) \<and>
    (cond_ok lib agent xmessage timeUnits c \<longrightarrow> (\<exists>acc'. accepted lib agent xmessage timeUnits c acc acc'))"
  using assms
proof (induction c arbitrary: acc acc')
  case (XCondition d l r)
  have u: "unprocessed_data d" using XCondition.prems by simp
  show ?case
  proof (cases "xc_isTime d")
    case True
    obtain e d' where p: "XCondition_processSymbolsTime lib d = (e, d')" by fastforce
    obtain f acc1 where v: "XCondition_validateTime agent timeUnits d' acc = (f, acc1)" by fastforce
    show ?thesis using time_accepted [OF p, of agent timeUnits acc] time_keeps [OF p] True
      by (auto simp: accepted_def p v Let_def)
  next
    case not_time: False
    show ?thesis
    proof (cases "xc_lhsIsValue d \<and> xc_rhsIsValue d")
      case True
      obtain e d' where p: "XCondition_processSymbolsValues lib (d\<lparr>xc_isValues := True\<rparr>) = (e, d')" by fastforce
      obtain f acc1 where v: "XCondition_validateValues agent xmessage d' acc = (f, acc1)" by fastforce
      have v': "XCondition_validateValues agent xmessage (condition_type d') acc = (f, acc1)"
        using v by (simp add: XCondition_validateValues_def)
      note va = values_accepted [OF p u, of agent xmessage acc]
      show ?thesis using va values_keep [OF p] True not_time
        by (auto simp: accepted_def p v v' Let_def comparison_operators_def)
    next
      case not_values: False
      have IH1: "cond_ok lib agent xmessage timeUnits c \<and> set a' = set a \<union> cond_vars c"
        if "l = Some c \<or> r = Some c" "accepted lib agent xmessage timeUnits c a a'" for c a a'
        using that XCondition by auto
      have IH2: "\<exists>a'. accepted lib agent xmessage timeUnits c a a'"
        if "l = Some c \<or> r = Some c" "cond_ok lib agent xmessage timeUnits c" for c a
        using that XCondition by auto
      show ?thesis unfolding nested_accepted [OF not_time not_values u]
      proof (intro conjI impI)
        assume ok: "cond_ok lib agent xmessage timeUnits (XCondition d l r)"
        then obtain lc rc where lr: "l = Some lc" "r = Some rc" using not_time not_values
          by (auto split: option.splits)
        obtain acc1 where "accepted lib agent xmessage timeUnits lc acc acc1"
          using ok lr IH2 [of lc] not_time not_values by auto
        moreover obtain acc2 where "accepted lib agent xmessage timeUnits rc acc1 acc2"
          using ok lr IH2 [of rc] not_time not_values by auto
        ultimately show "\<exists>acc'. xc_lhsIsCondition d \<and> xc_rhsIsCondition d \<and> xc_op d \<in> fst ` set logic_operators \<and>
            (\<exists>lc rc acc1. l = Some lc \<and> r = Some rc \<and> accepted lib agent xmessage timeUnits lc acc acc1 \<and>
              accepted lib agent xmessage timeUnits rc acc1 acc')"
          using ok lr not_time not_values by (auto simp: logic_operators_def)
      next
        assume "xc_lhsIsCondition d \<and> xc_rhsIsCondition d \<and> xc_op d \<in> fst ` set logic_operators \<and>
            (\<exists>lc rc acc1. l = Some lc \<and> r = Some rc \<and> accepted lib agent xmessage timeUnits lc acc acc1 \<and>
              accepted lib agent xmessage timeUnits rc acc1 acc')"
        then obtain lc rc acc1 where 1: "l = Some lc" "r = Some rc" "accepted lib agent xmessage timeUnits lc acc acc1"
          "accepted lib agent xmessage timeUnits rc acc1 acc'" and 2: "xc_lhsIsCondition d" "xc_rhsIsCondition d" "xc_op d \<in> {''AND'', ''OR''}"
          by (auto simp: logic_operators_def)
        then show "cond_ok lib agent xmessage timeUnits (XCondition d l r)" "set acc' = set acc \<union> cond_vars (XCondition d l r)"
          using IH1 [of lc] IH1 [of rc] not_time not_values by auto
      qed
    qed
  qed
qed

lemma process_keeps_reads:
  "XCondition_processSymbols lib c = Inr (e, c1) \<Longrightarrow> xc_readOnlyVariables (cond_of c1) = xc_readOnlyVariables (cond_of c)"
  by (cases c)
    (auto simp: XCondition_processSymbolsTime_def XCondition_processSymbolsValues_def XCondition_processSymbolsConditions_def
      Let_def bindR_def put_lhs_def put_rhs_def dest!: operator_keeps split: if_splits option.splits sum.splits prod.splits)

lemma filter_accepted_iff:
  "XModelValidate_validateAgentConditionOrFilter lib agent xmessage timeUnits c = Inr (0, c') \<longleftrightarrow>
     (\<exists>c1 d l r acc. XCondition_processSymbols lib c = Inr (0, c1) \<and>
        XCondition_validate agent xmessage timeUnits c1 (xc_readOnlyVariables (cond_of c)) = Inr (0, XCondition d l r, acc) \<and>
        c' = XCondition (d\<lparr>xc_readOnlyVariables := acc\<rparr>) l r)"
  using process_keeps_reads [of lib c]
  by (auto simp: XModelValidate_validateAgentConditionOrFilter_def bindR_def split: sum.splits prod.splits xcondition.splits)

lemma filter_accepted:
  assumes "unprocessed c"
  shows "(\<exists>c'. XModelValidate_validateAgentConditionOrFilter lib agent xmessage timeUnits c = Inr (0, c')) \<longleftrightarrow>
      cond_ok lib agent xmessage timeUnits c"
    and "XModelValidate_validateAgentConditionOrFilter lib agent xmessage timeUnits c = Inr (0, c') \<Longrightarrow>
      set (xc_readOnlyVariables (cond_of c')) = set (xc_readOnlyVariables (cond_of c)) \<union> cond_vars c"
proof -
  let ?acc = "xc_readOnlyVariables (cond_of c)"
  have "(\<exists>c'. XModelValidate_validateAgentConditionOrFilter lib agent xmessage timeUnits c = Inr (0, c')) \<longleftrightarrow>
      (\<exists>acc'. accepted lib agent xmessage timeUnits c ?acc acc')"
    unfolding filter_accepted_iff accepted_def by (metis xcondition.exhaust)
  then show "(\<exists>c'. XModelValidate_validateAgentConditionOrFilter lib agent xmessage timeUnits c = Inr (0, c')) \<longleftrightarrow>
      cond_ok lib agent xmessage timeUnits c" using accepted_iff [OF assms] by metis
  assume "XModelValidate_validateAgentConditionOrFilter lib agent xmessage timeUnits c = Inr (0, c')"
  then have "accepted lib agent xmessage timeUnits c ?acc (xc_readOnlyVariables (cond_of c'))"
    unfolding filter_accepted_iff accepted_def by auto
  then show "set (xc_readOnlyVariables (cond_of c')) = set (xc_readOnlyVariables (cond_of c)) \<union> cond_vars c"
    using accepted_iff [OF assms] by metis
qed

text \<open>
  C26. A condition or filter as read in is accepted, that is processed and validated without an
  error, exactly when it is well formed: it is a test of the time with a known time unit and
  a phase and duration that are numbers or a variable of the agent, or a comparison of two
  variables or numbers by a known operator, or a conjunction or disjunction of well formed
  conditions. The variables of the agent that occur in it, however deep, are then recorded as
  read.
\<close>

theorem condition_accepted_iff_well_formed:
  assumes "unprocessed c"
  shows "((\<exists>c'. XModelValidate_validateAgentConditionOrFilter lib agent xmessage timeUnits c = Inr (0, c')) \<longleftrightarrow>
      cond_ok lib agent xmessage timeUnits c) \<and>
    (\<forall>c'. XModelValidate_validateAgentConditionOrFilter lib agent xmessage timeUnits c = Inr (0, c') \<longrightarrow>
      set (xc_readOnlyVariables (cond_of c')) = set (xc_readOnlyVariables (cond_of c)) \<union> cond_vars c)"
  using filter_accepted [OF assms] by metis

text \<open>A comparison inside a conjunction, of an agent's variable and a message's.\<close>

definition sample_condition :: xcondition where
  "sample_condition =
     (let cmp = (\<lambda>l op r. XCondition (cond_init\<lparr>xc_lhs := l, xc_op := op, xc_rhs := r, xc_lhsIsValue := True, xc_rhsIsValue := True\<rparr>) None None)
      in XCondition (cond_init\<lparr>xc_op := ''AND'', xc_lhsIsCondition := True, xc_rhsIsCondition := True\<rparr>)
           (Some (cmp ''a.x'' ''LT'' ''m.y'')) (Some (cmp ''a.z'' ''EQ'' ''a.x'')))"

definition sample_agent :: xmachine where
  "sample_agent = XMachine_addVariable ''int'' ''x'' (XMachine_addVariable ''int'' ''z'' (XMachine_setName ''A'' XMachine_new))"

definition sample_message :: xmessage where
  "sample_message = XMessage_addVariable ''int'' ''y'' XMessage_new"

lemma sample_condition_ok:
  "unprocessed sample_condition" "cond_ok lib sample_agent (Some sample_message) [] sample_condition"
  "cond_vars sample_condition = {''x'', ''z''}" "\<not> xc_isTime (cond_of sample_condition)"
  by (auto simp: sample_condition_def sample_agent_def sample_message_def unprocessed_data_def cond_init_def
      symbol_ok_def symbol_vars_def has_prefix_def XMachine_addVariable_def new_variable_def XMachine_setName_def
      XMessage_addVariable_def XMachine_new_def XMessage_new_def XVariable_new_def)

lemma filter_accepted_sample:
  "\<exists>c'. XModelValidate_validateAgentConditionOrFilter lib sample_agent (Some sample_message) [] sample_condition = Inr (0, c')"
  using filter_accepted(1) [OF sample_condition_ok(1)] sample_condition_ok(2) by blast

theorem condition_accepted_iff_well_formed_witness:
  "\<exists>c'. XModelValidate_validateAgentConditionOrFilter simple_library sample_agent (Some sample_message) [] sample_condition = Inr (0, c') \<and>
     set (xc_readOnlyVariables (cond_of c')) = {''x'', ''z''}"
proof -
  have "xc_readOnlyVariables (cond_of sample_condition) = []" by (simp add: sample_condition_def cond_init_def)
  then show ?thesis
    using condition_accepted_iff_well_formed [OF sample_condition_ok(1), of simple_library sample_agent "Some sample_message" "[]"]
      sample_condition_ok(2,3) by fastforce
qed

lemma process_runs_operator:
  assumes "XCondition_processSymbols lib (XCondition d l r) = Inr (0, c')" "\<not> xc_isTime d"
  shows "\<exists>x d' l' r'. c' = XCondition d' l' r' \<and> xc_op x = xc_op d \<and> \<not> xc_isTime d' \<and>
    (process_operator comparison_operators x = (0, d') \<or> process_operator logic_operators x = (0, d'))"
proof (cases "xc_lhsIsValue d \<and> xc_rhsIsValue d")
  case True
  define l1 r1 where "l1 = snd (XCondition_processSymbolsValue lib (lhs_side (d\<lparr>xc_isValues := True\<rparr>)))"
    and "r1 = snd (XCondition_processSymbolsValue lib (rhs_side (d\<lparr>xc_isValues := True\<rparr>)))"
  define x where "x = put_rhs r1 (put_lhs l1 (d\<lparr>xc_isValues := True\<rparr>))"
  obtain e d' where p: "process_operator comparison_operators x = (e, d')" by fastforce
  have "e = 0 \<and> c' = XCondition d' l r" using assms True p
    by (auto simp: XCondition_processSymbolsValues_def l1_def r1_def x_def split_beta)
  moreover have "\<not> xc_isTime d'" using operator_keeps [OF p] assms(2) by (auto simp: x_def)
  moreover have "xc_op x = xc_op d" by (simp add: x_def)
  ultimately show ?thesis using p by blast
next
  case False
  then have "xc_lhsIsCondition d \<and> xc_rhsIsCondition d" using assms by (auto split: if_splits)
  then obtain lr rr where "XCondition_processSymbolsConditions lr rr (d\<lparr>xc_isConditions := True\<rparr>) = Inr (0, c')"
    using assms False by auto
  then obtain d' l' r' where p: "process_operator logic_operators (d\<lparr>xc_isConditions := True\<rparr>) = (0, d')" "c' = XCondition d' l' r'"
    by (auto simp: XCondition_processSymbolsConditions_def bindR_def split: sum.splits prod.splits)
  moreover have "\<not> xc_isTime d'" using operator_keeps [OF p(1)] assms(2) by auto
  ultimately show ?thesis by (metis cond_data.select_convs(3) cond_data.surjective cond_data.update_convs(23))
qed

lemma processed_operator:
  assumes "process_operator comparison_operators x = (0, d') \<or> process_operator logic_operators x = (0, d')"
  shows "xc_op x \<in> fst ` set (comparison_operators @ logic_operators)"
    "xc_op d' \<notin> fst ` set (comparison_operators @ logic_operators)"
  using assms by (auto simp: process_operator_def comparison_operators_def logic_operators_def split: if_splits)

lemma validate_keeps:
  "XCondition_validate agent xmessage timeUnits (XCondition d l r) acc = Inr (e, c', acc') \<Longrightarrow>
     cond_of c' = condition_type d"
  by (auto simp: Let_def bindR_def split: if_splits sum.splits prod.splits)

lemma condition_type_op: "xc_op (condition_type d) = xc_op d"
  by (simp add: condition_type_def)

text \<open>
  Validating a condition that has been accepted once reports an error: processing has
  replaced its operator, and the new one is not recognised. This holds for every condition
  except a test of the time, whatever the agent, message and time units of the second run.
\<close>

theorem accepted_condition_fails_again:
  assumes "XModelValidate_validateAgentConditionOrFilter lib agent xmessage timeUnits c = Inr (0, c')"
    and "\<not> xc_isTime (cond_of c)"
  shows "XModelValidate_validateAgentConditionOrFilter lib agent' xmessage' timeUnits' c' \<noteq> Inr (0, c'')"
proof
  assume again: "XModelValidate_validateAgentConditionOrFilter lib agent' xmessage' timeUnits' c' = Inr (0, c'')"
  obtain d l r where c: "c = XCondition d l r" by (cases c)
  obtain c1 d2 l2 r2 acc where run: "XCondition_processSymbols lib c = Inr (0, c1)"
    "XCondition_validate agent xmessage timeUnits c1 (xc_readOnlyVariables d) = Inr (0, XCondition d2 l2 r2, acc)"
    "c' = XCondition (d2\<lparr>xc_readOnlyVariables := acc\<rparr>) l2 r2"
    using assms(1) unfolding filter_accepted_iff c by auto
  obtain x d1 l1 r1 where c1: "c1 = XCondition d1 l1 r1" "\<not> xc_isTime d1"
    "process_operator comparison_operators x = (0, d1) \<or> process_operator logic_operators x = (0, d1)"
    using process_runs_operator [of lib d l r c1] run(1) assms(2) c by auto
  have "d2 = condition_type d1" using validate_keeps run(2) c1(1) by fastforce
  then have op: "xc_op d2 = xc_op d1" "\<not> xc_isTime d2" using c1(2) by (simp_all add: condition_type_op)
  obtain c2 where "XCondition_processSymbols lib c' = Inr (0, c2)" using again unfolding filter_accepted_iff by blast
  then obtain y d3 where "xc_op y = xc_op d2"
    "process_operator comparison_operators y = (0, d3) \<or> process_operator logic_operators y = (0, d3)"
    using process_runs_operator [of lib "d2\<lparr>xc_readOnlyVariables := acc\<rparr>" l2 r2 c2] run(3) op(2) by auto
  then show False using processed_operator(1) [of y d3] processed_operator(2) [OF c1(3)] op(1) by simp
qed

theorem accepted_condition_fails_again_witness:
  "\<exists>c'. XModelValidate_validateAgentConditionOrFilter simple_library sample_agent (Some sample_message) [] sample_condition = Inr (0, c') \<and>
     (\<forall>c''. XModelValidate_validateAgentConditionOrFilter simple_library sample_agent (Some sample_message) [] c' \<noteq> Inr (0, c''))"
proof -
  obtain c' where "XModelValidate_validateAgentConditionOrFilter simple_library sample_agent (Some sample_message) [] sample_condition = Inr (0, c')"
    using filter_accepted_sample by blast
  then show ?thesis using accepted_condition_fails_again sample_condition_ok(4) by blast
qed

end
