(* ===== verification/Model_Input.thy ===== *)
theory Model_Input
  imports Xml_Documents Model_Data Conditions
begin

text \<open>
  Reading a model description: \<open>src/flame2/io/io_xml_model.cpp\<close>, over the document trees that
  libxml2 builds. Every \<open>read\<close> function walks over the children of an element and fills the object
  it is given; what has been read before a failure stays. Files, their trees and the operations of
  \<open>boost::filesystem\<close> on paths are a record of arguments. Warnings for unknown elements are printed
  only, and the reading goes on.
\<close>

section \<open>Elements\<close>

text \<open>
  The value of an element is the content of its first child; without a child, or with an element
  as the first child, a null pointer is used.
\<close>

fun getElementValue :: "xml \<Rightarrow> exn + string" where
  "getElementValue (Element n as (Text t # cs)) = Inr t"
| "getElementValue (Element n as (Comment t # cs)) = Inr t"
| "getElementValue (Element n as (Element m bs ds # cs)) = Inl (UB ''string of a null pointer'')"
| "getElementValue (Element n as []) = Inl (UB ''null pointer'')"
| "getElementValue (Text t) = Inl (UB ''null pointer'')"
| "getElementValue (Comment t) = Inl (UB ''null pointer'')"

fun xml_children :: "xml \<Rightarrow> xml list" where
  "xml_children (Element n as cs) = cs"
| "xml_children (Text t) = []"
| "xml_children (Comment t) = []"

text \<open>The loop over the children that are elements, with their names.\<close>

definition for_element :: "(string \<Rightarrow> xml \<Rightarrow> ('s, unit) exec) \<Rightarrow> xml \<Rightarrow> ('s, unit) exec" where
  "for_element f node = (case node of Element n as cs \<Rightarrow> f n node | _ \<Rightarrow> returnE ())"

definition for_elements :: "(string \<Rightarrow> xml \<Rightarrow> ('s, unit) exec) \<Rightarrow> xml \<Rightarrow> ('s, unit) exec" where
  "for_elements f node = forE (for_element f) (xml_children node)"

definition set_value :: "(string \<Rightarrow> 's \<Rightarrow> 's) \<Rightarrow> xml \<Rightarrow> ('s, unit) exec" where
  "set_value upd node s =
     (case getElementValue node of Inl e \<Rightarrow> (Inl e, s) | Inr t \<Rightarrow> (Inr (), upd t s))"

definition changeE :: "('s \<Rightarrow> 's) \<Rightarrow> ('s, unit) exec" where
  "changeE upd s = (Inr (), upd s)"

definition readUnknownElement :: "xml \<Rightarrow> ('s, unit) exec" where
  "readUnknownElement node = returnE ()"

text \<open>A computation on a part of an object.\<close>

definition on_part :: "('s \<Rightarrow> 'p) \<Rightarrow> ('p \<Rightarrow> 's \<Rightarrow> 's) \<Rightarrow> ('p, 'a) exec \<Rightarrow> ('s, 'a) exec" where
  "on_part get put m s = (case m (get s) of (r, p) \<Rightarrow> (r, put p s))"

text \<open>A new object is appended to a list and then filled.\<close>

definition on_new :: "'p \<Rightarrow> ('p, unit) exec \<Rightarrow> ('p list, unit) exec" where
  "on_new p m ps = (case m p of (r, p') \<Rightarrow> (r, ps @ [p']))"

section \<open>Variables, data types, time units and files\<close>

definition readVariable :: "xml \<Rightarrow> (xvariable list, unit) exec" where
  "readVariable node =
     on_new (XVariable_new [])
       (for_elements (\<lambda>name cur_node.
          if name = ''type'' then set_value (\<lambda>t v. v\<lparr>xv_type := t\<rparr>) cur_node
          else if name = ''name'' then set_value (\<lambda>t v. v\<lparr>xv_name := t\<rparr>) cur_node
          else if name = ''description'' then returnE ()
          else if name = ''constant'' then
            bindE (changeE (\<lambda>v. v\<lparr>xv_constantSet := True\<rparr>))
              (\<lambda>_. set_value (\<lambda>t v. v\<lparr>xv_constantString := t\<rparr>) cur_node)
          else readUnknownElement cur_node) node)"

definition readVariables :: "xml \<Rightarrow> (xvariable list, unit) exec" where
  "readVariables =
     for_elements (\<lambda>name cur_node.
       if name = ''variable'' then readVariable cur_node else readUnknownElement cur_node)"

definition readDataType :: "xml \<Rightarrow> ('v xmodel, unit) exec" where
  "readDataType node =
     on_part xo_adts (\<lambda>x m. m\<lparr>xo_adts := x\<rparr>) (on_new XADT_new
       (for_elements (\<lambda>name cur_node.
          if name = ''name'' then set_value (\<lambda>t d. d\<lparr>xd_name := t\<rparr>) cur_node
          else if name = ''description'' then returnE ()
          else if name = ''variables'' then
            on_part xd_variables (\<lambda>x d. d\<lparr>xd_variables := x\<rparr>) (readVariables cur_node)
          else readUnknownElement cur_node) node))"

definition readDataTypes :: "xml \<Rightarrow> ('v xmodel, unit) exec" where
  "readDataTypes =
     for_elements (\<lambda>name cur_node.
       if name = ''dataType'' then readDataType cur_node else readUnknownElement cur_node)"

text \<open>The time unit is not part of the model before all of it has been read.\<close>

definition read_timeunit_members :: "xml \<Rightarrow> (xtimeunit, unit) exec" where
  "read_timeunit_members =
     for_elements (\<lambda>name cur_node.
       if name = ''name'' then set_value (\<lambda>t u. u\<lparr>xt_name := t\<rparr>) cur_node
       else if name = ''unit'' then set_value (\<lambda>t u. u\<lparr>xt_unit := t\<rparr>) cur_node
       else if name = ''period'' then set_value (\<lambda>t u. u\<lparr>xt_periodString := t\<rparr>) cur_node
       else readUnknownElement cur_node)"

definition readTimeUnit :: "xml \<Rightarrow> ('v xmodel, unit) exec" where
  "readTimeUnit node m =
     (case read_timeunit_members node XTimeUnit_new of
        (Inl e, xtimeunit) \<Rightarrow> (Inl e, m)
      | (Inr _, xtimeunit) \<Rightarrow> (Inr (), XModel_addTimeUnit xtimeunit m))"

definition readTimeUnits :: "xml \<Rightarrow> ('v xmodel, unit) exec" where
  "readTimeUnits =
     for_elements (\<lambda>name cur_node.
       if name = ''timeUnit'' then readTimeUnit cur_node else readUnknownElement cur_node)"

definition readFunctionFiles :: "xml \<Rightarrow> ('v xmodel, unit) exec" where
  "readFunctionFiles =
     for_elements (\<lambda>name cur_node.
       if name = ''file'' then set_value XModel_addFunctionFile cur_node else readUnknownElement cur_node)"

definition readEnvironment :: "xml \<Rightarrow> ('v xmodel, unit) exec" where
  "readEnvironment =
     for_elements (\<lambda>name cur_node.
       if name = ''constants'' then
         on_part xo_constants (\<lambda>x m. m\<lparr>xo_constants := x\<rparr>) (readVariables cur_node)
       else if name = ''dataTypes'' then readDataTypes cur_node
       else if name = ''timeUnits'' then readTimeUnits cur_node
       else if name = ''functionFiles'' then readFunctionFiles cur_node
       else readUnknownElement cur_node)"

section \<open>Conditions\<close>

definition set_cond :: "(cond_data \<Rightarrow> cond_data) \<Rightarrow> xcondition \<Rightarrow> xcondition" where
  "set_cond f c = XCondition (f (cond_of c)) (lhsCondition c) (rhsCondition c)"

lemma set_cond_apply [simp]: "set_cond f (XCondition d l r) = XCondition (f d) l r"
  by (simp add: set_cond_def)

definition readConditionTime :: "xml \<Rightarrow> (xcondition, unit) exec" where
  "readConditionTime cur_node =
     bindE (changeE (set_cond (\<lambda>d. d\<lparr>xc_isTime := True, xc_isValues := False, xc_isConditions := False\<rparr>))) (\<lambda>_.
       for_elements (\<lambda>name_2 cur_node_2.
         if name_2 = ''period'' then
           set_value (\<lambda>t. set_cond (\<lambda>d. d\<lparr>xc_timePeriod := t\<rparr>)) cur_node_2
         else if name_2 = ''phase'' then
           set_value (\<lambda>t. set_cond (\<lambda>d. d\<lparr>xc_timePhaseVariable := t\<rparr>)) cur_node_2
         else if name_2 = ''duration'' then
           bindE (changeE (set_cond (\<lambda>d. d\<lparr>xc_foundTimeDuration := True\<rparr>)))
             (\<lambda>_. set_value (\<lambda>t. set_cond (\<lambda>d. d\<lparr>xc_timeDurationString := t\<rparr>)) cur_node_2)
         else readUnknownElement cur_node_2) cur_node)"

text \<open>
  The side is read as a condition by \<open>read\<close>. When that leaves a value in it, the condition is
  deleted and the value is the side.
\<close>

definition readConditionLhs :: "(xcondition, unit) exec \<Rightarrow> (xcondition, unit) exec" where
  "readConditionLhs read xc =
     (let d = (cond_of xc)\<lparr>xc_tempValue := []\<rparr> in
      case read XCondition_new of
        (Inl e, c) \<Rightarrow> (Inl e, XCondition d (Some c) (rhsCondition xc))
      | (Inr _, c) \<Rightarrow>
          if xc_tempValue (cond_of c) \<noteq> [] then
            (Inr (), XCondition (d\<lparr>xc_lhs := xc_tempValue (cond_of c), xc_lhsIsValue := True\<rparr>) None (rhsCondition xc))
          else (Inr (), XCondition (d\<lparr>xc_lhsIsCondition := True\<rparr>) (Some c) (rhsCondition xc)))"

definition readConditionRhs :: "(xcondition, unit) exec \<Rightarrow> (xcondition, unit) exec" where
  "readConditionRhs read xc =
     (let d = (cond_of xc)\<lparr>xc_tempValue := []\<rparr> in
      case read XCondition_new of
        (Inl e, c) \<Rightarrow> (Inl e, XCondition d (lhsCondition xc) (Some c))
      | (Inr _, c) \<Rightarrow>
          if xc_tempValue (cond_of c) \<noteq> [] then
            (Inr (), XCondition (d\<lparr>xc_rhs := xc_tempValue (cond_of c), xc_rhsIsValue := True\<rparr>) (lhsCondition xc) None)
          else (Inr (), XCondition (d\<lparr>xc_rhsIsCondition := True\<rparr>) (lhsCondition xc) (Some c)))"

text \<open>The loop over the children of the node of a condition.\<close>

fun readCondition_nodes :: "xml list \<Rightarrow> (xcondition, unit) exec" where
  "readCondition_nodes [] = returnE ()"
| "readCondition_nodes (Element name as cs # rest) =
     bindE
       (if name = ''not'' then
          bindE (changeE (set_cond (\<lambda>d. d\<lparr>xc_isNot := True\<rparr>))) (\<lambda>_. readCondition_nodes cs)
        else if name = ''time'' then readConditionTime (Element name as cs)
        else if name = ''lhs'' then readConditionLhs (readCondition_nodes cs)
        else if name = ''op'' then set_value (\<lambda>t. set_cond (\<lambda>d. d\<lparr>xc_op := t\<rparr>)) (Element name as cs)
        else if name = ''rhs'' then readConditionRhs (readCondition_nodes cs)
        else if name = ''value'' then set_value (\<lambda>t. set_cond (\<lambda>d. d\<lparr>xc_tempValue := t\<rparr>)) (Element name as cs)
        else readUnknownElement (Element name as cs))
       (\<lambda>_. readCondition_nodes rest)"
| "readCondition_nodes (Text t # rest) = readCondition_nodes rest"
| "readCondition_nodes (Comment t # rest) = readCondition_nodes rest"

definition readCondition :: "xml \<Rightarrow> (xcondition, unit) exec" where
  "readCondition node = readCondition_nodes (xml_children node)"

text \<open>The condition that \<open>addCondition\<close> or \<open>addFilter\<close> has just made.\<close>

definition on_some :: "('p, unit) exec \<Rightarrow> ('p option, unit) exec" where
  "on_some m p = (case p of None \<Rightarrow> (Inl (UB ''null pointer''), None) | Some x \<Rightarrow> (case m x of (r, y) \<Rightarrow> (r, Some y)))"

section \<open>Transition functions and agents\<close>

definition readSort :: "xml \<Rightarrow> (xioput, unit) exec" where
  "readSort node =
     bindE (changeE (\<lambda>i. i\<lparr>xi_sort := True\<rparr>)) (\<lambda>_.
       for_elements (\<lambda>name cur_node.
         if name = ''key'' then set_value (\<lambda>t i. i\<lparr>xi_sortKey := t\<rparr>) cur_node
         else if name = ''order'' then set_value (\<lambda>t i. i\<lparr>xi_sortOrder := t\<rparr>) cur_node
         else readUnknownElement cur_node) node)"

definition readInput :: "xml \<Rightarrow> (xfunction, unit) exec" where
  "readInput node =
     on_part xf_inputs (\<lambda>x f. f\<lparr>xf_inputs := x\<rparr>) (on_new XIOput_new
       (for_elements (\<lambda>name cur_node.
          if name = ''messageName'' then set_value (\<lambda>t i. i\<lparr>xi_messageName := t\<rparr>) cur_node
          else if name = ''filter'' then
            bindE XIOput_addFilter
              (\<lambda>_. on_part xi_filter (\<lambda>x i. i\<lparr>xi_filter := x\<rparr>) (on_some (readCondition cur_node)))
          else if name = ''sort'' then readSort cur_node
          else if name = ''random'' then
            bindE (changeE (\<lambda>i. i\<lparr>xi_randomSet := True\<rparr>))
              (\<lambda>_. set_value (\<lambda>t i. i\<lparr>xi_randomString := t\<rparr>) cur_node)
          else readUnknownElement cur_node) node))"

definition readInputs :: "xml \<Rightarrow> (xfunction, unit) exec" where
  "readInputs =
     for_elements (\<lambda>name cur_node.
       if name = ''input'' then readInput cur_node else readUnknownElement cur_node)"

definition readOutput :: "xml \<Rightarrow> (xfunction, unit) exec" where
  "readOutput node =
     on_part xf_outputs (\<lambda>x f. f\<lparr>xf_outputs := x\<rparr>) (on_new XIOput_new
       (for_elements (\<lambda>name cur_node.
          if name = ''messageName'' then set_value (\<lambda>t i. i\<lparr>xi_messageName := t\<rparr>) cur_node
          else readUnknownElement cur_node) node))"

definition readOutputs :: "xml \<Rightarrow> (xfunction, unit) exec" where
  "readOutputs =
     for_elements (\<lambda>name cur_node.
       if name = ''output'' then readOutput cur_node else readUnknownElement cur_node)"

definition readMemoryAccessVariables :: "xml \<Rightarrow> (string list, unit) exec" where
  "readMemoryAccessVariables =
     for_elements (\<lambda>name cur_node.
       if name = ''variableName'' then set_value (\<lambda>t vs. vs @ [t]) cur_node
       else readUnknownElement cur_node)"

definition readMemoryAccess :: "xml \<Rightarrow> (xfunction, unit) exec" where
  "readMemoryAccess node =
     bindE (changeE (\<lambda>f. f\<lparr>xf_memoryAccessInfoAvailable := True\<rparr>)) (\<lambda>_.
       for_elements (\<lambda>name cur_node.
         if name = ''readOnly'' then
           on_part xf_readOnlyVariables (\<lambda>x f. f\<lparr>xf_readOnlyVariables := x\<rparr>) (readMemoryAccessVariables cur_node)
         else if name = ''readWrite'' then
           on_part xf_readWriteVariables (\<lambda>x f. f\<lparr>xf_readWriteVariables := x\<rparr>) (readMemoryAccessVariables cur_node)
         else readUnknownElement cur_node) node)"

definition read_function_member :: "string \<Rightarrow> xml \<Rightarrow> (xfunction, unit) exec" where
  "read_function_member name cur_node =
     (if name = ''name'' then set_value (\<lambda>t f. f\<lparr>xf_name := t\<rparr>) cur_node
      else if name = ''description'' then returnE ()
      else if name = ''currentState'' then set_value (\<lambda>t f. f\<lparr>xf_currentState := t\<rparr>) cur_node
      else if name = ''nextState'' then set_value (\<lambda>t f. f\<lparr>xf_nextState := t\<rparr>) cur_node
      else if name = ''condition'' then
        bindE XFunction_addCondition
          (\<lambda>_. on_part xf_condition (\<lambda>x f. f\<lparr>xf_condition := x\<rparr>) (on_some (readCondition cur_node)))
      else if name = ''outputs'' then readOutputs cur_node
      else if name = ''inputs'' then readInputs cur_node
      else if name = ''memoryAccess'' then readMemoryAccess cur_node
      else readUnknownElement cur_node)"

definition readTransition :: "xml \<Rightarrow> (xmachine, unit) exec" where
  "readTransition node =
     on_part xa_functions (\<lambda>x a. a\<lparr>xa_functions := x\<rparr>)
       (on_new ((XFunction_new [])\<lparr>xf_memoryAccessInfoAvailable := False\<rparr>)
         (for_elements read_function_member node))"

text \<open>
  The agent type is a pointer that is null before the name has been read: an index into the
  agent types of the model. A null pointer is used for the variables of the memory and for each
  function.
\<close>

type_synonym 'v agent_reading = "'v xmodel \<times> nat option"

definition on_agent :: "(xmachine, unit) exec \<Rightarrow> ('v agent_reading, unit) exec" where
  "on_agent action = (\<lambda>(m, xm).
     case xm of
       None \<Rightarrow> (Inl (UB ''null pointer''), m, xm)
     | Some i \<Rightarrow>
         (case action (xo_agents m ! i) of
            (r, a) \<Rightarrow> (r, m\<lparr>xo_agents := (xo_agents m)[i := a]\<rparr>, xm)))"

definition readTransitions :: "xml \<Rightarrow> ('v agent_reading, unit) exec" where
  "readTransitions =
     for_elements (\<lambda>name cur_node.
       if name = ''function'' then on_agent (readTransition cur_node) else readUnknownElement cur_node)"

definition add_named_agent :: "string \<Rightarrow> 'v agent_reading \<Rightarrow> 'v agent_reading" where
  "add_named_agent name = (\<lambda>(m, xm). case XModel_addAgent name m of (i, m') \<Rightarrow> (m', Some i))"

definition readAgent :: "xml \<Rightarrow> ('v xmodel, unit) exec" where
  "readAgent node m =
     (case for_elements (\<lambda>name cur_node.
          if name = ''name'' then set_value add_named_agent cur_node
          else if name = ''description'' then returnE ()
          else if name = ''memory'' then
            on_agent (on_part xa_variables (\<lambda>x a. a\<lparr>xa_variables := x\<rparr>) (readVariables cur_node))
          else if name = ''functions'' then readTransitions cur_node
          else readUnknownElement cur_node) node (m, None) of
        (r, m', xm) \<Rightarrow> (r, m'))"

definition readAgents :: "xml \<Rightarrow> ('v xmodel, unit) exec" where
  "readAgents =
     for_elements (\<lambda>name cur_node.
       if name = ''xagent'' then readAgent cur_node else readUnknownElement cur_node)"

definition readMessage :: "xml \<Rightarrow> ('v xmodel, unit) exec" where
  "readMessage node m =
     on_part xo_messages (\<lambda>x m. m\<lparr>xo_messages := x\<rparr>)
       (on_new (XMessage_new\<lparr>xm_id := int (length (xo_messages m))\<rparr>)
         (for_elements (\<lambda>name cur_node.
            if name = ''name'' then set_value (\<lambda>t g. g\<lparr>xm_name := t\<rparr>) cur_node
            else if name = ''description'' then returnE ()
            else if name = ''variables'' then
              on_part xm_variables (\<lambda>x g. g\<lparr>xm_variables := x\<rparr>) (readVariables cur_node)
            else readUnknownElement cur_node) node)) m"

definition readMessages :: "xml \<Rightarrow> ('v xmodel, unit) exec" where
  "readMessages =
     for_elements (\<lambda>name cur_node.
       if name = ''message'' then readMessage cur_node else readUnknownElement cur_node)"

section \<open>Model files\<close>

record model_files =
  mf_exists :: "string \<Rightarrow> bool"
  mf_parse :: "string \<Rightarrow> xml option"
  mf_absolute :: "string \<Rightarrow> string"
  mf_parent :: "string \<Rightarrow> string"

text \<open>
  A model file is read in the course of reading one that includes it. \<open>None\<close> stands for a depth
  of nested files that has not been enough.
\<close>

type_synonym ('s, 'a) nested = "'s \<Rightarrow> ((exn + 'a) \<times> 's) option"

definition plainN :: "('s, 'a) exec \<Rightarrow> ('s, 'a) nested" where
  "plainN m s = Some (m s)"

fun forN :: "('x \<Rightarrow> ('s, unit) nested) \<Rightarrow> 'x list \<Rightarrow> ('s, unit) nested" where
  "forN f [] s = Some (Inr (), s)"
| "forN f (x # xs) s =
     (case f x s of
        None \<Rightarrow> None
      | Some (Inl e, s') \<Rightarrow> Some (Inl e, s')
      | Some (Inr _, s') \<Rightarrow> forN f xs s')"

definition for_elementN :: "(string \<Rightarrow> xml \<Rightarrow> ('s, unit) nested) \<Rightarrow> xml \<Rightarrow> ('s, unit) nested" where
  "for_elementN f node = (case node of Element n as cs \<Rightarrow> f n node | _ \<Rightarrow> plainN (returnE ()))"

definition for_elementsN :: "(string \<Rightarrow> xml \<Rightarrow> ('s, unit) nested) \<Rightarrow> xml \<Rightarrow> ('s, unit) nested" where
  "for_elementsN f node = forN (for_elementN f) (xml_children node)"

definition has_suffix :: "string \<Rightarrow> string \<Rightarrow> bool" where
  "has_suffix s suf \<longleftrightarrow> length suf \<le> length s \<and> drop (length s - length suf) s = suf"

definition readIncludedModelValidate ::
    "model_files \<Rightarrow> (string \<Rightarrow> ('v xmodel, unit) nested) \<Rightarrow> string \<Rightarrow> string \<Rightarrow> bool \<Rightarrow> ('v xmodel, unit) nested" where
  "readIncludedModelValidate lib read directory fileName enable m =
     (if \<not> enable then Some (Inr (), m)
      else if \<not> has_suffix fileName ''.xml'' \<and> \<not> has_suffix fileName ''.XML'' then
        Some (Inl (flame_io_exception (''Included model file does not end in '' @ [CHR 0x27] @ ''.xml'' @ [CHR 0x27] @ '': '' @ fileName)), m)
      else
        let file = directory @ fileName in
        case XModel_addIncludedModel (mf_absolute lib file) m of
          (False, m') \<Rightarrow> Some (Inl (flame_io_exception (''Error: Included model is a duplicate: '' @ file)), m')
        | (True, m') \<Rightarrow>
            (case read file m' of
               Some (Inl (inaccessable_file _), m'') \<Rightarrow>
                 Some (Inl (inaccessable_file (''Error: Submodel file cannot be opened: '' @ file)), m'')
             | r \<Rightarrow> r))"

definition read_inclusion :: "xml \<Rightarrow> (string \<times> bool, unit) exec" where
  "read_inclusion =
     for_elements (\<lambda>name cur_node.
       if name = ''file'' then set_value (\<lambda>t (fileName, enable). (t, enable)) cur_node
       else if name = ''enabled'' then
         (\<lambda>(fileName, enable).
            case getElementValue cur_node of
              Inl e \<Rightarrow> (Inl e, fileName, enable)
            | Inr t \<Rightarrow>
                if t = ''true'' then (Inr (), fileName, True)
                else if t = ''false'' then (Inr (), fileName, False)
                else (Inl (flame_io_exception (''Error: Included model has invalid enabled value '' @ t)), fileName, enable))
       else readUnknownElement cur_node)"

definition readIncludedModel ::
    "model_files \<Rightarrow> (string \<Rightarrow> ('v xmodel, unit) nested) \<Rightarrow> string \<Rightarrow> xml \<Rightarrow> ('v xmodel, unit) nested" where
  "readIncludedModel lib read directory node m =
     (case read_inclusion node ([], True) of
        (Inl e, _) \<Rightarrow> Some (Inl e, m)
      | (Inr _, fileName, enable) \<Rightarrow> readIncludedModelValidate lib read directory fileName enable m)"

definition readIncludedModels ::
    "model_files \<Rightarrow> (string \<Rightarrow> ('v xmodel, unit) nested) \<Rightarrow> string \<Rightarrow> xml \<Rightarrow> ('v xmodel, unit) nested" where
  "readIncludedModels lib read directory =
     for_elementsN (\<lambda>name cur_node.
       if name = ''model'' then readIncludedModel lib read directory cur_node
       else plainN (readUnknownElement cur_node))"

definition read_model_member ::
    "model_files \<Rightarrow> (string \<Rightarrow> ('v xmodel, unit) nested) \<Rightarrow> string \<Rightarrow> string \<Rightarrow> xml \<Rightarrow> ('v xmodel, unit) nested" where
  "read_model_member lib read directory name cur_node =
     (if name = ''name'' then plainN (set_value XModel_setName cur_node)
      else if name = ''version'' \<or> name = ''author'' \<or> name = ''description'' then plainN (returnE ())
      else if name = ''models'' then readIncludedModels lib read directory cur_node
      else if name = ''environment'' then plainN (readEnvironment cur_node)
      else if name = ''agents'' then plainN (readAgents cur_node)
      else if name = ''messages'' then plainN (readMessages cur_node)
      else plainN (readUnknownElement cur_node))"

definition readModelElements ::
    "model_files \<Rightarrow> (string \<Rightarrow> ('v xmodel, unit) nested) \<Rightarrow> string \<Rightarrow> xml \<Rightarrow> ('v xmodel, unit) nested" where
  "readModelElements lib read directory = for_elementsN (read_model_member lib read directory)"

text \<open>A root without the attribute is a null pointer that is made a string.\<close>

definition validateXMLModelRootElement :: "xml \<Rightarrow> string \<Rightarrow> exn + unit" where
  "validateXMLModelRootElement root_element file_name =
     (case root_element of
        Element n as cs \<Rightarrow>
          if n \<noteq> ''xmodel'' then
            Inl (invalid_model_file (''Model file does not have root called '' @ [CHR 0x27] @ ''xmodel'' @ [CHR 0x27] @ '': '' @ file_name))
          else
            (case map_of as ''version'' of
               None \<Rightarrow> Inl (UB ''string of a null pointer'')
             | Some version \<Rightarrow>
                 if version \<noteq> ''2'' then
                   Inl (invalid_model_file (''Model file is not '' @ [CHR 0x27] @ ''xmodel'' @ [CHR 0x27] @ '' version 2: '' @ file_name))
                 else Inr ())
      | _ \<Rightarrow> Inl (UB ''null pointer''))"

definition read_file ::
    "model_files \<Rightarrow> (string \<Rightarrow> ('v xmodel, unit) nested) \<Rightarrow> string \<Rightarrow> ('v xmodel, unit) nested" where
  "read_file lib read file_name m =
     (let directory = mf_parent lib file_name @ ''/'';
          m' = m\<lparr>xo_path := mf_absolute lib file_name\<rparr> in
      if \<not> mf_exists lib file_name then
        Some (Inl (inaccessable_file (''Error: Model file cannot be opened: '' @ file_name)), m')
      else
        case mf_parse lib file_name of
          None \<Rightarrow> Some (Inl (unparseable_file (''Error: Model file cannot be parsed: '' @ file_name)), m')
        | Some root_element \<Rightarrow>
            (case validateXMLModelRootElement root_element file_name of
               Inl e \<Rightarrow> Some (Inl e, m')
             | Inr _ \<Rightarrow> readModelElements lib read directory root_element m'))"

fun readXMLModel :: "nat \<Rightarrow> model_files \<Rightarrow> string \<Rightarrow> ('v xmodel, unit) nested" where
  "readXMLModel 0 lib file_name m = None"
| "readXMLModel (Suc depth) lib file_name m = read_file lib (readXMLModel depth lib) file_name m"

end
