(* ===== verification/Model_Documents.thy ===== *)
theory Model_Documents
  imports Model_Input Graph_Paths
begin

text \<open>
  The document of a model description, and what reading makes of it: conditions, variables,
  functions, agent types and whole models are read back as they are, and conditions that are read
  can be validated.
\<close>

section \<open>Conditions that are read\<close>

text \<open>Whatever the document has, the flags that processing sets are not set by reading.\<close>

lemma unprocessed_new [simp]: "unprocessed XCondition_new"
  by (simp add: XCondition_new_def cond_init_def unprocessed_data_def)

lemma unprocessed_parts:
  "unprocessed c \<longleftrightarrow> unprocessed_data (cond_of c) \<and> pred_option unprocessed (lhsCondition c) \<and>
    pred_option unprocessed (rhsCondition c)"
  by (cases c) simp

definition keeps_unprocessed :: "(xcondition, unit) exec \<Rightarrow> bool" where
  "keeps_unprocessed m \<longleftrightarrow> (\<forall>c. unprocessed c \<longrightarrow> unprocessed (snd (m c)))"

lemma keepsD: "keeps_unprocessed m \<Longrightarrow> unprocessed c \<Longrightarrow> unprocessed (snd (m c))"
  by (simp add: keeps_unprocessed_def)

lemma unprocessed_return: "keeps_unprocessed (returnE a)"
  by (simp add: keeps_unprocessed_def returnE_def)

lemma keeps_unknown: "keeps_unprocessed (readUnknownElement x)"
  by (simp add: readUnknownElement_def unprocessed_return)

lemma unprocessed_bind: "keeps_unprocessed m \<Longrightarrow> (\<And>a. keeps_unprocessed (f a)) \<Longrightarrow> keeps_unprocessed (bindE m f)"
  unfolding keeps_unprocessed_def bindE_def by (fastforce split: prod.split sum.split)

lemma unprocessed_data_updates [simp]:
  "unprocessed_data (d\<lparr>xc_tempValue := t\<rparr>) = unprocessed_data d"
  "unprocessed_data (d\<lparr>xc_lhs := t\<rparr>) = unprocessed_data d"
  "unprocessed_data (d\<lparr>xc_op := t\<rparr>) = unprocessed_data d"
  "unprocessed_data (d\<lparr>xc_rhs := t\<rparr>) = unprocessed_data d"
  "unprocessed_data (d\<lparr>xc_isNot := b\<rparr>) = unprocessed_data d"
  "unprocessed_data (d\<lparr>xc_isTime := b\<rparr>) = unprocessed_data d"
  "unprocessed_data (d\<lparr>xc_timePeriod := t\<rparr>) = unprocessed_data d"
  "unprocessed_data (d\<lparr>xc_timePhaseVariable := t\<rparr>) = unprocessed_data d"
  "unprocessed_data (d\<lparr>xc_timeDurationString := t\<rparr>) = unprocessed_data d"
  "unprocessed_data (d\<lparr>xc_foundTimeDuration := b\<rparr>) = unprocessed_data d"
  "unprocessed_data (d\<lparr>xc_lhsIsValue := b\<rparr>) = unprocessed_data d"
  "unprocessed_data (d\<lparr>xc_rhsIsValue := b\<rparr>) = unprocessed_data d"
  "unprocessed_data (d\<lparr>xc_lhsIsCondition := b\<rparr>) = unprocessed_data d"
  "unprocessed_data (d\<lparr>xc_rhsIsCondition := b\<rparr>) = unprocessed_data d"
  by (simp_all add: unprocessed_data_def)

lemma unprocessed_data_kind [simp]:
  "unprocessed_data d \<Longrightarrow> unprocessed_data (d\<lparr>xc_isTime := a, xc_isValues := False, xc_isConditions := False\<rparr>)"
  by (simp add: unprocessed_data_def)

lemma keeps_change:
  assumes "\<And>d. unprocessed_data d \<Longrightarrow> unprocessed_data (f d)"
  shows "keeps_unprocessed (changeE (set_cond f))"
  unfolding keeps_unprocessed_def
proof (intro allI impI)
  fix c assume "unprocessed c"
  with assms show "unprocessed (snd (changeE (set_cond f) c))" by (cases c) (simp add: changeE_def)
qed

lemma keeps_value:
  assumes "\<And>t d. unprocessed_data d \<Longrightarrow> unprocessed_data (f t d)"
  shows "keeps_unprocessed (set_value (\<lambda>t. set_cond (f t)) node)"
  unfolding keeps_unprocessed_def
proof (intro allI impI)
  fix c assume "unprocessed c"
  with assms show "unprocessed (snd (set_value (\<lambda>t. set_cond (f t)) node c))"
    by (cases c; cases "getElementValue node") (simp_all add: set_value_def)
qed

lemma keeps_for_elements:
  "(\<And>n x. keeps_unprocessed (f n x)) \<Longrightarrow> keeps_unprocessed (for_elements f node)"
  unfolding keeps_unprocessed_def for_elements_def
  by (intro allI impI, rule forE_invariant [where P = unprocessed])
    (auto simp: for_element_def returnE_def split: xml.split)

lemma keeps_side:
  assumes "keeps_unprocessed m"
  shows "keeps_unprocessed (readConditionLhs m)" "keeps_unprocessed (readConditionRhs m)"
proof -
  obtain r c' where c': "m XCondition_new = (r, c')" by (cases "m XCondition_new")
  have u: "unprocessed c'" using keepsD [OF assms, of XCondition_new] c' by simp
  have "unprocessed (snd (readConditionLhs m c)) \<and> unprocessed (snd (readConditionRhs m c))" if "unprocessed c" for c
    using that u c' by (cases c; cases r) (simp_all add: readConditionLhs_def readConditionRhs_def Let_def)
  then show "keeps_unprocessed (readConditionLhs m)" "keeps_unprocessed (readConditionRhs m)"
    by (simp_all add: keeps_unprocessed_def)
qed

lemma keeps_time: "keeps_unprocessed (readConditionTime node)"
proof -
  have "keeps_unprocessed (for_elements (\<lambda>name_2 cur_node_2.
         if name_2 = ''period'' then
           set_value (\<lambda>t. set_cond (\<lambda>d. d\<lparr>xc_timePeriod := t\<rparr>)) cur_node_2
         else if name_2 = ''phase'' then
           set_value (\<lambda>t. set_cond (\<lambda>d. d\<lparr>xc_timePhaseVariable := t\<rparr>)) cur_node_2
         else if name_2 = ''duration'' then
           bindE (changeE (set_cond (\<lambda>d. d\<lparr>xc_foundTimeDuration := True\<rparr>)))
             (\<lambda>_. set_value (\<lambda>t. set_cond (\<lambda>d. d\<lparr>xc_timeDurationString := t\<rparr>)) cur_node_2)
         else readUnknownElement cur_node_2) node)"
    by (rule keeps_for_elements) (simp add: keeps_value keeps_change unprocessed_bind keeps_unknown)
  then show ?thesis
    unfolding readConditionTime_def by (intro unprocessed_bind keeps_change) simp_all
qed

lemma keeps_condition_nodes: "keeps_unprocessed (readCondition_nodes nodes)"
proof (induction nodes rule: readCondition_nodes.induct)
  case 1
  show ?case by (simp add: unprocessed_return)
next
  case (2 name as cs rest)
  show ?case unfolding readCondition_nodes.simps
    using 2 by (intro unprocessed_bind) (simp_all add: keeps_value keeps_change unprocessed_bind keeps_unknown keeps_time keeps_side)
next
  case (3 t rest)
  then show ?case by simp
next
  case (4 t rest)
  then show ?case by simp
qed

lemma read_condition_unprocessed: "unprocessed (snd (readCondition node XCondition_new))"
  unfolding readCondition_def by (rule keepsD [OF keeps_condition_nodes]) simp

section \<open>The document of a condition\<close>

definition text_element :: "string \<Rightarrow> string \<Rightarrow> xml" where
  "text_element n t = Element n [] [Text t]"

text \<open>A member that is empty has no element.\<close>

definition field :: "string \<Rightarrow> string \<Rightarrow> xml list" where
  "field n t = (if t = [] then [] else [text_element n t])"

fun condition_nodes :: "xcondition \<Rightarrow> xml list" where
  "condition_nodes (XCondition d l r) =
     (let body =
        (if xc_isTime d then
           [Element ''time'' [] (field ''period'' (xc_timePeriod d) @ field ''phase'' (xc_timePhaseVariable d) @
              (if xc_foundTimeDuration d then [text_element ''duration'' (xc_timeDurationString d)] else []))]
         else
           [Element ''lhs'' [] (case l of None \<Rightarrow> [text_element ''value'' (xc_lhs d)] | Some c \<Rightarrow> condition_nodes c)] @
           field ''op'' (xc_op d) @
           [Element ''rhs'' [] (case r of None \<Rightarrow> [text_element ''value'' (xc_rhs d)] | Some c \<Rightarrow> condition_nodes c)])
      in if xc_isNot d then [Element ''not'' [] body] else body)"

text \<open>Conditions as a document can describe them: nothing else than the members it has is set.\<close>

definition time_members :: "cond_data \<Rightarrow> bool" where
  "time_members d \<longleftrightarrow>
     d\<lparr>xc_isNot := False, xc_isTime := False, xc_timePeriod := [], xc_timePhaseVariable := [],
       xc_timeDurationString := [], xc_foundTimeDuration := False\<rparr> = cond_init"

definition symbol_members :: "cond_data \<Rightarrow> bool" where
  "symbol_members d \<longleftrightarrow>
     d\<lparr>xc_isNot := False, xc_op := [], xc_lhs := [], xc_rhs := [], xc_lhsIsValue := False,
       xc_rhsIsValue := False, xc_lhsIsCondition := False, xc_rhsIsCondition := False\<rparr> = cond_init"

fun described_condition :: "xcondition \<Rightarrow> bool" where
  "described_condition (XCondition d l r) \<longleftrightarrow>
     (if xc_isTime d then
        l = None \<and> r = None \<and> (\<not> xc_foundTimeDuration d \<longrightarrow> xc_timeDurationString d = []) \<and> time_members d
      else
        (case l of None \<Rightarrow> xc_lhs d \<noteq> [] | Some c \<Rightarrow> xc_lhs d = [] \<and> described_condition c) \<and>
        (case r of None \<Rightarrow> xc_rhs d \<noteq> [] | Some c \<Rightarrow> xc_rhs d = [] \<and> described_condition c) \<and>
        xc_lhsIsValue d = (l = None) \<and> xc_lhsIsCondition d = (l \<noteq> None) \<and>
        xc_rhsIsValue d = (r = None) \<and> xc_rhsIsCondition d = (r \<noteq> None) \<and> symbol_members d)"

lemma members_temp: "time_members d \<or> symbol_members d \<Longrightarrow> xc_tempValue d = []"
  by (cases d) (auto simp: time_members_def symbol_members_def cond_init_def)

lemma described_temp: "described_condition c \<Longrightarrow> xc_tempValue (cond_of c) = []"
  by (cases c) (auto intro!: members_temp split: if_splits)

section \<open>Reading the document of a condition\<close>

lemma nodes_Cons_append:
  "readCondition_nodes (xs @ ys) = bindE (readCondition_nodes xs) (\<lambda>_. readCondition_nodes ys)"
proof (induction xs)
  case Nil
  then show ?case by (auto simp: bindE_def returnE_def)
next
  case (Cons x xs)
  then show ?case by (cases x) (auto simp: bindE_def fun_eq_iff split: prod.splits sum.splits)
qed

lemma read_time_fields:
  assumes "time_members d" "\<not> xc_foundTimeDuration d \<Longrightarrow> xc_timeDurationString d = []" "xc_isTime d"
  shows "readConditionTime (Element ''time'' [] (field ''period'' (xc_timePeriod d) @
      field ''phase'' (xc_timePhaseVariable d) @
      (if xc_foundTimeDuration d then [text_element ''duration'' (xc_timeDurationString d)] else [])))
    (XCondition (cond_init\<lparr>xc_isNot := xc_isNot d\<rparr>) None None) = (Inr (), XCondition d None None)"
  using assms
  by (cases d)
    (simp add: time_members_def cond_init_def readConditionTime_def for_elements_def for_element_def
      field_def text_element_def set_value_def changeE_def bindE_def returnE_def)

lemma read_value_node:
  "readCondition_nodes [text_element ''value'' v] XCondition_new = (Inr (), XCondition (cond_init\<lparr>xc_tempValue := v\<rparr>) None None)"
  by (simp add: text_element_def set_value_def XCondition_new_def bindE_def returnE_def)

text \<open>What is set once the left side, or both sides, have been read.\<close>

definition with_lhs :: "cond_data \<Rightarrow> cond_data" where
  "with_lhs d = cond_init\<lparr>xc_isNot := xc_isNot d, xc_lhs := xc_lhs d, xc_lhsIsValue := xc_lhsIsValue d,
     xc_lhsIsCondition := xc_lhsIsCondition d\<rparr>"

definition with_op :: "cond_data \<Rightarrow> cond_data" where
  "with_op d = (with_lhs d)\<lparr>xc_op := xc_op d\<rparr>"

definition side_nodes :: "string \<Rightarrow> xcondition option \<Rightarrow> xml list" where
  "side_nodes v p = (case p of None \<Rightarrow> [text_element ''value'' v] | Some c \<Rightarrow> condition_nodes c)"

definition side_described :: "string \<Rightarrow> bool \<Rightarrow> bool \<Rightarrow> xcondition option \<Rightarrow> bool" where
  "side_described v is_value is_cond p \<longleftrightarrow>
     (case p of None \<Rightarrow> v \<noteq> [] | Some c \<Rightarrow> v = [] \<and> described_condition c) \<and>
     is_value = (p = None) \<and> is_cond = (p \<noteq> None)"

lemma read_lhs:
  assumes "side_described (xc_lhs d) (xc_lhsIsValue d) (xc_lhsIsCondition d) l"
    and "\<And>c. l = Some c \<Longrightarrow> described_condition c \<Longrightarrow> readCondition_nodes (condition_nodes c) XCondition_new = (Inr (), c)"
  shows "readConditionLhs (readCondition_nodes (side_nodes (xc_lhs d) l))
      (XCondition (cond_init\<lparr>xc_isNot := xc_isNot d\<rparr>) None None) = (Inr (), XCondition (with_lhs d) l None)"
proof (cases l)
  case None
  then show ?thesis using assms(1)
    by (simp add: side_described_def side_nodes_def readConditionLhs_def read_value_node with_lhs_def cond_init_def Let_def)
next
  case (Some c)
  then have "described_condition c" using assms(1) by (simp add: side_described_def)
  with assms(2) [OF Some] described_temp [of c] Some assms(1) show ?thesis
    by (simp add: side_described_def side_nodes_def readConditionLhs_def with_lhs_def cond_init_def Let_def)
qed

lemma with_op_complete:
  assumes "symbol_members d" "\<not> xc_isTime d"
  shows "(with_op d)\<lparr>xc_tempValue := [], xc_rhs := xc_rhs d, xc_rhsIsValue := xc_rhsIsValue d,
    xc_rhsIsCondition := xc_rhsIsCondition d\<rparr> = d"
  using assms by (cases d) (simp add: symbol_members_def with_op_def with_lhs_def cond_init_def)

lemma with_op_rhs [simp]:
  "xc_rhsIsValue (with_op d) = False" "xc_rhsIsCondition (with_op d) = False" "xc_rhs (with_op d) = []"
  "xc_tempValue (with_op d) = []"
  by (simp_all add: with_op_def with_lhs_def cond_init_def)

lemma read_rhs:
  assumes "side_described (xc_rhs d) (xc_rhsIsValue d) (xc_rhsIsCondition d) r"
    and "\<And>c. r = Some c \<Longrightarrow> described_condition c \<Longrightarrow> readCondition_nodes (condition_nodes c) XCondition_new = (Inr (), c)"
    and "symbol_members d" "\<not> xc_isTime d"
  shows "readConditionRhs (readCondition_nodes (side_nodes (xc_rhs d) r)) (XCondition (with_op d) l None) =
    (Inr (), XCondition d l r)"
proof (cases r)
  case None
  have "(with_op d)\<lparr>xc_tempValue := [], xc_rhs := xc_rhs d, xc_rhsIsValue := True\<rparr> = d"
    using with_op_complete [OF assms(3,4)] assms(1) None
    by (cases d) (simp add: side_described_def with_op_def with_lhs_def cond_init_def)
  then show ?thesis using assms(1) None
    by (simp add: side_described_def side_nodes_def readConditionRhs_def read_value_node cond_init_def Let_def)
next
  case (Some c)
  then have "described_condition c" using assms(1) by (simp add: side_described_def)
  moreover have "(with_op d)\<lparr>xc_tempValue := [], xc_rhsIsCondition := True\<rparr> = d"
    using with_op_complete [OF assms(3,4)] assms(1) Some
    by (cases d) (simp add: side_described_def with_op_def with_lhs_def cond_init_def)
  ultimately show ?thesis using assms(2) [OF Some] described_temp [of c] Some
    by (simp add: side_nodes_def readConditionRhs_def Let_def)
qed

lemma read_op:
  "readCondition_nodes (field ''op'' (xc_op d)) (XCondition (with_lhs d) l None) = (Inr (), XCondition (with_op d) l None)"
  by (simp add: field_def text_element_def set_value_def bindE_def returnE_def with_op_def with_lhs_def cond_init_def)

definition condition_body :: "cond_data \<Rightarrow> xcondition option \<Rightarrow> xcondition option \<Rightarrow> xml list" where
  "condition_body d l r =
     (if xc_isTime d then
        [Element ''time'' [] (field ''period'' (xc_timePeriod d) @ field ''phase'' (xc_timePhaseVariable d) @
           (if xc_foundTimeDuration d then [text_element ''duration'' (xc_timeDurationString d)] else []))]
      else
        [Element ''lhs'' [] (side_nodes (xc_lhs d) l)] @ field ''op'' (xc_op d) @
        [Element ''rhs'' [] (side_nodes (xc_rhs d) r)])"

lemma condition_nodes_body:
  "condition_nodes (XCondition d l r) =
    (if xc_isNot d then [Element ''not'' [] (condition_body d l r)] else condition_body d l r)"
  by (simp add: condition_body_def side_nodes_def Let_def)

lemma described_sides:
  "described_condition (XCondition d l r) \<Longrightarrow> \<not> xc_isTime d \<Longrightarrow>
    side_described (xc_lhs d) (xc_lhsIsValue d) (xc_lhsIsCondition d) l \<and>
    side_described (xc_rhs d) (xc_rhsIsValue d) (xc_rhsIsCondition d) r \<and> symbol_members d"
  by (simp add: side_described_def)

lemma read_condition_nodes:
  "described_condition c \<Longrightarrow> readCondition_nodes (condition_nodes c) XCondition_new = (Inr (), c)"
proof (induction c)
  case (XCondition d l r)
  have body: "readCondition_nodes (condition_body d l r) (XCondition (cond_init\<lparr>xc_isNot := xc_isNot d\<rparr>) None None) =
      (Inr (), XCondition d l r)"
  proof (cases "xc_isTime d")
    case True
    with XCondition.prems have d: "time_members d" "\<not> xc_foundTimeDuration d \<Longrightarrow> xc_timeDurationString d = []"
      "l = None" "r = None" by auto
    show ?thesis using True d(3,4) read_time_fields [OF d(1,2) True]
      by (simp add: condition_body_def bindE_def returnE_def)
  next
    case False
    note sides = described_sides [OF XCondition.prems False]
    have l: "readConditionLhs (readCondition_nodes (side_nodes (xc_lhs d) l))
        (XCondition (cond_init\<lparr>xc_isNot := xc_isNot d\<rparr>) None None) = (Inr (), XCondition (with_lhs d) l None)"
      using read_lhs [of d l] sides XCondition.IH(1) by auto
    have r: "readConditionRhs (readCondition_nodes (side_nodes (xc_rhs d) r)) (XCondition (with_op d) l None) =
        (Inr (), XCondition d l r)"
      using read_rhs [of d r l] sides XCondition.IH(2) False by auto
    show ?thesis using False l read_op [of d l] r
      by (simp add: condition_body_def bindE_def returnE_def nodes_Cons_append)
  qed
  have "cond_init\<lparr>xc_isNot := False\<rparr> = cond_init" by (simp add: cond_init_def)
  then show ?case using body unfolding condition_nodes_body
    by (cases "xc_isNot d") (simp_all add: XCondition_new_def bindE_def returnE_def changeE_def)
qed

lemma read_condition:
  "described_condition c \<Longrightarrow> readCondition (Element n as (condition_nodes c)) XCondition_new = (Inr (), c)"
  by (simp add: readCondition_def read_condition_nodes)

section \<open>The document of a model\<close>

definition variable_tree :: "xvariable \<Rightarrow> xml" where
  "variable_tree v =
     Element ''variable'' [] (field ''type'' (xv_type v) @ field ''name'' (xv_name v) @
       (if xv_constantSet v then [text_element ''constant'' (xv_constantString v)] else []))"

definition described_variable :: "xvariable \<Rightarrow> bool" where
  "described_variable v \<longleftrightarrow>
     (\<not> xv_constantSet v \<longrightarrow> xv_constantString v = []) \<and>
     v\<lparr>xv_type := [], xv_name := [], xv_constantSet := False, xv_constantString := []\<rparr> = XVariable_new []"

definition datatype_tree :: "xadt \<Rightarrow> xml" where
  "datatype_tree d =
     Element ''dataType'' [] (field ''name'' (xd_name d) @
       [Element ''variables'' [] (map variable_tree (xd_variables d))])"

definition described_adt :: "xadt \<Rightarrow> bool" where
  "described_adt d \<longleftrightarrow> list_all described_variable (xd_variables d) \<and> \<not> xd_holdsDynamicArray d"

definition timeunit_tree :: "xtimeunit \<Rightarrow> xml" where
  "timeunit_tree u =
     Element ''timeUnit'' [] (field ''name'' (xt_name u) @ field ''unit'' (xt_unit u) @
       field ''period'' (xt_periodString u))"

definition timeunit_key :: "xtimeunit \<Rightarrow> string \<times> string \<times> string" where
  "timeunit_key u = (xt_name u, xt_unit u, xt_periodString u)"

definition described_timeunits :: "xtimeunit list \<Rightarrow> bool" where
  "described_timeunits us \<longleftrightarrow>
     distinct (map timeunit_key us) \<and> (\<forall>i < length us. xt_id (us ! i) = int i \<and> xt_period (us ! i) = 0)"

definition io_tree :: "string \<Rightarrow> xioput \<Rightarrow> xml" where
  "io_tree n i =
     Element n [] (field ''messageName'' (xi_messageName i) @
       (case xi_filter i of None \<Rightarrow> [] | Some c \<Rightarrow> [Element ''filter'' [] (condition_nodes c)]) @
       (if xi_sort i then [Element ''sort'' [] (field ''key'' (xi_sortKey i) @ field ''order'' (xi_sortOrder i))] else []) @
       (if xi_randomSet i then [text_element ''random'' (xi_randomString i)] else []))"

definition described_input :: "xioput \<Rightarrow> bool" where
  "described_input i \<longleftrightarrow>
     pred_option described_condition (xi_filter i) \<and> \<not> xi_random i \<and>
     (\<not> xi_sort i \<longrightarrow> xi_sortKey i = [] \<and> xi_sortOrder i = []) \<and> (\<not> xi_randomSet i \<longrightarrow> xi_randomString i = [])"

definition described_output :: "xioput \<Rightarrow> bool" where
  "described_output i \<longleftrightarrow> i = XIOput_new\<lparr>xi_messageName := xi_messageName i\<rparr>"

definition names_tree :: "string \<Rightarrow> string list \<Rightarrow> xml" where
  "names_tree n vs = Element n [] (map (text_element ''variableName'') vs)"

definition function_tree :: "xfunction \<Rightarrow> xml" where
  "function_tree f =
     Element ''function'' [] (field ''name'' (xf_name f) @ field ''currentState'' (xf_currentState f) @
       field ''nextState'' (xf_nextState f) @
       (case xf_condition f of None \<Rightarrow> [] | Some c \<Rightarrow> [Element ''condition'' [] (condition_nodes c)]) @
       [Element ''inputs'' [] (map (io_tree ''input'') (xf_inputs f)),
        Element ''outputs'' [] (map (io_tree ''output'') (xf_outputs f))] @
       (if xf_memoryAccessInfoAvailable f
        then [Element ''memoryAccess'' [] [names_tree ''readOnly'' (xf_readOnlyVariables f),
                names_tree ''readWrite'' (xf_readWriteVariables f)]]
        else []))"

definition described_function :: "xfunction \<Rightarrow> bool" where
  "described_function f \<longleftrightarrow>
     pred_option described_condition (xf_condition f) \<and> list_all described_input (xf_inputs f) \<and>
     list_all described_output (xf_outputs f) \<and>
     (\<not> xf_memoryAccessInfoAvailable f \<longrightarrow> xf_readOnlyVariables f = [] \<and> xf_readWriteVariables f = [])"

definition agent_tree :: "xmachine \<Rightarrow> xml" where
  "agent_tree a =
     Element ''xagent'' [] [text_element ''name'' (xa_name a),
       Element ''memory'' [] (map variable_tree (xa_variables a)),
       Element ''functions'' [] (map function_tree (xa_functions a))]"

definition described_agent :: "xmachine \<Rightarrow> bool" where
  "described_agent a \<longleftrightarrow>
     list_all described_variable (xa_variables a) \<and> list_all described_function (xa_functions a) \<and>
     a\<lparr>xa_id := 0, xa_variables := [], xa_functions := []\<rparr> = XMachine_setName (xa_name a) XMachine_new"

definition message_tree :: "xmessage \<Rightarrow> xml" where
  "message_tree g =
     Element ''message'' [] (field ''name'' (xm_name g) @
       [Element ''variables'' [] (map variable_tree (xm_variables g))])"

definition model_tree :: "'v xmodel \<Rightarrow> xml" where
  "model_tree m =
     Element ''xmodel'' [(''version'', ''2'')] (field ''name'' (xo_name m) @
       [Element ''environment'' []
          [Element ''constants'' [] (map variable_tree (xo_constants m)),
           Element ''dataTypes'' [] (map datatype_tree (xo_adts m)),
           Element ''timeUnits'' [] (map timeunit_tree (xo_timeUnits m)),
           Element ''functionFiles'' [] (map (text_element ''file'') (xo_functionFiles m))],
        Element ''agents'' [] (map agent_tree (xo_agents m)),
        Element ''messages'' [] (map message_tree (xo_messages m))])"

text \<open>
  Models as a document without included models can describe them: nothing is validated or derived
  yet, the numbers of time units, agent types and messages are their places, and agent types and
  time units are not repeated.
\<close>

definition described_model :: "'v xmodel \<Rightarrow> bool" where
  "described_model m \<longleftrightarrow>
     list_all described_variable (xo_constants m) \<and> list_all described_adt (xo_adts m) \<and>
     described_timeunits (xo_timeUnits m) \<and>
     list_all described_agent (xo_agents m) \<and> distinct (map xa_name (xo_agents m)) \<and>
     (\<forall>i < length (xo_agents m). xa_id (xo_agents m ! i) = int i) \<and>
     list_all (\<lambda>g. list_all described_variable (xm_variables g)) (xo_messages m) \<and>
     (\<forall>i < length (xo_messages m). xm_id (xo_messages m ! i) = int i) \<and>
     xo_includedModels m = [] \<and> xo_funcMap m = [] \<and> xo_allowedDataTypes m = xo_allowedDataTypes (XModel_new :: 'v xmodel)"

section \<open>Reading lists\<close>

lemma forE_reads:
  assumes "\<And>x ys. x \<in> set xs \<Longrightarrow> step (tree x) ys = (Inr (), ys @ [x])"
  shows "forE step (map tree xs) ys = (Inr (), ys @ xs)"
  using assms
proof (induction xs arbitrary: ys)
  case Nil
  then show ?case by (simp add: returnE_def)
next
  case (Cons x xs)
  have "forE step (map tree xs) (ys @ [x]) = (Inr (), (ys @ [x]) @ xs)" using Cons by (intro Cons.IH) auto
  with Cons.prems [of x ys] show ?case by (simp add: bindE_def)
qed

lemmas read_simps = for_elements_def for_element_def field_def text_element_def set_value_def changeE_def
  bindE_def returnE_def on_new_def on_part_def forE_append readUnknownElement_def

lemma read_variable:
  assumes "described_variable v"
  shows "readVariable (variable_tree v) vs = (Inr (), vs @ [v])"
  using assms by (cases v) (simp add: described_variable_def readVariable_def variable_tree_def XVariable_new_def read_simps)

lemma read_variables:
  assumes "list_all described_variable vs"
  shows "readVariables (Element n as (map variable_tree vs)) us = (Inr (), us @ vs)"
proof -
  have "for_element (\<lambda>name cur_node. if name = ''variable'' then readVariable cur_node else readUnknownElement cur_node)
      (variable_tree v) ys = (Inr (), ys @ [v])" if "v \<in> set vs" for v ys
    using that assms read_variable [of v ys] by (simp add: list_all_iff for_element_def variable_tree_def)
  then show ?thesis unfolding readVariables_def for_elements_def xml_children.simps by (rule forE_reads)
qed

lemma read_datatype:
  assumes "described_adt d"
  shows "readDataType (datatype_tree d) m = (Inr (), m\<lparr>xo_adts := xo_adts m @ [d]\<rparr>)"
  using assms
  by (cases d) (simp add: described_adt_def readDataType_def datatype_tree_def XADT_new_def read_variables read_simps)

lemma read_message:
  assumes "list_all described_variable (xm_variables g)" "xm_id g = int (length (xo_messages m))"
  shows "readMessage (message_tree g) m = (Inr (), m\<lparr>xo_messages := xo_messages m @ [g]\<rparr>)"
  using assms
  by (cases g) (simp add: readMessage_def message_tree_def XMessage_new_def read_variables read_simps)

lemma read_timeunit:
  assumes "timeunit_key u \<notin> timeunit_key ` set (xo_timeUnits m)" "xt_id u = int (length (xo_timeUnits m))" "xt_period u = 0"
  shows "readTimeUnit (timeunit_tree u) m = (Inr (), m\<lparr>xo_timeUnits := xo_timeUnits m @ [u]\<rparr>)"
proof -
  have "\<not> list_ex (\<lambda>w. xt_name u = xt_name w \<and> xt_unit u = xt_unit w \<and> xt_periodString u = xt_periodString w) (xo_timeUnits m)"
    using assms(1) by (auto simp: list_ex_iff timeunit_key_def)
  moreover have "read_timeunit_members (timeunit_tree u) XTimeUnit_new = (Inr (), u\<lparr>xt_id := 0\<rparr>)"
    using assms(3) by (cases u) (simp add: read_timeunit_members_def timeunit_tree_def XTimeUnit_new_def read_simps)
  ultimately show ?thesis using assms(2)
    by (cases u) (simp add: readTimeUnit_def XModel_addTimeUnit_def)
qed

lemma read_io:
  assumes "described_output i"
  shows "readOutput (io_tree ''output'' i) f = (Inr (), f\<lparr>xf_outputs := xf_outputs f @ [i]\<rparr>)"
  using assms
  by (cases i) (simp add: described_output_def readOutput_def io_tree_def XIOput_new_def read_simps)

lemma read_input:
  assumes "described_input i"
  shows "readInput (io_tree ''input'' i) f = (Inr (), f\<lparr>xf_inputs := xf_inputs f @ [i]\<rparr>)"
  using assms read_condition [of _ "''filter''" "[]"]
  by (cases i; cases "xi_filter i")
    (simp_all add: described_input_def readInput_def io_tree_def XIOput_new_def XIOput_addFilter_def on_some_def
      readSort_def read_simps)

section \<open>Reading functions, agents and whole models\<close>

lemma forE_grow:
  assumes "\<And>pre x suf. xs = pre @ x # suf \<Longrightarrow> step (tree x) (put pre) = (Inr (), put (pre @ [x]))"
  shows "forE step (map tree xs) (put []) = (Inr (), put xs)"
proof -
  have "forE step (map tree suf) (put pre) = (Inr (), put xs)" if "xs = pre @ suf" for pre suf
    using that
  proof (induction suf arbitrary: pre)
    case Nil
    then show ?case by (simp add: returnE_def)
  next
    case (Cons x suf)
    have "forE step (map tree suf) (put (pre @ [x])) = (Inr (), put xs)" using Cons by (intro Cons.IH) simp
    with assms [OF Cons.prems] show ?case by (simp add: bindE_def)
  qed
  then show ?thesis by simp
qed

lemma forE_append_Inr: "forE f xs s = (Inr (), s') \<Longrightarrow> forE f (xs @ ys) s = forE f ys s'"
  by (simp add: forE_append bindE_def)

lemma read_names: "readMemoryAccessVariables (names_tree n vs) us = (Inr (), us @ vs)"
  unfolding readMemoryAccessVariables_def for_elements_def names_tree_def xml_children.simps
  by (rule forE_reads) (simp add: read_simps)

lemma read_inputs:
  assumes "list_all described_input is"
  shows "readInputs (Element n as (map (io_tree ''input'') is)) (f\<lparr>xf_inputs := []\<rparr>) = (Inr (), f\<lparr>xf_inputs := is\<rparr>)"
  unfolding readInputs_def for_elements_def xml_children.simps
  by (rule forE_grow [where put = "\<lambda>is. f\<lparr>xf_inputs := is\<rparr>"])
    (use assms in \<open>simp add: for_element_def io_tree_def read_input [unfolded io_tree_def]\<close>)

lemma read_outputs:
  assumes "list_all described_output os"
  shows "readOutputs (Element n as (map (io_tree ''output'') os)) (f\<lparr>xf_outputs := []\<rparr>) = (Inr (), f\<lparr>xf_outputs := os\<rparr>)"
  unfolding readOutputs_def for_elements_def xml_children.simps
  by (rule forE_grow [where put = "\<lambda>os. f\<lparr>xf_outputs := os\<rparr>"])
    (use assms in \<open>simp add: for_element_def io_tree_def read_io [unfolded io_tree_def]\<close>)

text \<open>The function as it is filled, member by member.\<close>

lemma read_transition:
  assumes "described_function f"
  shows "readTransition (function_tree f) a = (Inr (), a\<lparr>xa_functions := xa_functions a @ [f]\<rparr>)"
proof -
  have c: "pred_option described_condition (xf_condition f)" "list_all described_input (xf_inputs f)"
    "list_all described_output (xf_outputs f)"
    "\<not> xf_memoryAccessInfoAvailable f \<Longrightarrow> xf_readOnlyVariables f = [] \<and> xf_readWriteVariables f = []"
    using assms by (simp_all add: described_function_def)
  let ?f0 = "(XFunction_new [])\<lparr>xf_memoryAccessInfoAvailable := False\<rparr>"
  let ?f1 = "?f0\<lparr>xf_name := xf_name f, xf_currentState := xf_currentState f, xf_nextState := xf_nextState f,
    xf_condition := xf_condition f\<rparr>"
  let ?f2 = "?f1\<lparr>xf_inputs := xf_inputs f\<rparr>"
  let ?f3 = "?f2\<lparr>xf_outputs := xf_outputs f\<rparr>"
  have i: "readInputs (Element ''inputs'' [] (map (io_tree ''input'') (xf_inputs f))) ?f1 = (Inr (), ?f2)"
    using read_inputs [OF c(2), of "''inputs''" "[]" ?f1] by (simp add: XFunction_new_def)
  have o: "readOutputs (Element ''outputs'' [] (map (io_tree ''output'') (xf_outputs f))) ?f2 = (Inr (), ?f3)"
    using read_outputs [OF c(3), of "''outputs''" "[]" ?f2] by (simp add: XFunction_new_def)
  have cond: "readCondition (Element ''condition'' [] (condition_nodes x)) XCondition_new = (Inr (), x)"
    if "xf_condition f = Some x" for x using c(1) that by (simp add: read_condition)
  have mem: "readMemoryAccess (Element ''memoryAccess'' [] [names_tree ''readOnly'' (xf_readOnlyVariables f),
      names_tree ''readWrite'' (xf_readWriteVariables f)]) ?f3 = (Inr (), f)" if "xf_memoryAccessInfoAvailable f"
    using that read_names [of "''readOnly''" "xf_readOnlyVariables f" "[]"]
      read_names [of "''readWrite''" "xf_readWriteVariables f" "[]"]
    by (cases f) (simp add: readMemoryAccess_def read_simps names_tree_def XFunction_new_def)
  have f3: "?f3 = f" if "\<not> xf_memoryAccessInfoAvailable f"
    using that c(4) by (cases f) (simp add: XFunction_new_def)
  let ?step = "for_element read_function_member"
  let ?head = "field ''name'' (xf_name f) @ field ''currentState'' (xf_currentState f) @
       field ''nextState'' (xf_nextState f) @
       (case xf_condition f of None \<Rightarrow> [] | Some c \<Rightarrow> [Element ''condition'' [] (condition_nodes c)])"
  let ?tail = "[Element ''inputs'' [] (map (io_tree ''input'') (xf_inputs f)),
        Element ''outputs'' [] (map (io_tree ''output'') (xf_outputs f))] @
       (if xf_memoryAccessInfoAvailable f
        then [Element ''memoryAccess'' [] [names_tree ''readOnly'' (xf_readOnlyVariables f),
                names_tree ''readWrite'' (xf_readWriteVariables f)]]
        else [])"
  have head: "forE ?step ?head ?f0 = (Inr (), ?f1)"
    using cond
    by (cases "xf_condition f")
      (simp_all add: read_function_member_def read_simps XFunction_new_def XFunction_addCondition_def on_some_def)
  have tail: "forE ?step ?tail ?f1 = (Inr (), f)"
    using i o mem f3 by (cases "xf_memoryAccessInfoAvailable f")
      (simp_all add: read_function_member_def for_element_def bindE_def returnE_def)
  have "xml_children (function_tree f) = ?head @ ?tail" by (simp add: function_tree_def)
  then have "forE ?step (xml_children (function_tree f)) ?f0 = (Inr (), f)"
    using forE_append_Inr [OF head, of ?tail] tail by (simp only:)
  then show ?thesis by (simp add: readTransition_def on_part_def on_new_def for_elements_def)
qed

text \<open>The loops call the function for the name of the element.\<close>

lemma for_element_trees [simp]:
  "for_element f (function_tree x) = f ''function'' (function_tree x)"
  "for_element f (datatype_tree d) = f ''dataType'' (datatype_tree d)"
  "for_element f (timeunit_tree u) = f ''timeUnit'' (timeunit_tree u)"
  "for_element f (agent_tree a) = f ''xagent'' (agent_tree a)"
  "for_element f (message_tree g) = f ''message'' (message_tree g)"
  "for_element f (io_tree n i) = f n (io_tree n i)"
  by (simp_all add: for_element_def function_tree_def datatype_tree_def timeunit_tree_def agent_tree_def
      message_tree_def io_tree_def)

lemma read_transitions:
  assumes "list_all described_function fs"
  shows "readTransitions (Element n as (map function_tree fs)) (m\<lparr>xo_agents := ags @ [a\<lparr>xa_functions := []\<rparr>]\<rparr>, Some (length ags)) =
    (Inr (), m\<lparr>xo_agents := ags @ [a\<lparr>xa_functions := fs\<rparr>]\<rparr>, Some (length ags))"
  unfolding readTransitions_def for_elements_def xml_children.simps
  by (rule forE_grow [where put = "\<lambda>fs. (m\<lparr>xo_agents := ags @ [a\<lparr>xa_functions := fs\<rparr>]\<rparr>, Some (length ags))"])
    (use assms in \<open>simp add: on_agent_def read_transition\<close>)

lemma getAgent_fresh: "a \<notin> xa_name ` set (xo_agents m) \<Longrightarrow> XModel_getAgent a m = None"
  unfolding XModel_getAgent_def find_index_None by auto

lemma read_agent:
  assumes "described_agent a" "xa_name a \<notin> xa_name ` set ags" "xa_id a = int (length ags)"
  shows "readAgent (agent_tree a) (m\<lparr>xo_agents := ags\<rparr>) = (Inr (), m\<lparr>xo_agents := ags @ [a]\<rparr>)"
proof -
  let ?a0 = "(XMachine_setName (xa_name a) XMachine_new)\<lparr>xa_id := int (length ags)\<rparr>"
  have vs: "list_all described_variable (xa_variables a)" and fs: "list_all described_function (xa_functions a)"
    using assms(1) by (simp_all add: described_agent_def)
  have a: "?a0\<lparr>xa_variables := xa_variables a, xa_functions := xa_functions a\<rparr> = a"
    "?a0\<lparr>xa_functions := []\<rparr> = ?a0"
    using assms(1,3) by (cases a; simp add: described_agent_def XMachine_setName_def XMachine_new_def)+
  have add: "add_named_agent (xa_name a) (m\<lparr>xo_agents := ags\<rparr>, None) = (m\<lparr>xo_agents := ags @ [?a0]\<rparr>, Some (length ags))"
    using getAgent_fresh [of "xa_name a" "m\<lparr>xo_agents := ags\<rparr>"] assms(2)
    by (simp add: add_named_agent_def XModel_addAgent_def)
  have mem: "readVariables (Element ''memory'' [] (map variable_tree (xa_variables a))) [] = (Inr (), xa_variables a)"
    using read_variables [OF vs, of "''memory''" "[]" "[]"] by simp
  have no_vars: "xa_variables ?a0 = []" by (simp add: XMachine_setName_def XMachine_new_def)
  have fun1: "readTransitions (Element ''functions'' [] (map function_tree (xa_functions a)))
      (m\<lparr>xo_agents := ags @ [?a0\<lparr>xa_variables := xa_variables a\<rparr>]\<rparr>, Some (length ags)) =
      (Inr (), m\<lparr>xo_agents := ags @ [a]\<rparr>, Some (length ags))"
    using read_transitions [OF fs, where n = "''functions''" and as = "[]" and m = m and ags = ags
        and a = "?a0\<lparr>xa_variables := xa_variables a\<rparr>"] a
    by (simp add: XMachine_setName_def XMachine_new_def)
  show ?thesis
    using add mem fun1 no_vars
    by (simp add: readAgent_def agent_tree_def for_elements_def for_element_def text_element_def set_value_def
        on_agent_def on_part_def bindE_def returnE_def)
qed

lemma read_agents:
  assumes "list_all described_agent ags" "distinct (map xa_name ags)" "\<forall>i < length ags. xa_id (ags ! i) = int i"
  shows "readAgents (Element n as (map agent_tree ags)) (m\<lparr>xo_agents := []\<rparr>) = (Inr (), m\<lparr>xo_agents := ags\<rparr>)"
  unfolding readAgents_def for_elements_def xml_children.simps
proof (rule forE_grow [where put = "\<lambda>ags. m\<lparr>xo_agents := ags\<rparr>"])
  fix pre x suf assume ags: "ags = pre @ x # suf"
  have "length pre < length ags" using ags by simp
  with assms(3) have "xa_id (ags ! length pre) = int (length pre)" by blast
  then have "readAgent (agent_tree x) (m\<lparr>xo_agents := pre\<rparr>) = (Inr (), m\<lparr>xo_agents := pre @ [x]\<rparr>)"
    using assms(1,2) ags by (intro read_agent) auto
  then show "for_element (\<lambda>name cur_node. if name = ''xagent'' then readAgent cur_node else readUnknownElement cur_node)
      (agent_tree x) (m\<lparr>xo_agents := pre\<rparr>) = (Inr (), m\<lparr>xo_agents := pre @ [x]\<rparr>)"
    by simp
qed

lemma read_messages:
  assumes "list_all (\<lambda>g. list_all described_variable (xm_variables g)) gs" "\<forall>i < length gs. xm_id (gs ! i) = int i"
  shows "readMessages (Element n as (map message_tree gs)) (m\<lparr>xo_messages := []\<rparr>) = (Inr (), m\<lparr>xo_messages := gs\<rparr>)"
  unfolding readMessages_def for_elements_def xml_children.simps
proof (rule forE_grow [where put = "\<lambda>gs. m\<lparr>xo_messages := gs\<rparr>"])
  fix pre x suf assume gs: "gs = pre @ x # suf"
  have "length pre < length gs" using gs by simp
  with assms(2) have "xm_id (gs ! length pre) = int (length pre)" by blast
  then have "readMessage (message_tree x) (m\<lparr>xo_messages := pre\<rparr>) = (Inr (), m\<lparr>xo_messages := pre @ [x]\<rparr>)"
    using assms(1) gs read_message [of x "m\<lparr>xo_messages := pre\<rparr>"] by simp
  then show "for_element (\<lambda>name cur_node. if name = ''message'' then readMessage cur_node else readUnknownElement cur_node)
      (message_tree x) (m\<lparr>xo_messages := pre\<rparr>) = (Inr (), m\<lparr>xo_messages := pre @ [x]\<rparr>)"
    by simp
qed

lemma read_timeunits:
  assumes "described_timeunits us"
  shows "readTimeUnits (Element n as (map timeunit_tree us)) (m\<lparr>xo_timeUnits := []\<rparr>) = (Inr (), m\<lparr>xo_timeUnits := us\<rparr>)"
  unfolding readTimeUnits_def for_elements_def xml_children.simps
proof (rule forE_grow [where put = "\<lambda>us. m\<lparr>xo_timeUnits := us\<rparr>"])
  fix pre x suf assume us: "us = pre @ x # suf"
  have "length pre < length us" using us by simp
  with assms have "xt_id (us ! length pre) = int (length pre) \<and> xt_period (us ! length pre) = 0"
    unfolding described_timeunits_def by blast
  moreover have "timeunit_key x \<notin> timeunit_key ` set pre" using assms us by (auto simp: described_timeunits_def)
  ultimately have "readTimeUnit (timeunit_tree x) (m\<lparr>xo_timeUnits := pre\<rparr>) = (Inr (), m\<lparr>xo_timeUnits := pre @ [x]\<rparr>)"
    using us read_timeunit [of x "m\<lparr>xo_timeUnits := pre\<rparr>"] by simp
  then show "for_element (\<lambda>name cur_node. if name = ''timeUnit'' then readTimeUnit cur_node else readUnknownElement cur_node)
      (timeunit_tree x) (m\<lparr>xo_timeUnits := pre\<rparr>) = (Inr (), m\<lparr>xo_timeUnits := pre @ [x]\<rparr>)"
    by simp
qed

lemma read_datatypes:
  assumes "list_all described_adt ds"
  shows "readDataTypes (Element n as (map datatype_tree ds)) (m\<lparr>xo_adts := []\<rparr>) = (Inr (), m\<lparr>xo_adts := ds\<rparr>)"
  unfolding readDataTypes_def for_elements_def xml_children.simps
  by (rule forE_grow [where put = "\<lambda>ds. m\<lparr>xo_adts := ds\<rparr>"])
    (use assms in \<open>simp add: read_datatype\<close>)

lemma read_function_files:
  "readFunctionFiles (Element n as (map (text_element ''file'') fs)) (m\<lparr>xo_functionFiles := []\<rparr>) =
    (Inr (), m\<lparr>xo_functionFiles := fs\<rparr>)"
  unfolding readFunctionFiles_def for_elements_def xml_children.simps
  by (rule forE_grow [where put = "\<lambda>fs. m\<lparr>xo_functionFiles := fs\<rparr>"])
    (simp add: for_element_def text_element_def set_value_def XModel_addFunctionFile_def)

lemma read_environment:
  assumes "described_model m"
  shows "readEnvironment (Element n as
      [Element ''constants'' [] (map variable_tree (xo_constants m)),
       Element ''dataTypes'' [] (map datatype_tree (xo_adts m)),
       Element ''timeUnits'' [] (map timeunit_tree (xo_timeUnits m)),
       Element ''functionFiles'' [] (map (text_element ''file'') (xo_functionFiles m))])
     (m0\<lparr>xo_constants := [], xo_adts := [], xo_timeUnits := [], xo_functionFiles := []\<rparr>) =
    (Inr (), m0\<lparr>xo_constants := xo_constants m, xo_adts := xo_adts m, xo_timeUnits := xo_timeUnits m,
       xo_functionFiles := xo_functionFiles m\<rparr>)"
proof -
  have d: "list_all described_variable (xo_constants m)" "list_all described_adt (xo_adts m)"
    "described_timeunits (xo_timeUnits m)" using assms by (simp_all add: described_model_def)
  let ?m1 = "m0\<lparr>xo_constants := xo_constants m, xo_adts := [], xo_timeUnits := [], xo_functionFiles := []\<rparr>"
  let ?m2 = "?m1\<lparr>xo_adts := xo_adts m\<rparr>"
  let ?m3 = "?m2\<lparr>xo_timeUnits := xo_timeUnits m\<rparr>"
  have 1: "readVariables (Element ''constants'' [] (map variable_tree (xo_constants m))) [] = (Inr (), xo_constants m)"
    using read_variables [OF d(1), of "''constants''" "[]" "[]"] by simp
  have 2: "readDataTypes (Element ''dataTypes'' [] (map datatype_tree (xo_adts m))) ?m1 = (Inr (), ?m2)"
    using read_datatypes [OF d(2), of "''dataTypes''" "[]" ?m1] by (cases m0) simp
  have 3: "readTimeUnits (Element ''timeUnits'' [] (map timeunit_tree (xo_timeUnits m))) ?m2 = (Inr (), ?m3)"
    using read_timeunits [OF d(3), of "''timeUnits''" "[]" ?m2] by (cases m0) simp
  have 4: "readFunctionFiles (Element ''functionFiles'' [] (map (text_element ''file'') (xo_functionFiles m))) ?m3 =
      (Inr (), ?m3\<lparr>xo_functionFiles := xo_functionFiles m\<rparr>)"
    using read_function_files [of "''functionFiles''" "[]" "xo_functionFiles m" ?m3] by (cases m0) simp
  show ?thesis
    using 1 2 3 4
    by (cases m0) (simp add: readEnvironment_def for_elements_def for_element_def on_part_def bindE_def returnE_def)
qed

lemma read_described:
  assumes "described_model m" "mf_exists lib file" "mf_parse lib file = Some (model_tree m)"
  shows "readXMLModel (Suc depth) lib file XModel_new = Some (Inr (), m\<lparr>xo_path := mf_absolute lib file\<rparr>)"
proof -
  let ?path = "mf_absolute lib file"
  let ?m0 = "XModel_new\<lparr>xo_path := ?path, xo_name := xo_name m\<rparr>"
  let ?m1 = "?m0\<lparr>xo_constants := xo_constants m, xo_adts := xo_adts m, xo_timeUnits := xo_timeUnits m,
       xo_functionFiles := xo_functionFiles m\<rparr>"
  let ?m2 = "?m1\<lparr>xo_agents := xo_agents m\<rparr>"
  let ?env = "Element ''environment'' []
          [Element ''constants'' [] (map variable_tree (xo_constants m)),
           Element ''dataTypes'' [] (map datatype_tree (xo_adts m)),
           Element ''timeUnits'' [] (map timeunit_tree (xo_timeUnits m)),
           Element ''functionFiles'' [] (map (text_element ''file'') (xo_functionFiles m))]"
  let ?step = "for_elementN (read_model_member lib (readXMLModel depth lib) (mf_parent lib file @ ''/''))"
  have name: "forN ?step (field ''name'' (xo_name m) @ xs) (XModel_new\<lparr>xo_path := ?path\<rparr>) = forN ?step xs ?m0" for xs
    by (simp add: field_def text_element_def for_elementN_def read_model_member_def plainN_def set_value_def
        XModel_setName_def XModel_new_def)
  have env: "readEnvironment ?env ?m0 = (Inr (), ?m1)"
    using read_environment [OF assms(1), of "''environment''" "[]" ?m0] by (simp add: XModel_new_def)
  have agents: "readAgents (Element ''agents'' [] (map agent_tree (xo_agents m))) ?m1 = (Inr (), ?m2)"
    using read_agents [of "xo_agents m" "''agents''" "[]" ?m1] assms(1) by (simp add: described_model_def XModel_new_def)
  have msgs: "readMessages (Element ''messages'' [] (map message_tree (xo_messages m))) ?m2 =
      (Inr (), ?m2\<lparr>xo_messages := xo_messages m\<rparr>)"
    using read_messages [of "xo_messages m" "''messages''" "[]" ?m2] assms(1) by (simp add: described_model_def XModel_new_def)
  have final: "?m2\<lparr>xo_messages := xo_messages m\<rparr> = m\<lparr>xo_path := ?path\<rparr>"
    using assms(1) by (cases m) (simp add: described_model_def XModel_new_def)
  have "forN ?step (field ''name'' (xo_name m) @ [?env, Element ''agents'' [] (map agent_tree (xo_agents m)),
        Element ''messages'' [] (map message_tree (xo_messages m))]) (XModel_new\<lparr>xo_path := ?path\<rparr>) =
      Some (Inr (), m\<lparr>xo_path := ?path\<rparr>)"
    unfolding name by (simp add: for_elementN_def read_model_member_def plainN_def env agents msgs final)
  then show ?thesis
    using assms(2,3)
    by (simp add: read_file_def model_tree_def validateXMLModelRootElement_def readModelElements_def for_elementsN_def)
qed

text \<open>
  C21. A model description is read back exactly: for every model that a document can describe, reading
  a file with its document into an empty model succeeds and yields that model with all its
  constants, data types, time units, function files, agent types with their variables and
  functions, conditions, filters and memory access, and messages.
\<close>

theorem model_description_round_trip:
  assumes "described_model m" "mf_exists lib file" "mf_parse lib file = Some (model_tree m)"
  shows "readXMLModel (Suc depth) lib file XModel_new = Some (Inr (), m\<lparr>xo_path := mf_absolute lib file\<rparr>)"
  using assms by (rule read_described)

definition sample_described :: "nat xmodel" where
  "sample_described =
     XModel_new\<lparr>xo_name := ''m'', xo_functionFiles := [''f.cpp''],
       xo_agents := [(XMachine_setName ''a'' XMachine_new)\<lparr>
         xa_variables := [new_variable ''int'' ''x''],
         xa_functions := [(XFunction_new ''f'')\<lparr>xf_currentState := ''s'', xf_nextState := ''t'',
           xf_condition := Some (XCondition (cond_init\<lparr>xc_isNot := True, xc_lhs := ''a.x'', xc_op := ''LT'', xc_rhs := ''3'',
             xc_lhsIsValue := True, xc_rhsIsValue := True\<rparr>) None None),
           xf_readOnlyVariables := [''x'']\<rparr>]\<rparr>],
       xo_messages := [XMessage_new\<lparr>xm_name := ''g''\<rparr>]\<rparr>"

lemma sample_described_ok: "described_model sample_described"
  by (simp add: sample_described_def described_model_def XModel_new_def described_agent_def described_variable_def
      described_function_def XMachine_setName_def XMachine_new_def new_variable_def XVariable_new_def XFunction_new_def
      symbol_members_def cond_init_def XMessage_new_def described_timeunits_def)

theorem model_description_round_trip_witness:
  "readXMLModel 1 \<lparr>mf_exists = (\<lambda>_. True), mf_parse = (\<lambda>_. Some (model_tree sample_described)), mf_absolute = id, mf_parent = id\<rparr>
     ''m.xml'' XModel_new = Some (Inr (), sample_described\<lparr>xo_path := ''m.xml''\<rparr>)"
  using model_description_round_trip [OF sample_described_ok, of "\<lparr>mf_exists = (\<lambda>_. True),
      mf_parse = (\<lambda>_. Some (model_tree sample_described)), mf_absolute = id, mf_parent = id\<rparr>" "''m.xml''" 0]
  by simp

text \<open>
  Reading and validating conditions fit together: whatever a document has in the place of a
  condition or filter, what is made of it by reading is accepted by validation exactly when it
  is well formed.
\<close>

theorem condition_read_is_validated:
  "(\<exists>c'. XModelValidate_validateAgentConditionOrFilter lib agent xmessage timeUnits
       (snd (readCondition node XCondition_new)) = Inr (0, c')) \<longleftrightarrow>
     cond_ok lib agent xmessage timeUnits (snd (readCondition node XCondition_new))"
  using filter_accepted(1) [OF read_condition_unprocessed] by blast

end
