(* ===== verification/Model_Files.thy ===== *)
theory Model_Files
  imports Model_Documents
begin

text \<open>
  Models that include models: reading ends when finitely many paths can be reached, and does not when
  a file includes itself under ever new paths. Documents that are read with undefined behaviour.
\<close>

section \<open>Reading keeps the list of included models\<close>

definition keeps_included :: "('v xmodel, unit) exec \<Rightarrow> bool" where
  "keeps_included m \<longleftrightarrow> (\<forall>x. xo_includedModels (snd (m x)) = xo_includedModels x)"

lemma keeps_includedD: "keeps_included m \<Longrightarrow> m x = (r, y) \<Longrightarrow> xo_includedModels y = xo_includedModels x"
  unfolding keeps_included_def by (metis snd_conv)

lemma included_elements:
  assumes "\<And>n x. keeps_included (f n x)"
  shows "keeps_included (for_elements f node)"
  unfolding keeps_included_def for_elements_def
proof
  fix x
  show "xo_includedModels (snd (forE (for_element f) (xml_children node) x)) = xo_includedModels x"
    by (rule forE_invariant [where P = "\<lambda>y. xo_includedModels y = xo_includedModels x"])
      (use assms in \<open>auto simp: for_element_def returnE_def keeps_included_def split: xml.split\<close>)
qed

lemma included_part:
  assumes "\<And>p x. xo_includedModels (put p x) = xo_includedModels x"
  shows "keeps_included (on_part get put m)"
  using assms by (simp add: keeps_included_def on_part_def case_prod_unfold)

lemma included_value:
  assumes "\<And>t x. xo_includedModels (upd t x) = xo_includedModels x"
  shows "keeps_included (set_value upd node)"
  using assms by (simp add: keeps_included_def set_value_def split: sum.split)

lemma included_unknown: "keeps_included (readUnknownElement x)" "keeps_included (returnE ())"
  by (simp_all add: keeps_included_def readUnknownElement_def returnE_def)

lemma included_timeunit: "keeps_included (readTimeUnit node)"
  by (auto simp: keeps_included_def readTimeUnit_def XModel_addTimeUnit_def split: prod.split sum.split)

lemma included_agent_step:
  "xo_includedModels (fst (snd (on_agent m s))) = xo_includedModels (fst s)"
  by (auto simp: on_agent_def case_prod_unfold split: option.split)

lemma included_agent_loop:
  assumes "\<And>n x s. xo_includedModels (fst (snd (f n x s))) = xo_includedModels (fst s)"
  shows "xo_includedModels (fst (snd (for_elements f node s))) = xo_includedModels (fst s)"
  unfolding for_elements_def
  by (rule forE_invariant [where P = "\<lambda>y. xo_includedModels (fst y) = xo_includedModels (fst s)"])
    (use assms in \<open>auto simp: for_element_def returnE_def split: xml.split\<close>)

lemma included_named_agent: "xo_includedModels (fst (add_named_agent t s)) = xo_includedModels (fst s)"
  by (cases s) (auto simp: add_named_agent_def XModel_addAgent_def split: option.split)

lemma included_agent: "keeps_included (readAgent node :: ('v xmodel, unit) exec)"
proof -
  have t: "xo_includedModels (fst (snd (readTransitions x s))) = xo_includedModels (fst s)" for x and s :: "'v agent_reading"
    unfolding readTransitions_def
    by (rule included_agent_loop) (simp add: included_agent_step readUnknownElement_def returnE_def)
  have "xo_includedModels (fst (snd (for_elements (\<lambda>name cur_node.
          if name = ''name'' then set_value add_named_agent cur_node
          else if name = ''description'' then returnE ()
          else if name = ''memory'' then
            on_agent (on_part xa_variables (\<lambda>x a. a\<lparr>xa_variables := x\<rparr>) (readVariables cur_node))
          else if name = ''functions'' then readTransitions cur_node
          else readUnknownElement cur_node) node s))) = xo_includedModels (fst s)" for s :: "'v agent_reading"
    by (rule included_agent_loop)
      (auto simp: t included_agent_step included_named_agent readUnknownElement_def returnE_def set_value_def split: sum.split)
  then show ?thesis
    by (simp add: keeps_included_def readAgent_def case_prod_unfold)
qed

lemma included_datatypes: "keeps_included (readDataTypes node)"
  unfolding readDataTypes_def
  by (rule included_elements) (simp add: readDataType_def included_unknown included_part)

lemma included_timeunits: "keeps_included (readTimeUnits node)"
  unfolding readTimeUnits_def by (rule included_elements) (simp add: included_timeunit included_unknown)

lemma included_files: "keeps_included (readFunctionFiles node)"
  unfolding readFunctionFiles_def
  by (rule included_elements) (simp add: included_unknown XModel_addFunctionFile_def included_value)

lemma included_environment: "keeps_included (readEnvironment node)"
  unfolding readEnvironment_def
  by (rule included_elements)
    (simp add: included_unknown included_part included_datatypes included_timeunits included_files)

lemma included_agents: "keeps_included (readAgents node)"
  unfolding readAgents_def by (rule included_elements) (auto simp: included_agent included_unknown)

lemma included_messages: "keeps_included (readMessages node)"
  unfolding readMessages_def
  by (rule included_elements)
    (auto simp: keeps_included_def readMessage_def on_part_def case_prod_unfold readUnknownElement_def returnE_def)

section \<open>Included models end\<close>

text \<open>
  The file names that the included models of a document have, when they are enabled.
\<close>

definition enabled_name :: "xml \<Rightarrow> string list" where
  "enabled_name node =
     (case read_inclusion node ([], True) of (Inr _, fileName, True) \<Rightarrow> [fileName] | _ \<Rightarrow> [])"

definition element_named :: "string \<Rightarrow> xml \<Rightarrow> bool" where
  "element_named n x = (case x of Element m as cs \<Rightarrow> m = n | _ \<Rightarrow> False)"

definition mentioned :: "xml \<Rightarrow> string list" where
  "mentioned root_element =
     concat (map enabled_name (concat (map (\<lambda>x. filter (element_named ''model'') (xml_children x))
       (filter (element_named ''models'') (xml_children root_element)))))"

text \<open>Files that contain all files they include.\<close>

definition closed_files :: "model_files \<Rightarrow> string set \<Rightarrow> bool" where
  "closed_files lib F \<longleftrightarrow>
     (\<forall>f \<in> F. \<forall>r. mf_parse lib f = Some r \<longrightarrow> (\<forall>t \<in> set (mentioned r). mf_parent lib f @ ''/'' @ t \<in> F))"

text \<open>A nested computation that ends and at most adds to the included models.\<close>

definition ends_from :: "('v xmodel, unit) nested \<Rightarrow> string set \<Rightarrow> bool" where
  "ends_from m inc \<longleftrightarrow>
     (\<forall>x. inc \<subseteq> set (xo_includedModels x) \<longrightarrow>
        (\<exists>r y. m x = Some (r, y) \<and> set (xo_includedModels x) \<subseteq> set (xo_includedModels y)))"

lemma ends_fromD:
  "ends_from m inc \<Longrightarrow> inc \<subseteq> set (xo_includedModels x) \<Longrightarrow>
    \<exists>r y. m x = Some (r, y) \<and> set (xo_includedModels x) \<subseteq> set (xo_includedModels y)"
  by (simp add: ends_from_def)

lemma ends_plain: "keeps_included m \<Longrightarrow> ends_from (plainN m) inc"
  unfolding ends_from_def plainN_def keeps_included_def by (metis prod.collapse order_refl)

lemma ends_forN:
  fixes f :: "'x \<Rightarrow> ('v xmodel, unit) nested"
  assumes "\<And>x. x \<in> set xs \<Longrightarrow> ends_from (f x) inc"
  shows "ends_from (forN f xs) inc"
  using assms
proof (induction xs)
  case Nil
  then show ?case by (simp add: ends_from_def)
next
  case (Cons x xs)
  show ?case unfolding ends_from_def
  proof (intro allI impI)
    fix m :: "'v xmodel" assume m: "inc \<subseteq> set (xo_includedModels m)"
    obtain r y where y: "f x m = Some (r, y)" "set (xo_includedModels m) \<subseteq> set (xo_includedModels y)"
      using ends_fromD [OF Cons.prems [of x] m] by auto
    show "\<exists>r y. forN f (x # xs) m = Some (r, y) \<and> set (xo_includedModels m) \<subseteq> set (xo_includedModels y)"
    proof (cases r)
      case (Inl e)
      with y show ?thesis by simp
    next
      case (Inr u)
      have "ends_from (forN f xs) inc" using Cons by simp
      from ends_fromD [OF this] obtain r' z where "forN f xs y = Some (r', z)"
        "set (xo_includedModels y) \<subseteq> set (xo_includedModels z)" using y(2) m by blast
      with Inr y show ?thesis by auto
    qed
  qed
qed

lemma ends_elements:
  assumes "\<And>n as cs. Element n as cs \<in> set (xml_children node) \<Longrightarrow> ends_from (f n (Element n as cs)) inc"
  shows "ends_from (for_elementsN f node) inc"
  unfolding for_elementsN_def
proof (rule ends_forN)
  fix x assume "x \<in> set (xml_children node)"
  with assms included_unknown(2) show "ends_from (for_elementN f x) inc"
    by (cases x) (auto simp: for_elementN_def intro!: ends_plain)
qed

lemma included_set:
  "XModel_addIncludedModel p m = (b, m') \<Longrightarrow>
    (b \<longleftrightarrow> p \<notin> set (xo_includedModels m)) \<and>
    set (xo_includedModels m') = (if b then insert p (set (xo_includedModels m)) else set (xo_includedModels m))"
  by (auto simp: XModel_addIncludedModel_def split: if_splits)

lemma ends_validate:
  fixes read :: "string \<Rightarrow> ('v xmodel, unit) nested"
  assumes "enable \<Longrightarrow> mf_absolute lib (directory @ fileName) \<notin> inc \<Longrightarrow>
      ends_from (read (directory @ fileName)) (insert (mf_absolute lib (directory @ fileName)) inc)"
  shows "ends_from (readIncludedModelValidate lib read directory fileName enable) inc"
  unfolding ends_from_def
proof (intro allI impI)
  fix m :: "'v xmodel" assume m: "inc \<subseteq> set (xo_includedModels m)"
  let ?file = "directory @ fileName"
  obtain b m' where m': "XModel_addIncludedModel (mf_absolute lib ?file) m = (b, m')" by fastforce
  note inc = included_set [OF m']
  show "\<exists>r y. readIncludedModelValidate lib read directory fileName enable m = Some (r, y) \<and>
      set (xo_includedModels m) \<subseteq> set (xo_includedModels y)"
  proof (cases "enable \<and> (has_suffix fileName ''.xml'' \<or> has_suffix fileName ''.XML'') \<and> b")
    case False
    with inc m' show ?thesis by (cases b) (auto simp: readIncludedModelValidate_def)
  next
    case True
    have "mf_absolute lib ?file \<notin> inc" using inc True m by auto
    from ends_fromD [OF assms [OF _ this], of m'] True inc m obtain r y where
      y: "read ?file m' = Some (r, y)" "set (xo_includedModels m') \<subseteq> set (xo_includedModels y)" by auto
    then have "\<exists>r' y'. (case read ?file m' of
               Some (Inl (inaccessable_file _), m'') \<Rightarrow>
                 Some (Inl (inaccessable_file (''Error: Submodel file cannot be opened: '' @ ?file)), m'')
             | r \<Rightarrow> r) = Some (r', y)"
      by (auto split: sum.split exn.split)
    with True m' y inc show ?thesis by (auto simp: readIncludedModelValidate_def)
  qed
qed

lemma ends_included_model:
  assumes "\<And>t. t \<in> set (enabled_name node) \<Longrightarrow> mf_absolute lib (directory @ t) \<notin> inc \<Longrightarrow>
      ends_from (read (directory @ t)) (insert (mf_absolute lib (directory @ t)) inc)"
  shows "ends_from (readIncludedModel lib read directory node) inc"
proof -
  obtain r fileName enable where i: "read_inclusion node ([], True) = (r, fileName, enable)"
    by (cases "read_inclusion node ([], True)") auto
  show ?thesis
  proof (cases r)
    case (Inl e)
    with i show ?thesis by (simp add: ends_from_def readIncludedModel_def)
  next
    case (Inr u)
    have "fileName \<in> set (enabled_name node)" if enable using that i Inr by (simp add: enabled_name_def)
    then have "ends_from (readIncludedModelValidate lib read directory fileName enable) inc"
      using assms by (intro ends_validate) auto
    moreover have "readIncludedModel lib read directory node = readIncludedModelValidate lib read directory fileName enable"
      using i Inr by (simp add: fun_eq_iff readIncludedModel_def)
    ultimately show ?thesis by simp
  qed
qed

lemma ends_model_elements:
  assumes "\<And>t. t \<in> set (mentioned root_element) \<Longrightarrow> mf_absolute lib (directory @ t) \<notin> inc \<Longrightarrow>
      ends_from (read (directory @ t)) (insert (mf_absolute lib (directory @ t)) inc)"
  shows "ends_from (readModelElements lib read directory root_element) inc"
  unfolding readModelElements_def
proof (rule ends_elements)
  fix n as cs assume node: "Element n as cs \<in> set (xml_children root_element)"
  have "ends_from (readIncludedModels lib read directory (Element n as cs)) inc" if "n = ''models''"
    unfolding readIncludedModels_def
  proof (rule ends_elements)
    fix k bs ds assume "Element k bs ds \<in> set (xml_children (Element n as cs))"
    then have "set (enabled_name (Element k bs ds)) \<subseteq> set (mentioned root_element)" if "k = ''model''"
      using node \<open>n = ''models''\<close> that by (force simp: mentioned_def element_named_def)
    then show "ends_from (if k = ''model'' then readIncludedModel lib read directory (Element k bs ds)
        else plainN (readUnknownElement (Element k bs ds))) inc"
      using assms by (auto intro!: ends_included_model ends_plain simp: included_unknown)
  qed
  then show "ends_from (read_model_member lib read directory n (Element n as cs)) inc"
    by (simp add: read_model_member_def included_unknown included_environment included_agents included_messages
        XModel_setName_def ends_plain included_value)
qed

lemma readXMLModel_ends:
  fixes lib :: model_files
  assumes "closed_files lib F" "finite (mf_absolute lib ` F)" "fl \<in> F"
    and "card (mf_absolute lib ` F - inc) < depth"
  shows "ends_from (readXMLModel depth lib fl :: ('v xmodel, unit) nested) inc"
  using assms(3,4)
proof (induction depth arbitrary: fl inc)
  case 0
  then show ?case by simp
next
  case (Suc depth)
  have nested: "ends_from (readModelElements lib (readXMLModel depth lib) (mf_parent lib fl @ ''/'') r
      :: ('v xmodel, unit) nested) inc"
    if r: "mf_parse lib fl = Some r" for r
  proof (rule ends_model_elements)
    fix t assume t: "t \<in> set (mentioned r)" "mf_absolute lib ((mf_parent lib fl @ ''/'') @ t) \<notin> inc"
    let ?f = "(mf_parent lib fl @ ''/'') @ t"
    have f: "?f \<in> F" using assms(1) Suc.prems(1) r t(1) by (simp add: closed_files_def)
    then have "card (mf_absolute lib ` F - insert (mf_absolute lib ?f) inc) < card (mf_absolute lib ` F - inc)"
      using t(2) assms(2) by (intro psubset_card_mono) auto
    with Suc.prems(2) have "card (mf_absolute lib ` F - insert (mf_absolute lib ?f) inc) < depth" by linarith
    with f show "ends_from (readXMLModel depth lib ?f :: ('v xmodel, unit) nested) (insert (mf_absolute lib ?f) inc)" by (rule Suc.IH)
  qed
  show ?case unfolding ends_from_def
  proof (intro allI impI)
    fix m :: "'v xmodel" assume "inc \<subseteq> set (xo_includedModels m)"
    then show "\<exists>r y. readXMLModel (Suc depth) lib fl m = Some (r, y) \<and> set (xo_includedModels m) \<subseteq> set (xo_includedModels y)"
      using nested ends_fromD [OF nested, of _ "m\<lparr>xo_path := mf_absolute lib fl\<rparr>"]
      by (auto simp: read_file_def Let_def split: option.split sum.split)
  qed
qed

text \<open>
  C29. Reading a model with its included models ends: when the files that can be reached from it by
  inclusion have finitely many absolute paths, a depth of one more than their number is enough,
  whatever includes what, also in a circle.
\<close>

theorem included_models_end:
  fixes m :: "'v xmodel"
  assumes "closed_files lib F" "finite (mf_absolute lib ` F)" "file \<in> F"
  shows "readXMLModel (Suc (card (mf_absolute lib ` F))) lib file m \<noteq> None"
proof -
  have "ends_from (readXMLModel (Suc (card (mf_absolute lib ` F))) lib file :: ('v xmodel, unit) nested) {}"
    by (rule readXMLModel_ends [OF assms]) simp
  from ends_fromD [OF this, of m] show ?thesis by auto
qed

text \<open>Two files that include each other.\<close>

definition includes_file :: "string \<Rightarrow> xml" where
  "includes_file t =
     Element ''xmodel'' [(''version'', ''2'')]
       [Element ''models'' [] [Element ''model'' [] [text_element ''file'' t]]]"

definition circle_files :: model_files where
  "circle_files = \<lparr>mf_exists = (\<lambda>_. True),
     mf_parse = (\<lambda>f. Some (if f = ''/a.xml'' then includes_file ''b.xml'' else includes_file ''a.xml'')),
     mf_absolute = id, mf_parent = (\<lambda>_. [])\<rparr>"

lemma mentioned_includes [simp]: "mentioned (includes_file t) = [t]"
  by (simp add: mentioned_def includes_file_def element_named_def enabled_name_def read_inclusion_def text_element_def
      for_elements_def for_element_def set_value_def bindE_def returnE_def)

theorem included_models_end_witness:
  "readXMLModel 3 circle_files ''/a.xml'' (XModel_new :: nat xmodel) \<noteq> None"
proof -
  have "closed_files circle_files {''/a.xml'', ''/b.xml''}"
    by (auto simp: closed_files_def circle_files_def)
  moreover have "card (mf_absolute circle_files ` {''/a.xml'', ''/b.xml''}) = 2" by (simp add: circle_files_def)
  ultimately show ?thesis
    using included_models_end [of circle_files "{''/a.xml'', ''/b.xml''}" "''/a.xml''" "XModel_new :: nat xmodel"]
    by (simp add: eval_nat_numeral)
qed

text \<open>One file that includes one other.\<close>

lemma read_includes:
  assumes "mf_exists lib f" "mf_parse lib f = Some (includes_file t)" "has_suffix t ''.xml''"
    and "mf_absolute lib (mf_parent lib f @ ''/'' @ t) \<notin> set (xo_includedModels m)"
    and "read (mf_parent lib f @ ''/'' @ t) (m\<lparr>xo_path := mf_absolute lib f,
       xo_includedModels := xo_includedModels m @ [mf_absolute lib (mf_parent lib f @ ''/'' @ t)]\<rparr>) = None"
  shows "read_file lib read f m = None"
  using assms
  by (cases m) (simp add: read_file_def includes_file_def validateXMLModelRootElement_def readModelElements_def for_elementsN_def
      for_elementN_def read_model_member_def readIncludedModels_def readIncludedModel_def read_inclusion_def
      text_element_def for_elements_def for_element_def set_value_def bindE_def returnE_def
      readIncludedModelValidate_def XModel_addIncludedModel_def)

text \<open>
  C39. The paths are compared as they are written. When a file includes itself under a name that makes
  the path longer each time, such as \<open>./a.xml\<close>, no depth is enough: the program reads it again
  and again.
\<close>

theorem self_inclusion_never_ends:
  assumes "\<And>i. mf_exists lib (f i)" "\<And>i. mf_parse lib (f i) = Some (includes_file t)" "has_suffix t ''.xml''"
    and "\<And>i. f (Suc i) = mf_parent lib (f i) @ ''/'' @ t" "inj (\<lambda>i. mf_absolute lib (f i))"
    and "set (xo_includedModels m) \<inter> range (\<lambda>i. mf_absolute lib (f i)) = {}"
  shows "readXMLModel depth lib (f 0) m = None"
proof -
  have "readXMLModel depth lib (f i) m = None"
    if "set (xo_includedModels m) \<inter> {mf_absolute lib (f j) | j. i < j} = {}" for i m
    using that
  proof (induction depth arbitrary: i m)
    case 0
    show ?case by simp
  next
    case (Suc depth)
    let ?m = "m\<lparr>xo_path := mf_absolute lib (f i), xo_includedModels := xo_includedModels m @ [mf_absolute lib (f (Suc i))]\<rparr>"
    have "mf_absolute lib (f (Suc i)) \<noteq> mf_absolute lib (f j)" if "Suc i < j" for j
      using assms(5) that by (auto dest: injD)
    then have "set (xo_includedModels ?m) \<inter> {mf_absolute lib (f j) | j. Suc i < j} = {}"
      using Suc.prems Suc_lessD by fastforce
    then have "readXMLModel depth lib (f (Suc i)) ?m = None" by (rule Suc.IH)
    moreover have "mf_absolute lib (f (Suc i)) \<notin> set (xo_includedModels m)" using Suc.prems by auto
    ultimately show ?case
      using read_includes [OF assms(1) [of i] assms(2,3), of m "readXMLModel depth lib"] assms(4) by simp
  qed
  then show ?thesis using assms(6) by blast
qed

text \<open>The file \<open>/m/a.xml\<close> that includes \<open>./a.xml\<close>.\<close>

definition dot_path :: "nat \<Rightarrow> string" where
  "dot_path i = ''/m'' @ concat (replicate i ''/.'') @ ''/a.xml''"

definition dot_files :: model_files where
  "dot_files = \<lparr>mf_exists = (\<lambda>_. True), mf_parse = (\<lambda>_. Some (includes_file ''./a.xml'')),
     mf_absolute = id, mf_parent = (\<lambda>f. take (length f - 6) f)\<rparr>"

theorem self_inclusion_never_ends_witness:
  "readXMLModel 1000 dot_files ''/m/a.xml'' (XModel_new :: nat xmodel) = None"
proof -
  have len: "length (concat (replicate i ''/.'')) = 2 * i" for i by (induction i) auto
  have step: "concat (replicate (Suc i) ''/.'') = concat (replicate i ''/.'') @ ''/.''" for i
    by (induction i) auto
  have path: "dot_path (Suc i) = mf_parent dot_files (dot_path i) @ ''/'' @ ''./a.xml''" for i
    by (simp add: dot_path_def dot_files_def step del: replicate_Suc)
  have "inj dot_path"
  proof (rule injI)
    fix i j assume "dot_path i = dot_path j"
    then have "length (dot_path i) = length (dot_path j)" by simp
    then show "i = j" by (simp add: dot_path_def len)
  qed
  then have "inj (\<lambda>i. mf_absolute dot_files (dot_path i))" by (simp add: dot_files_def)
  moreover have "dot_path 0 = ''/m/a.xml''" by (simp add: dot_path_def)
  moreover have "has_suffix ''./a.xml'' ''.xml''" by (simp add: has_suffix_def)
  moreover have "mf_exists dot_files f" "mf_parse dot_files f = Some (includes_file ''./a.xml'')" for f
    by (simp_all add: dot_files_def)
  ultimately show ?thesis
    using self_inclusion_never_ends [of dot_files dot_path "''./a.xml''" "XModel_new :: nat xmodel" 1000] path
    by (simp add: XModel_new_def)
qed

text \<open>
  The name of an agent type has to come before its memory: when an element for the memory is the
  first of the elements that need the agent type, a null pointer is used, and nothing has been
  added to the model.
\<close>

theorem memory_before_name_is_undefined:
  assumes "\<forall>x \<in> set pre. \<forall>k \<in> {''name'', ''memory'', ''functions''}. \<not> element_named k x"
  shows "readAgent (Element n as (pre @ Element ''memory'' bs cs # suf)) m = (Inl (UB ''null pointer''), m)"
proof -
  let ?f = "\<lambda>name cur_node.
          if name = ''name'' then set_value add_named_agent cur_node
          else if name = ''description'' then returnE ()
          else if name = ''memory'' then
            on_agent (on_part xa_variables (\<lambda>x a. a\<lparr>xa_variables := x\<rparr>) (readVariables cur_node))
          else if name = ''functions'' then readTransitions cur_node
          else readUnknownElement cur_node :: ('a agent_reading, unit) exec"
  have pre: "forE (for_element ?f) pre (m, None) = (Inr (), m, None)"
    using assms
  proof (induction pre)
    case Nil
    then show ?case by (simp add: returnE_def)
  next
    case (Cons x pre)
    then have "for_element ?f x (m, None) = (Inr (), m, None)"
      by (cases x) (simp_all add: for_element_def element_named_def readUnknownElement_def returnE_def)
    with Cons show ?case by (simp add: bindE_def)
  qed
  have "for_elements ?f (Element n as (pre @ Element ''memory'' bs cs # suf)) (m, None) = (Inl (UB ''null pointer''), m, None)"
    unfolding for_elements_def xml_children.simps forE_append_Inr [OF pre]
    by (simp add: for_element_def on_agent_def bindE_def)
  then show ?thesis by (simp add: readAgent_def)
qed

theorem memory_before_name_is_undefined_witness:
  "readAgent (Element ''xagent'' [] [Element ''memory'' [] [], text_element ''name'' ''a'']) (XModel_new :: nat xmodel) =
    (Inl (UB ''null pointer''), XModel_new)"
  using memory_before_name_is_undefined [of "[]" "''xagent''" "[]" "[]" "[]" "[text_element ''name'' ''a'']" XModel_new]
  by simp

text \<open>
  A file that is missing two levels down is reported as the file that includes it: the message
  names the outermost included file, which can be opened.
\<close>

definition chain_files :: model_files where
  "chain_files = \<lparr>mf_exists = (\<lambda>f. f \<noteq> ''/c.xml''),
     mf_parse = (\<lambda>f. Some (if f = ''/a.xml'' then includes_file ''b.xml'' else includes_file ''c.xml'')),
     mf_absolute = id, mf_parent = (\<lambda>_. [])\<rparr>"

lemma missing_file_misreported:
  "map_option fst (readXMLModel 3 chain_files ''/a.xml'' (XModel_new :: nat xmodel)) =
    Some (Inl (inaccessable_file ''Error: Submodel file cannot be opened: /b.xml''))"
  by code_simp

end
