(* ===== verification/IO_Manager.thy ===== *)
theory IO_Manager
  imports Data_Schema Population_Files Model_Files
begin

text \<open>
  \<open>src/flame2/io/io_manager.cpp\<close>: the one object through which the rest of the program reads and
  writes models and populations. What the libraries do with files is a record of arguments; the
  validator and the reader may depend on the files that the program itself has written, which are
  kept with the calls made on their writers.
\<close>

record ('d, 'doc, 'p, 's, 'c) io_library =
  io_format :: "'d text_format"
  io_models :: model_files
  io_parent :: "string \<Rightarrow> string"
  io_can_open :: "string \<Rightarrow> bool"
  io_codes :: writer_codes
  io_schema :: "(string \<times> xml_call list) list \<Rightarrow> ('doc, 'p, 's, 'c) schema_library"
  io_reader :: "(string \<times> xml_call list) list \<Rightarrow> string \<Rightarrow> reader_result"
  io_remove :: "string \<Rightarrow> int"

record io_manager =
  iom_pop :: xml_pop
  iom_iteration :: size_t

definition IOManager_new :: io_manager where
  "IOManager_new = \<lparr>iom_pop = IOXMLPop_new, iom_iteration = 0\<rparr>"

record 'd io_world =
  iw_manager :: io_manager
  iw_files :: "(string \<times> xml_call list) list"
  iw_memory :: "'d pop_value memory_manager"

definition IOManager_loadModel ::
    "nat \<Rightarrow> ('d, 'doc, 'p, 's, 'c) io_library \<Rightarrow> string \<Rightarrow> ('v xmodel, unit) nested" where
  "IOManager_loadModel depth lib file = readXMLModel depth (io_models lib) file"

text \<open>The code of \<open>removeFile\<close> is dropped; a failure prints a warning.\<close>

definition removeFile :: "('d, 'doc, 'p, 's, 'c) io_library \<Rightarrow> string \<Rightarrow> 'd io_world \<Rightarrow> int \<times> 'd io_world" where
  "removeFile lib file w =
     (if io_remove lib file \<noteq> 0 then (1, w) else (0, w\<lparr>iw_files := omap_erase file (iw_files w)\<rparr>))"

text \<open>The type of a file is an \<open>enum\<close> with one value, 0.\<close>

definition IOManager_readPop ::
    "build \<Rightarrow> ('d, 'doc, 'p, 's, 'c) io_library \<Rightarrow> string \<Rightarrow> 'v xmodel \<Rightarrow> int \<Rightarrow> ('d io_world, unit) exec" where
  "IOManager_readPop b lib file_name model fileType w =
     (if fileType \<noteq> 0 then (Inl (flame_io_exception ''unknown file type''), w)
      else
        let pop = IOXMLPop_setXmlPopPath (io_parent lib) file_name (iom_pop (iw_manager w));
            w1 = w\<lparr>iw_manager := (iw_manager w)\<lparr>iom_pop := pop\<rparr>\<rparr>;
            xsd = xml_pop_path pop @ ''xmlpop.xsd'' in
        case createDataSchema (io_can_open lib) (io_codes lib) xsd model of
          (r, calls) \<Rightarrow>
            let w2 = (if io_can_open lib xsd then w1\<lparr>iw_files := omap_put xsd calls (iw_files w1)\<rparr> else w1) in
            (case bindR r (\<lambda>_. validateData (io_schema lib (iw_files w2)) file_name xsd) of
               Inl e \<Rightarrow> (Inl e, w2)
             | Inr _ \<Rightarrow>
                 (case removeFile lib xsd w2 of
                    (_, w3) \<Rightarrow>
                      (case IOXMLPop_readPop b (io_format lib) (io_reader lib (iw_files w3) file_name) model
                          (iom_pop (iw_manager w3), iw_memory w3) of
                         (r, pop', mm) \<Rightarrow>
                           (r, w3\<lparr>iw_manager := (iw_manager w3)\<lparr>iom_pop := pop'\<rparr>, iw_memory := mm\<rparr>)))))"

definition IOManager_writePop :: "string \<Rightarrow> string \<Rightarrow> ('d io_world, unit) exec" where
  "IOManager_writePop agent_name var_name w = (Inr (), w)"

definition IOManager_initialiseData :: "('d io_world, unit) exec" where
  "IOManager_initialiseData w = (Inr (), w)"

text \<open>A file that has been opened is there with what was written to it, also after a failure.\<close>

definition IOManager_finaliseData ::
    "('d, 'doc, 'p, 's, 'c) io_library \<Rightarrow> ('d io_world, unit) nested" where
  "IOManager_finaliseData lib w =
     (let pop = iom_pop (iw_manager w) in
      case IOXMLPop_finaliseData (io_format lib) (io_can_open lib) (io_codes lib) pop (iw_memory w) of
        None \<Rightarrow> None
      | Some (r, mm, calls) \<Rightarrow>
          Some (r, w\<lparr>iw_memory := mm,
            iw_files := (if xml_pop_path_is_set pop \<and> io_can_open lib (pop_file_name pop)
                         then omap_put (pop_file_name pop) calls (iw_files w) else iw_files w)\<rparr>))"

definition IOManager_setIteration :: "size_t \<Rightarrow> 'd io_world \<Rightarrow> 'd io_world" where
  "IOManager_setIteration i w =
     w\<lparr>iw_manager := \<lparr>iom_pop = IOXMLPop_setIteration i (iom_pop (iw_manager w)), iom_iteration = i\<rparr>\<rparr>"

section \<open>Reading a population through the manager\<close>

definition pop_directory :: "('d, 'doc, 'p, 's, 'c) io_library \<Rightarrow> string \<Rightarrow> string" where
  "pop_directory lib file_name =
     (if io_parent lib file_name \<noteq> [] then io_parent lib file_name @ ''/'' else [])"

lemma setXmlPopPath_path [simp]:
  "xml_pop_path (IOXMLPop_setXmlPopPath (io_parent lib) file_name pop) = pop_directory lib file_name"
  "xml_pop_path_is_set (IOXMLPop_setXmlPopPath parent file_name pop)"
  by (simp_all add: IOXMLPop_setXmlPopPath_def pop_directory_def Let_def)

text \<open>The files as the validator finds them: the schema of the model has been written.\<close>

definition files_with_schema ::
    "('d, 'doc, 'p, 's, 'c) io_library \<Rightarrow> string \<Rightarrow> 'v xmodel \<Rightarrow> 'd io_world \<Rightarrow> (string \<times> xml_call list) list" where
  "files_with_schema lib file_name model w =
     omap_put (pop_directory lib file_name @ ''xmlpop.xsd'') (document_calls (schema_tree model)) (iw_files w)"

definition validation_code ::
    "('d, 'doc, 'p, 's, 'c) io_library \<Rightarrow> string \<Rightarrow> 'v xmodel \<Rightarrow> 'd io_world \<Rightarrow> 'doc \<Rightarrow> int" where
  "validation_code lib file_name model w doc =
     (let sl = io_schema lib (files_with_schema lib file_name model w) in
      sl_validate sl (snd (openXMLSchema sl (pop_directory lib file_name @ ''xmlpop.xsd''))) doc)"

lemma validateData_code:
  assumes "sl_read_file sl file = Some doc"
  shows "validateData sl file xsd =
    (let rc = sl_validate sl (snd (openXMLSchema sl xsd)) doc in
     if rc = -1 then Inl (flame_io_exception ''Internal error validating pop file'')
     else if rc \<noteq> 0 then Inl (flame_io_exception ''Error validating pop file'') else Inr ())"
  using assms by (simp add: validateData_def openXMLDoc_def bindR_def case_prod_unfold Let_def)

section \<open>Properties\<close>


text \<open>Libraries that open every file, and a validator with a given verdict.\<close>

definition verdict_library :: "int \<Rightarrow> (nat, unit, unit, unit, unit) io_library" where
  "verdict_library verdict =
     \<lparr>io_format = sample_conversions,
      io_models = \<lparr>mf_exists = (\<lambda>_. False), mf_parse = (\<lambda>_. None), mf_absolute = id, mf_parent = id\<rparr>,
      io_parent = (\<lambda>_. ''d''), io_can_open = (\<lambda>_. True), io_codes = (\<lambda>_ _. 0),
      io_schema = (\<lambda>_. \<lparr>sl_read_file = (\<lambda>_. Some ()), sl_read_schema = (\<lambda>_. Some ()), sl_parser = Some,
        sl_parse = Some, sl_context = id, sl_validate = (\<lambda>_ _. verdict)\<rparr>),
      io_reader = (\<lambda>_ _. None), io_remove = (\<lambda>_. 0)\<rparr>"

definition rejecting_world :: "nat io_world" where
  "rejecting_world = \<lparr>iw_manager = IOManager_new, iw_files = [], iw_memory = sample_people [] []\<rparr>"


end
