(* ===== verification/Validation.thy ===== *)
theory Validation
  imports Conditions
begin

text \<open>
  The checks of a model before it is run: \<open>src/flame2/model/xmodel_validate.cpp\<close> and the \<open>validate\<close>
  operations of \<open>src/flame2/model/xmodel.cpp\<close>. Checks change what they check (arrays in names and
  types, flags, operators, state graphs); every function returns the number of errors and the
  changed object. The messages printed for errors are not modelled, nor an overflow of the
  number of errors.
\<close>

section \<open>Names and variables\<close>

definition isalnum :: "char \<Rightarrow> bool" where
  "isalnum c \<longleftrightarrow> (let n = of_char c :: nat in 48 \<le> n \<and> n \<le> 57 \<or> 65 \<le> n \<and> n \<le> 90 \<or> 97 \<le> n \<and> n \<le> 122)"

definition char_is_disallowed :: "char \<Rightarrow> bool" where
  "char_is_disallowed c \<longleftrightarrow> \<not> (isalnum c \<or> c = CHR ''_'' \<or> c = CHR ''-'')"

definition XModelValidate_name_is_allowed :: "string \<Rightarrow> bool" where
  "XModelValidate_name_is_allowed name \<longleftrightarrow> find char_is_disallowed name = None"

definition count_error :: "bool \<Rightarrow> nat" where
  "count_error b = (if b then 1 else 0)"

definition XModelValidate_processVariableDynamicArray :: "xvariable \<Rightarrow> xvariable" where
  "XModelValidate_processVariableDynamicArray v =
     (let type = xv_type v; n = length type
      in if 6 < n \<and> drop (n - 6) type = ''_array''
         then v\<lparr>xv_isDynamicArray := True, xv_holdsDynamicArray := True, xv_type := take (n - 6) type\<rparr>
         else v)"

definition XModelValidate_processVariableStaticArray :: "library \<Rightarrow> xvariable \<Rightarrow> nat \<times> xvariable" where
  "XModelValidate_processVariableStaticArray lib v =
     (case (find_index ((=) CHR ''['') (xv_name v), find_index ((=) CHR '']'') (xv_name v)) of
        (Some opn, Some cls) \<Rightarrow>
          (if cls = length (xv_name v) - 1 then
             (let v1 = v\<lparr>xv_isStaticArray := True\<rparr>;
                  name' = take opn (xv_name v)
              in case cast_int lib (take (cls - opn - 1) (drop (opn + 1) (xv_name v))) of
                   Some n \<Rightarrow> (count_error (n < 1), v1\<lparr>xv_staticArraySize := n, xv_name := name'\<rparr>)
                 | None \<Rightarrow> (1, v1\<lparr>xv_name := name'\<rparr>))
           else (0, v))
      | _ \<Rightarrow> (0, v))"

definition set_adt_type :: "xadt \<Rightarrow> xvariable \<Rightarrow> xvariable" where
  "set_adt_type adt v =
     (if xv_type v = xd_name adt
      then v\<lparr>xv_hasADTType := True, xv_holdsDynamicArray := xv_holdsDynamicArray v \<or> xd_holdsDynamicArray adt\<rparr>
      else v)"

definition XModelValidate_processVariable :: "library \<Rightarrow> xadt list \<Rightarrow> xvariable \<Rightarrow> nat \<times> xvariable" where
  "XModelValidate_processVariable lib adts v =
     (case XModelValidate_processVariableStaticArray lib (XModelValidate_processVariableDynamicArray v) of
        (e, v1) \<Rightarrow>
          (let v2 = fold set_adt_type adts v1
           in if xv_constantSet v2
              then if xv_constantString v2 = ''true'' then (e, v2\<lparr>xv_constant := True\<rparr>)
                   else if xv_constantString v2 = ''false'' then (e, v2\<lparr>xv_constant := False\<rparr>)
                   else (e + 1, v2)
              else (e, v2)))"

definition XModelValidate_processVariables :: "library \<Rightarrow> xadt list \<Rightarrow> xvariable list \<Rightarrow> nat \<times> xvariable list" where
  "XModelValidate_processVariables lib adts vs =
     (let rs = map (XModelValidate_processVariable lib adts) vs in (sum_list (map fst rs), map snd rs))"

text \<open>Every other variable of the same name is an error; \<open>i\<close> is the place of the variable.\<close>

definition XModelValidate_validateVariableName :: "nat \<Rightarrow> xvariable list \<Rightarrow> nat" where
  "XModelValidate_validateVariableName i vs =
     count_error (\<not> XModelValidate_name_is_allowed (xv_name (vs ! i))) +
     length (filter (\<lambda>j. j \<noteq> i \<and> xv_name (vs ! i) = xv_name (vs ! j)) [0..<length vs])"

definition XModelValidate_validateVariableType :: "string list \<Rightarrow> bool \<Rightarrow> xvariable \<Rightarrow> nat" where
  "XModelValidate_validateVariableType allowed allowDynamicArrays v =
     count_error (xv_type v \<notin> set allowed) + count_error (\<not> allowDynamicArrays \<and> xv_holdsDynamicArray v)"

definition XModelValidate_validateVariables ::
  "library \<Rightarrow> xadt list \<Rightarrow> string list \<Rightarrow> bool \<Rightarrow> xvariable list \<Rightarrow> nat \<times> xvariable list" where
  "XModelValidate_validateVariables lib adts allowed allowDynamicArrays vs0 =
     (case XModelValidate_processVariables lib adts vs0 of
        (e, vs) \<Rightarrow>
          (e + sum_list (map (\<lambda>i. XModelValidate_validateVariableName i vs +
                 XModelValidate_validateVariableType allowed allowDynamicArrays (vs ! i)) [0..<length vs]), vs))"

section \<open>Function files, time units and data types\<close>

definition XModelValidate_validateFunctionFile :: "string \<Rightarrow> nat" where
  "XModelValidate_validateFunctionFile name = count_error (\<not> (4 \<le> length name \<and> drop (length name - 4) name = ''.cpp''))"

definition XModelValidate_processTimeUnitPeriod :: "library \<Rightarrow> xtimeunit \<Rightarrow> nat \<times> xtimeunit" where
  "XModelValidate_processTimeUnitPeriod lib u =
     (case cast_int lib (xt_periodString u) of
        Some period \<Rightarrow> (count_error (period < 1), u\<lparr>xt_period := period\<rparr>)
      | None \<Rightarrow> (1, u))"

definition XModelValidate_processTimeUnitUnit :: "xtimeunit list \<Rightarrow> xtimeunit \<Rightarrow> nat" where
  "XModelValidate_processTimeUnitUnit timeUnits u =
     count_error (\<not> (xt_unit u = ''iteration'' \<or> list_ex (\<lambda>w. xt_name u \<noteq> xt_name w \<and> xt_unit u = xt_name w) timeUnits))"

definition XModelValidate_processTimeUnit :: "library \<Rightarrow> xtimeunit list \<Rightarrow> xtimeunit \<Rightarrow> nat \<times> xtimeunit" where
  "XModelValidate_processTimeUnit lib timeUnits u =
     (case XModelValidate_processTimeUnitPeriod lib u of
        (e, u') \<Rightarrow> (XModelValidate_processTimeUnitUnit timeUnits u + e, u'))"

definition XModelValidate_validateTimeUnit :: "xtimeunit list \<Rightarrow> xtimeunit \<Rightarrow> nat" where
  "XModelValidate_validateTimeUnit timeUnits u =
     count_error (\<not> XModelValidate_name_is_allowed (xt_name u) \<or> xt_name u = ''iteration'') +
     length (filter (\<lambda>w. xt_id u \<noteq> xt_id w \<and> xt_name u = xt_name w) timeUnits)"

text \<open>Processing changes the period of a time unit only, so the names may be read from the old list.\<close>

definition XModelValidate_validateTimeUnits :: "library \<Rightarrow> xtimeunit list \<Rightarrow> nat \<times> xtimeunit list" where
  "XModelValidate_validateTimeUnits lib timeUnits =
     (let rs = map (XModelValidate_processTimeUnit lib timeUnits) timeUnits;
          us = map snd rs
      in (sum_list (map fst rs) + sum_list (map (XModelValidate_validateTimeUnit us) us), us))"

definition XModelValidate_validateADT :: "library \<Rightarrow> nat \<Rightarrow> 'v xmodel \<Rightarrow> nat \<times> 'v xmodel" where
  "XModelValidate_validateADT lib i m =
     (let adt = xo_adts m ! i;
          allowed_name = XModelValidate_name_is_allowed (xd_name adt);
          same = length (filter ((=) (xd_name adt)) (xo_allowedDataTypes m));
          e = count_error (\<not> allowed_name) + same
      in if allowed_name \<and> same = 0 then
           (let m1 = XModel_addAllowedDataType (xd_name adt) m
            in case XModelValidate_validateVariables lib (xo_adts m1) (xo_allowedDataTypes m1) True (xd_variables adt) of
                 (e', vs) \<Rightarrow>
                   (e + e', m1\<lparr>xo_adts := (xo_adts m1)[i := adt\<lparr>xd_variables := vs,
                      xd_holdsDynamicArray := xd_holdsDynamicArray adt \<or> list_ex xv_holdsDynamicArray vs\<rparr>]\<rparr>))
         else (e, m))"

section \<open>Transition functions\<close>

definition XModelValidate_variableExists :: "string \<Rightarrow> xvariable list \<Rightarrow> bool" where
  "XModelValidate_variableExists name vs \<longleftrightarrow> list_ex (\<lambda>v. name = xv_name v) vs"

definition XModelValidate_processMemoryAccessVariable ::
  "xvariable list \<Rightarrow> string \<Rightarrow> nat \<times> string list \<Rightarrow> nat \<times> string list" where
  "XModelValidate_processMemoryAccessVariable vs name = (\<lambda>(e, used).
     if XModelValidate_variableExists name vs
     then if name \<notin> set used then (e, oset_insert name used) else (e + 1, used)
     else (e + 1, used))"

text \<open>Without access information the function may read and write every variable.\<close>

definition XModelValidate_processAgentFunction :: "xvariable list \<Rightarrow> xfunction \<Rightarrow> nat \<times> xfunction" where
  "XModelValidate_processAgentFunction vs f =
     (if \<not> xf_memoryAccessInfoAvailable f
      then (0, f\<lparr>xf_memoryAccessInfoAvailable := True,
                 xf_readWriteVariables := xf_readWriteVariables f @ map xv_name vs\<rparr>)
      else (fst (fold (XModelValidate_processMemoryAccessVariable vs) (xf_readOnlyVariables f @ xf_readWriteVariables f) (0, [])), f))"

definition XModelValidate_validateRandomString :: "xioput \<Rightarrow> nat \<times> xioput" where
  "XModelValidate_validateRandomString i =
     (if xi_randomString i = ''true'' then (0, i\<lparr>xi_random := True\<rparr>)
      else if xi_randomString i = ''false'' then (0, i\<lparr>xi_random := False\<rparr>)
      else (1, i))"

definition XModelValidate_validateSort :: "xioput \<Rightarrow> xmessage option \<Rightarrow> nat" where
  "XModelValidate_validateSort i xmessage =
     (case xmessage of
        Some m \<Rightarrow> count_error (\<not> XMessage_validateVariableName m (xi_sortKey i))
      | None \<Rightarrow> 1) +
     count_error (xi_sortOrder i \<noteq> ''ascend'' \<and> xi_sortOrder i \<noteq> ''descend'')"

definition message_of :: "'v xmodel \<Rightarrow> string \<Rightarrow> xmessage option" where
  "message_of m name = map_option ((!) (xo_messages m)) (XModel_getMessage name m)"

text \<open>A filter that may be missing.\<close>

definition validate_filter ::
  "library \<Rightarrow> 'v xmodel \<Rightarrow> xmachine \<Rightarrow> xmessage option \<Rightarrow> xcondition option \<Rightarrow> exn + nat \<times> xcondition option" where
  "validate_filter lib m agent xmessage c =
     (case c of
        None \<Rightarrow> Inr (0, None)
      | Some c \<Rightarrow>
          bindR (XModelValidate_validateAgentConditionOrFilter lib agent xmessage (xo_timeUnits m) c)
            (\<lambda>(e, c'). Inr (e, Some c')))"

definition XModelValidate_validateAgentCommunication ::
  "library \<Rightarrow> 'v xmodel \<Rightarrow> xmachine \<Rightarrow> xioput \<Rightarrow> exn + nat \<times> xioput" where
  "XModelValidate_validateAgentCommunication lib m agent i =
     (let xmessage = message_of m (xi_messageName i)
      in bindR (validate_filter lib m agent xmessage (xi_filter i)) (\<lambda>(e2, c).
        (let i1 = i\<lparr>xi_filter := c\<rparr>;
             e3 = (if xi_sort i1 then XModelValidate_validateSort i1 xmessage else 0);
             (e4, i2) = (if xi_randomSet i1 then XModelValidate_validateRandomString i1 else (0, i1))
         in Inr (count_error (xmessage = None) + e2 + e3 + e4 + count_error (xi_sort i2 \<and> xi_random i2), i2))))"

text \<open>One after the other, the errors added up.\<close>

fun validate_all :: "('a \<Rightarrow> exn + nat \<times> 'a) \<Rightarrow> 'a list \<Rightarrow> exn + nat \<times> 'a list" where
  "validate_all f [] = Inr (0, [])"
| "validate_all f (x # xs) = bindR (f x) (\<lambda>(e, y). bindR (validate_all f xs) (\<lambda>(es, ys). Inr (e + es, y # ys)))"

definition XModelValidate_validateAgentFunctionIOput ::
  "library \<Rightarrow> 'v xmodel \<Rightarrow> xmachine \<Rightarrow> xfunction \<Rightarrow> exn + nat \<times> xfunction" where
  "XModelValidate_validateAgentFunctionIOput lib m agent f =
     bindR (validate_all (XModelValidate_validateAgentCommunication lib m agent) (xf_inputs f)) (\<lambda>(e1, ins).
       bindR (validate_all (XModelValidate_validateAgentCommunication lib m agent) (xf_outputs f)) (\<lambda>(e2, outs).
         Inr (e1 + e2, f\<lparr>xf_inputs := ins, xf_outputs := outs\<rparr>)))"

text \<open>The number of errors that \<open>processAgentFunction\<close> returns is not used.\<close>

definition XModelValidate_validateAgentFunction ::
  "library \<Rightarrow> 'v xmodel \<Rightarrow> xmachine \<Rightarrow> xfunction \<Rightarrow> exn + nat \<times> xfunction" where
  "XModelValidate_validateAgentFunction lib m agent f0 =
     (let f = snd (XModelValidate_processAgentFunction (xa_variables agent) f0);
          e1 = count_error (\<not> XModelValidate_name_is_allowed (xf_name f)) +
               count_error (\<not> XModelValidate_name_is_allowed (xf_currentState f)) +
               count_error (\<not> XModelValidate_name_is_allowed (xf_nextState f))
      in bindR (validate_filter lib m agent None (xf_condition f)) (\<lambda>(e2, c).
           bindR (XModelValidate_validateAgentFunctionIOput lib m agent (f\<lparr>xf_condition := c\<rparr>)) (\<lambda>(e3, f').
             Inr (e1 + e2 + e3, f'))))"

section \<open>Agents, messages and the model\<close>

definition XModelValidate_validateAgentStateGraph :: "library \<Rightarrow> xmachine \<Rightarrow> nat \<times> xmachine" where
  "XModelValidate_validateAgentStateGraph lib agent =
     (case XMachine_findStartEndStates agent of
        (rc, agent1) \<Rightarrow>
          if rc = 1 \<or> rc = 2 then (1, agent1)
          else (let agent2 = XMachine_generateStateGraph agent1
                in (fst (XGraph_checkCyclicDependencies lib (xa_graph agent2)) +
                    fst (XGraph_checkFunctionConditions (xa_graph agent2)), agent2)))"

text \<open>
  The agent is the \<open>i\<close>th of the model; what is changed before its functions are validated is
  its variables, which the other agents' checks do not read.
\<close>

definition XModelValidate_validateAgent :: "library \<Rightarrow> nat \<Rightarrow> 'v xmodel \<Rightarrow> exn + nat \<times> 'v xmodel" where
  "XModelValidate_validateAgent lib i m =
     (let agent = xo_agents m ! i;
          e1 = count_error (\<not> XModelValidate_name_is_allowed (xa_name agent)) +
               length (filter (\<lambda>a. xa_id agent \<noteq> xa_id a \<and> xa_name agent = xa_name a) (xo_agents m))
      in case XModelValidate_validateVariables lib (xo_adts m) (xo_allowedDataTypes m) True (xa_variables agent) of
           (e2, vs) \<Rightarrow>
             (let agent1 = agent\<lparr>xa_variables := vs\<rparr>
              in bindR (validate_all (XModelValidate_validateAgentFunction lib m agent1) (xa_functions agent1)) (\<lambda>(e3, fs).
                   case XModelValidate_validateAgentStateGraph lib (agent1\<lparr>xa_functions := fs\<rparr>) of
                     (e4, agent2) \<Rightarrow> Inr (e1 + e2 + e3 + e4, m\<lparr>xo_agents := (xo_agents m)[i := agent2]\<rparr>))))"

definition XModelValidate_validateMessage :: "library \<Rightarrow> nat \<Rightarrow> 'v xmodel \<Rightarrow> exn + nat \<times> 'v xmodel" where
  "XModelValidate_validateMessage lib i m =
     (let msg = xo_messages m ! i;
          e1 = count_error (\<not> XModelValidate_name_is_allowed (xm_name msg)) +
               length (filter (\<lambda>g. xm_id msg \<noteq> xm_id g \<and> xm_name msg = xm_name g) (xo_messages m))
      in case XModelValidate_validateVariables lib (xo_adts m) (xo_allowedDataTypes m) False (xm_variables msg) of
           (e2, vs) \<Rightarrow> Inr (e1 + e2, m\<lparr>xo_messages := (xo_messages m)[i := msg\<lparr>xm_variables := vs\<rparr>]\<rparr>))"

text \<open>Run the checks of the elements of the model one after the other.\<close>

fun validate_each :: "(nat \<Rightarrow> 'v xmodel \<Rightarrow> exn + nat \<times> 'v xmodel) \<Rightarrow> nat list \<Rightarrow> nat \<times> 'v xmodel \<Rightarrow> exn + nat \<times> 'v xmodel" where
  "validate_each f [] s = Inr s"
| "validate_each f (i # is) (e, m) = bindR (f i m) (\<lambda>(e', m'). validate_each f is (e + e', m'))"

definition XModelValidate_validate :: "library \<Rightarrow> 'v xmodel \<Rightarrow> exn + nat \<times> 'v xmodel" where
  "XModelValidate_validate lib m =
     bindR (validate_each (\<lambda>i m. Inr (XModelValidate_validateADT lib i m)) [0..<length (xo_adts m)]
              (sum_list (map XModelValidate_validateFunctionFile (xo_functionFiles m)), m)) (\<lambda>(e1, m1).
       (let (e2, cs) = XModelValidate_validateVariables lib (xo_adts m1) (xo_allowedDataTypes m1) False (xo_constants m1);
            (e3, us) = XModelValidate_validateTimeUnits lib (xo_timeUnits m1);
            m2 = m1\<lparr>xo_constants := cs, xo_timeUnits := us\<rparr>
        in bindR (validate_each (XModelValidate_validateAgent lib) [0..<length (xo_agents m2)] (e1 + e2 + e3, m2))
             (validate_each (XModelValidate_validateMessage lib) [0..<length (xo_messages m2)])))"

definition XModel_validate :: "library \<Rightarrow> 'v xmodel \<Rightarrow> exn + nat \<times> 'v xmodel" where
  "XModel_validate = XModelValidate_validate"

end
