(* ===== verification/State_Graph.thy ===== *)
theory State_Graph
  imports Graph_Paths
begin

text \<open>
  The first steps of \<open>XGraph::generateDependencyGraph\<close> (\<open>src/flame2/model/xgraph.cpp\<close>) on a
  state graph: states that branch become conditions, the other states are contracted. The
  result is ready for the data dependencies.
\<close>

section \<open>The state graph\<close>

abbreviation task_at :: "xgraph \<Rightarrow> nat \<Rightarrow> mtask" where
  "task_at g p \<equiv> g_heap g ! p"

abbreviation type_at :: "xgraph \<Rightarrow> nat \<Rightarrow> mtask_type" where
  "type_at g p \<equiv> t_taskType (g_heap g ! p)"

definition is_state :: "mdependency option \<Rightarrow> bool" where
  "is_state d \<longleftrightarrow> (\<exists>n. d = Some \<lparr>d_name = n, d_type = D_state\<rparr>)"

definition is_variable :: "mdependency option \<Rightarrow> bool" where
  "is_variable d \<longleftrightarrow> (\<exists>x. d = Some x \<and> d_type x = D_variable)"

text \<open>
  A state graph: tasks are functions, states and messages without data dependencies so far;
  state edges lead from a state to a function or back, no other edge touches a state; some
  function leaves the start state.
\<close>

definition state_graph :: "xgraph \<Rightarrow> bool" where
  "state_graph g \<longleftrightarrow> graph_ok g \<and> acyclic (vertex_rel (\<lambda>_. True) g) \<and>
     (\<forall>p \<in> set (g_vertex2task g). type_at g p \<in> {T_xfunction, T_xstate, T_xmessage} \<and>
        t_lastWrites (task_at g p) = [] \<and> t_lastReads (task_at g p) = [] \<and>
        set (t_writeVariables (task_at g p)) \<subseteq> set (t_readVariables (task_at g p))) \<and>
     (\<forall>(p, q) \<in> task_rel is_state g. (type_at g p, type_at g q) \<in> {(T_xfunction, T_xstate), (T_xstate, T_xfunction)}) \<and>
     (\<forall>(p, q) \<in> task_rel (\<lambda>d. \<not> is_state d) g. type_at g p \<noteq> T_xstate \<and> type_at g q \<noteq> T_xstate) \<and>
     (\<exists>p q. g_startTask g = Some p \<and> type_at g p = T_xstate \<and> (p, q) \<in> task_rel is_state g) \<and>
     (\<forall>p \<in> set (g_endTasks g). p \<in> set (g_vertex2task g) \<and> type_at g p = T_xfunction)"

text \<open>States that branch become conditions.\<close>

definition conditions_of :: "xgraph \<Rightarrow> xgraph \<Rightarrow> bool" where
  "conditions_of g0 g \<longleftrightarrow>
     (\<exists>hp. g = g0\<lparr>g_heap := hp\<rparr> \<and> length hp = length (g_heap g0)) \<and>
     (\<forall>p < length (g_heap g0). task_at g p = task_at g0 p \<or>
        type_at g0 p = T_xstate \<and> type_at g p = T_xcondition \<and>
        t_lastWrites (task_at g p) = t_lastWrites (task_at g0 p) \<and> t_lastReads (task_at g p) = t_lastReads (task_at g0 p) \<and>
        (set (t_writeVariables (task_at g0 p)) \<subseteq> set (t_readVariables (task_at g0 p)) \<longrightarrow>
         set (t_writeVariables (task_at g p)) \<subseteq> set (t_readVariables (task_at g p))))"

lemma read_write_all:
  "t_taskType (fold (\<lambda>x. mTask_addReadWriteVariable (xv_name x)) vars t) = t_taskType t \<and>
   t_lastWrites (fold (\<lambda>x. mTask_addReadWriteVariable (xv_name x)) vars t) = t_lastWrites t \<and>
   t_lastReads (fold (\<lambda>x. mTask_addReadWriteVariable (xv_name x)) vars t) = t_lastReads t \<and>
   set (t_readVariables (fold (\<lambda>x. mTask_addReadWriteVariable (xv_name x)) vars t)) = set (t_readVariables t) \<union> xv_name ` set vars \<and>
   set (t_writeVariables (fold (\<lambda>x. mTask_addReadWriteVariable (xv_name x)) vars t)) = set (t_writeVariables t) \<union> xv_name ` set vars"
  by (induction vars arbitrary: t) (auto simp: mTask_addReadWriteVariable_def)

lemma transform_state_conditions:
  assumes c: "conditions_of g0 g" and ok: "graph_ok g0" and v: "v < num_vertices g0"
  shows "conditions_of g0 (snd (transform_state lib vars v (n, g)))"
proof (cases "1 < length (out_edges v g) \<and> t_taskType (XGraph_getTask v g) = T_xstate")
  case False
  then show ?thesis using c by (auto simp: transform_state_def)
next
  case True
  let ?p = "g_vertex2task g0 ! v"
  obtain hp where hp: "g = g0\<lparr>g_heap := hp\<rparr>" "length hp = length (g_heap g0)" using c by (auto simp: conditions_of_def)
  let ?t = "fold (\<lambda>x. mTask_addReadWriteVariable (xv_name x)) vars ((task_at g ?p)\<lparr>t_taskType := T_xcondition, t_name := cast_string lib n, t_priorityLevel := 5\<rparr>)"
  have eq: "snd (transform_state lib vars v (n, g)) = g0\<lparr>g_heap := hp[?p := ?t]\<rparr>"
    using True by (simp add: transform_state_def modify_task_def hp)
  have p: "?p < length hp" using ok v hp by (simp add: graph_ok_def)
  have "type_at g ?p = T_xstate" using True by (simp add: XGraph_getTask_def hp)
  then have same: "task_at g ?p = task_at g0 ?p" using c p hp by (auto simp: conditions_of_def)
  let ?u = "(task_at g ?p)\<lparr>t_taskType := T_xcondition, t_name := cast_string lib n, t_priorityLevel := 5\<rparr>"
  note rw = read_write_all [of vars ?u]
  show ?thesis unfolding conditions_of_def eq
  proof (intro conjI allI impI)
    show "\<exists>hp'. g0\<lparr>g_heap := hp[?p := ?t]\<rparr> = g0\<lparr>g_heap := hp'\<rparr> \<and> length hp' = length (g_heap g0)" using hp(2) by auto
    fix q assume q: "q < length (g_heap g0)"
    let ?g = "g0\<lparr>g_heap := hp[?p := ?t]\<rparr>"
    show "task_at ?g q = task_at g0 q \<or>
        type_at g0 q = T_xstate \<and> type_at ?g q = T_xcondition \<and>
        t_lastWrites (task_at ?g q) = t_lastWrites (task_at g0 q) \<and> t_lastReads (task_at ?g q) = t_lastReads (task_at g0 q) \<and>
        (set (t_writeVariables (task_at g0 q)) \<subseteq> set (t_readVariables (task_at g0 q)) \<longrightarrow>
         set (t_writeVariables (task_at ?g q)) \<subseteq> set (t_readVariables (task_at ?g q)))"
    proof (cases "q = ?p")
      case True
      then show ?thesis using rw p \<open>type_at g ?p = T_xstate\<close> same by auto
    next
      case False
      then have "task_at ?g q = task_at g q" using hp by simp
      then show ?thesis using c q unfolding conditions_of_def by metis
    qed
  qed
qed

lemma transform_conditions:
  assumes "graph_ok g0"
  shows "conditions_of g0 (XGraph_transformConditionalStatesToConditions lib vars g0)"
proof -
  have "conditions_of g0 (snd (fold (transform_state lib vars) vs (n, g)))"
    if "conditions_of g0 g" "\<forall>v \<in> set vs. v < num_vertices g0" for vs n g
    using that
  proof (induction vs arbitrary: n g)
    case (Cons v vs)
    have "conditions_of g0 (snd (transform_state lib vars v (n, g)))"
      using transform_state_conditions [OF _ assms] Cons.prems by simp
    then show ?case using Cons.IH [of "snd (transform_state lib vars v (n, g))" "fst (transform_state lib vars v (n, g))"] Cons.prems(2)
      by simp
  qed simp
  moreover have "conditions_of g0 g0" by (auto simp: conditions_of_def intro: exI [of _ "g_heap g0"])
  ultimately show ?thesis by (simp add: XGraph_transformConditionalStatesToConditions_def)
qed

section \<open>Contraction of the states\<close>

definition stateish :: "mtask_type \<Rightarrow> bool" where
  "stateish type \<longleftrightarrow> type \<in> {T_xfunction, T_xstate, T_xcondition}"

definition edge_typed :: "xgraph \<Rightarrow> edge \<Rightarrow> bool" where
  "edge_typed g e \<longleftrightarrow>
     (let s = t_taskType (XGraph_getTask (e_source e) g); t = t_taskType (XGraph_getTask (e_target e) g)
      in if is_state (e_dep e) then stateish s \<and> stateish t else s \<noteq> T_xstate \<and> t \<noteq> T_xstate)"

lemma edge_typed_edges [simp]: "edge_typed (g\<lparr>g_edges := es\<rparr>) = edge_typed g"
  by (simp add: edge_typed_def [abs_def] XGraph_getTask_def)

lemma bypass_typed:
  assumes "Ball (set (g_edges g)) (edge_typed g)" "t_taskType (XGraph_getTask v g) = T_xstate"
  shows "Ball (set (bypass D_state v g)) (edge_typed g)"
proof -
  have "stateish (t_taskType (XGraph_getTask (e_source e) g))" if "e \<in> set (in_edges v g)" for e
    using that assms by (fastforce simp: in_edges_def edge_typed_def Let_def split: if_splits)
  moreover have "stateish (t_taskType (XGraph_getTask (e_target e) g))" if "e \<in> set (out_edges v g)" for e
    using that assms by (fastforce simp: out_edges_def edge_typed_def Let_def split: if_splits)
  ultimately show ?thesis by (auto simp: set_bypass edge_typed_def is_state_def)
qed

lemma getTask_edges [simp]: "XGraph_getTask v (g\<lparr>g_edges := es\<rparr>) = XGraph_getTask v g"
  by (simp add: XGraph_getTask_def)

lemma typed_all:
  assumes "graph_ok g" "acyclic (vertex_rel (\<lambda>_. True) g)" "Ball (set (g_edges g)) (edge_typed g)"
    "\<forall>v \<in> set vs. t_taskType (XGraph_getTask v g) = T_xstate"
  shows "\<exists>es. fold (contract_edges D_state) vs g = g\<lparr>g_edges := es\<rparr> \<and> Ball (set es) (edge_typed g)"
  using assms
proof (induction vs rule: rev_induct)
  case Nil
  then show ?case by (intro exI [of _ "g_edges g"]) simp
next
  case (snoc v vs)
  let ?h = "fold (contract_edges D_state) vs g"
  obtain es where es: "?h = g\<lparr>g_edges := es\<rparr>" "Ball (set es) (edge_typed g)" using snoc by auto
  have "bypassed (\<lambda>_. True) (set vs) g ?h" by (rule bypassed_all [OF snoc.prems(1,2)]) simp
  then have ac: "acyclic (vertex_rel (\<lambda>_. True) ?h)" by (simp add: bypassed_def)
  have "\<forall>e \<in> set (in_edges v ?h). e_source e \<noteq> v"
  proof (rule ballI, rule notI)
    fix e assume "e \<in> set (in_edges v ?h)" "e_source e = v"
    then have "(v, v) \<in> vertex_rel (\<lambda>_. True) ?h" by (auto simp: in_edges_def in_vertex_rel)
    then show False using ac by (auto simp: acyclic_def)
  qed
  then have "contract_edges D_state v ?h = ?h\<lparr>g_edges := g_edges ?h @ bypass D_state v ?h\<rparr>" by (rule contract_edges_eq)
  moreover have "Ball (set (bypass D_state v ?h)) (edge_typed ?h)"
    by (rule bypass_typed) (use es snoc.prems(4) in simp_all)
  ultimately show ?case using es by (intro exI [of _ "es @ bypass D_state v ?h"]) auto
qed

lemma contract_states:
  assumes ok: "graph_ok g" and ac: "acyclic (vertex_rel (\<lambda>_. True) g)" and typed: "Ball (set (g_edges g)) (edge_typed g)"
    and g': "g' = XGraph_contractVertices T_xstate D_state g"
  defines "kept \<equiv> {p \<in> set (g_vertex2task g). type_at g p \<noteq> T_xstate}"
  shows "graph_ok g'" "g_heap g' = g_heap g" "set (g_vertex2task g') = kept" "acyclic (vertex_rel (\<lambda>_. True) g')"
    "g_startTask g' = g_startTask g" "g_endTasks g' = g_endTasks g" "g_endTask g' = g_endTask g" "g_agentName g' = g_agentName g"
    "p \<in> kept \<Longrightarrow> q \<in> kept \<Longrightarrow> (p, q) \<in> (task_rel is_state g)\<^sup>+ \<Longrightarrow> (p, q) \<in> (task_rel is_state g')\<^sup>+"
    "(p, q) \<in> task_rel is_state g' \<Longrightarrow> stateish (type_at g p) \<and> stateish (type_at g q)"
proof -
  define vs where "vs = filter (\<lambda>v. t_taskType (XGraph_getTask v g) = T_xstate) [0..<num_vertices g]"
  define h where "h = fold (contract_edges D_state) vs g"
  have vs: "v \<in> set vs \<longleftrightarrow> v < num_vertices g \<and> type_at g (g_vertex2task g ! v) = T_xstate" for v
    by (auto simp: vs_def XGraph_getTask_def)
  have byp: "bypassed is_state (set vs) g h" unfolding h_def by (rule bypassed_all [OF ok ac]) (simp add: is_state_def)
  obtain es where h: "h = g\<lparr>g_edges := es\<rparr>" and es: "Ball (set es) (edge_typed g)"
    using typed_all [OF ok ac typed, of vs] unfolding h_def by (auto simp: vs_def)
  have okh: "graph_ok h" and ach: "acyclic (vertex_rel (\<lambda>_. True) h)" using byp by (auto simp: bypassed_def)
  have eq: "g' = XGraph_removeVertices vs h" by (simp add: g' XGraph_contractVertices_def Let_def vs_def h_def)
  let ?gone = "(!) (g_vertex2task h) ` set vs"
  have gone: "?gone = {p \<in> set (g_vertex2task g). type_at g p = T_xstate}"
  proof -
    have "set vs = {v. v < num_vertices g \<and> type_at g (g_vertex2task g ! v) = T_xstate}" using vs by blast
    then show ?thesis by (auto simp: h in_set_conv_nth)
  qed
  have "\<forall>v \<in> set vs. v < num_vertices h" "distinct vs" by (simp_all add: h vs) (simp add: vs_def)
  from removeVertices_effect [OF okh this(2,1)] have rem: "graph_ok g'" "g_heap g' = g_heap h"
    "set (g_vertex2task g') = set (g_vertex2task h) - ?gone"
    "\<And>P. task_rel P g' = {(p, q) \<in> task_rel P h. p \<notin> ?gone \<and> q \<notin> ?gone}"
    "g_startTask g' = g_startTask h" "g_endTasks g' = g_endTasks h" "g_endTask g' = g_endTask h" "g_agentName g' = g_agentName h"
    unfolding Let_def eq by auto
  show "graph_ok g'" "g_heap g' = g_heap g" "g_startTask g' = g_startTask g" "g_endTasks g' = g_endTasks g"
    "g_endTask g' = g_endTask g" "g_agentName g' = g_agentName g" using rem h by simp_all
  show "set (g_vertex2task g') = kept" unfolding rem(3) gone kept_def by (auto simp: h)
  have "acyclic (task_rel (\<lambda>_. True) g')"
    by (rule acyclic_subset [of "task_rel (\<lambda>_. True) h"]) (use acyclic_tasks [OF okh] ach rem(4) in auto)
  then show "acyclic (vertex_rel (\<lambda>_. True) g')" using acyclic_tasks [OF rem(1)] by simp
  show "(p, q) \<in> (task_rel is_state g')\<^sup>+" if pq: "p \<in> kept" "q \<in> kept" "(p, q) \<in> (task_rel is_state g)\<^sup>+"
  proof -
    obtain u v where uv: "u < num_vertices g" "v < num_vertices g" "p = g_vertex2task g ! u" "q = g_vertex2task g ! v"
      using pq(1,2) by (auto simp: kept_def in_set_conv_nth)
    have "u \<notin> set vs" "v \<notin> set vs" using pq(1,2) uv by (auto simp: kept_def vs)
    moreover have "(u, v) \<in> (vertex_rel is_state g)\<^sup>+" using task_path [OF ok uv(1,2)] pq(3) uv(3,4) by simp
    ultimately have "(u, v) \<in> (Restr (vertex_rel is_state h) (- set vs))\<^sup>+" using byp by (auto simp: bypassed_def)
    from trancl_image [OF this, of "(!) (g_vertex2task h)"]
    have "(p, q) \<in> (map_prod ((!) (g_vertex2task h)) ((!) (g_vertex2task h)) ` Restr (vertex_rel is_state h) (- set vs))\<^sup>+"
      using uv(3,4) by (simp add: h)
    moreover have "map_prod ((!) (g_vertex2task h)) ((!) (g_vertex2task h)) ` Restr (vertex_rel is_state h) (- set vs)
        \<subseteq> task_rel is_state g'"
    proof (clarsimp simp: rem(4))
      fix s t assume st: "(s, t) \<in> vertex_rel is_state h" "s \<notin> set vs" "t \<notin> set vs"
      then have "s < num_vertices h" "t < num_vertices h" using vertex_rel_bounds [OF okh] by auto
      then have "g_vertex2task h ! s \<notin> ?gone" "g_vertex2task h ! t \<notin> ?gone"
        using st(2,3) inj_onD [OF task_inj [OF okh]] by (force simp: h vs)+
      moreover have "(g_vertex2task h ! s, g_vertex2task h ! t) \<in> task_rel is_state h"
        using st(1) by (auto simp: task_rel_def)
      ultimately show "(g_vertex2task h ! s, g_vertex2task h ! t) \<in> task_rel is_state h \<and>
          g_vertex2task h ! s \<notin> ?gone \<and> g_vertex2task h ! t \<notin> ?gone" by blast
    qed
    ultimately show ?thesis by (rule trancl_mono)
  qed
  show "stateish (type_at g p) \<and> stateish (type_at g q)" if "(p, q) \<in> task_rel is_state g'"
  proof -
    have "(p, q) \<in> task_rel is_state h" using that rem(4) by auto
    then obtain e where "e \<in> set es" "is_state (e_dep e)" "p = g_vertex2task g ! e_source e" "q = g_vertex2task g ! e_target e"
      by (auto simp: task_rel_image h)
    then show ?thesis using es by (auto simp: edge_typed_def Let_def XGraph_getTask_def)
  qed
qed

lemma start_loop:
  "fold (\<lambda>e g. g\<lparr>g_startTask := Some (g_vertex2task g ! e_target e)\<rparr>) es g =
     (if es = [] then g else g\<lparr>g_startTask := Some (g_vertex2task g ! e_target (last es))\<rparr>)"
  by (induction es arbitrary: g) auto

lemma task_rel_heap [simp]: "task_rel P (g\<lparr>g_heap := hp\<rparr>) = task_rel P g"
  by (simp add: task_rel_image)

lemma task_rel_start [simp]: "task_rel P (g\<lparr>g_startTask := s\<rparr>) = task_rel P g"
  by (simp add: task_rel_image)

lemma vertex_rel_heap [simp]: "vertex_rel P (g\<lparr>g_heap := hp\<rparr>) = vertex_rel P g"
  by (simp add: vertex_rel_def)

lemma vertex_rel_start [simp]: "vertex_rel P (g\<lparr>g_startTask := s\<rparr>) = vertex_rel P g"
  by (simp add: vertex_rel_def)

lemma graph_ok_same_heap_length: "graph_ok g \<Longrightarrow> length hp = length (g_heap g) \<Longrightarrow> graph_ok (g\<lparr>g_heap := hp\<rparr>)"
  by (simp add: graph_ok_def)

lemma graph_ok_start [simp]: "graph_ok (g\<lparr>g_startTask := s\<rparr>) = graph_ok g"
  by (simp add: graph_ok_def)

lemma edge_typed_start [simp]: "edge_typed (g\<lparr>g_startTask := s\<rparr>) = edge_typed g"
  by (simp add: edge_typed_def [abs_def] XGraph_getTask_def)

text \<open>The graph in which branching states are conditions.\<close>

lemma conditions_typed:
  assumes sg: "state_graph g" and c: "conditions_of g g1"
  shows "Ball (set (g_edges g1)) (edge_typed g1)"
proof
  fix e assume "e \<in> set (g_edges g1)"
  then have e: "e \<in> set (g_edges g)" using c by (auto simp: conditions_of_def)
  have v2t: "g_vertex2task g1 = g_vertex2task g" using c by (auto simp: conditions_of_def)
  let ?p = "g_vertex2task g ! e_source e" and ?q = "g_vertex2task g ! e_target e"
  have "graph_ok g" using sg by (simp add: state_graph_def)
  then have b: "?p < length (g_heap g)" "?q < length (g_heap g)" using e by (auto simp: graph_ok_def)
  have rel: "P (e_dep e) \<Longrightarrow> (?p, ?q) \<in> task_rel P g" for P using e by (auto simp: task_rel_image)
  show "edge_typed g1 e"
  proof (cases "is_state (e_dep e)")
    case True
    then have "(type_at g ?p, type_at g ?q) \<in> {(T_xfunction, T_xstate), (T_xstate, T_xfunction)}"
      using rel [of is_state] sg unfolding state_graph_def by blast
    then have "stateish (type_at g1 ?p)" "stateish (type_at g1 ?q)"
      using c b unfolding conditions_of_def stateish_def by (metis Pair_inject empty_iff insert_iff)+
    then show ?thesis using True by (simp add: edge_typed_def XGraph_getTask_def v2t)
  next
    case False
    then have "type_at g ?p \<noteq> T_xstate" "type_at g ?q \<noteq> T_xstate"
      using rel [of "\<lambda>d. \<not> is_state d"] sg unfolding state_graph_def by blast+
    then have "type_at g1 ?p \<noteq> T_xstate" "type_at g1 ?q \<noteq> T_xstate"
      using c b unfolding conditions_of_def by metis+
    then show ?thesis using False by (simp add: edge_typed_def XGraph_getTask_def v2t)
  qed
qed

lemma contracted_start:
  assumes sg: "state_graph g" and c: "conditions_of g g1"
  shows "\<exists>s. XGraph_contractStateVertices g1 = Inr (XGraph_contractVertices T_xstate D_state (g1\<lparr>g_startTask := Some s\<rparr>)) \<and>
    s \<in> set (g_vertex2task g1) \<and> type_at g1 s \<noteq> T_xstate"
proof -
  obtain p q where p: "g_startTask g = Some p" "type_at g p = T_xstate" "(p, q) \<in> task_rel is_state g"
    using sg unfolding state_graph_def by blast
  have ok: "graph_ok g" using sg by (simp add: state_graph_def)
  have same: "g_vertex2task g1 = g_vertex2task g" "g_edges g1 = g_edges g" "g_startTask g1 = Some p"
    using c p(1) by (auto simp: conditions_of_def)
  have pv: "p \<in> set (g_vertex2task g)" using p(3) task_rel_tasks [OF ok] by blast
  let ?v = "XGraph_getVertex p g1"
  have v: "?v < num_vertices g" "g_vertex2task g ! ?v = p" using getVertex_task [of p g1] pv same by auto
  show ?thesis
  proof (cases "type_at g1 p = T_xstate")
    case False
    have eq: "g1\<lparr>g_startTask := Some p\<rparr> = g1" using same(3) by (cases g1) simp
    show ?thesis
      by (rule exI [of _ p], unfold eq) (use False pv same in \<open>simp add: XGraph_contractStateVertices_def\<close>)
  next
    case True
    obtain e0 where "e0 \<in> set (g_edges g)" "g_vertex2task g ! e_source e0 = p" using p(3) by (auto simp: task_rel_image)
    moreover from this have "e_source e0 = ?v" using inj_onD [OF task_inj [OF ok]] v ok by (auto simp: graph_ok_def)
    ultimately have ne: "out_edges ?v g1 \<noteq> []" by (auto simp: out_edges_def same filter_empty_conv)
    let ?e = "last (out_edges ?v g1)"
    have e: "?e \<in> set (g_edges g)" "e_source ?e = ?v" using last_in_set [OF ne] by (auto simp: out_edges_def same)
    let ?q = "g_vertex2task g ! e_target ?e"
    have "is_state (e_dep ?e)"
    proof (rule ccontr)
      assume "\<not> is_state (e_dep ?e)"
      then have "(p, ?q) \<in> task_rel (\<lambda>d. \<not> is_state d) g" using e v(2) by (force simp: task_rel_image)
      then show False using sg p(2) unfolding state_graph_def by blast
    qed
    then have pq: "(p, ?q) \<in> task_rel is_state g" using e v(2) by (force simp: task_rel_image)
    then have "(type_at g p, type_at g ?q) \<in> {(T_xfunction, T_xstate), (T_xstate, T_xfunction)}"
      using sg unfolding state_graph_def by blast
    then have "type_at g ?q = T_xfunction" using p(2) by simp
    moreover have "?q \<in> set (g_vertex2task g)" using pq task_rel_tasks [OF ok] by blast
    moreover from calculation have "type_at g1 ?q = T_xfunction"
      using c ok unfolding conditions_of_def graph_ok_def by (metis mtask_type.distinct(1))
    ultimately show ?thesis using ne same True
      by (intro exI [of _ ?q]) (simp add: XGraph_contractStateVertices_def start_loop)
  qed
qed

lemma contracted_ready:
  assumes sg: "state_graph g"
  obtains g2 where "XGraph_contractStateVertices (XGraph_transformConditionalStatesToConditions lib vars g) = Inr g2"
    "deps_ready g2"
    "\<And>p. p \<in> set (g_vertex2task g) \<Longrightarrow> type_at g p = T_xfunction \<Longrightarrow> p \<in> set (g_vertex2task g2) \<and> task_at g2 p = task_at g p"
    "\<And>p q. p \<in> set (g_vertex2task g) \<Longrightarrow> type_at g p = T_xfunction \<Longrightarrow> q \<in> set (g_vertex2task g) \<Longrightarrow> type_at g q = T_xfunction \<Longrightarrow>
       (p, q) \<in> (task_rel is_state g)\<^sup>+ \<Longrightarrow> (p, q) \<in> (task_rel is_state g2)\<^sup>+"
    "\<And>p q. (p, q) \<in> task_rel is_state g2 \<Longrightarrow> accesses_data (type_at g2 p) \<and> accesses_data (type_at g2 q)"
proof -
  define g1 where "g1 = XGraph_transformConditionalStatesToConditions lib vars g"
  have ok: "graph_ok g" using sg by (simp add: state_graph_def)
  have c: "conditions_of g g1" unfolding g1_def using transform_conditions [OF ok] .
  then obtain hp where hp: "g1 = g\<lparr>g_heap := hp\<rparr>" "length hp = length (g_heap g)" by (auto simp: conditions_of_def)
  obtain s where s: "XGraph_contractStateVertices g1 = Inr (XGraph_contractVertices T_xstate D_state (g1\<lparr>g_startTask := Some s\<rparr>))"
    "s \<in> set (g_vertex2task g1)" "type_at g1 s \<noteq> T_xstate" using contracted_start [OF sg c] by blast
  define g2 where "g2 = XGraph_contractVertices T_xstate D_state (g1\<lparr>g_startTask := Some s\<rparr>)"
  have ok1: "graph_ok (g1\<lparr>g_startTask := Some s\<rparr>)" using graph_ok_same_heap_length [OF ok hp(2)] by (simp add: hp)
  have ac1: "acyclic (vertex_rel (\<lambda>_. True) (g1\<lparr>g_startTask := Some s\<rparr>))" using sg by (simp add: hp state_graph_def)
  have ty1: "Ball (set (g_edges (g1\<lparr>g_startTask := Some s\<rparr>))) (edge_typed (g1\<lparr>g_startTask := Some s\<rparr>))"
    using conditions_typed [OF sg c] by simp
  note con = contract_states [OF ok1 ac1 ty1 g2_def, simplified]
  have heap: "g_heap g2 = hp" using con(2) hp by simp
  have fun1: "task_at g2 p = task_at g p" if "p \<in> set (g_vertex2task g)" "type_at g p = T_xfunction" for p
    using that c ok hp heap unfolding conditions_of_def graph_ok_def by auto
  have keep: "p \<in> set (g_vertex2task g2)" if "p \<in> set (g_vertex2task g)" "type_at g p = T_xfunction" for p
    using that fun1 [OF that] con(3) hp heap by simp
  have sub: "set (g_vertex2task g2) \<subseteq> set (g_vertex2task g)" using con(3) hp by auto
  have tasks: "t_lastWrites (task_at g2 p) = [] \<and> t_lastReads (task_at g2 p) = [] \<and>
      set (t_writeVariables (task_at g2 p)) \<subseteq> set (t_readVariables (task_at g2 p))" if p: "p \<in> set (g_vertex2task g2)" for p
  proof -
    have "p \<in> set (g_vertex2task g)" using p sub by blast
    then have "p < length (g_heap g)" "t_lastWrites (task_at g p) = []" "t_lastReads (task_at g p) = []"
      "set (t_writeVariables (task_at g p)) \<subseteq> set (t_readVariables (task_at g p))"
      using ok sg by (auto simp: graph_ok_def state_graph_def)
    moreover from this(1) have "task_at g1 p = task_at g p \<or>
        t_lastWrites (task_at g1 p) = t_lastWrites (task_at g p) \<and> t_lastReads (task_at g1 p) = t_lastReads (task_at g p) \<and>
        (set (t_writeVariables (task_at g p)) \<subseteq> set (t_readVariables (task_at g p)) \<longrightarrow>
         set (t_writeVariables (task_at g1 p)) \<subseteq> set (t_readVariables (task_at g1 p)))"
      using c unfolding conditions_of_def by blast
    moreover have "task_at g2 p = task_at g1 p" using heap hp by simp
    ultimately show ?thesis by auto
  qed
  have ready: "deps_ready g2" unfolding deps_ready_def
  proof (intro conjI allI impI)
    show "graph_ok g2" by (rule con(1))
    show "acyclic (set (edge_pairs g2))" using con(4) by (simp add: set_edge_pairs)
    show "\<exists>p \<in> set (g_vertex2task g2). g_startTask g2 = Some p" using con(3,5) s(2,3) hp by auto
    show "set (g_endTasks g2) \<subseteq> set (g_vertex2task g2)" using con(6) sg keep by (auto simp: hp state_graph_def)
    fix v assume "v < num_vertices g2"
    then have v: "g_vertex2task g2 ! v \<in> set (g_vertex2task g2)" by simp
    show "t_lastWrites (XGraph_getTask v g2) = []" "t_lastReads (XGraph_getTask v g2) = []" "writes g2 v \<subseteq> reads g2 v"
      using tasks [OF v] by (simp_all add: XGraph_getTask_def reads_def writes_def)
  qed
  show thesis
  proof (rule that [OF _ ready])
    show "XGraph_contractStateVertices (XGraph_transformConditionalStatesToConditions lib vars g) = Inr g2"
      using s(1) by (simp add: g1_def g2_def)
    show "p \<in> set (g_vertex2task g2) \<and> task_at g2 p = task_at g p"
      if "p \<in> set (g_vertex2task g)" "type_at g p = T_xfunction" for p using that keep fun1 by blast
    show "(p, q) \<in> (task_rel is_state g2)\<^sup>+"
      if "p \<in> set (g_vertex2task g)" "type_at g p = T_xfunction" "q \<in> set (g_vertex2task g)" "type_at g q = T_xfunction"
        "(p, q) \<in> (task_rel is_state g)\<^sup>+" for p q
      using con(9) [of p q] keep that con(3) by (simp add: hp)
    show "accesses_data (type_at g2 p) \<and> accesses_data (type_at g2 q)" if pq: "(p, q) \<in> task_rel is_state g2" for p q
    proof -
      have "stateish (type_at g1 p)" "stateish (type_at g1 q)" using con(10) [OF pq] by simp_all
      moreover have "type_at g1 p \<noteq> T_xstate" "type_at g1 q \<noteq> T_xstate"
        using task_rel_tasks [OF con(1), of is_state] pq con(3) by auto
      ultimately show ?thesis using heap hp by (auto simp: stateish_def accesses_data_def)
    qed
  qed
qed

end
