(* ===== verification/Dependency_Graph.thy ===== *)
theory Dependency_Graph
  imports State_Graph
begin

text \<open>
  The remaining steps of \<open>XGraph::generateDependencyGraph\<close> (\<open>src/flame2/model/xgraph.cpp\<close>):
  data dependencies, output tasks and the transitive reduction, and the property of the whole
  derivation: functions that conflict on a variable stay ordered.
\<close>

section \<open>The graph with data dependencies\<close>

lemma var_rel_eq: "var_rel g = vertex_rel is_variable g"
  by (auto simp: var_rel_def vertex_rel_def var_edge_def is_variable_def)

lemma edges_within_ok: "graph_ok g \<Longrightarrow> edges_within (num_vertices g) (edge_pairs g)"
  by (auto simp: edges_within_def edge_pairs_def graph_ok_def)

lemma getTask_nth: "XGraph_getTask v g = task_at g (g_vertex2task g ! v)"
  by (simp add: XGraph_getTask_def)

text \<open>\<open>n\<close> is the number of vertices before the start and the end were added.\<close>

definition with_data :: "xgraph \<Rightarrow> xgraph \<Rightarrow> bool" where
  "with_data g g3 \<longleftrightarrow>
     (let n = num_vertices g in
      graph_ok g3 \<and> acyclic (vertex_rel (\<lambda>_. True) g3) \<and> num_vertices g3 = n + 2 \<and>
      take n (g_vertex2task g3) = g_vertex2task g \<and> g_endTask g3 = Some (g_vertex2task g3 ! (n + 1)) \<and>
      (\<forall>e \<in> set (g_edges g3). e_source e \<noteq> n + 1) \<and>
      (\<forall>(y, us) \<in> set (t_lastWrites (XGraph_getTask (n + 1) g3)). \<forall>u \<in> set us. u < n + 1) \<and>
      (\<forall>u v x. (u, v) \<in> (flow g)\<^sup>+ \<longrightarrow> conflicting g u v x \<longrightarrow> (u, v) \<in> (vertex_rel is_variable g3)\<^sup>+))"

lemma flow_ends:
  assumes e: "ends_added g g1" and ok: "graph_ok g"
  shows "flow g \<subseteq> flow g1" and "u < num_vertices g \<Longrightarrow> reads g1 u = reads g u \<and> writes g1 u = writes g u"
proof -
  obtain es where edges: "g_edges g1 = g_edges g @ es" and old: "\<And>v. v < num_vertices g \<Longrightarrow> XGraph_getTask v g1 = XGraph_getTask v g"
    using e by (auto simp: ends_added_def Let_def)
  show "flow g \<subseteq> flow g1"
    using old ok by (auto simp: flow_def edge_pairs_def edges graph_ok_def)
  show "u < num_vertices g \<Longrightarrow> reads g1 u = reads g u \<and> writes g1 u = writes g u"
    using old by (simp add: reads_def writes_def)
qed

lemma flow_bounds: "graph_ok g \<Longrightarrow> flow g \<subseteq> {..<num_vertices g} \<times> {..<num_vertices g}"
  by (auto simp: flow_def edge_pairs_def graph_ok_def)

lemma data_dependencies:
  assumes lib: "sorts_topologically lib" and ready: "deps_ready g"
  shows "\<exists>g3. XGraph_addDataDependencies lib vars g = Inr g3 \<and> with_data g g3"
proof -
  let ?n = "num_vertices g"
  define g1 where "g1 = XGraph_addEndTask (XGraph_addStartTask vars g)"
  note ends = add_ends [OF ready g1_def]
  have ok: "graph_ok g" using ready by (simp add: deps_ready_def)
  have n1: "num_vertices g1 = ?n + 2" using ends(1) by (simp add: ends_added_def Let_def)
  obtain vs where vs: "topological_sort lib (num_vertices g1) (edge_pairs g1) = Some vs"
    "topological (num_vertices g1) (edge_pairs g1) (rev vs)"
    using lib edges_within_ok [OF ends(2)] ends(4) unfolding sorts_topologically_def by blast
  define g3 where "g3 = fold add_dependencies_of (rev vs) g1"
  have inv: "dep_inv g1 {..<num_vertices g1} g3" and top: "topological (num_vertices g1) (edge_pairs g3) (rev vs)"
    unfolding g3_def using dep_inv_all [OF ends(3) vs(2)] by auto
  note c = dep_inv_cases [OF inv]
  have n3: "num_vertices g3 = ?n + 2" using c(1) n1 by simp
  have "acyclic (vertex_rel (\<lambda>_. True) g3)"
    using topological_acyclic [OF top] edges_within_ok [OF c(2)] n1 n3 by (simp add: set_edge_pairs)
  moreover have "take ?n (g_vertex2task g3) = g_vertex2task g"
    using ends(1) c(1) by (simp add: ends_added_def Let_def)
  moreover have "g_endTask g3 = Some (g_vertex2task g3 ! (?n + 1))"
  proof -
    have "g_endTask (add_dependencies_of v h) = g_endTask h" for v h
    proof -
      have "g_endTask (fold (copy_from p) es h) = g_endTask h" for p es h
        by (induction es arbitrary: h) (simp_all add: copy_from_def Let_def modify_task_def)
      moreover have "g_endTask h' = g_endTask h" if "adds_edges v A h h'" for A h h'
        using that by (auto simp: adds_edges_def)
      ultimately show ?thesis
        using addReadDependencies_effect addWriteDependencies_effect
        by (simp add: add_dependencies_of_def Let_def XGraph_addWritingVerticesToList_def modify_task_def XGraph_copyWritingAndReadingVertices_def) metis
    qed
    then have "g_endTask (fold add_dependencies_of ws h) = g_endTask h" for ws h by (induction ws arbitrary: h) simp_all
    then have "g_endTask g3 = g_endTask g1" by (simp add: g3_def)
    then show ?thesis using ends(1) c(1) by (simp add: ends_added_def Let_def)
  qed
  moreover have "e_source e \<noteq> ?n + 1" if e: "e \<in> set (g_edges g3)" for e
  proof -
    obtain es where es: "g_edges g3 = g_edges g1 @ es" "Ball (set es) (new_edge g1 {..<num_vertices g1})" using c(8) by blast
    obtain es1 where es1: "g_edges g1 = g_edges g @ es1" "\<And>e. e \<in> set es1 \<Longrightarrow> e_source e = ?n \<or> e_source e < ?n"
      using ends(1) unfolding ends_added_def Let_def by blast
    have "accesses g1 (?n + 1) = {}" using ends(1) by (simp add: ends_added_def Let_def)
    moreover have "e \<in> set (g_edges g) \<or> e \<in> set es1 \<or> e \<in> set es" using e es(1) es1(1) by auto
    moreover have "e \<in> set (g_edges g) \<Longrightarrow> e_source e < ?n" using ok by (simp add: graph_ok_def)
    ultimately show ?thesis using es(2) es1(2) [of e] unfolding new_edge_def by fastforce
  qed
  moreover have "u < ?n + 1" if y: "(y, us) \<in> set (t_lastWrites (XGraph_getTask (?n + 1) g3))" "u \<in> set us" for y us u
  proof -
    have "data_vertex g1 (?n + 1)" using ends(1) by (simp add: ends_added_def Let_def accesses_data_def)
    then have "tracked g1 g3 {..<num_vertices g1} (?n + 1) y" using c(6) n1 by simp
    then have "u < num_vertices g1 \<and> y \<in> accesses g1 u" using y by (auto simp: tracked_def Let_def vertices_at_def)
    moreover have "accesses g1 (?n + 1) = {}" using ends(1) by (simp add: ends_added_def Let_def)
    ultimately show ?thesis using n1 by (cases "u = ?n + 1") auto
  qed
  moreover have "(u, v) \<in> (vertex_rel is_variable g3)\<^sup>+" if uv: "(u, v) \<in> (flow g)\<^sup>+" "conflicting g u v x" for u v x
  proof -
    have "u < ?n" "v < ?n" using trancl_subset_Sigma [OF flow_bounds [OF ok]] uv(1) by auto
    then have "conflicting g1 u v x" using uv(2) flow_ends(2) [OF ends(1) ok] by (simp add: conflicting_def)
    moreover have "(u, v) \<in> (flow g1)\<^sup>+" using trancl_mono [OF uv(1) flow_ends(1) [OF ends(1) ok]] .
    ultimately show ?thesis using c(7) [of v u x] \<open>v < ?n\<close> n1 by (simp add: var_rel_eq)
  qed
  ultimately have "with_data g g3" unfolding with_data_def Let_def using c(2) n3 by blast
  moreover have "XGraph_addDataDependencies lib vars g = Inr g3"
    using vs(1) by (simp add: XGraph_addDataDependencies_def Let_def g1_def g3_def)
  ultimately show ?thesis by blast
qed

section \<open>Output tasks\<close>

lemma acyclic_add_sinks:
  assumes R: "acyclic R" "R \<subseteq> A \<times> A" and S: "S \<subseteq> A \<times> B" "A \<inter> B = {}"
  shows "acyclic (R \<union> S)"
proof -
  have path: "a \<in> A \<and> (b \<in> A \<longrightarrow> (a, b) \<in> R\<^sup>+)" if "(a, b) \<in> (R \<union> S)\<^sup>+" for a b
    using that
  proof (induction rule: trancl_induct)
    case (base y)
    then show ?case using R(2) S by auto
  next
    case (step y z)
    have "y \<in> A" using step.hyps(2) R(2) S by auto
    moreover have "(y, z) \<in> R" if "z \<in> A" using that step.hyps(2) S by auto
    ultimately show ?case using step.IH by (auto intro: trancl_into_trancl)
  qed
  show ?thesis
  proof (rule acyclicI, intro allI notI)
    fix a assume "(a, a) \<in> (R \<union> S)\<^sup>+"
    then have "(a, a) \<in> R\<^sup>+" using path by blast
    then show False using R(1) by (simp add: acyclic_def)
  qed
qed

lemma output_vertices_effect:
  "\<exists>ts es. output_vertices lib k lws g = g\<lparr>g_heap := g_heap g @ ts, g_edges := g_edges g @ es,
      g_vertex2task := g_vertex2task g @ [length (g_heap g)..<length (g_heap g) + length ts]\<rparr> \<and>
    (\<forall>e \<in> set es. (\<exists>(y, us) \<in> set lws. e_source e \<in> set us) \<and> num_vertices g \<le> e_target e \<and>
      e_target e < num_vertices g + length ts)"
proof (induction lib k lws g rule: output_vertices.induct)
  case (1 lib n g)
  then show ?case by (intro exI [of _ "[]"]) simp
next
  case (2 lib n x us lws g)
  define t where "t = fold mTask_addWriteVariable (x # map fst (filter (\<lambda>(y, ws). XGraph_compareTaskSets us ws) lws))
    ((mTask_new (g_agentName g) (cast_string lib (Suc n)) T_io_pop_write)\<lparr>t_name := x\<rparr>)"
  define e0 where "e0 = map (\<lambda>u. \<lparr>e_source = u, e_target = num_vertices g, e_dep = Some \<lparr>d_name = [], d_type = D_data\<rparr>\<rparr>) us"
  define g2 where "g2 = g\<lparr>g_heap := g_heap g @ [t], g_vertex2task := g_vertex2task g @ [length (g_heap g)], g_edges := g_edges g @ e0\<rparr>"
  let ?rest = "filter (\<lambda>(y, ws). \<not> XGraph_compareTaskSets us ws) lws"
  have g2: "fold (\<lambda>u. XGraph_addEdge u (num_vertices g) [] D_data) us (snd (add_task t g)) = g2"
    using addEdge_loop [of "\<lambda>u. u" "\<lambda>_. num_vertices g" "[]" D_data us]
    by (simp add: g2_def e0_def add_task_def alloc_task_def XGraph_addVertex_def)
  have step: "output_vertices lib n ((x, us) # lws) g = output_vertices lib (Suc n) ?rest g2"
    unfolding output_vertices.simps(2) Let_def t_def [symmetric] g2 by (rule refl)
  from "2.IH" [OF refl refl refl refl] obtain ts es where ih:
    "output_vertices lib (Suc n) ?rest g2 = g2\<lparr>g_heap := g_heap g2 @ ts, g_edges := g_edges g2 @ es,
      g_vertex2task := g_vertex2task g2 @ [length (g_heap g2)..<length (g_heap g2) + length ts]\<rparr>"
    "\<forall>e \<in> set es. (\<exists>(y, us) \<in> set ?rest. e_source e \<in> set us) \<and> num_vertices g2 \<le> e_target e \<and> e_target e < num_vertices g2 + length ts"
    using g2 unfolding t_def by auto
  have upt: "length (g_heap g) # [Suc (length (g_heap g))..<Suc (length (g_heap g)) + length ts] =
      [length (g_heap g)..<length (g_heap g) + length (t # ts)]"
    using upt_conv_Cons [of "length (g_heap g)" "length (g_heap g) + length (t # ts)"] by simp
  have "output_vertices lib n ((x, us) # lws) g = g\<lparr>g_heap := g_heap g @ (t # ts), g_edges := g_edges g @ (e0 @ es),
      g_vertex2task := g_vertex2task g @ [length (g_heap g)..<length (g_heap g) + length (t # ts)]\<rparr>"
    unfolding step ih(1) upt [symmetric] by (simp add: g2_def)
  moreover have "(\<exists>(y, ws) \<in> set ((x, us) # lws). e_source e \<in> set ws) \<and> num_vertices g \<le> e_target e \<and>
      e_target e < num_vertices g + length (t # ts)" if e: "e \<in> set (e0 @ es)" for e
    using e ih(2) by (auto simp: e0_def g2_def)
  ultimately show ?case by blast
qed

lemma trancl_avoid:
  assumes "(p, q) \<in> R\<^sup>+" "q \<noteq> z" "z \<notin> Domain R"
  shows "(p, q) \<in> {(a, b) \<in> R. a \<noteq> z \<and> b \<noteq> z}\<^sup>+"
proof -
  have "b \<noteq> z \<longrightarrow> (p, b) \<in> {(a, b) \<in> R. a \<noteq> z \<and> b \<noteq> z}\<^sup>+" if "(p, b) \<in> R\<^sup>+" for b
    using that
  proof (induction rule: trancl_induct)
    case (base y)
    then show ?case using assms(3) by (auto intro!: trancl.r_into_trancl)
  next
    case (step y w)
    then have "y \<noteq> z" using assms(3) by auto
    then show ?case using step by (auto intro: trancl_into_trancl)
  qed
  then show ?thesis using assms(1,2) by blast
qed

text \<open>After the output tasks have been added and the end has been removed.\<close>

lemma add_output_effect:
  assumes d: "with_data g g3"
  shows "\<exists>g5. XGraph_AddVariableOutput lib (XGraph_removeStateDependencies g3) = Inr g5 \<and>
    graph_ok g5 \<and> acyclic (vertex_rel (\<lambda>_. True) g5) \<and> set (g_vertex2task g) \<subseteq> set (g_vertex2task g5) \<and>
    (\<forall>u v x. (u, v) \<in> (flow g)\<^sup>+ \<longrightarrow> conflicting g u v x \<longrightarrow> v < num_vertices g \<longrightarrow> u < num_vertices g \<longrightarrow>
       (g_vertex2task g ! u, g_vertex2task g ! v) \<in> (task_rel (\<lambda>_. True) g5)\<^sup>+)"
proof -
  let ?n = "num_vertices g" and ?T = "\<lambda>_::mdependency option. True"
  define g4 where "g4 = XGraph_removeStateDependencies g3"
  have d3: "graph_ok g3" "acyclic (vertex_rel ?T g3)" "num_vertices g3 = ?n + 2" "take ?n (g_vertex2task g3) = g_vertex2task g"
    "g_endTask g3 = Some (g_vertex2task g3 ! (?n + 1))" "\<forall>e \<in> set (g_edges g3). e_source e \<noteq> ?n + 1"
    "\<forall>(y, us) \<in> set (t_lastWrites (XGraph_getTask (?n + 1) g3)). \<forall>u \<in> set us. u < ?n + 1"
    "\<And>u v x. (u, v) \<in> (flow g)\<^sup>+ \<Longrightarrow> conflicting g u v x \<Longrightarrow> (u, v) \<in> (vertex_rel is_variable g3)\<^sup>+"
    using d unfolding with_data_def Let_def by blast+
  have g4: "g4 = g3\<lparr>g_edges := filter (\<lambda>e. case e_dep e of Some d \<Rightarrow> d_type d \<noteq> D_state | None \<Rightarrow> True) (g_edges g3)\<rparr>"
    by (simp add: g4_def XGraph_removeStateDependencies_def)
  let ?sink = "g_vertex2task g3 ! (?n + 1)"
  obtain ts es where ov: "output_vertices lib 0 (t_lastWrites (task_at g4 ?sink)) g4 = g4\<lparr>g_heap := g_heap g4 @ ts, g_edges := g_edges g4 @ es,
      g_vertex2task := g_vertex2task g4 @ [length (g_heap g4)..<length (g_heap g4) + length ts]\<rparr>"
    and es: "\<forall>e \<in> set es. (\<exists>(y, us) \<in> set (t_lastWrites (task_at g4 ?sink)). e_source e \<in> set us) \<and> num_vertices g4 \<le> e_target e \<and>
      e_target e < num_vertices g4 + length ts"
    using output_vertices_effect by blast
  define h where "h = modify_task ?sink (\<lambda>t. t\<lparr>t_lastWrites := []\<rparr>) (output_vertices lib 0 (t_lastWrites (task_at g4 ?sink)) g4)"
  have hv: "g_vertex2task h = g_vertex2task g3 @ [length (g_heap g3)..<length (g_heap g3) + length ts]"
    and he: "g_edges h = g_edges g4 @ es" and hh: "length (g_heap h) = length (g_heap g3) + length ts"
    unfolding h_def ov by (simp_all add: modify_task_def g4)
  have es': "e_source e < ?n + 1 \<and> ?n + 2 \<le> e_target e \<and> e_target e < num_vertices h" if "e \<in> set es" for e
    using es that d3(3,7) by (fastforce simp: g4 hv XGraph_getTask_def)
  have okh: "graph_ok h" unfolding graph_ok_def
    using d3(1,3) es' by (fastforce simp: hv he hh g4 graph_ok_def)
  have R: "vertex_rel ?T g4 \<subseteq> {..<?n + 2} \<times> {..<?n + 2}" using vertex_rel_bounds [OF d3(1)] d3(3) by (auto simp: g4 vertex_rel_def)
  have ac4: "acyclic (vertex_rel ?T g4)" by (rule acyclic_subset [OF d3(2)]) (auto simp: g4 vertex_rel_def)
  have "(\<lambda>e. (e_source e, e_target e)) ` set es \<subseteq> {..<?n + 2} \<times> {?n + 2..}" using es' by fastforce
  moreover have "{..<?n + 2} \<inter> {?n + 2..} = {}" by auto
  ultimately have "acyclic (vertex_rel ?T g4 \<union> (\<lambda>e. (e_source e, e_target e)) ` set es)"
    using acyclic_add_sinks [OF ac4 R] by blast
  moreover have "vertex_rel ?T h = vertex_rel ?T g4 \<union> (\<lambda>e. (e_source e, e_target e)) ` set es"
    by (auto simp: vertex_rel_def he)
  ultimately have ach: "acyclic (vertex_rel ?T h)" by simp
  have "?sink \<in> set (g_vertex2task h)" using d3(3) by (simp add: hv)
  then have gv: "XGraph_getVertex ?sink h < num_vertices h" "g_vertex2task h ! XGraph_getVertex ?sink h = ?sink"
    using getVertex_task by blast+
  define g5 where "g5 = XGraph_removeVertex (XGraph_getVertex ?sink h) h"
  note rem = removeVertex_effect [OF okh gv(1) g5_def]
  have "XGraph_AddVariableOutput lib g4 = Inr g5"
    using d3(5) by (simp add: XGraph_AddVariableOutput_def g5_def h_def g4 Let_def)
  moreover have "acyclic (vertex_rel ?T g5)"
  proof -
    have "acyclic (task_rel ?T g5)"
      by (rule acyclic_subset [of "task_rel ?T h"]) (use acyclic_tasks [OF okh] ach rem(4) in auto)
    then show ?thesis using acyclic_tasks [OF rem(1)] by simp
  qed
  moreover have old: "g_vertex2task h ! u = g_vertex2task g ! u \<and> g_vertex2task g ! u \<noteq> ?sink" if "u < ?n" for u
  proof -
    have "g_vertex2task g3 ! u = g_vertex2task g ! u" using d3(4) that by (metis nth_take)
    moreover have "g_vertex2task g3 ! u \<noteq> ?sink" using inj_onD [OF task_inj [OF d3(1)], of u "?n + 1"] that d3(3) by auto
    ultimately show ?thesis using that d3(3) by (simp add: hv nth_append)
  qed
  moreover have "set (g_vertex2task g) \<subseteq> set (g_vertex2task g5)"
  proof
    fix p assume "p \<in> set (g_vertex2task g)"
    then obtain u where "u < ?n" "p = g_vertex2task g ! u" by (auto simp: in_set_conv_nth)
    then show "p \<in> set (g_vertex2task g5)"
      using old [of u] rem(3) gv(2) d3(3) nth_mem [of u "g_vertex2task h"] by (auto simp: hv)
  qed
  moreover have "(g_vertex2task g ! u, g_vertex2task g ! v) \<in> (task_rel ?T g5)\<^sup>+"
    if uv: "(u, v) \<in> (flow g)\<^sup>+" "conflicting g u v x" "u < ?n" "v < ?n" for u v x
  proof -
    have "vertex_rel is_variable g3 \<subseteq> vertex_rel ?T h" by (force simp: vertex_rel_def he g4 is_variable_def)
    then have "(u, v) \<in> (vertex_rel ?T h)\<^sup>+" using d3(8) [OF uv(1,2)] by (rule trancl_mono [rotated])
    moreover have "u < num_vertices h" "v < num_vertices h" using uv(3,4) d3(3) by (simp_all add: hv)
    ultimately have path: "(g_vertex2task g ! u, g_vertex2task g ! v) \<in> (task_rel ?T h)\<^sup>+"
      using task_path [OF okh, of u v ?T] old uv(3,4) by simp
    have "?sink \<notin> Domain (task_rel ?T h)"
    proof
      assume "?sink \<in> Domain (task_rel ?T h)"
      then obtain e where e: "e \<in> set (g_edges h)" "g_vertex2task h ! e_source e = ?sink" by (auto simp: task_rel_image)
      have "g_vertex2task h ! (?n + 1) = ?sink" using d3(3) by (simp add: hv nth_append)
      then have "e_source e = ?n + 1"
        using inj_onD [OF task_inj [OF okh], of "e_source e" "?n + 1"] e okh d3(3) by (auto simp: hv graph_ok_def)
      moreover have "e \<in> set (g_edges g3) \<or> e \<in> set es" using e(1) by (auto simp: he g4)
      ultimately show False using d3(6) es' [of e] by auto
    qed
    from trancl_avoid [OF path _ this] show ?thesis using old [OF uv(4)] rem(4) gv(2) by simp
  qed
  ultimately show ?thesis unfolding g4_def [symmetric] using rem(1) by blast
qed

section \<open>Transitive reduction and the whole derivation\<close>

lemma fold_update_fun:
  assumes "distinct (map fst ips)" "j < length tr"
  shows "fold (\<lambda>(i, p) tr. tr[i := Some p]) ips tr ! j = (case map_of ips j of Some p \<Rightarrow> Some p | None \<Rightarrow> tr ! j)"
  using assms
proof (induction ips arbitrary: tr)
  case (Cons ip ips)
  obtain i p where ip: "ip = (i, p)" by (cases ip)
  have "map_of ips i = None" using Cons.prems by (simp add: ip map_of_eq_None_iff)
  then show ?case using Cons.IH [of "tr[i := Some p]"] Cons.prems by (auto simp: ip split: option.splits)
qed simp

lemma length_fold_update: "length (fold (\<lambda>(i, p) tr. tr[i := Some p]) ips tr) = length tr"
  by (induction ips arbitrary: tr) auto

lemma set_nth_image: "set xs = (!) xs ` {..<length xs}"
  by (auto simp: in_set_conv_nth)

lemma those_all_Some: "\<forall>x \<in> set xs. x \<noteq> None \<Longrightarrow> those xs = Some (map the xs)"
  by (induction xs) auto

lemma reduce_effect:
  assumes lib: "keeps_paths lib" and ok: "graph_ok g" and ac: "acyclic (vertex_rel (\<lambda>_. True) g)"
  shows "\<exists>g'. XGraph_removeRedundantDependencies lib g = Inr g' \<and> graph_ok g' \<and> acyclic (vertex_rel (\<lambda>_. True) g') \<and>
    g_heap g' = g_heap g \<and> set (g_vertex2task g') = set (g_vertex2task g) \<and>
    (\<forall>p q. (p, q) \<in> (task_rel (\<lambda>_. True) g')\<^sup>+ \<longleftrightarrow> (p, q) \<in> (task_rel (\<lambda>_. True) g)\<^sup>+)"
proof -
  let ?n = "num_vertices g" and ?v2t = "g_vertex2task g" and ?T = "\<lambda>_::mdependency option. True"
  obtain m es where tr: "transitive_reduction lib ?n (edge_pairs g) = (m, es)" by fastforce
  have "case transitive_reduction lib ?n (edge_pairs g) of (m, es') \<Rightarrow>
      length m = ?n \<and> distinct m \<and> set m = {..<?n} \<and> edges_within ?n es' \<and>
      (\<forall>i < ?n. \<forall>j < ?n. (m ! i, m ! j) \<in> (set es')\<^sup>+ \<longleftrightarrow> (i, j) \<in> (set (edge_pairs g))\<^sup>+)"
    using lib [unfolded keeps_paths_def, rule_format, OF edges_within_ok [OF ok]] ac by (simp add: set_edge_pairs)
  then have m: "length m = ?n" "distinct m" "set m = {..<?n}" "edges_within ?n es"
    and path: "\<And>i j. i < ?n \<Longrightarrow> j < ?n \<Longrightarrow> (m ! i, m ! j) \<in> (set es)\<^sup>+ \<longleftrightarrow> (i, j) \<in> (vertex_rel ?T g)\<^sup>+"
    unfolding tr by (simp_all add: set_edge_pairs)
  let ?tr = "fold (\<lambda>(i, p) tr. tr[i := Some p]) (zip m ?v2t) (replicate ?n None)"
  have d: "distinct (map fst (zip m ?v2t))" using m(1,2) by simp
  have at: "?tr ! (m ! i) = Some (?v2t ! i)" if "i < ?n" for i
  proof -
    have "map_of (zip m ?v2t) (m ! i) = Some (?v2t ! i)" using that m(1,2) by (simp add: map_of_zip_nth)
    moreover have "m ! i < ?n" using m(1,3) that nth_mem [of i m] by auto
    ultimately show ?thesis using fold_update_fun [OF d, of "m ! i" "replicate ?n None"] by simp
  qed
  have onto: "\<exists>i < ?n. m ! i = j" if "j < ?n" for j using that m(1,3) by (metis in_set_conv_nth lessThan_iff)
  have "?tr ! j \<noteq> None" if "j < ?n" for j using onto [OF that] at by auto
  then have "\<forall>x \<in> set ?tr. x \<noteq> None" by (auto simp: in_set_conv_nth length_fold_update)
  then have those: "those ?tr = Some (map the ?tr)" by (rule those_all_Some)
  define g' where "g' = g\<lparr>g_vertex2task := map the ?tr, g_edges := map (\<lambda>(s, t). \<lparr>e_source = s, e_target = t, e_dep = None\<rparr>) es\<rparr>"
  have "list_all (\<lambda>i. i < ?n) m" using m(3) by (auto simp: list_all_iff)
  then have run: "XGraph_removeRedundantDependencies lib g = Inr g'"
    using those by (simp add: XGraph_removeRedundantDependencies_def tr g'_def)
  have n': "num_vertices g' = ?n" by (simp add: g'_def length_fold_update)
  have nth: "g_vertex2task g' ! (m ! i) = ?v2t ! i" if "i < ?n" for i
    using at [OF that] m(1,3) that nth_mem [of i m] by (auto simp: g'_def length_fold_update)
  have set: "set (g_vertex2task g') = set ?v2t"
  proof -
    have "set (g_vertex2task g') = (!) (g_vertex2task g') ` set m" unfolding m(3) n' [symmetric] by (rule set_nth_image)
    also have "\<dots> = (!) (g_vertex2task g') ` (!) m ` {..<?n}" unfolding set_nth_image [of m] m(1) by (rule refl)
    also have "\<dots> = (!) ?v2t ` {..<?n}" using nth by (simp add: image_image)
    also have "\<dots> = set ?v2t" by (rule set_nth_image [symmetric])
    finally show ?thesis .
  qed
  have dist: "distinct (g_vertex2task g')"
  proof (rule card_distinct)
    have "distinct ?v2t" using ok by (simp add: graph_ok_def)
    then show "card (set (g_vertex2task g')) = length (g_vertex2task g')" unfolding set n' by (rule distinct_card)
  qed
  have rel: "vertex_rel ?T g' = set es" by (auto simp: vertex_rel_def g'_def split: prod.splits) force
  have ok': "graph_ok g'" unfolding graph_ok_def
  proof (intro conjI ballI dist)
    show "p < length (g_heap g')" if "p \<in> set (g_vertex2task g')" for p
      using that set ok by (simp add: g'_def graph_ok_def)
    show "e_source e < num_vertices g'" "e_target e < num_vertices g'" if "e \<in> set (g_edges g')" for e
      using that m(4) unfolding n' by (auto simp: g'_def edges_within_def)
  qed
  have paths: "(p, q) \<in> (task_rel ?T g')\<^sup>+ \<longleftrightarrow> (p, q) \<in> (task_rel ?T g)\<^sup>+" for p q
  proof (cases "p \<in> set ?v2t \<and> q \<in> set ?v2t")
    case True
    then obtain i j where ij: "i < ?n" "j < ?n" "p = ?v2t ! i" "q = ?v2t ! j" by (auto simp: in_set_conv_nth)
    then have mij: "m ! i < ?n" "m ! j < ?n" using m(1,3) nth_mem [of _ m] by auto
    have "(p, q) \<in> (task_rel ?T g')\<^sup>+ \<longleftrightarrow> (m ! i, m ! j) \<in> (vertex_rel ?T g')\<^sup>+"
      using task_path [OF ok', of "m ! i" "m ! j" ?T] mij n' nth ij by simp
    also have "\<dots> \<longleftrightarrow> (i, j) \<in> (vertex_rel ?T g)\<^sup>+" unfolding rel using path ij(1,2) by simp
    also have "\<dots> \<longleftrightarrow> (p, q) \<in> (task_rel ?T g)\<^sup>+" using task_path [OF ok ij(1,2)] ij(3,4) by simp
    finally show ?thesis .
  next
    case False
    then show ?thesis using trancl_subset_Sigma [OF task_rel_tasks [OF ok']] trancl_subset_Sigma [OF task_rel_tasks [OF ok]] set by blast
  qed
  have "acyclic (task_rel ?T g')" using paths acyclic_tasks [OF ok] ac by (simp add: acyclic_def)
  then have "acyclic (vertex_rel ?T g')" using acyclic_tasks [OF ok'] by simp
  then show ?thesis using run ok' set paths by (intro exI [of _ g']) (simp add: g'_def)
qed

text \<open>Two tasks of the graph conflict on a variable.\<close>

definition conflict_on :: "xgraph \<Rightarrow> nat \<Rightarrow> nat \<Rightarrow> string \<Rightarrow> bool" where
  "conflict_on g p q x \<longleftrightarrow>
     (let acc = (\<lambda>t. set (t_readVariables t) \<union> set (t_writeVariables t)) in
      x \<in> acc (task_at g p) \<and> x \<in> acc (task_at g q) \<and>
      (x \<in> set (t_writeVariables (task_at g p)) \<or> x \<in> set (t_writeVariables (task_at g q))))"

abbreviation function_task :: "xgraph \<Rightarrow> nat \<Rightarrow> bool" where
  "function_task g p \<equiv> p \<in> set (g_vertex2task g) \<and> type_at g p = T_xfunction"

lemma conflicting_functions_ordered:
  assumes lib: "sorts_topologically lib" "keeps_paths lib" and sg: "state_graph g"
  shows "\<exists>g'. XGraph_generateDependencyGraph lib vars g = Inr g' \<and> graph_ok g' \<and> acyclic (set (edge_pairs g')) \<and>
    (\<forall>p. function_task g p \<longrightarrow> p \<in> set (g_vertex2task g')) \<and>
    (\<forall>p q x. function_task g p \<longrightarrow> function_task g q \<longrightarrow> (p, q) \<in> (task_rel is_state g)\<^sup>+ \<longrightarrow> conflict_on g p q x \<longrightarrow>
       (p, q) \<in> (task_rel (\<lambda>_. True) g')\<^sup>+)"
proof -
  let ?T = "\<lambda>_::mdependency option. True"
  obtain g2 where g2: "XGraph_contractStateVertices (XGraph_transformConditionalStatesToConditions lib vars g) = Inr g2" "deps_ready g2"
    "\<And>p. function_task g p \<Longrightarrow> p \<in> set (g_vertex2task g2) \<and> task_at g2 p = task_at g p"
    "\<And>p q. function_task g p \<Longrightarrow> function_task g q \<Longrightarrow> (p, q) \<in> (task_rel is_state g)\<^sup>+ \<Longrightarrow> (p, q) \<in> (task_rel is_state g2)\<^sup>+"
    "\<And>p q. (p, q) \<in> task_rel is_state g2 \<Longrightarrow> accesses_data (type_at g2 p) \<and> accesses_data (type_at g2 q)"
    using contracted_ready [OF sg, of lib vars] by metis
  have ok2: "graph_ok g2" using g2(2) by (simp add: deps_ready_def)
  obtain g3 where g3: "XGraph_addDataDependencies lib vars g2 = Inr g3" "with_data g2 g3"
    using data_dependencies [OF lib(1) g2(2)] by blast
  obtain g5 where g5: "XGraph_AddVariableOutput lib (XGraph_removeStateDependencies g3) = Inr g5" "graph_ok g5"
    "acyclic (vertex_rel ?T g5)" "set (g_vertex2task g2) \<subseteq> set (g_vertex2task g5)"
    "\<And>u v x. (u, v) \<in> (flow g2)\<^sup>+ \<Longrightarrow> conflicting g2 u v x \<Longrightarrow> v < num_vertices g2 \<Longrightarrow> u < num_vertices g2 \<Longrightarrow>
       (g_vertex2task g2 ! u, g_vertex2task g2 ! v) \<in> (task_rel ?T g5)\<^sup>+"
    using add_output_effect [OF g3(2)] by metis
  obtain g6 where g6: "XGraph_removeRedundantDependencies lib g5 = Inr g6" "graph_ok g6" "acyclic (vertex_rel ?T g6)"
    "set (g_vertex2task g6) = set (g_vertex2task g5)"
    "\<And>p q. (p, q) \<in> (task_rel ?T g6)\<^sup>+ \<longleftrightarrow> (p, q) \<in> (task_rel ?T g5)\<^sup>+"
    using reduce_effect [OF lib(2) g5(2,3)] by metis
  have "XGraph_generateDependencyGraph lib vars g = Inr g6"
    using g2(1) g3(1) g5(1) g6(1) by (simp add: XGraph_generateDependencyGraph_def bindR_def)
  moreover have "(p, q) \<in> (task_rel ?T g6)\<^sup>+"
    if pq: "function_task g p" "function_task g q" "(p, q) \<in> (task_rel is_state g)\<^sup>+" "conflict_on g p q x" for p q x
  proof -
    obtain u v where uv: "u < num_vertices g2" "v < num_vertices g2" "p = g_vertex2task g2 ! u" "q = g_vertex2task g2 ! v"
      using g2(3) pq(1,2) by (metis in_set_conv_nth)
    have "(u, v) \<in> (vertex_rel is_state g2)\<^sup>+" using task_path [OF ok2 uv(1,2)] g2(4) [OF pq(1-3)] uv(3,4) by simp
    moreover have "vertex_rel is_state g2 \<subseteq> flow g2"
    proof (clarify)
      fix s t assume st: "(s, t) \<in> vertex_rel is_state g2"
      then have "(g_vertex2task g2 ! s, g_vertex2task g2 ! t) \<in> task_rel is_state g2" by (auto simp: task_rel_def)
      then show "(s, t) \<in> flow g2" using g2(5) st vertex_rel_mono [of is_state ?T g2]
        by (auto simp: flow_def set_edge_pairs XGraph_getTask_def)
    qed
    ultimately have "(u, v) \<in> (flow g2)\<^sup>+" by (rule trancl_mono)
    moreover have "conflicting g2 u v x"
      using pq(4) g2(3) [OF pq(1)] g2(3) [OF pq(2)] uv(3,4)
      by (simp add: conflicting_def conflict_on_def reads_def writes_def XGraph_getTask_def Let_def)
    ultimately show ?thesis using g5(5) [of u v x] g6(5) uv by simp
  qed
  ultimately show ?thesis using g6(2-4) g5(4) g2(3) by (intro exI [of _ g6]) (auto simp: set_edge_pairs)
qed

text \<open>
  C6. Deriving the task graph of an agent succeeds for every acyclic state graph, gives an
  acyclic graph with all its functions, and keeps the order that matters: if one function
  comes before another in the states and they conflict on a variable (both access it and at
  least one writes it), then the derived graph has a path of dependencies from the first to
  the second, although states are contracted, state dependencies dropped and redundant
  dependencies removed on the way.
\<close>

theorem conflicting_functions_stay_ordered:
  assumes lib: "sorts_topologically lib" "keeps_paths lib" and sg: "state_graph g"
  shows "\<exists>g'. XGraph_generateDependencyGraph lib vars g = Inr g' \<and> graph_ok g' \<and> acyclic (set (edge_pairs g')) \<and>
    (\<forall>p. function_task g p \<longrightarrow> p \<in> set (g_vertex2task g')) \<and>
    (\<forall>p q x. function_task g p \<longrightarrow> function_task g q \<longrightarrow> (p, q) \<in> (task_rel is_state g)\<^sup>+ \<longrightarrow> conflict_on g p q x \<longrightarrow>
       (p, q) \<in> (task_rel (\<lambda>_. True) g')\<^sup>+)"
  by (rule conflicting_functions_ordered [OF assms])


text \<open>Two functions in sequence that both write \<open>x\<close>.\<close>

definition sample_functions :: "xfunction list" where
  "sample_functions = map (\<lambda>(n, s, t). (XFunction_new n)\<lparr>xf_currentState := s, xf_nextState := t, xf_readWriteVariables := [''x'']\<rparr>)
     [(''f'', ''0'', ''1''), (''g'', ''1'', ''2'')]"

definition sample_graph :: xgraph where
  "sample_graph = XGraph_generateStateGraph sample_functions ''0'' [''2''] XGraph_new"

lemma sample_graph_value:
  "sample_graph =
     \<lparr>g_heap = [mTask_addReadWriteVariable ''x'' (mTask_new [] ''f'' T_xfunction), mTask_new [] ''0'' T_xstate,
                mTask_new [] ''1'' T_xstate, mTask_addReadWriteVariable ''x'' (mTask_new [] ''g'' T_xfunction),
                mTask_new [] ''2'' T_xstate],
      g_vertex2task = [0, 1, 2, 3, 4],
      g_edges = map (\<lambda>(s, t, n). \<lparr>e_source = s, e_target = t, e_dep = Some \<lparr>d_name = n, d_type = D_state\<rparr>\<rparr>)
        [(1, 0, ''0''), (0, 2, ''1''), (2, 3, ''1''), (3, 4, ''2'')],
      g_startTask = Some 1, g_endTasks = [3], g_endTask = None, g_agentName = []\<rparr>"
  by code_simp

lemma vertex_rel_code: "vertex_rel P g = set (map (\<lambda>e. (e_source e, e_target e)) (filter (\<lambda>e. P (e_dep e)) (g_edges g)))"
  by (auto simp: vertex_rel_def)

lemma sample_state_rel: "is_state (Some \<lparr>d_name = n, d_type = D_state\<rparr>)"
  by (simp add: is_state_def)

lemma sample_graph_paths:
  "vertex_rel is_state sample_graph = {(1, 0), (0, 2), (2, 3), (3, 4)}"
  "task_rel is_state sample_graph = {(1, 0), (0, 2), (2, 3), (3, 4)}"
  "vertex_rel (\<lambda>d. \<not> is_state d) sample_graph = {}"
  "task_rel (\<lambda>d. \<not> is_state d) sample_graph = {}"
proof -
  show 1: "vertex_rel is_state sample_graph = {(1, 0), (0, 2), (2, 3), (3, 4)}" "vertex_rel (\<lambda>d. \<not> is_state d) sample_graph = {}"
    by (simp_all add: vertex_rel_code sample_graph_value sample_state_rel)
  show "task_rel is_state sample_graph = {(1, 0), (0, 2), (2, 3), (3, 4)}" "task_rel (\<lambda>d. \<not> is_state d) sample_graph = {}"
    unfolding task_rel_def 1 by (simp_all add: sample_graph_value)
qed

lemma sample_graph_acyclic: "acyclic (vertex_rel (\<lambda>_. True) sample_graph)"
proof -
  have "vertex_rel (\<lambda>_. True) sample_graph \<subseteq> measure ((!) [1, 0, 2, 3, 4])"
    by (simp add: vertex_rel_code sample_graph_value)
  then show ?thesis using acyclic_subset wf_acyclic wf_measure by blast
qed

lemma sample_state_graph: "state_graph sample_graph"
proof -
  have "graph_ok sample_graph" by (simp add: graph_ok_def sample_graph_value)
  then show ?thesis unfolding state_graph_def sample_graph_paths
    using sample_graph_acyclic
    by (simp add: sample_graph_value mTask_new_def mTask_addReadWriteVariable_def oset_insert_def)
qed

theorem conflicting_functions_stay_ordered_witness:
  "(\<exists>g'. XGraph_generateDependencyGraph simple_library [] sample_graph = Inr g' \<and> acyclic (set (edge_pairs g')) \<and>
     (0, 3) \<in> (task_rel (\<lambda>_. True) g')\<^sup>+)"
proof -
  have "function_task sample_graph 0" "function_task sample_graph 3" "conflict_on sample_graph 0 3 ''x''"
    by (simp_all add: conflict_on_def sample_graph_value mTask_new_def mTask_addReadWriteVariable_def oset_insert_def)
  moreover have "(0, 3) \<in> (task_rel is_state sample_graph)\<^sup>+"
    unfolding sample_graph_paths by (rule trancl_into_trancl [of _ 2]) auto
  ultimately show ?thesis
    using conflicting_functions_stay_ordered [OF simple_library_sorts simple_library_keeps_paths sample_state_graph, of "[]"]
    by blast
qed

end
