(* ===== verification/State_Generation.thy ===== *)
theory State_Generation
  imports Dependency_Graph
begin

text \<open>
  \<open>XGraph::generateStateGraph\<close> of \<open>src/flame2/model/xgraph.cpp\<close> yields a state graph: there is one
  task per function and per state, and the start task has a way out. With the derivation of
  the dependency graph this gives a statement on the transition functions themselves:
  functions that follow each other and conflict are ordered in the task graph.
\<close>

section \<open>Generation of the state graph\<close>

text \<open>
  While a state graph is generated, every task that is allocated becomes the next vertex, so
  vertices and tasks have the same numbers. There is one task for each state and message;
  edges lead from a state to a function and on to a state, or between functions and messages.
\<close>

definition plain_task :: "mtask \<Rightarrow> bool" where
  "plain_task t \<longleftrightarrow> t_taskType t \<in> {T_xfunction, T_xstate, T_xmessage} \<and> t_lastWrites t = [] \<and> t_lastReads t = [] \<and>
     set (t_writeVariables t) \<subseteq> set (t_readVariables t)"

definition edge_fits :: "xgraph \<Rightarrow> edge \<Rightarrow> bool" where
  "edge_fits g e \<longleftrightarrow> e_source e < length (g_heap g) \<and> e_target e < length (g_heap g) \<and>
     (\<exists>n d. e_dep e = Some \<lparr>d_name = n, d_type = d\<rparr> \<and>
       (d = D_state \<and> (type_at g (e_source e), type_at g (e_target e)) \<in> {(T_xfunction, T_xstate), (T_xstate, T_xfunction)} \<or>
        d = D_communication \<and> (type_at g (e_source e), type_at g (e_target e)) \<in> {(T_xfunction, T_xmessage), (T_xmessage, T_xfunction)}))"

definition state_task :: "xgraph \<Rightarrow> string \<Rightarrow> nat \<Rightarrow> bool" where
  "state_task g name p \<longleftrightarrow> p < length (g_heap g) \<and> type_at g p = T_xstate \<and> t_name (task_at g p) = name"

definition gen_ok :: "string \<Rightarrow> xgraph \<Rightarrow> bool" where
  "gen_ok start g \<longleftrightarrow> g_vertex2task g = [0..<length (g_heap g)] \<and>
     (\<forall>p < length (g_heap g). plain_task (task_at g p)) \<and> (\<forall>e \<in> set (g_edges g). edge_fits g e) \<and>
     (\<forall>n p q. state_task g n p \<longrightarrow> state_task g n q \<longrightarrow> p = q) \<and>
     (\<forall>p. g_startTask g = Some p \<longleftrightarrow> state_task g start p) \<and>
     (\<forall>p \<in> set (g_endTasks g). p < length (g_heap g) \<and> type_at g p = T_xfunction)"

text \<open>What the steps for one function keep; its task may change except for its variables.\<close>

definition kept :: "nat \<Rightarrow> xgraph \<Rightarrow> xgraph \<Rightarrow> bool" where
  "kept task g g' \<longleftrightarrow> length (g_heap g) \<le> length (g_heap g') \<and> set (g_edges g) \<subseteq> set (g_edges g') \<and>
     (\<forall>p < length (g_heap g). type_at g' p = type_at g p \<and> t_name (task_at g' p) = t_name (task_at g p) \<and>
        (p \<noteq> task \<longrightarrow> type_at g p = T_xfunction \<longrightarrow> task_at g' p = task_at g p) \<and>
        (p = task \<longrightarrow> t_readVariables (task_at g' p) = t_readVariables (task_at g p) \<and>
          t_writeVariables (task_at g' p) = t_writeVariables (task_at g p)))"

lemma kept_refl [simp]: "kept task g g"
  by (simp add: kept_def)

lemma keptD:
  assumes "kept task g g'" "p < length (g_heap g)"
  shows "p < length (g_heap g') \<and> type_at g' p = type_at g p \<and> t_name (task_at g' p) = t_name (task_at g p) \<and>
    (p \<noteq> task \<longrightarrow> type_at g p = T_xfunction \<longrightarrow> task_at g' p = task_at g p) \<and>
    (p = task \<longrightarrow> t_readVariables (task_at g' p) = t_readVariables (task_at g p) \<and>
      t_writeVariables (task_at g' p) = t_writeVariables (task_at g p))"
  using assms unfolding kept_def by simp

lemma kept_trans:
  assumes "kept task g g'" "kept task g' g''"
  shows "kept task g g''"
  unfolding kept_def
proof (intro conjI allI impI)
  show "length (g_heap g) \<le> length (g_heap g'')" "set (g_edges g) \<subseteq> set (g_edges g'')"
    using assms unfolding kept_def by auto
  fix p assume "p < length (g_heap g)"
  note 1 = keptD [OF assms(1) this]
  note 2 = keptD [OF assms(2) conjunct1 [OF 1]]
  show "type_at g'' p = type_at g p" "t_name (task_at g'' p) = t_name (task_at g p)" using 1 2 by simp_all
  show "task_at g'' p = task_at g p" if "p \<noteq> task" "type_at g p = T_xfunction" using 1 2 that by simp
  show "t_readVariables (task_at g'' p) = t_readVariables (task_at g p)" "t_writeVariables (task_at g'' p) = t_writeVariables (task_at g p)"
    if "p = task" using 1 2 that by simp_all
qed

lemma kept_length: "kept task g g' \<Longrightarrow> p < length (g_heap g) \<Longrightarrow> p < length (g_heap g')"
  by (simp add: kept_def)

lemma kept_state: "kept task g g' \<Longrightarrow> state_task g n p \<Longrightarrow> state_task g' n p"
  by (auto simp: kept_def state_task_def)

lemma kept_edges: "kept task g g' \<Longrightarrow> set (g_edges g) \<subseteq> set (g_edges g')"
  by (simp add: kept_def)

lemma kept_type: "kept task g g' \<Longrightarrow> p < length (g_heap g) \<Longrightarrow> type_at g' p = type_at g p"
  by (simp add: kept_def)

lemma gen_getVertex: "gen_ok start g \<Longrightarrow> p < length (g_heap g) \<Longrightarrow> XGraph_getVertex p g = p"
  using getVertex_task [of p g] by (simp add: gen_ok_def)

lemma add_task_eq: "add_task t g = (length (g_heap g), g\<lparr>g_heap := g_heap g @ [t], g_vertex2task := g_vertex2task g @ [length (g_heap g)]\<rparr>)"
  by (simp add: add_task_def alloc_task_def XGraph_addVertex_def)

lemma edge_fits_append: "edge_fits g e \<Longrightarrow> edge_fits (g\<lparr>g_heap := g_heap g @ [t], g_vertex2task := vs\<rparr>) e"
  by (auto simp: edge_fits_def nth_append)

lemma state_task_append:
  "state_task (g\<lparr>g_heap := g_heap g @ [t], g_vertex2task := vs\<rparr>) n p \<longleftrightarrow>
     state_task g n p \<or> p = length (g_heap g) \<and> t_taskType t = T_xstate \<and> t_name t = n"
  by (auto simp: state_task_def nth_append)

lemma gen_add_task:
  assumes "gen_ok start g" "plain_task t" "t_taskType t \<noteq> T_xstate"
  shows "gen_ok start (snd (add_task t g))" "kept task g (snd (add_task t g))"
  using assms edge_fits_append
  by (auto simp: gen_ok_def add_task_eq state_task_append nth_append less_Suc_eq kept_def)

lemma plain_new: "type \<in> {T_xfunction, T_xstate, T_xmessage} \<Longrightarrow> plain_task (mTask_new parent name type)"
  by (simp add: plain_task_def mTask_new_def)

lemma find_task_Some:
  assumes "gen_ok start g" "find_task type name g = Some p"
  shows "p < length (g_heap g)" "type_at g p = type" "t_name (task_at g p) = name"
  using assms by (auto simp: find_task_def gen_ok_def find_Some_iff)

lemma find_task_None:
  assumes "gen_ok start g" "find_task T_xstate name g = None"
  shows "\<not> state_task g name p"
  using assms by (auto simp: find_task_def gen_ok_def find_None_iff state_task_def)

lemma gen_AddState:
  assumes g: "gen_ok start g" and run: "XGraph_AddStateToGraph name start g = (p, g')"
  shows "gen_ok start g' \<and> kept task g g' \<and> state_task g' name p"
proof (cases "find_task T_xstate name g")
  case (Some q)
  then show ?thesis using run find_task_Some [OF g Some] g by (auto simp: XGraph_AddStateToGraph_def state_task_def)
next
  case None
  note no = find_task_None [OF g None]
  define t where "t = mTask_new (g_agentName g) name T_xstate"
  have t: "plain_task t" "t_taskType t = T_xstate" "t_name t = name" unfolding t_def
    by (rule plain_new, simp) (simp_all add: mTask_new_def)
  define h where "h = g\<lparr>g_heap := g_heap g @ [t], g_vertex2task := g_vertex2task g @ [length (g_heap g)]\<rparr>"
  have st: "state_task h n q \<longleftrightarrow> state_task g n q \<or> q = length (g_heap g) \<and> n = name" for n q
    by (auto simp: h_def state_task_append t)
  have g': "p = length (g_heap g)" "g' = (if name = start then h\<lparr>g_startTask := Some p\<rparr> else h)"
    using run None by (auto simp: XGraph_AddStateToGraph_def add_task_eq t_def h_def)
  have st': "state_task g' n q \<longleftrightarrow> state_task h n q" for n q by (simp add: g' state_task_def)
  have fits: "edge_fits g' e" if "edge_fits g e" for e
    using that by (auto simp: g' h_def edge_fits_def nth_append)
  have "gen_ok start g'" unfolding gen_ok_def st' st
    using g no t fits unfolding g' by (auto simp: gen_ok_def h_def nth_append less_Suc_eq)
  moreover have "kept task g g'" unfolding g' by (auto simp: h_def kept_def nth_append)
  ultimately show ?thesis using st st' g'(1) by auto
qed

lemma gen_addEdge:
  assumes "gen_ok start g" "edge_fits g \<lparr>e_source = s, e_target = t, e_dep = Some \<lparr>d_name = n, d_type = d\<rparr>\<rparr>"
  shows "gen_ok start (XGraph_addEdge (XGraph_getVertex s g) (XGraph_getVertex t g) n d g)"
    "kept task g (XGraph_addEdge (XGraph_getVertex s g) (XGraph_getVertex t g) n d g)"
    "\<lparr>e_source = s, e_target = t, e_dep = Some \<lparr>d_name = n, d_type = d\<rparr>\<rparr> \<in>
       set (g_edges (XGraph_addEdge (XGraph_getVertex s g) (XGraph_getVertex t g) n d g))"
proof -
  have "s < length (g_heap g)" "t < length (g_heap g)" using assms(2) by (auto simp: edge_fits_def)
  then have v: "XGraph_getVertex s g = s" "XGraph_getVertex t g = t" using gen_getVertex [OF assms(1)] by auto
  show "gen_ok start (XGraph_addEdge (XGraph_getVertex s g) (XGraph_getVertex t g) n d g)"
    using assms unfolding v by (auto simp: gen_ok_def XGraph_addEdge_def edge_fits_def state_task_def)
  show "kept task g (XGraph_addEdge (XGraph_getVertex s g) (XGraph_getVertex t g) n d g)"
    by (auto simp: kept_def XGraph_addEdge_def)
qed (use assms gen_getVertex in \<open>auto simp: XGraph_addEdge_def edge_fits_def\<close>)

lemma gen_modify:
  assumes "gen_ok start g" "p < length (g_heap g)" "t_taskType (f (task_at g p)) = type_at g p"
    "t_name (f (task_at g p)) = t_name (task_at g p)" "plain_task (f (task_at g p))"
  shows "gen_ok start (modify_task p f g)"
proof -
  have ty: "type_at (modify_task p f g) q = type_at g q" "t_name (task_at (modify_task p f g) q) = t_name (task_at g q)" for q
    using assms by (cases "q = p"; simp add: modify_task_def)+
  have st: "state_task (modify_task p f g) n q \<longleftrightarrow> state_task g n q" for n q
    unfolding state_task_def ty by (simp add: modify_task_def)
  have "edge_fits (modify_task p f g) e \<longleftrightarrow> edge_fits g e" for e
    unfolding edge_fits_def ty by (simp add: modify_task_def)
  moreover have "plain_task (task_at (modify_task p f g) q)" if "q < length (g_heap g)" for q
    using assms that by (cases "q = p") (auto simp: modify_task_def gen_ok_def)
  ultimately show ?thesis using assms(1) unfolding gen_ok_def st ty by (simp add: modify_task_def)
qed

lemma kept_modify:
  assumes "p < length (g_heap g)" "t_taskType (f (task_at g p)) = type_at g p"
    "t_name (f (task_at g p)) = t_name (task_at g p)"
    "type_at g p \<noteq> T_xfunction \<and> p \<noteq> task \<or> p = task \<and> t_readVariables (f (task_at g p)) = t_readVariables (task_at g p) \<and>
      t_writeVariables (f (task_at g p)) = t_writeVariables (task_at g p)"
  shows "kept task g (modify_task p f g)"
  using assms by (auto simp: kept_def modify_task_def nth_list_update)

lemma gen_AddMessage:
  assumes g: "gen_ok start g" and run: "XGraph_AddMessageToGraph name g = (p, g')"
  shows "gen_ok start g' \<and> kept task g g' \<and> p < length (g_heap g') \<and> type_at g' p = T_xmessage"
proof (cases "find_task T_xmessage name g")
  case (Some q)
  then show ?thesis using run find_task_Some [OF g Some] g by (auto simp: XGraph_AddMessageToGraph_def)
next
  case None
  have t: "plain_task (mTask_new name name T_xmessage)" "t_taskType (mTask_new name name T_xmessage) = T_xmessage"
    by (rule plain_new, simp) (simp add: mTask_new_def)
  then show ?thesis using gen_add_task [OF g t(1)] run None
    by (auto simp: XGraph_AddMessageToGraph_def add_task_eq nth_append)
qed

definition message_step :: "nat \<Rightarrow> xgraph \<Rightarrow> xgraph \<Rightarrow> bool" where
  "message_step task g g' \<longleftrightarrow> (\<forall>start. gen_ok start g \<longrightarrow> task < length (g_heap g) \<longrightarrow> type_at g task = T_xfunction \<longrightarrow>
     gen_ok start g' \<and> kept task g g')"

lemma message_stepD:
  "message_step task g g' \<Longrightarrow> gen_ok start g \<Longrightarrow> task < length (g_heap g) \<Longrightarrow> type_at g task = T_xfunction \<Longrightarrow>
     gen_ok start g' \<and> kept task g g'"
  by (simp add: message_step_def)

lemma message_step_trans:
  assumes "message_step task g g'" "message_step task g' g''"
  shows "message_step task g g''"
  unfolding message_step_def
proof (intro allI impI)
  fix start assume g: "gen_ok start g" "task < length (g_heap g)" "type_at g task = T_xfunction"
  note 1 = message_stepD [OF assms(1) g]
  have "gen_ok start g'' \<and> kept task g' g''"
    using message_stepD [OF assms(2)] 1 kept_length [OF _ g(2)] kept_type [OF _ g(2)] g(3) by auto
  then show "gen_ok start g'' \<and> kept task g g''" using 1 kept_trans by auto
qed

lemma message_step_fold: "(\<And>x g. message_step task g (f x g)) \<Longrightarrow> message_step task g (fold f xs g)"
proof (induction xs arbitrary: g)
  case (Cons x xs)
  then show ?case using message_step_trans [of task g "f x g"] by simp
qed (simp add: message_step_def)

lemma message_modify:
  assumes "gen_ok start g" "task < length (g_heap g)" "type_at g task = T_xfunction"
    and "f = mTask_addOutputMessage n \<or> f = mTask_addInputMessage n"
  shows "gen_ok start (modify_task task f g) \<and> kept task g (modify_task task f g)"
proof -
  have "plain_task (task_at g task)" using assms(1,2) by (simp add: gen_ok_def)
  then have f: "t_taskType (f (task_at g task)) = type_at g task" "t_name (f (task_at g task)) = t_name (task_at g task)"
    "t_readVariables (f (task_at g task)) = t_readVariables (task_at g task)"
    "t_writeVariables (f (task_at g task)) = t_writeVariables (task_at g task)" "plain_task (f (task_at g task))"
    using assms(4) by (auto simp: mTask_addOutputMessage_def mTask_addInputMessage_def plain_task_def)
  show ?thesis
    using gen_modify [where f = f, OF assms(1,2) f(1,2,5)] kept_modify [where f = f and task = task, OF assms(2) f(1,2)] f(3,4)
    by simp
qed

lemma message_steps: "message_step task g (add_output task i g)" "message_step task g (add_input task i g)"
proof -
  have step: "message_step task g (case XGraph_AddMessageToGraph n (modify_task task f g) of (p, g') \<Rightarrow>
      XGraph_addEdge (XGraph_getVertex (if out then task else p) g') (XGraph_getVertex (if out then p else task) g') n D_communication g')"
    if f: "f = mTask_addOutputMessage n \<or> f = mTask_addInputMessage n" for f n out
    unfolding message_step_def
  proof (intro allI impI)
    fix start assume g: "gen_ok start g" "task < length (g_heap g)" "type_at g task = T_xfunction"
    note 1 = message_modify [OF g f]
    obtain p g' where run: "XGraph_AddMessageToGraph n (modify_task task f g) = (p, g')" by fastforce
    note 2 = gen_AddMessage [OF conjunct1 [OF 1] run]
    have k: "kept task g g'" using 1 2 kept_trans by blast
    have t: "task < length (g_heap g')" "type_at g' task = T_xfunction"
      using kept_length [OF k g(2)] kept_type [OF k g(2)] g(3) by simp_all
    have "edge_fits g' \<lparr>e_source = if out then task else p, e_target = if out then p else task,
        e_dep = Some \<lparr>d_name = n, d_type = D_communication\<rparr>\<rparr>"
      using t 2 by (simp add: edge_fits_def)
    from gen_addEdge(1,2) [OF _ this] show "gen_ok start (case XGraph_AddMessageToGraph n (modify_task task f g) of (p, g') \<Rightarrow>
        XGraph_addEdge (XGraph_getVertex (if out then task else p) g') (XGraph_getVertex (if out then p else task) g') n D_communication g') \<and>
      kept task g (case XGraph_AddMessageToGraph n (modify_task task f g) of (p, g') \<Rightarrow>
        XGraph_addEdge (XGraph_getVertex (if out then task else p) g') (XGraph_getVertex (if out then p else task) g') n D_communication g')"
      using 2 k kept_trans unfolding run by fastforce
  qed
  show "message_step task g (add_output task i g)" "message_step task g (add_input task i g)"
    using step [of "mTask_addOutputMessage (xi_messageName i)" "xi_messageName i" True]
      step [of "mTask_addInputMessage (xi_messageName i)" "xi_messageName i" False]
    by (simp_all add: add_output_def add_input_def)
qed

lemma gen_Messages: "message_step task g (XGraph_generateStateGraphMessages f task g)"
  unfolding XGraph_generateStateGraphMessages_def
  by (rule message_step_trans) (rule message_step_fold, rule message_steps)+

lemma read_only_all:
  "t_taskType (fold mTask_addReadOnlyVariable xs t) = t_taskType t \<and> t_name (fold mTask_addReadOnlyVariable xs t) = t_name t \<and>
   t_lastWrites (fold mTask_addReadOnlyVariable xs t) = t_lastWrites t \<and> t_lastReads (fold mTask_addReadOnlyVariable xs t) = t_lastReads t \<and>
   t_writeVariables (fold mTask_addReadOnlyVariable xs t) = t_writeVariables t \<and>
   set (t_readVariables (fold mTask_addReadOnlyVariable xs t)) = set (t_readVariables t) \<union> set xs"
  by (induction xs arbitrary: t) (auto simp: mTask_addReadOnlyVariable_def)

lemma read_write_names:
  "t_taskType (fold mTask_addReadWriteVariable xs t) = t_taskType t \<and> t_name (fold mTask_addReadWriteVariable xs t) = t_name t \<and>
   t_lastWrites (fold mTask_addReadWriteVariable xs t) = t_lastWrites t \<and> t_lastReads (fold mTask_addReadWriteVariable xs t) = t_lastReads t \<and>
   set (t_writeVariables (fold mTask_addReadWriteVariable xs t)) = set (t_writeVariables t) \<union> set xs \<and>
   set (t_readVariables (fold mTask_addReadWriteVariable xs t)) = set (t_readVariables t) \<union> set xs"
  by (induction xs arbitrary: t) (auto simp: mTask_addReadWriteVariable_def)

text \<open>The task of a function with the states before and after it.\<close>

definition joins :: "xgraph \<Rightarrow> xfunction \<Rightarrow> nat \<Rightarrow> bool" where
  "joins g f p \<longleftrightarrow> (\<exists>s t. state_task g (xf_currentState f) s \<and> state_task g (xf_nextState f) t \<and>
     (s, p) \<in> vertex_rel is_state g \<and> (p, t) \<in> vertex_rel is_state g)"

definition function_at :: "xgraph \<Rightarrow> xfunction \<Rightarrow> nat \<Rightarrow> bool" where
  "function_at g f p \<longleftrightarrow> p < length (g_heap g) \<and> type_at g p = T_xfunction \<and> t_name (task_at g p) = xf_name f \<and>
     set (t_readVariables (task_at g p)) = set (xf_readOnlyVariables f) \<union> set (xf_readWriteVariables f) \<and>
     set (t_writeVariables (task_at g p)) = set (xf_readWriteVariables f) \<and> joins g f p"

lemma kept_rel: "kept task g g' \<Longrightarrow> vertex_rel P g \<subseteq> vertex_rel P g'"
  using kept_edges by (fastforce simp: in_vertex_rel)

lemma kept_joins: "kept task g g' \<Longrightarrow> joins g f p \<Longrightarrow> joins g' f p"
  unfolding joins_def using kept_state kept_rel by blast

lemma state_edge_in:
  "\<lparr>e_source = s, e_target = t, e_dep = Some \<lparr>d_name = n, d_type = D_state\<rparr>\<rparr> \<in> set (g_edges g) \<Longrightarrow> (s, t) \<in> vertex_rel is_state g"
  unfolding vertex_rel_def is_state_def by force

lemma gen_States:
  assumes g: "gen_ok start g" "task < length (g_heap g)" "type_at g task = T_xfunction"
    and g'_def: "g' = XGraph_generateStateGraphStates f task start g"
  shows "gen_ok start g' \<and> kept task g g' \<and> joins g' f task"
proof -
  obtain cur g1 where 1: "XGraph_AddStateToGraph (xf_currentState f) start g = (cur, g1)" by fastforce
  note s1 = gen_AddState [OF g(1) 1, of task]
  obtain nxt g2 where 2: "XGraph_AddStateToGraph (xf_nextState f) start g1 = (nxt, g2)" by fastforce
  note s2 = gen_AddState [OF conjunct1 [OF s1] 2, of task]
  have k2: "kept task g g2" using s1 s2 kept_trans by blast
  have cur2: "state_task g2 (xf_currentState f) cur" using s1 s2 kept_state by blast
  have t2: "task < length (g_heap g2)" "type_at g2 task = T_xfunction"
    using kept_length [OF k2 g(2)] kept_type [OF k2 g(2)] g(3) by simp_all
  define g3 where "g3 = XGraph_addEdge (XGraph_getVertex cur g2) (XGraph_getVertex task g2) (xf_currentState f) D_state g2"
  have e3: "edge_fits g2 \<lparr>e_source = cur, e_target = task, e_dep = Some \<lparr>d_name = xf_currentState f, d_type = D_state\<rparr>\<rparr>"
    using t2 cur2 by (simp add: edge_fits_def state_task_def)
  note s3 = gen_addEdge [OF conjunct1 [OF s2] e3, folded g3_def]
  have k3: "kept task g g3" using k2 s3(2) kept_trans by blast
  have t3: "task < length (g_heap g3)" "type_at g3 task = T_xfunction"
    using kept_length [OF k3 g(2)] kept_type [OF k3 g(2)] g(3) by simp_all
  have nxt3: "state_task g3 (xf_nextState f) nxt" using s2 kept_state [OF s3(2)] by blast
  define g4 where "g4 = XGraph_addEdge (XGraph_getVertex task g3) (XGraph_getVertex nxt g3) (xf_nextState f) D_state g3"
  have e4: "edge_fits g3 \<lparr>e_source = task, e_target = nxt, e_dep = Some \<lparr>d_name = xf_nextState f, d_type = D_state\<rparr>\<rparr>"
    using t3 nxt3 by (simp add: edge_fits_def state_task_def)
  note s4 = gen_addEdge [OF s3(1) e4, folded g4_def]
  have k4: "kept task g g4" using k3 s4(2) kept_trans by blast
  have j4: "joins g4 f task" unfolding joins_def
    using kept_state [OF s4(2)] kept_state [OF s3(2) cur2] nxt3 state_edge_in [OF s3(3)] kept_rel [OF s4(2)] state_edge_in [OF s4(3)]
    by blast
  show ?thesis
  proof (cases "xf_condition f")
    case None
    then have "g' = g4" unfolding g'_def g3_def g4_def XGraph_generateStateGraphStates_def by (simp add: 1 2 Let_def)
    then show ?thesis using s4(1) k4 j4 by simp
  next
    case (Some c)
    let ?set = "\<lambda>t. t\<lparr>t_hasCondition := True\<rparr>" and ?read = "fold mTask_addReadOnlyVariable (xc_readOnlyVariables (cond_of c))"
    define g5 where "g5 = modify_task task ?set g4"
    have g': "g' = modify_task cur ?read g5"
      unfolding g'_def g3_def g4_def g5_def XGraph_generateStateGraphStates_def by (simp add: 1 2 Some Let_def)
    have t4: "task < length (g_heap g4)" "type_at g4 task = T_xfunction"
      using kept_length [OF k4 g(2)] kept_type [OF k4 g(2)] g(3) by simp_all
    have p4: "plain_task (?set (task_at g4 task))" using s4(1) t4(1) by (simp add: gen_ok_def plain_task_def)
    have g5: "gen_ok start g5" "kept task g4 g5" unfolding g5_def
      using gen_modify [where f = ?set, OF s4(1) t4(1) _ _ p4] kept_modify [where f = ?set and task = task, OF t4(1)] by simp_all
    have cur5: "state_task g5 (xf_currentState f) cur"
      using kept_state [OF g5(2)] kept_state [OF s4(2)] kept_state [OF s3(2) cur2] by blast
    then have c5: "cur < length (g_heap g5)" "type_at g5 cur = T_xstate" by (simp_all add: state_task_def)
    have t5: "type_at g5 task = T_xfunction" using kept_type [OF g5(2) t4(1)] t4(2) by simp
    have ct: "type_at g5 cur \<noteq> T_xfunction \<and> cur \<noteq> task" using c5(2) t5 by (cases "cur = task") simp_all
    have p5: "plain_task (?read (task_at g5 cur))" using g5(1) c5(1) read_only_all by (fastforce simp: gen_ok_def plain_task_def)
    have "gen_ok start g'" "kept task g5 g'" unfolding g'
      using gen_modify [where f = ?read, OF g5(1) c5(1) _ _ p5] kept_modify [where f = ?read and task = task, OF c5(1)] ct
        read_only_all by simp_all
    then show ?thesis using kept_trans [OF kept_trans [OF k4 g5(2)]] kept_joins [OF _ kept_joins [OF g5(2) j4]] by blast
  qed
qed

lemma gen_end_task:
  assumes "gen_ok start g" "p < length (g_heap g)" "type_at g p = T_xfunction"
  shows "gen_ok start (g\<lparr>g_endTasks := oset_insert p (g_endTasks g)\<rparr>)"
proof -
  have "edge_fits (g\<lparr>g_endTasks := es\<rparr>) e \<longleftrightarrow> edge_fits g e" for e es by (simp add: edge_fits_def)
  then show ?thesis using assms by (auto simp: gen_ok_def state_task_def)
qed

lemma gen_add_function:
  assumes g: "gen_ok start g" and g'_def: "g' = add_function start ends f g"
  shows "gen_ok start g' \<and> kept (length (g_heap g)) g g' \<and> function_at g' f (length (g_heap g))"
proof -
  define task where "task = length (g_heap g)"
  define g1 where "g1 = snd (add_task (mTask_new (g_agentName g) (xf_name f) T_xfunction) g)"
  define g2 where "g2 = XGraph_generateStateGraphStates f task start g1"
  let ?vars = "\<lambda>t. fold mTask_addReadWriteVariable (xf_readWriteVariables f) (fold mTask_addReadOnlyVariable (xf_readOnlyVariables f) t)"
  define g3 where "g3 = XGraph_generateStateGraphVariables f task g2"
  define g4 where "g4 = XGraph_generateStateGraphMessages f task g3"
  have g': "g' = (if xf_nextState f \<in> set ends then g4\<lparr>g_endTasks := oset_insert task (g_endTasks g4)\<rparr> else g4)"
    unfolding g'_def g1_def g2_def g3_def g4_def task_def add_function_def by (simp add: Let_def add_task_eq)
  have "t_taskType (mTask_new (g_agentName g) (xf_name f) T_xfunction) \<noteq> T_xstate" by (simp add: mTask_new_def)
  moreover have "plain_task (mTask_new (g_agentName g) (xf_name f) T_xfunction)" by (rule plain_new) simp
  ultimately have 1: "gen_ok start g1" "kept task g g1" unfolding g1_def using gen_add_task [OF g] by blast+
  have t1: "task < length (g_heap g1)" "type_at g1 task = T_xfunction" "t_name (task_at g1 task) = xf_name f"
    "t_readVariables (task_at g1 task) = []" "t_writeVariables (task_at g1 task) = []"
    by (simp_all add: g1_def add_task_eq task_def mTask_new_def)
  note 2 = gen_States [OF 1(1) t1(1,2) g2_def]
  have k2: "kept task g g2" using 1(2) 2 kept_trans by blast
  have t2: "task < length (g_heap g2)" "type_at g2 task = T_xfunction" "t_name (task_at g2 task) = xf_name f"
    "t_readVariables (task_at g2 task) = []" "t_writeVariables (task_at g2 task) = []"
    using keptD [OF conjunct1 [OF conjunct2 [OF 2]] t1(1)] t1 by simp_all
  have g3: "g3 = modify_task task ?vars g2" by (simp add: g3_def XGraph_generateStateGraphVariables_def)
  have v: "t_taskType (?vars t) = t_taskType t" "t_name (?vars t) = t_name t" "plain_task t \<Longrightarrow> plain_task (?vars t)"
    "set (t_readVariables (?vars t)) = set (t_readVariables t) \<union> set (xf_readOnlyVariables f) \<union> set (xf_readWriteVariables f)"
    "set (t_writeVariables (?vars t)) = set (t_writeVariables t) \<union> set (xf_readWriteVariables f)" for t
    using read_only_all [of "xf_readOnlyVariables f" t] read_write_names [of "xf_readWriteVariables f"]
    by (auto simp: plain_task_def)
  have "plain_task (?vars (task_at g2 task))" using 2 t2(1) v(3) by (simp add: gen_ok_def)
  then have 3: "gen_ok start g3" unfolding g3 using gen_modify [where f = ?vars] 2 t2(1) v(1,2) by blast
  have heap3: "g_heap g3 = (g_heap g2)[task := ?vars (task_at g2 task)]" "g_edges g3 = g_edges g2"
    by (simp_all add: g3 modify_task_def)
  have k3: "kept task g g3" using k2 unfolding kept_def heap3 by (simp add: task_def)
  have same: "state_task g3 n p \<longleftrightarrow> state_task g2 n p" for n p
    using v(1,2) by (cases "p = task") (auto simp: state_task_def heap3)
  have j3: "joins g3 f task" using 2 same by (auto simp: joins_def in_vertex_rel heap3)
  have t3: "task < length (g_heap g3)" "type_at g3 task = T_xfunction" "t_name (task_at g3 task) = xf_name f"
    "set (t_readVariables (task_at g3 task)) = set (xf_readOnlyVariables f) \<union> set (xf_readWriteVariables f)"
    "set (t_writeVariables (task_at g3 task)) = set (xf_readWriteVariables f)"
    using t2 v by (simp_all add: heap3)
  note 4 = message_stepD [OF gen_Messages [of task g3 f, folded g4_def] 3 t3(1,2)]
  note t4 = keptD [OF conjunct2 [OF 4] t3(1)]
  have f4: "function_at g4 f task" using t3 t4 kept_joins [OF conjunct2 [OF 4] j3] by (simp add: function_at_def)
  have k4: "kept task g g4" using k3 4 kept_trans by blast
  have "gen_ok start g'" using gen_end_task 4 f4 by (simp add: g' function_at_def)
  moreover have "kept task g g'" using k4 by (simp add: g' kept_def)
  moreover have "function_at g' f task" using f4
    by (simp add: g' function_at_def joins_def state_task_def in_vertex_rel)
  ultimately show ?thesis unfolding task_def by blast
qed

lemma kept_function:
  assumes "kept task g g'" "function_at g f p" "p \<noteq> task"
  shows "function_at g' f p"
  using keptD [OF assms(1), of p] kept_joins [OF assms(1)] assms(2,3) by (simp add: function_at_def)

lemma gen_functions:
  assumes "gen_ok start g"
  shows "\<exists>ps. gen_ok start (fold (add_function start ends) fs g) \<and> length ps = length fs \<and> distinct ps \<and>
    (\<forall>p \<in> set ps. length (g_heap g) \<le> p) \<and> length (g_heap g) \<le> length (g_heap (fold (add_function start ends) fs g)) \<and>
    (\<forall>f p. function_at g f p \<longrightarrow> function_at (fold (add_function start ends) fs g) f p) \<and>
    (\<forall>i < length fs. function_at (fold (add_function start ends) fs g) (fs ! i) (ps ! i))"
  using assms
proof (induction fs arbitrary: g)
  case (Cons f fs)
  define g1 where "g1 = add_function start ends f g"
  note 1 = gen_add_function [OF Cons.prems g1_def]
  obtain ps where ps: "gen_ok start (fold (add_function start ends) fs g1)" "length ps = length fs" "distinct ps"
    "\<forall>p \<in> set ps. length (g_heap g1) \<le> p" "length (g_heap g1) \<le> length (g_heap (fold (add_function start ends) fs g1))"
    "\<forall>f p. function_at g1 f p \<longrightarrow> function_at (fold (add_function start ends) fs g1) f p"
    "\<forall>i < length fs. function_at (fold (add_function start ends) fs g1) (fs ! i) (ps ! i)"
    using Cons.IH [OF conjunct1 [OF 1]] by auto
  let ?q = "length (g_heap g)"
  have q: "?q < length (g_heap g1)" using 1 by (simp add: function_at_def)
  have old: "function_at g1 f' p" if "function_at g f' p" for f' p
    using kept_function 1 that by (auto simp: function_at_def)
  show ?case
  proof (intro exI [of _ "?q # ps"] conjI)
    show "\<forall>i < length (f # fs). function_at (fold (add_function start ends) (f # fs) g) ((f # fs) ! i) ((?q # ps) ! i)"
    proof (intro allI impI)
      fix i assume "i < length (f # fs)"
      then show "function_at (fold (add_function start ends) (f # fs) g) ((f # fs) ! i) ((?q # ps) ! i)"
        using ps(6,7) 1 by (cases i) (auto simp: g1_def [symmetric])
    qed
  qed (use ps q old in \<open>auto simp: g1_def [symmetric]\<close>)
qed auto

lemma gen_new: "gen_ok start (XGraph_setAgentName name XGraph_new)"
  by (simp add: gen_ok_def XGraph_setAgentName_def XGraph_new_def state_task_def)

text \<open>A generated graph without cycles and with a function that leaves the start state is a state graph.\<close>

lemma gen_state_graph:
  assumes g: "gen_ok start g" and ac: "acyclic (set (edge_pairs g))" and f: "function_at g f p" "xf_currentState f = start"
  shows "state_graph g" "task_rel is_state g = vertex_rel is_state g"
proof -
  have nth: "g_vertex2task g ! v = v" if "v < length (g_heap g)" for v using g that by (simp add: gen_ok_def)
  have ok: "graph_ok g" using g by (fastforce simp: gen_ok_def graph_ok_def edge_fits_def)
  have rel: "task_rel P g = vertex_rel P g" for P
  proof -
    have "(\<lambda>(s, t). (g_vertex2task g ! s, g_vertex2task g ! t)) x = x" if "x \<in> vertex_rel P g" for x
      using vertex_rel_bounds [OF ok, of P] that nth g by (auto simp: gen_ok_def)
    then show ?thesis by (force simp: task_rel_def map_prod_def)
  qed
  show "task_rel is_state g = vertex_rel is_state g" by (rule rel)
  have fits: "edge_fits g e" if "e \<in> set (g_edges g)" for e using g that by (simp add: gen_ok_def)
  have types: "type_at g s = type_at g (g_vertex2task g ! s)" if "s < length (g_heap g)" for s using nth that by simp
  have s_edge: "(type_at g s, type_at g t) \<in> {(T_xfunction, T_xstate), (T_xstate, T_xfunction)}" if "(s, t) \<in> vertex_rel is_state g" for s t
    using that fits by (fastforce simp: in_vertex_rel edge_fits_def is_state_def)
  have o_edge: "type_at g s \<noteq> T_xstate \<and> type_at g t \<noteq> T_xstate" if "(s, t) \<in> vertex_rel (\<lambda>d. \<not> is_state d) g" for s t
    using that fits by (fastforce simp: in_vertex_rel edge_fits_def is_state_def)
  obtain s where s: "state_task g start s" "(s, p) \<in> vertex_rel is_state g" using f by (auto simp: function_at_def joins_def)
  have "g_startTask g = Some s" using g s(1) by (simp add: gen_ok_def)
  then show "state_graph g" unfolding state_graph_def rel
    using ok ac s s_edge o_edge g
    by (auto simp: set_edge_pairs gen_ok_def plain_task_def state_task_def)
qed

text \<open>
  One function leads to another when its next state is the other's current state. Two
  functions conflict when both access a variable and one of them writes it.
\<close>

definition leads_to :: "xfunction list \<Rightarrow> (nat \<times> nat) set" where
  "leads_to fs = {(i, j). i < length fs \<and> j < length fs \<and> xf_nextState (fs ! i) = xf_currentState (fs ! j)}"

definition functions_conflict :: "xfunction \<Rightarrow> xfunction \<Rightarrow> bool" where
  "functions_conflict f h \<longleftrightarrow>
     set (xf_readWriteVariables f) \<inter> (set (xf_readOnlyVariables h) \<union> set (xf_readWriteVariables h)) \<noteq> {} \<or>
     set (xf_readWriteVariables h) \<inter> (set (xf_readOnlyVariables f) \<union> set (xf_readWriteVariables f)) \<noteq> {}"

text \<open>
  The tasks \<open>ps\<close> of the functions \<open>fs\<close>, given by the state graph \<open>g0\<close>, in the task graph \<open>g\<close>:
  one for each, and a path of dependencies between any two that follow each other and conflict.
\<close>

definition orders_functions :: "xfunction list \<Rightarrow> nat list \<Rightarrow> xgraph \<Rightarrow> xgraph \<Rightarrow> bool" where
  "orders_functions fs ps g0 g \<longleftrightarrow> length ps = length fs \<and> distinct ps \<and>
     (\<forall>i < length fs. function_at g0 (fs ! i) (ps ! i)) \<and> set ps \<subseteq> set (g_vertex2task g) \<and>
     acyclic (set (edge_pairs g)) \<and>
     (\<forall>i j. (i, j) \<in> (leads_to fs)\<^sup>+ \<longrightarrow> functions_conflict (fs ! i) (fs ! j) \<longrightarrow>
        (ps ! i, ps ! j) \<in> (task_rel (\<lambda>_. True) g)\<^sup>+)"

lemma conflict_on_functions:
  assumes "function_at g f p" "function_at g h q" "functions_conflict f h"
  shows "\<exists>x. conflict_on g p q x"
  using assms unfolding function_at_def functions_conflict_def conflict_on_def Let_def by blast

lemma leads_path:
  assumes g: "gen_ok start g" and at: "\<And>i. i < length fs \<Longrightarrow> function_at g (fs ! i) (ps ! i)"
    and path: "(i, j) \<in> (leads_to fs)\<^sup>+"
  shows "(ps ! i, ps ! j) \<in> (vertex_rel is_state g)\<^sup>+"
proof -
  have step: "(ps ! i, ps ! j) \<in> (vertex_rel is_state g)\<^sup>+" if "(i, j) \<in> leads_to fs" for i j
  proof -
    have ij: "i < length fs" "j < length fs" "xf_nextState (fs ! i) = xf_currentState (fs ! j)"
      using that by (auto simp: leads_to_def)
    obtain t where t: "state_task g (xf_nextState (fs ! i)) t" "(ps ! i, t) \<in> vertex_rel is_state g"
      using at [OF ij(1)] by (auto simp: function_at_def joins_def)
    obtain s where s: "state_task g (xf_currentState (fs ! j)) s" "(s, ps ! j) \<in> vertex_rel is_state g"
      using at [OF ij(2)] by (auto simp: function_at_def joins_def)
    have "s = t" using g s(1) t(1) ij(3) by (simp add: gen_ok_def)
    then show ?thesis using s(2) t(2) by auto
  qed
  show ?thesis using path by (induction rule: trancl_induct) (use step in \<open>blast intro: trancl_trans\<close>)+
qed

lemma function_graph:
  assumes lib: "sorts_topologically lib" "keeps_paths lib"
    and gen: "g = XGraph_generateStateGraph fs start ends (XGraph_setAgentName name XGraph_new)"
    and ac: "acyclic (set (edge_pairs g))" and f: "f \<in> set fs" "xf_currentState f = start"
  shows "\<exists>g' ps. XGraph_generateDependencyGraph lib vars g = Inr g' \<and> orders_functions fs ps g g'"
proof -
  obtain ps where ps: "gen_ok start g" "length ps = length fs" "distinct ps"
    "\<And>i. i < length fs \<Longrightarrow> function_at g (fs ! i) (ps ! i)"
    using gen_functions [OF gen_new, of start ends fs name] unfolding gen XGraph_generateStateGraph_def by blast
  obtain i where "i < length fs" "fs ! i = f" using f(1) by (auto simp: in_set_conv_nth)
  then have sg: "state_graph g" and rel: "task_rel is_state g = vertex_rel is_state g"
    using gen_state_graph [OF ps(1) ac] ps(4) f(2) by blast+
  obtain g' where g': "XGraph_generateDependencyGraph lib vars g = Inr g'" "graph_ok g'" "acyclic (set (edge_pairs g'))"
    "\<forall>p. function_task g p \<longrightarrow> p \<in> set (g_vertex2task g')"
    "\<forall>p q x. function_task g p \<longrightarrow> function_task g q \<longrightarrow> (p, q) \<in> (task_rel is_state g)\<^sup>+ \<longrightarrow> conflict_on g p q x \<longrightarrow>
       (p, q) \<in> (task_rel (\<lambda>_. True) g')\<^sup>+"
    using conflicting_functions_ordered [OF lib sg] by blast
  have task: "function_task g (ps ! i)" if "i < length fs" for i
    using ps(4) [OF that] ps(1) by (auto simp: function_at_def gen_ok_def)
  have "orders_functions fs ps g g'" unfolding orders_functions_def
  proof (intro conjI allI impI ps(2,3,4) g'(3))
    show "set ps \<subseteq> set (g_vertex2task g')" using g'(4) task ps(2) by (metis in_set_conv_nth subsetI)
    fix i j assume ij: "(i, j) \<in> (leads_to fs)\<^sup>+" "functions_conflict (fs ! i) (fs ! j)"
    then have b: "i < length fs" "j < length fs" by (auto simp: leads_to_def dest: tranclD tranclD2)
    then obtain x where "conflict_on g (ps ! i) (ps ! j) x" using conflict_on_functions ps(4) ij(2) by blast
    moreover have "(ps ! i, ps ! j) \<in> (task_rel is_state g)\<^sup>+" unfolding rel by (rule leads_path [OF ps(1,4) ij(1)])
    ultimately show "(ps ! i, ps ! j) \<in> (task_rel (\<lambda>_. True) g')\<^sup>+" using g'(5) task b by blast
  qed
  then show ?thesis using g'(1) by blast
qed

end
