(* ===== verification/Validated_Models.thy ===== *)
theory Validated_Models
  imports Validation State_Generation
begin

text \<open>
  What validation guarantees: a model accepted without an error is well formed, the graphs of
  its agents are acyclic state graphs, and the task graph of the model can be generated, with
  conflicting functions in order. The lemmas go through the checks one by one, with the
  elements accepted so far as the invariant of each loop.
\<close>

section \<open>Checks without errors\<close>

lemma count_error_0 [simp]: "count_error b = 0 \<longleftrightarrow> \<not> b"
  by (simp add: count_error_def)

lemma validate_each_mono: "validate_each f is (e, m) = Inr (n, m') \<Longrightarrow> e \<le> n"
proof (induction "is" arbitrary: e m)
  case (Cons i "is")
  then show ?case by (auto simp: bindR_def split: sum.splits) (metis add_leD1)
qed simp

lemma validate_each_0:
  "validate_each f (i # is) (e, m) = Inr (0, m') \<longleftrightarrow>
     e = 0 \<and> (\<exists>m1. f i m = Inr (0, m1) \<and> validate_each f is (0, m1) = Inr (0, m'))"
  using validate_each_mono [of f "is"] by (fastforce simp: bindR_def split: sum.splits)

lemma validate_all_0:
  "validate_all f xs = Inr (0, ys) \<longleftrightarrow> list_all2 (\<lambda>x y. f x = Inr (0, y)) xs ys"
proof (induction xs arbitrary: ys)
  case (Cons x xs)
  have "validate_all f (x # xs) = Inr (0, ys) \<longleftrightarrow> (\<exists>y zs. ys = y # zs \<and> f x = Inr (0, y) \<and> validate_all f xs = Inr (0, zs))"
    by (auto simp: bindR_def split: sum.splits)
  then show ?case unfolding Cons.IH by (auto simp: list_all2_Cons1)
qed auto

section \<open>What accepted variables are like\<close>

definition variables_ok :: "string list \<Rightarrow> bool \<Rightarrow> xvariable list \<Rightarrow> bool" where
  "variables_ok allowed allowDynamicArrays vs \<longleftrightarrow> distinct (map xv_name vs) \<and>
     (\<forall>v \<in> set vs. XModelValidate_name_is_allowed (xv_name v) \<and> xv_type v \<in> set allowed \<and>
        (\<not> allowDynamicArrays \<longrightarrow> \<not> xv_holdsDynamicArray v))"

lemma variables_accepted:
  assumes "XModelValidate_validateVariables lib adts allowed dyn vs0 = (0, vs)"
  shows "variables_ok allowed dyn vs"
proof -
  have 0: "XModelValidate_validateVariableName i vs = 0" "XModelValidate_validateVariableType allowed dyn (vs ! i) = 0"
    if "i < length vs" for i
    using assms that by (auto simp: XModelValidate_validateVariables_def split: prod.splits)
  have "xv_name (vs ! i) \<noteq> xv_name (vs ! j)" if "i < length vs" "j < length vs" "i \<noteq> j" for i j
    using 0(1) [OF that(1)] that by (auto simp: XModelValidate_validateVariableName_def filter_empty_conv)
  then have "distinct (map xv_name vs)" by (simp add: distinct_conv_nth)
  moreover have "XModelValidate_name_is_allowed (xv_name v) \<and> xv_type v \<in> set allowed \<and> (\<not> dyn \<longrightarrow> \<not> xv_holdsDynamicArray v)"
    if "v \<in> set vs" for v
    using that 0 by (auto simp: in_set_conv_nth XModelValidate_validateVariableName_def XModelValidate_validateVariableType_def)
  ultimately show ?thesis by (simp add: variables_ok_def)
qed

lemma variables_ok_mono: "variables_ok allowed dyn vs \<Longrightarrow> set allowed \<subseteq> set allowed' \<Longrightarrow> variables_ok allowed' dyn vs"
  by (auto simp: variables_ok_def)

section \<open>Data types\<close>

text \<open>The parts of the model that validating data types and agents does not change.\<close>

definition same_rest :: "'v xmodel \<Rightarrow> 'v xmodel \<Rightarrow> bool" where
  "same_rest m m' \<longleftrightarrow> xo_functionFiles m' = xo_functionFiles m \<and> xo_constants m' = xo_constants m \<and>
     xo_timeUnits m' = xo_timeUnits m \<and> xo_messages m' = xo_messages m"

lemma same_rest_refl [simp]: "same_rest m m"
  by (simp add: same_rest_def)

lemma same_rest_trans: "same_rest m m' \<Longrightarrow> same_rest m' m'' \<Longrightarrow> same_rest m m''"
  by (simp add: same_rest_def)

text \<open>The data types before place \<open>k\<close> have been accepted.\<close>

definition adts_done :: "'v xmodel \<Rightarrow> nat \<Rightarrow> 'v xmodel \<Rightarrow> bool" where
  "adts_done m0 k m \<longleftrightarrow> same_rest m0 m \<and> xo_agents m = xo_agents m0 \<and>
     map xd_name (xo_adts m) = map xd_name (xo_adts m0) \<and>
     xo_allowedDataTypes m = xo_allowedDataTypes m0 @ map xd_name (take k (xo_adts m)) \<and>
     distinct (map xd_name (take k (xo_adts m))) \<and> set (map xd_name (take k (xo_adts m))) \<inter> set (xo_allowedDataTypes m0) = {} \<and>
     (\<forall>d \<in> set (take k (xo_adts m)). XModelValidate_name_is_allowed (xd_name d) \<and>
        variables_ok (xo_allowedDataTypes m) True (xd_variables d))"

lemma ADT_accepted:
  assumes "adts_done m0 k m" "k < length (xo_adts m0)" "XModelValidate_validateADT lib k m = (0, m')"
  shows "adts_done m0 (Suc k) m'"
proof -
  define d where "d = xo_adts m ! k"
  have len: "length (xo_adts m) = length (xo_adts m0)" using assms(1) unfolding adts_done_def by (metis length_map)
  define m1 where "m1 = XModel_addAllowedDataType (xd_name d) m"
  have ok: "XModelValidate_name_is_allowed (xd_name d)" "xd_name d \<notin> set (xo_allowedDataTypes m)"
    using assms(3) by (auto simp: XModelValidate_validateADT_def d_def Let_def filter_empty_conv split: if_splits)
  then obtain e vs where vs: "XModelValidate_validateVariables lib (xo_adts m1) (xo_allowedDataTypes m1) True (xd_variables d) = (e, vs)"
    "e = 0" "m' = m1\<lparr>xo_adts := (xo_adts m1)[k := d\<lparr>xd_variables := vs,
      xd_holdsDynamicArray := xd_holdsDynamicArray d \<or> list_ex xv_holdsDynamicArray vs\<rparr>]\<rparr>"
    using assms(3) by (auto simp: XModelValidate_validateADT_def d_def Let_def m1_def split: if_splits prod.splits)
  define d' where "d' = d\<lparr>xd_variables := vs, xd_holdsDynamicArray := xd_holdsDynamicArray d \<or> list_ex xv_holdsDynamicArray vs\<rparr>"
  have m': "xo_adts m' = (xo_adts m)[k := d']" "xo_allowedDataTypes m' = xo_allowedDataTypes m @ [xd_name d]"
    "same_rest m m'" "xo_agents m' = xo_agents m"
    by (simp_all add: vs(3) m1_def XModel_addAllowedDataType_def d'_def same_rest_def)
  have k: "k < length (xo_adts m)" using assms(2) len by simp
  have tk: "take (Suc k) (xo_adts m') = take k (xo_adts m) @ [d']" using k by (simp add: m' take_Suc_conv_app_nth)
  have names: "map xd_name (xo_adts m') = map xd_name (xo_adts m)"
    using k by (simp add: m' map_update d'_def d_def list_update_same_conv)
  have new: "variables_ok (xo_allowedDataTypes m') True vs"
    using variables_accepted [of lib "xo_adts m1" "xo_allowedDataTypes m1"] vs(1,2) by (simp add: m' m1_def XModel_addAllowedDataType_def)
  have prev: "\<forall>b \<in> set (take k (xo_adts m)). XModelValidate_name_is_allowed (xd_name b) \<and>
      variables_ok (xo_allowedDataTypes m) True (xd_variables b)"
    and types: "xo_allowedDataTypes m = xo_allowedDataTypes m0 @ map xd_name (take k (xo_adts m))"
    and rest: "same_rest m0 m" "xo_agents m = xo_agents m0" "map xd_name (xo_adts m) = map xd_name (xo_adts m0)"
      "distinct (map xd_name (take k (xo_adts m)))" "set (map xd_name (take k (xo_adts m))) \<inter> set (xo_allowedDataTypes m0) = {}"
    using assms(1) unfolding adts_done_def by blast+
  have "variables_ok (xo_allowedDataTypes m') True (xd_variables b)" if "b \<in> set (take k (xo_adts m))" for b
    by (rule variables_ok_mono [of "xo_allowedDataTypes m"]) (use prev that m'(2) in auto)
  then have ball: "\<forall>b \<in> set (take (Suc k) (xo_adts m')). XModelValidate_name_is_allowed (xd_name b) \<and>
      variables_ok (xo_allowedDataTypes m') True (xd_variables b)"
    using prev ok(1) new unfolding tk by (auto simp: d'_def)
  have d'n: "xd_name d' = xd_name d" by (simp add: d'_def)
  have new_name: "xd_name d \<notin> set (xo_allowedDataTypes m0)" "xd_name d \<notin> xd_name ` set (take k (xo_adts m))"
    using ok(2) unfolding types by auto
  show ?thesis unfolding adts_done_def
  proof (intro conjI ball)
    show "same_rest m0 m'" using same_rest_trans rest(1) m'(3) by blast
    show "xo_allowedDataTypes m' = xo_allowedDataTypes m0 @ map xd_name (take (Suc k) (xo_adts m'))"
      unfolding tk m'(2) types by (simp add: d'n)
  qed (use rest names new_name m'(4) in \<open>auto simp: tk d'n\<close>)
qed

lemma ADTs_accepted:
  assumes "validate_each (\<lambda>i m. Inr (XModelValidate_validateADT lib i m)) [k..<n] (0, m) = Inr (0, m')"
    and "n = length (xo_adts m0)" "adts_done m0 k m" "k \<le> n"
  shows "adts_done m0 n m'"
  using assms
proof (induction "n - k" arbitrary: k m)
  case (Suc d)
  then have "[k..<n] = k # [Suc k..<n]" by (simp add: upt_conv_Cons)
  then obtain m1 where "XModelValidate_validateADT lib k m = (0, m1)"
    "validate_each (\<lambda>i m. Inr (XModelValidate_validateADT lib i m)) [Suc k..<n] (0, m1) = Inr (0, m')"
    using Suc.prems(1) by (auto simp: validate_each_0 simp del: validate_each.simps)
  moreover have "k < n" using Suc.hyps(2) by simp
  ultimately show ?case using Suc.hyps(1) [of "Suc k" m1] Suc.hyps(2) ADT_accepted [OF Suc.prems(3)] Suc.prems(2) by simp
qed simp

section \<open>Time units\<close>

definition time_units_ok :: "xtimeunit list \<Rightarrow> bool" where
  "time_units_ok us \<longleftrightarrow> (\<forall>u \<in> set us. XModelValidate_name_is_allowed (xt_name u) \<and> xt_name u \<noteq> ''iteration'' \<and> 1 \<le> xt_period u \<and>
     (xt_unit u = ''iteration'' \<or> (\<exists>w \<in> set us. xt_name w \<noteq> xt_name u \<and> xt_unit u = xt_name w)) \<and>
     (\<forall>w \<in> set us. xt_name w = xt_name u \<longrightarrow> xt_id w = xt_id u))"

lemma time_units_accepted:
  assumes "XModelValidate_validateTimeUnits lib us0 = (0, us)"
  shows "time_units_ok us"
proof -
  have us: "us = map (snd \<circ> XModelValidate_processTimeUnit lib us0) us0"
    and 0: "\<And>u. u \<in> set us0 \<Longrightarrow> fst (XModelValidate_processTimeUnit lib us0 u) = 0"
      "\<And>u. u \<in> set us \<Longrightarrow> XModelValidate_validateTimeUnit us u = 0"
    using assms by (auto simp: XModelValidate_validateTimeUnits_def Let_def sum_list_eq_0_iff)
  have same: "xt_name (snd (XModelValidate_processTimeUnit lib us0 u)) = xt_name u"
    "xt_unit (snd (XModelValidate_processTimeUnit lib us0 u)) = xt_unit u" for u
    by (auto simp: XModelValidate_processTimeUnit_def XModelValidate_processTimeUnitPeriod_def split: option.splits)
  have unit: "1 \<le> xt_period (snd (XModelValidate_processTimeUnit lib us0 u))"
    "xt_unit u = ''iteration'' \<or> (\<exists>w \<in> set us0. xt_name u \<noteq> xt_name w \<and> xt_unit u = xt_name w)" if "u \<in> set us0" for u
    using 0(1) [OF that]
    by (auto simp: XModelValidate_processTimeUnit_def XModelValidate_processTimeUnitPeriod_def XModelValidate_processTimeUnitUnit_def
        list_ex_iff split: option.splits)
  show ?thesis unfolding time_units_ok_def
  proof (intro ballI conjI impI)
    fix u assume u: "u \<in> set us"
    then obtain u0 where u0: "u0 \<in> set us0" "u = snd (XModelValidate_processTimeUnit lib us0 u0)" by (auto simp: us)
    show "1 \<le> xt_period u" using unit(1) [OF u0(1)] u0(2) by simp
    have "xt_unit u0 = ''iteration'' \<or> (\<exists>w \<in> xt_name ` set us0. w \<noteq> xt_name u0 \<and> xt_unit u0 = w)" using unit(2) [OF u0(1)] by force
    moreover have "xt_name ` set us0 = xt_name ` set us" by (force simp: us same image_iff)
    ultimately show "xt_unit u = ''iteration'' \<or> (\<exists>w \<in> set us. xt_name w \<noteq> xt_name u \<and> xt_unit u = xt_name w)"
      unfolding u0(2) same by auto
    show "XModelValidate_name_is_allowed (xt_name u)" "xt_name u \<noteq> ''iteration''"
      using 0(2) [OF u] by (auto simp: XModelValidate_validateTimeUnit_def)
    show "xt_id w = xt_id u" if "w \<in> set us" "xt_name w = xt_name u" for w
      using 0(2) [OF u] that by (auto simp: XModelValidate_validateTimeUnit_def filter_empty_conv)
  qed
qed

section \<open>Agents\<close>

text \<open>What an accepted agent was found to be: from \<open>a\<close>, in the model \<open>m\<close>, to \<open>a'\<close>.\<close>

definition agent_accepted :: "library \<Rightarrow> 'v xmodel \<Rightarrow> xmachine \<Rightarrow> xmachine \<Rightarrow> bool" where
  "agent_accepted lib m a a' \<longleftrightarrow> XModelValidate_name_is_allowed (xa_name a) \<and>
     (\<forall>b \<in> set (xo_agents m). xa_name a = xa_name b \<longrightarrow> xa_id a = xa_id b) \<and>
     (\<exists>vs fs. XModelValidate_validateVariables lib (xo_adts m) (xo_allowedDataTypes m) True (xa_variables a) = (0, vs) \<and>
        list_all2 (\<lambda>f f'. XModelValidate_validateAgentFunction lib m (a\<lparr>xa_variables := vs\<rparr>) f = Inr (0, f')) (xa_functions a) fs \<and>
        XModelValidate_validateAgentStateGraph lib (a\<lparr>xa_variables := vs, xa_functions := fs\<rparr>) = (0, a'))"

lemma agent_accepted_iff:
  "XModelValidate_validateAgent lib i m = Inr (0, m') \<longleftrightarrow>
     (\<exists>a'. agent_accepted lib m (xo_agents m ! i) a' \<and> m' = m\<lparr>xo_agents := (xo_agents m)[i := a']\<rparr>)"
  unfolding XModelValidate_validateAgent_def agent_accepted_def Let_def
  by (cases "XModelValidate_validateVariables lib (xo_adts m) (xo_allowedDataTypes m) True (xa_variables (xo_agents m ! i))")
     (auto simp: bindR_def validate_all_0 [symmetric] filter_empty_conv split: sum.splits prod.splits)

lemma stateGraph_keeps:
  "XModelValidate_validateAgentStateGraph lib a = (e, a') \<Longrightarrow>
     xa_name a' = xa_name a \<and> xa_id a' = xa_id a \<and> xa_variables a' = xa_variables a \<and> xa_functions a' = xa_functions a"
  by (auto simp: XModelValidate_validateAgentStateGraph_def XMachine_findStartEndStates_def XMachine_generateStateGraph_def Let_def
      split: prod.splits if_splits list.splits)

lemma agent_accepted_keeps: "agent_accepted lib m a a' \<Longrightarrow> xa_name a' = xa_name a \<and> xa_id a' = xa_id a"
  using stateGraph_keeps by (fastforce simp: agent_accepted_def)

text \<open>Validating a function looks at the messages and time units of the model only.\<close>

definition same_context :: "'v xmodel \<Rightarrow> 'v xmodel \<Rightarrow> bool" where
  "same_context m m' \<longleftrightarrow> same_rest m m' \<and> xo_adts m' = xo_adts m \<and> xo_allowedDataTypes m' = xo_allowedDataTypes m \<and>
     map (\<lambda>a. (xa_id a, xa_name a)) (xo_agents m') = map (\<lambda>a. (xa_id a, xa_name a)) (xo_agents m)"

lemma validate_function_context:
  assumes "same_context m m'"
  shows "XModelValidate_validateAgentFunction lib m' = XModelValidate_validateAgentFunction lib m"
proof -
  have "message_of m' = message_of m" "validate_filter lib m' = validate_filter lib m"
    using assms by (simp_all add: fun_eq_iff message_of_def XModel_getMessage_def validate_filter_def same_context_def same_rest_def
        split: option.split)
  then show ?thesis
    by (simp add: fun_eq_iff XModelValidate_validateAgentFunction_def XModelValidate_validateAgentFunctionIOput_def
        XModelValidate_validateAgentCommunication_def [abs_def])
qed

lemma ball_names:
  assumes "(\<lambda>a. (ident a, nm a)) ` A = (\<lambda>a. (ident a, nm a)) ` B"
  shows "(\<forall>b \<in> A. n = nm b \<longrightarrow> i = ident b) \<longleftrightarrow> (\<forall>b \<in> B. n = nm b \<longrightarrow> i = ident b)"
proof -
  have eq: "(\<forall>b \<in> C. n = nm b \<longrightarrow> i = ident b) \<longleftrightarrow> (\<forall>(j, k) \<in> (\<lambda>a. (ident a, nm a)) ` C. n = k \<longrightarrow> i = j)" for C
    by auto
  show ?thesis unfolding eq assms by (rule refl)
qed

lemma agent_accepted_context:
  assumes "same_context m m'"
  shows "agent_accepted lib m' a a' \<longleftrightarrow> agent_accepted lib m a a'"
proof -
  have "xo_adts m' = xo_adts m" "xo_allowedDataTypes m' = xo_allowedDataTypes m" using assms by (simp_all add: same_context_def)
  moreover have "(\<lambda>a. (xa_id a, xa_name a)) ` set (xo_agents m') = (\<lambda>a. (xa_id a, xa_name a)) ` set (xo_agents m)"
    using assms unfolding same_context_def by (metis set_map)
  then have "(\<forall>b \<in> set (xo_agents m'). xa_name a = xa_name b \<longrightarrow> xa_id a = xa_id b) \<longleftrightarrow>
      (\<forall>b \<in> set (xo_agents m). xa_name a = xa_name b \<longrightarrow> xa_id a = xa_id b)"
    by (rule ball_names)
  ultimately show ?thesis by (simp add: agent_accepted_def validate_function_context [OF assms])
qed

lemma agents_accepted:
  assumes "validate_each (XModelValidate_validateAgent lib) [k..<n] (0, m) = Inr (0, m')"
    and "n = length (xo_agents m)" "k \<le> n"
  shows "same_context m m' \<and> (\<forall>j < k. xo_agents m' ! j = xo_agents m ! j) \<and>
    (\<forall>j. k \<le> j \<longrightarrow> j < n \<longrightarrow> agent_accepted lib m (xo_agents m ! j) (xo_agents m' ! j))"
  using assms
proof (induction "n - k" arbitrary: k m)
  case 0
  then show ?case by (simp add: same_context_def)
next
  case (Suc d)
  then have "[k..<n] = k # [Suc k..<n]" by (simp add: upt_conv_Cons)
  then obtain a' m1 where a': "agent_accepted lib m (xo_agents m ! k) a'" "m1 = m\<lparr>xo_agents := (xo_agents m)[k := a']\<rparr>"
    and rest: "validate_each (XModelValidate_validateAgent lib) [Suc k..<n] (0, m1) = Inr (0, m')"
    using Suc.prems(1) by (auto simp: validate_each_0 agent_accepted_iff simp del: validate_each.simps)
  have k: "k < n" using Suc.hyps(2) by simp
  have same: "same_context m m1" using agent_accepted_keeps [OF a'(1)] k Suc.prems(2)
    by (simp add: same_context_def same_rest_def a'(2) map_update list_update_same_conv)
  have IH: "same_context m1 m' \<and> (\<forall>j < Suc k. xo_agents m' ! j = xo_agents m1 ! j) \<and>
      (\<forall>j. Suc k \<le> j \<longrightarrow> j < n \<longrightarrow> agent_accepted lib m1 (xo_agents m1 ! j) (xo_agents m' ! j))"
    using Suc.hyps(1) [of "Suc k" m1] Suc.hyps(2) rest Suc.prems(2) k by (simp add: a'(2))
  have "same_context m m'" using same IH unfolding same_context_def same_rest_def by simp
  moreover have "agent_accepted lib m (xo_agents m ! j) (xo_agents m' ! j)" if "k \<le> j" "j < n" for j
    using IH a'(1) agent_accepted_context [OF same] that k Suc.prems(2) by (cases "j = k") (auto simp: a'(2))
  ultimately show ?case using IH by (simp add: a'(2))
qed

section \<open>Functions and state graphs of accepted agents\<close>

lemma list_all2_in2: "list_all2 P xs ys \<Longrightarrow> y \<in> set ys \<Longrightarrow> \<exists>x \<in> set xs. P x y"
  by (induction rule: list_all2_induct) auto

lemma message_of_iff: "message_of m n = None \<longleftrightarrow> n \<notin> xm_name ` set (xo_messages m)"
  by (auto simp: message_of_def XModel_getMessage_def find_index_None)

definition function_ok :: "'v xmodel \<Rightarrow> xfunction \<Rightarrow> bool" where
  "function_ok m f \<longleftrightarrow> XModelValidate_name_is_allowed (xf_name f) \<and> XModelValidate_name_is_allowed (xf_currentState f) \<and>
     XModelValidate_name_is_allowed (xf_nextState f) \<and>
     (\<forall>i \<in> set (xf_inputs f) \<union> set (xf_outputs f). xi_messageName i \<in> xm_name ` set (xo_messages m) \<and> \<not> (xi_sort i \<and> xi_random i))"

lemma communication_accepted:
  assumes "XModelValidate_validateAgentCommunication lib m a i = Inr (0, i')"
  shows "xi_messageName i' \<in> xm_name ` set (xo_messages m) \<and> \<not> (xi_sort i' \<and> xi_random i')"
proof -
  obtain e2 c where c: "validate_filter lib m a (message_of m (xi_messageName i)) (xi_filter i) = Inr (e2, c)"
    using assms by (auto simp: XModelValidate_validateAgentCommunication_def bindR_def Let_def split: sum.splits)
  obtain e4 i2 where i2: "(if xi_randomSet (i\<lparr>xi_filter := c\<rparr>) then XModelValidate_validateRandomString (i\<lparr>xi_filter := c\<rparr>)
      else (0, i\<lparr>xi_filter := c\<rparr>)) = (e4, i2)" by fastforce
  then have "xi_messageName i2 = xi_messageName i"
    by (auto simp: XModelValidate_validateRandomString_def split: if_splits)
  moreover have "i' = i2" "message_of m (xi_messageName i) \<noteq> None" "\<not> (xi_sort i2 \<and> xi_random i2)"
    using assms unfolding XModelValidate_validateAgentCommunication_def c Let_def bindR_simps prod.case i2 by auto
  ultimately show ?thesis by (simp add: message_of_iff)
qed

lemma function_accepted:
  assumes "XModelValidate_validateAgentFunction lib m a f = Inr (0, f')"
  shows "function_ok m f'"
proof -
  have keep: "xf_name (snd (XModelValidate_processAgentFunction vs f)) = xf_name f"
    "xf_currentState (snd (XModelValidate_processAgentFunction vs f)) = xf_currentState f"
    "xf_nextState (snd (XModelValidate_processAgentFunction vs f)) = xf_nextState f" for vs
    by (simp_all add: XModelValidate_processAgentFunction_def)
  obtain f1 ins outs where f': "f' = f1\<lparr>xf_inputs := ins, xf_outputs := outs\<rparr>"
    "list_all2 (\<lambda>i i'. XModelValidate_validateAgentCommunication lib m a i = Inr (0, i')) (xf_inputs f1) ins"
    "list_all2 (\<lambda>i i'. XModelValidate_validateAgentCommunication lib m a i = Inr (0, i')) (xf_outputs f1) outs"
    "XModelValidate_name_is_allowed (xf_name f1)" "XModelValidate_name_is_allowed (xf_currentState f1)"
    "XModelValidate_name_is_allowed (xf_nextState f1)"
    using assms unfolding XModelValidate_validateAgentFunction_def XModelValidate_validateAgentFunctionIOput_def validate_all_0 [symmetric]
    by (fastforce simp: Let_def bindR_def keep split: sum.splits)
  have "xi_messageName i \<in> xm_name ` set (xo_messages m) \<and> \<not> (xi_sort i \<and> xi_random i)" if "i \<in> set ins \<union> set outs" for i
    using that list_all2_in2 [OF f'(2)] list_all2_in2 [OF f'(3)] communication_accepted by blast
  then show ?thesis using f'(1,4-6) by (simp add: function_ok_def)
qed

lemma set_fold_insert: "set (fold (\<lambda>f. oset_insert (h f)) fs xs) = set xs \<union> h ` set fs"
  by (induction fs arbitrary: xs) auto

lemma set_fold_erase: "set (fold (\<lambda>f. oset_erase (h f)) fs xs) = set xs - h ` set fs"
  by (induction fs arbitrary: xs) auto

lemma findStartEndStates_one:
  assumes "XMachine_findStartEndStates a = (rc, a')" "rc \<noteq> 1" "rc \<noteq> 2"
  shows "xf_currentState ` set (xa_functions a) - xf_nextState ` set (xa_functions a) = {xa_startState a'}"
    "\<exists>s es. a' = a\<lparr>xa_startState := s, xa_endStates := es\<rparr>"
proof -
  define starts where "starts = fold (\<lambda>f. oset_erase (xf_nextState f)) (xa_functions a)
    (fold (\<lambda>f. oset_insert (xf_currentState f)) (xa_functions a) [])"
  have set: "set starts = xf_currentState ` set (xa_functions a) - xf_nextState ` set (xa_functions a)"
    by (simp add: starts_def set_fold_erase set_fold_insert)
  obtain es where "(rc, a') = (case starts of [] \<Rightarrow> (1, a\<lparr>xa_endStates := es\<rparr>)
      | [s] \<Rightarrow> (0, a\<lparr>xa_endStates := es, xa_startState := s\<rparr>) | _ \<Rightarrow> (2, a\<lparr>xa_endStates := es\<rparr>))"
    using assms(1) unfolding XMachine_findStartEndStates_def Let_def starts_def by metis
  then obtain s where "starts = [s]" "a' = a\<lparr>xa_startState := s, xa_endStates := es\<rparr>"
    using assms(2,3) by (auto split: list.splits)
  then show "xf_currentState ` set (xa_functions a) - xf_nextState ` set (xa_functions a) = {xa_startState a'}"
    "\<exists>s es. a' = a\<lparr>xa_startState := s, xa_endStates := es\<rparr>" using set by auto
qed

text \<open>The states of an agent: one state is not reached from another, and there is a way out of it.\<close>

definition states_ok :: "xmachine \<Rightarrow> bool" where
  "states_ok a \<longleftrightarrow> xf_currentState ` set (xa_functions a) - xf_nextState ` set (xa_functions a) = {xa_startState a}"

lemma stateGraph_accepted:
  assumes "XModelValidate_validateAgentStateGraph lib a = (0, a')"
  shows "states_ok a'" "fst (XGraph_checkCyclicDependencies lib (xa_graph a')) = 0" "fst (XGraph_checkFunctionConditions (xa_graph a')) = 0"
    "xa_graph a' = XGraph_generateStateGraph (xa_functions a') (xa_startState a') (xa_endStates a') (xa_graph a)"
proof -
  obtain rc a1 where 1: "XMachine_findStartEndStates a = (rc, a1)" by fastforce
  then have rc: "rc \<noteq> 1" "rc \<noteq> 2" and a': "a' = XMachine_generateStateGraph a1"
    and 0: "fst (XGraph_checkCyclicDependencies lib (xa_graph a')) = 0" "fst (XGraph_checkFunctionConditions (xa_graph a')) = 0"
    using assms by (auto simp: XModelValidate_validateAgentStateGraph_def Let_def split: if_splits)
  note s = findStartEndStates_one [OF 1 rc]
  have "xa_functions a' = xa_functions a" "xa_startState a' = xa_startState a1"
    using s(2) by (auto simp: a' XMachine_generateStateGraph_def)
  then show "states_ok a'" unfolding states_ok_def using s(1) by simp
  show "xa_graph a' = XGraph_generateStateGraph (xa_functions a') (xa_startState a') (xa_endStates a') (xa_graph a)"
    using s(2) by (auto simp: a' XMachine_generateStateGraph_def)
qed (use assms in \<open>auto simp: XModelValidate_validateAgentStateGraph_def Let_def split: if_splits prod.splits\<close>)

definition agent_ok :: "'v xmodel \<Rightarrow> xmachine \<Rightarrow> bool" where
  "agent_ok m a \<longleftrightarrow> XModelValidate_name_is_allowed (xa_name a) \<and>
     (\<forall>b \<in> set (xo_agents m). xa_name a = xa_name b \<longrightarrow> xa_id a = xa_id b) \<and>
     variables_ok (xo_allowedDataTypes m) True (xa_variables a) \<and> (\<forall>f \<in> set (xa_functions a). function_ok m f) \<and>
     states_ok a \<and> fst (XGraph_checkFunctionConditions (xa_graph a)) = 0"

lemma agent_accepted_ok:
  assumes "agent_accepted lib m a a'"
  shows "agent_ok m a'"
proof -
  obtain vs fs where v: "XModelValidate_validateVariables lib (xo_adts m) (xo_allowedDataTypes m) True (xa_variables a) = (0, vs)"
    and f: "list_all2 (\<lambda>f f'. XModelValidate_validateAgentFunction lib m (a\<lparr>xa_variables := vs\<rparr>) f = Inr (0, f')) (xa_functions a) fs"
    and g: "XModelValidate_validateAgentStateGraph lib (a\<lparr>xa_variables := vs, xa_functions := fs\<rparr>) = (0, a')"
    using assms unfolding agent_accepted_def by blast
  have a': "xa_name a' = xa_name a" "xa_id a' = xa_id a" "xa_variables a' = vs" "xa_functions a' = fs"
    using stateGraph_keeps [OF g] by simp_all
  have "\<forall>f \<in> set fs. function_ok m f" using list_all2_in2 [OF f] function_accepted by blast
  then show ?thesis unfolding agent_ok_def a'
    using assms variables_accepted [OF v] stateGraph_accepted(1,3) [OF g] by (simp add: agent_accepted_def)
qed

section \<open>Messages\<close>

definition message_ok :: "'v xmodel \<Rightarrow> xmessage \<Rightarrow> bool" where
  "message_ok m g \<longleftrightarrow> XModelValidate_name_is_allowed (xm_name g) \<and>
     (\<forall>h \<in> set (xo_messages m). xm_name g = xm_name h \<longrightarrow> xm_id g = xm_id h) \<and>
     variables_ok (xo_allowedDataTypes m) False (xm_variables g)"

text \<open>The messages before place \<open>k\<close> have been accepted.\<close>

definition messages_done :: "'v xmodel \<Rightarrow> nat \<Rightarrow> 'v xmodel \<Rightarrow> bool" where
  "messages_done m0 k m \<longleftrightarrow> (\<exists>ms. m = m0\<lparr>xo_messages := ms\<rparr>) \<and>
     map (\<lambda>g. (xm_id g, xm_name g)) (xo_messages m) = map (\<lambda>g. (xm_id g, xm_name g)) (xo_messages m0) \<and>
     (\<forall>g \<in> set (take k (xo_messages m)). message_ok m0 g)"

lemma message_accepted:
  assumes "messages_done m0 k m" "k < length (xo_messages m0)" "XModelValidate_validateMessage lib k m = Inr (0, m')"
  shows "messages_done m0 (Suc k) m'"
proof -
  define g where "g = xo_messages m ! k"
  obtain e vs where vs: "XModelValidate_validateVariables lib (xo_adts m) (xo_allowedDataTypes m) False (xm_variables g) = (e, vs)" by fastforce
  define g' where "g' = g\<lparr>xm_variables := vs\<rparr>"
  have r: "e = 0" "m' = m\<lparr>xo_messages := (xo_messages m)[k := g']\<rparr>" "XModelValidate_name_is_allowed (xm_name g)"
    "\<forall>h \<in> set (xo_messages m). xm_name g = xm_name h \<longrightarrow> xm_id g = xm_id h"
    using assms(3) vs unfolding XModelValidate_validateMessage_def g_def [symmetric] Let_def
    by (auto simp: filter_empty_conv g'_def)
  have names: "map (\<lambda>g. (xm_id g, xm_name g)) (xo_messages m) = map (\<lambda>g. (xm_id g, xm_name g)) (xo_messages m0)"
    using assms(1) by (simp add: messages_done_def)
  then have k: "k < length (xo_messages m)" using assms(2) by (metis length_map)
  have img: "(\<lambda>g. (xm_id g, xm_name g)) ` set (xo_messages m) = (\<lambda>g. (xm_id g, xm_name g)) ` set (xo_messages m0)"
    using names by (metis set_map)
  have "\<forall>h \<in> set (xo_messages m0). xm_name g = xm_name h \<longrightarrow> xm_id g = xm_id h"
    using r(4) unfolding ball_names [OF img] .
  moreover have "variables_ok (xo_allowedDataTypes m0) False vs" using variables_accepted [of lib] vs r(1) assms(1)
    by (auto simp: messages_done_def)
  ultimately have new: "message_ok m0 g'" using r(3) by (simp add: message_ok_def g'_def)
  have tk: "take (Suc k) (xo_messages m') = take k (xo_messages m) @ [g']" using k by (simp add: r(2) take_Suc_conv_app_nth)
  have names': "map (\<lambda>g. (xm_id g, xm_name g)) (xo_messages m') = map (\<lambda>g. (xm_id g, xm_name g)) (xo_messages m)"
    using k by (simp add: r(2) map_update g'_def g_def list_update_same_conv)
  obtain ms where "m = m0\<lparr>xo_messages := ms\<rparr>" and prev: "\<forall>g \<in> set (take k (xo_messages m)). message_ok m0 g"
    using assms(1) unfolding messages_done_def by blast
  then have m': "m' = m0\<lparr>xo_messages := (xo_messages m)[k := g']\<rparr>" unfolding r(2) by simp
  show ?thesis unfolding messages_done_def tk
  proof (intro conjI)
    show "\<exists>ms. m' = m0\<lparr>xo_messages := ms\<rparr>" using m' by (rule exI)
    show "map (\<lambda>g. (xm_id g, xm_name g)) (xo_messages m') = map (\<lambda>g. (xm_id g, xm_name g)) (xo_messages m0)"
      using names' names by (rule trans)
    show "\<forall>g \<in> set (take k (xo_messages m) @ [g']). message_ok m0 g" using new prev by simp
  qed
qed

lemma messages_accepted:
  assumes "validate_each (XModelValidate_validateMessage lib) [k..<n] (0, m) = Inr (0, m')"
    and "n = length (xo_messages m0)" "messages_done m0 k m" "k \<le> n"
  shows "messages_done m0 n m'"
  using assms
proof (induction "n - k" arbitrary: k m)
  case (Suc d)
  then have "[k..<n] = k # [Suc k..<n]" by (simp add: upt_conv_Cons)
  then obtain m1 where "XModelValidate_validateMessage lib k m = Inr (0, m1)"
    "validate_each (XModelValidate_validateMessage lib) [Suc k..<n] (0, m1) = Inr (0, m')"
    using Suc.prems(1) by (auto simp: validate_each_0 simp del: validate_each.simps)
  moreover have "k < n" using Suc.hyps(2) by simp
  ultimately show ?case using Suc.hyps(1) [of "Suc k" m1] Suc.hyps(2) message_accepted [OF Suc.prems(3)] Suc.prems(2) by simp
qed simp

section \<open>Validated models\<close>

text \<open>A model in which every name, type, message and state that is referred to exists.\<close>

definition model_ok :: "'v xmodel \<Rightarrow> bool" where
  "model_ok m \<longleftrightarrow> (\<forall>f \<in> set (xo_functionFiles m). \<exists>b. f = b @ ''.cpp'') \<and>
     distinct (map xd_name (xo_adts m)) \<and>
     (\<forall>d \<in> set (xo_adts m). XModelValidate_name_is_allowed (xd_name d) \<and>
        variables_ok (xo_allowedDataTypes m) True (xd_variables d)) \<and>
     variables_ok (xo_allowedDataTypes m) False (xo_constants m) \<and> time_units_ok (xo_timeUnits m) \<and>
     (\<forall>a \<in> set (xo_agents m). agent_ok m a) \<and> (\<forall>g \<in> set (xo_messages m). message_ok m g)"

text \<open>The steps of a validation without errors.\<close>

lemma validate_steps:
  assumes "XModel_validate lib m = Inr (0, m')"
  shows "\<exists>m1 m2 m3. (\<forall>f \<in> set (xo_functionFiles m). XModelValidate_validateFunctionFile f = 0) \<and>
    adts_done m (length (xo_adts m)) m1 \<and>
    (\<exists>cs us. XModelValidate_validateVariables lib (xo_adts m1) (xo_allowedDataTypes m1) False (xo_constants m1) = (0, cs) \<and>
       XModelValidate_validateTimeUnits lib (xo_timeUnits m1) = (0, us) \<and>
       m2 = m1\<lparr>xo_constants := cs, xo_timeUnits := us\<rparr>) \<and>
    same_context m2 m3 \<and>
    (\<forall>j < length (xo_agents m2). agent_accepted lib m2 (xo_agents m2 ! j) (xo_agents m3 ! j)) \<and>
    messages_done m3 (length (xo_messages m2)) m'"
proof -
  let ?e0 = "sum_list (map XModelValidate_validateFunctionFile (xo_functionFiles m))"
  obtain e1 m1 where 1: "validate_each (\<lambda>i m. Inr (XModelValidate_validateADT lib i m)) [0..<length (xo_adts m)] (?e0, m) = Inr (e1, m1)"
    using assms by (auto simp: XModel_validate_def XModelValidate_validate_def bindR_def split: sum.splits)
  obtain e2 cs where 2: "XModelValidate_validateVariables lib (xo_adts m1) (xo_allowedDataTypes m1) False (xo_constants m1) = (e2, cs)"
    by fastforce
  obtain e3 us where 3: "XModelValidate_validateTimeUnits lib (xo_timeUnits m1) = (e3, us)" by fastforce
  define m2 where "m2 = m1\<lparr>xo_constants := cs, xo_timeUnits := us\<rparr>"
  have run: "bindR (validate_each (XModelValidate_validateAgent lib) [0..<length (xo_agents m2)] (e1 + e2 + e3, m2))
      (validate_each (XModelValidate_validateMessage lib) [0..<length (xo_messages m2)]) = Inr (0, m')"
    using assms unfolding XModel_validate_def XModelValidate_validate_def 1 bindR_simps prod.case 2 3 Let_def m2_def by simp
  then obtain e4 m3 where 4: "validate_each (XModelValidate_validateAgent lib) [0..<length (xo_agents m2)] (e1 + e2 + e3, m2) = Inr (e4, m3)"
    "validate_each (XModelValidate_validateMessage lib) [0..<length (xo_messages m2)] (e4, m3) = Inr (0, m')"
    by (auto simp: bindR_def split: sum.splits)
  have e: "e4 = 0" "e1 = 0" "e2 = 0" "e3 = 0" "?e0 = 0"
    using validate_each_mono [OF 4(2)] validate_each_mono [OF 4(1)] validate_each_mono [OF 1] by auto
  have start: "adts_done m 0 m" by (simp add: adts_done_def)
  have "adts_done m (length (xo_adts m)) m1"
    using 1 unfolding e by (rule ADTs_accepted) (simp_all add: start)
  moreover have ag: "same_context m2 m3 \<and> (\<forall>j < length (xo_agents m2). agent_accepted lib m2 (xo_agents m2 ! j) (xo_agents m3 ! j))"
    using agents_accepted [of lib 0 "length (xo_agents m2)" m2 m3] 4(1) e by simp
  moreover have "messages_done m3 (length (xo_messages m2)) m'"
  proof (rule messages_accepted)
    show "messages_done m3 0 m3" unfolding messages_done_def by (auto intro: exI [of _ "xo_messages m3"])
    show "length (xo_messages m2) = length (xo_messages m3)" using ag by (simp add: same_context_def same_rest_def)
  qed (use 4(2) e in simp_all)
  moreover have "\<forall>f \<in> set (xo_functionFiles m). XModelValidate_validateFunctionFile f = 0" using e(5) by simp
  ultimately show ?thesis using 2 3 unfolding e m2_def by blast
qed

lemma agent_ok_cong:
  assumes "xo_allowedDataTypes m' = xo_allowedDataTypes m" "xm_name ` set (xo_messages m') = xm_name ` set (xo_messages m)"
    "(\<lambda>a. (xa_id a, xa_name a)) ` set (xo_agents m') = (\<lambda>a. (xa_id a, xa_name a)) ` set (xo_agents m)"
  shows "agent_ok m' a \<longleftrightarrow> agent_ok m a"
  unfolding agent_ok_def function_ok_def assms(1,2) ball_names [OF assms(3)] by (rule refl)

lemma message_ok_cong:
  assumes "xo_allowedDataTypes m' = xo_allowedDataTypes m"
    "(\<lambda>g. (xm_id g, xm_name g)) ` set (xo_messages m') = (\<lambda>g. (xm_id g, xm_name g)) ` set (xo_messages m)"
  shows "message_ok m' g \<longleftrightarrow> message_ok m g"
  unfolding message_ok_def assms(1) ball_names [OF assms(2)] by (rule refl)

lemma validated_ok:
  assumes "XModel_validate lib m = Inr (0, m')"
  shows "model_ok m'"
proof -
  obtain m1 m2 m3 cs us where files: "\<forall>f \<in> set (xo_functionFiles m). XModelValidate_validateFunctionFile f = 0"
    and adts: "adts_done m (length (xo_adts m)) m1"
    and vars: "XModelValidate_validateVariables lib (xo_adts m1) (xo_allowedDataTypes m1) False (xo_constants m1) = (0, cs)"
      "XModelValidate_validateTimeUnits lib (xo_timeUnits m1) = (0, us)" "m2 = m1\<lparr>xo_constants := cs, xo_timeUnits := us\<rparr>"
    and ctx: "same_context m2 m3" and ag: "\<forall>j < length (xo_agents m2). agent_accepted lib m2 (xo_agents m2 ! j) (xo_agents m3 ! j)"
    and msgs: "messages_done m3 (length (xo_messages m2)) m'"
    using validate_steps [OF assms] by blast
  have len: "length (xo_adts m1) = length (xo_adts m)" using adts unfolding adts_done_def by (metis length_map)
  have rest1: "same_rest m m1" "distinct (map xd_name (xo_adts m1))"
    "\<forall>d \<in> set (xo_adts m1). XModelValidate_name_is_allowed (xd_name d) \<and> variables_ok (xo_allowedDataTypes m1) True (xd_variables d)"
    using adts unfolding adts_done_def take_all [OF eq_refl [OF len]] by blast+
  obtain ms where m': "m' = m3\<lparr>xo_messages := ms\<rparr>" using msgs unfolding messages_done_def by blast
  have same: "xo_functionFiles m' = xo_functionFiles m" "xo_adts m' = xo_adts m1" "xo_allowedDataTypes m' = xo_allowedDataTypes m1"
    "xo_constants m' = cs" "xo_timeUnits m' = us" "xo_agents m' = xo_agents m3" "xo_messages m2 = xo_messages m3"
    "xo_allowedDataTypes m2 = xo_allowedDataTypes m1"
    using rest1(1) ctx by (simp_all add: m' vars(3) same_context_def same_rest_def)
  have img_msg: "(\<lambda>g. (xm_id g, xm_name g)) ` set (xo_messages m') = (\<lambda>g. (xm_id g, xm_name g)) ` set (xo_messages m3)"
    using msgs unfolding messages_done_def by (metis set_map)
  then have "snd ` (\<lambda>g. (xm_id g, xm_name g)) ` set (xo_messages m') = snd ` (\<lambda>g. (xm_id g, xm_name g)) ` set (xo_messages m3)" by simp
  then have names: "xm_name ` set (xo_messages m') = xm_name ` set (xo_messages m2)" by (simp add: image_image same)
  have img_ag: "(\<lambda>a. (xa_id a, xa_name a)) ` set (xo_agents m') = (\<lambda>a. (xa_id a, xa_name a)) ` set (xo_agents m2)"
    using ctx unfolding same same_context_def by (metis set_map)
  have al: "xo_allowedDataTypes m' = xo_allowedDataTypes m2" by (simp only: same(3,8))
  have agents: "agent_ok m' a" if a: "a \<in> set (xo_agents m')" for a
  proof -
    have "length (xo_agents m3) = length (xo_agents m2)" using ctx unfolding same_context_def by (metis length_map)
    then obtain j where "j < length (xo_agents m2)" "a = xo_agents m3 ! j" using a unfolding same(6) by (auto simp: in_set_conv_nth)
    then have "agent_ok m2 a" using ag agent_accepted_ok by blast
    then show ?thesis using agent_ok_cong [OF al names img_ag] by blast
  qed
  have "length (xo_messages m') = length (xo_messages m3)" using msgs unfolding messages_done_def by (metis length_map)
  then have messages: "message_ok m' g" if "g \<in> set (xo_messages m')" for g
    using msgs that message_ok_cong [OF _ img_msg] unfolding messages_done_def by (simp add: same m')
  have "\<exists>b. f = b @ ''.cpp''" if "f \<in> set (xo_functionFiles m)" for f
  proof -
    have "drop (length f - 4) f = ''.cpp''" using files that by (auto simp: XModelValidate_validateFunctionFile_def)
    then show ?thesis by (metis append_take_drop_id)
  qed
  then show ?thesis unfolding model_ok_def same
    using rest1(2,3) variables_accepted [OF vars(1)] time_units_accepted [OF vars(2)] agents messages unfolding same by blast
qed

lemma generateGraph_total:
  assumes "\<And>a. a \<in> set as \<Longrightarrow> \<exists>g. XGraph_generateDependencyGraph lib (xa_variables a) (xa_graph a) = Inr g"
  shows "\<exists>as'. agent_graphs lib as = Inr as' \<and>
    list_all2 (\<lambda>a a'. \<exists>g. XGraph_generateDependencyGraph lib (xa_variables a) (xa_graph a) = Inr g \<and> a' = a\<lparr>xa_graph := g\<rparr>) as as'"
  using assms
proof (induction as)
  case (Cons a as)
  obtain g where "XGraph_generateDependencyGraph lib (xa_variables a) (xa_graph a) = Inr g" using Cons.prems by auto
  moreover obtain as' where "agent_graphs lib as = Inr as'"
    "list_all2 (\<lambda>a a'. \<exists>g. XGraph_generateDependencyGraph lib (xa_variables a) (xa_graph a) = Inr g \<and> a' = a\<lparr>xa_graph := g\<rparr>) as as'"
    using Cons by auto
  ultimately show ?case by (auto simp: XMachine_generateDependencyGraph_def bindR_def)
qed simp

lemma acyclic_checked:
  assumes "finds_cycles lib" "fst (XGraph_checkCyclicDependencies lib g) = 0" "edges_within (num_vertices g) (edge_pairs g)"
  shows "acyclic (set (edge_pairs g))"
proof -
  have "dfs_back_edge lib (num_vertices g) (edge_pairs g) = None"
    using assms(2) by (auto simp: XGraph_checkCyclicDependencies_def Let_def split: option.splits)
  then show ?thesis using assms(1) [unfolded finds_cycles_def, rule_format, OF assms(3)] by simp
qed

definition fresh_graph :: "xmachine \<Rightarrow> bool" where
  "fresh_graph a \<longleftrightarrow> (\<exists>n. xa_graph a = XGraph_setAgentName n XGraph_new)"

lemma accepted_agent_graph:
  assumes lib: "sorts_topologically lib" "keeps_paths lib" "finds_cycles lib"
    and a: "agent_accepted lib m a a'" "fresh_graph a"
  shows "\<exists>g ps. XGraph_generateDependencyGraph lib vars (xa_graph a') = Inr g \<and>
    orders_functions (xa_functions a') ps (xa_graph a') g"
proof -
  obtain vs fs where run: "XModelValidate_validateAgentStateGraph lib (a\<lparr>xa_variables := vs, xa_functions := fs\<rparr>) = (0, a')"
    using a(1) unfolding agent_accepted_def by blast
  note acc = stateGraph_accepted [OF run]
  obtain n where "xa_graph a = XGraph_setAgentName n XGraph_new" using a(2) by (auto simp: fresh_graph_def)
  then have gen: "xa_graph a' = XGraph_generateStateGraph (xa_functions a') (xa_startState a') (xa_endStates a') (XGraph_setAgentName n XGraph_new)"
    using acc(4) by simp
  have "gen_ok (xa_startState a') (xa_graph a')"
    using gen_functions [OF gen_new] unfolding gen XGraph_generateStateGraph_def by blast
  then have "edges_within (num_vertices (xa_graph a')) (edge_pairs (xa_graph a'))"
    by (fastforce simp: gen_ok_def edges_within_def edge_pairs_def edge_fits_def)
  then have ac: "acyclic (set (edge_pairs (xa_graph a')))" by (rule acyclic_checked [OF lib(3) acc(2)])
  obtain f where "f \<in> set (xa_functions a')" "xf_currentState f = xa_startState a'"
    using acc(1) unfolding states_ok_def by (metis (no_types, lifting) DiffD1 imageE insertI1)
  then show ?thesis using function_graph [OF lib(1,2) gen ac] by blast
qed

lemma validated_graphs:
  assumes lib: "sorts_topologically lib" "keeps_paths lib" "finds_cycles lib"
    and fresh: "\<And>a. a \<in> set (xo_agents m) \<Longrightarrow> fresh_graph a" and run: "XModel_validate lib m = Inr (0, m')"
  shows "\<exists>m'' g. XModel_generateGraph lib m' = Inr (m'', g) \<and> length (xo_agents m'') = length (xo_agents m') \<and>
    (\<forall>k < length (xo_agents m'). \<exists>ps. orders_functions (xa_functions (xo_agents m' ! k)) ps
       (xa_graph (xo_agents m' ! k)) (xa_graph (xo_agents m'' ! k)))"
proof -
  obtain m1 m2 m3 cs us where adts: "adts_done m (length (xo_adts m)) m1"
    and m2: "m2 = m1\<lparr>xo_constants := cs, xo_timeUnits := us\<rparr>"
    and ctx: "same_context m2 m3" and ag: "\<forall>j < length (xo_agents m2). agent_accepted lib m2 (xo_agents m2 ! j) (xo_agents m3 ! j)"
    and msgs: "messages_done m3 (length (xo_messages m2)) m'"
    using validate_steps [OF run] by blast
  have "xo_agents m1 = xo_agents m" using adts by (simp add: adts_done_def)
  then have m: "xo_agents m2 = xo_agents m" by (simp add: m2)
  have m': "xo_agents m' = xo_agents m3" using msgs by (auto simp: messages_done_def)
  have len: "length (xo_agents m3) = length (xo_agents m)" using ctx unfolding same_context_def m [symmetric] by (metis length_map)
  have each: "\<exists>g ps. XGraph_generateDependencyGraph lib vars (xa_graph (xo_agents m' ! k)) = Inr g \<and>
      orders_functions (xa_functions (xo_agents m' ! k)) ps (xa_graph (xo_agents m' ! k)) g" if "k < length (xo_agents m')" for k vars
  proof -
    have k: "k < length (xo_agents m)" using that len m' by simp
    then have "agent_accepted lib m2 (xo_agents m ! k) (xo_agents m' ! k)" using ag m m' by simp
    then show ?thesis by (rule accepted_agent_graph [OF lib]) (rule fresh, use k in simp)
  qed
  then have "\<exists>g. XGraph_generateDependencyGraph lib (xa_variables a) (xa_graph a) = Inr g" if "a \<in> set (xo_agents m')" for a
    using that by (metis in_set_conv_nth)
  then obtain as' where as': "agent_graphs lib (xo_agents m') = Inr as'"
    "list_all2 (\<lambda>a a'. \<exists>g. XGraph_generateDependencyGraph lib (xa_variables a) (xa_graph a) = Inr g \<and> a' = a\<lparr>xa_graph := g\<rparr>) (xo_agents m') as'"
    using generateGraph_total by blast
  have "\<exists>ps. orders_functions (xa_functions (xo_agents m' ! k)) ps (xa_graph (xo_agents m' ! k)) (xa_graph (as' ! k))"
    if k: "k < length (xo_agents m')" for k
  proof -
    obtain g where "XGraph_generateDependencyGraph lib (xa_variables (xo_agents m' ! k)) (xa_graph (xo_agents m' ! k)) = Inr g"
      "as' ! k = (xo_agents m' ! k)\<lparr>xa_graph := g\<rparr>"
      using list_all2_nthD [OF as'(2) k] by blast
    then show ?thesis using each [OF k, of "xa_variables (xo_agents m' ! k)"] by auto
  qed
  then show ?thesis using as' by (auto simp: XModel_generateGraph_def bindR_def dest: list_all2_lengthD)
qed



text \<open>
  C7. For every accepted model whose agents' graphs have not been generated before, the graph
  of the model can be generated without an exception, and in the task graph of each agent any
  two transition functions that follow each other through the states and conflict on a
  variable are ordered by a path of dependencies.
\<close>

theorem validated_model_keeps_function_order:
  assumes "sorts_topologically lib" "keeps_paths lib" "finds_cycles lib"
    and "\<And>a. a \<in> set (xo_agents m) \<Longrightarrow> fresh_graph a" and "XModel_validate lib m = Inr (0, m')"
  shows "\<exists>m'' g. XModel_generateGraph lib m' = Inr (m'', g) \<and> length (xo_agents m'') = length (xo_agents m') \<and>
    (\<forall>k < length (xo_agents m'). \<exists>ps. orders_functions (xa_functions (xo_agents m' ! k)) ps
       (xa_graph (xo_agents m' ! k)) (xa_graph (xo_agents m'' ! k)))"
  using assms by (rule validated_graphs)

text \<open>One agent with two functions in sequence that both write \<open>x\<close>, and a message.\<close>

definition sample_model :: "nat xmodel" where
  "sample_model =
     (let m = snd (XModel_addMessage ''m'' (snd (XModel_addAgent ''A'' XModel_new)))
      in m\<lparr>xo_agents := map (\<lambda>a. (XMachine_addVariable ''int'' ''x'' a)\<lparr>xa_functions := sample_functions\<rparr>) (xo_agents m)\<rparr>)"

lemma sample_model_valid: "\<exists>m'. XModel_validate simple_library sample_model = Inr (0, m')"
proof -
  have "(case XModel_validate simple_library sample_model of Inl _ \<Rightarrow> False | Inr (n, _) \<Rightarrow> n = 0)" by code_simp
  then show ?thesis by (auto split: sum.splits)
qed


lemma sample_model_fresh: "a \<in> set (xo_agents sample_model) \<Longrightarrow> fresh_graph a"
  by (auto simp: sample_model_def fresh_graph_def XModel_addMessage_def XModel_addAgent_def XModel_getAgent_def XModel_new_def
      XMachine_addVariable_def XMachine_setName_def XMachine_new_def)

theorem validated_model_keeps_function_order_witness:
  "\<exists>m' m'' g. XModel_validate simple_library sample_model = Inr (0, m') \<and> XModel_generateGraph simple_library m' = Inr (m'', g) \<and>
     length (xo_agents m'') = 1 \<and>
     (\<exists>p q. p \<noteq> q \<and> (p, q) \<in> (task_rel (\<lambda>_. True) (xa_graph (xo_agents m'' ! 0)))\<^sup>+)"
proof -
  have "(case XModel_validate simple_library sample_model of Inl _ \<Rightarrow> False | Inr (n, m') \<Rightarrow> n = 0 \<and>
      length (xo_agents m') = 1 \<and> xa_functions (xo_agents m' ! 0) = sample_functions)" by code_simp
  then obtain m' where m': "XModel_validate simple_library sample_model = Inr (0, m')" "length (xo_agents m') = 1"
    "xa_functions (xo_agents m' ! 0) = sample_functions" by (auto split: sum.splits)
  obtain m'' g ps where g: "XModel_generateGraph simple_library m' = Inr (m'', g)" "length (xo_agents m'') = 1"
    "orders_functions sample_functions ps (xa_graph (xo_agents m' ! 0)) (xa_graph (xo_agents m'' ! 0))"
    using validated_model_keeps_function_order [OF simple_library_sorts simple_library_keeps_paths simple_library_finds_cycles
        sample_model_fresh m'(1)] m'(2,3) by auto
  have "(0, 1) \<in> (leads_to sample_functions)\<^sup>+" "functions_conflict (sample_functions ! 0) (sample_functions ! 1)"
    by (auto simp: leads_to_def functions_conflict_def sample_functions_def XFunction_new_def intro!: r_into_trancl)
  then have "(ps ! 0, ps ! 1) \<in> (task_rel (\<lambda>_. True) (xa_graph (xo_agents m'' ! 0)))\<^sup>+"
    using g(3) unfolding orders_functions_def by blast
  moreover have "ps ! 0 \<noteq> ps ! 1" using g(3) by (auto simp: orders_functions_def nth_eq_iff_index_eq sample_functions_def)
  ultimately show ?thesis using m'(1) g(1,2) by blast
qed

end
