(* ===== verification/Model_Class.thy ===== *)
theory Model_Class
  imports Validated_Models
begin

text \<open>
  The class \<open>Model\<close> of \<open>src/flame2/model/model.cpp\<close>: a model with a flag that tells whether it has
  been validated since it was changed, and what happens when it is validated again.
\<close>

section \<open>The class Model\<close>

record 'v model_state =
  mo_model :: "'v xmodel"
  mo_validated :: bool

definition Model_new :: "'v model_state" where
  "Model_new = \<lparr>mo_model = XModel_new, mo_validated = False\<rparr>"

definition Model_registerAgentFunction :: "string \<Rightarrow> 'v agent_fun option \<Rightarrow> 'v model_state \<Rightarrow> 'v model_state" where
  "Model_registerAgentFunction name f mo = mo\<lparr>mo_model := XModel_registerAgentFunction name f (mo_model mo)\<rparr>"

definition Model_validate :: "library \<Rightarrow> ('v model_state, unit) exec" where
  "Model_validate lib mo =
     (case XModel_validate lib (mo_model mo) of
        Inl e \<Rightarrow> (Inl e, mo)
      | Inr (n, m) \<Rightarrow>
          if n \<noteq> 0 then (Inl (flame_model_exception ''Model could not be validated''), mo\<lparr>mo_model := m\<rparr>)
          else (Inr (), mo\<lparr>mo_model := m, mo_validated := True\<rparr>))"

definition Model_addAgent :: "string \<Rightarrow> 'v model_state \<Rightarrow> 'v model_state" where
  "Model_addAgent name mo = mo\<lparr>mo_model := snd (XModel_addAgent name (mo_model mo)), mo_validated := False\<rparr>"

definition Model_getAgent :: "string \<Rightarrow> ('v model_state, nat) exec" where
  "Model_getAgent name mo =
     (case XModel_getAgent name (mo_model mo) of
        Some i \<Rightarrow> (Inr i, mo)
      | None \<Rightarrow> (Inl (flame_model_exception ''Agent does not exist''), mo))"

definition update_agent :: "nat \<Rightarrow> (xmachine \<Rightarrow> xmachine) \<Rightarrow> 'v model_state \<Rightarrow> 'v model_state" where
  "update_agent i f mo =
     mo\<lparr>mo_model := (mo_model mo)\<lparr>xo_agents := (xo_agents (mo_model mo))[i := f (xo_agents (mo_model mo) ! i)]\<rparr>, mo_validated := False\<rparr>"

definition Model_addAgentVariable :: "string \<Rightarrow> string \<Rightarrow> string \<Rightarrow> ('v model_state, unit) exec" where
  "Model_addAgentVariable agent_name type name =
     bindE (Model_getAgent agent_name) (\<lambda>i mo. (Inr (), update_agent i (XMachine_addVariable type name) mo))"

definition Model_addAgentFunction :: "string \<Rightarrow> string \<Rightarrow> string \<Rightarrow> string \<Rightarrow> ('v model_state, unit) exec" where
  "Model_addAgentFunction agent_name name current_state next_state =
     bindE (Model_getAgent agent_name) (\<lambda>i mo. (Inr (), update_agent i (XMachine_addFunction name current_state next_state) mo))"

text \<open>A change of a function that may throw; then the flag is not reset.\<close>

definition with_function ::
  "string \<Rightarrow> string \<Rightarrow> string \<Rightarrow> string \<Rightarrow> (xfunction, unit) exec \<Rightarrow> ('v model_state, unit) exec" where
  "with_function agent_name func_name current_state next_state change =
     bindE (Model_getAgent agent_name) (\<lambda>i mo.
       let a = xo_agents (mo_model mo) ! i
       in case XMachine_getFunction a func_name current_state next_state of
            Inl e \<Rightarrow> (Inl e, mo)
          | Inr j \<Rightarrow>
              (case change (xa_functions a ! j) of
                 (Inl e, _) \<Rightarrow> (Inl e, mo)
               | (Inr _, f) \<Rightarrow> (Inr (), update_agent i (\<lambda>a. a\<lparr>xa_functions := (xa_functions a)[j := f]\<rparr>) mo)))"

definition Model_addAgentFunctionInput :: "string \<Rightarrow> string \<Rightarrow> string \<Rightarrow> string \<Rightarrow> string \<Rightarrow> ('v model_state, unit) exec" where
  "Model_addAgentFunctionInput agent_name func_name current_state next_state name =
     with_function agent_name func_name current_state next_state (\<lambda>f. (Inr (), XFunction_addInput name f))"

definition Model_addAgentFunctionOutput :: "string \<Rightarrow> string \<Rightarrow> string \<Rightarrow> string \<Rightarrow> string \<Rightarrow> ('v model_state, unit) exec" where
  "Model_addAgentFunctionOutput agent_name func_name current_state next_state name =
     with_function agent_name func_name current_state next_state (\<lambda>f. (Inr (), XFunction_addOutput name f))"

definition Model_addAgentFunctionReadWriteVariable ::
  "string \<Rightarrow> string \<Rightarrow> string \<Rightarrow> string \<Rightarrow> string \<Rightarrow> ('v model_state, unit) exec" where
  "Model_addAgentFunctionReadWriteVariable agent_name func_name current_state next_state name =
     with_function agent_name func_name current_state next_state (XFunction_addReadWriteVariable name)"

definition Model_addAgentFunctionReadOnlyVariable ::
  "string \<Rightarrow> string \<Rightarrow> string \<Rightarrow> string \<Rightarrow> string \<Rightarrow> ('v model_state, unit) exec" where
  "Model_addAgentFunctionReadOnlyVariable agent_name func_name current_state next_state name =
     with_function agent_name func_name current_state next_state (XFunction_addReadOnlyVariable name)"

definition Model_addMessage :: "string \<Rightarrow> 'v model_state \<Rightarrow> 'v model_state" where
  "Model_addMessage name mo = mo\<lparr>mo_model := snd (XModel_addMessage name (mo_model mo)), mo_validated := False\<rparr>"

text \<open>The message is not checked to exist: a null pointer is dereferenced when it does not.\<close>

definition Model_addMessageVariable :: "string \<Rightarrow> string \<Rightarrow> string \<Rightarrow> ('v model_state, unit) exec" where
  "Model_addMessageVariable message_name type name mo =
     (let m = mo_model mo
      in case XModel_getMessage message_name m of
           None \<Rightarrow> (Inl (UB ''null message''), mo)
         | Some i \<Rightarrow>
             (Inr (), mo\<lparr>mo_model := m\<lparr>xo_messages := (xo_messages m)[i := XMessage_addVariable type name (xo_messages m ! i)]\<rparr>,
                         mo_validated := False\<rparr>))"

section \<open>Validating again\<close>

text \<open>A model with an agent, a variable and a function, built by the operations of the class.\<close>

definition build_model :: "(nat model_state, unit) exec" where
  "build_model mo =
     bindE (Model_addAgentVariable ''A'' ''int'' ''x'')
       (\<lambda>_. bindE (Model_addAgentFunction ''A'' ''f'' ''0'' ''1'')
         (\<lambda>_. Model_addAgentFunctionReadWriteVariable ''A'' ''f'' ''0'' ''1'' ''x'')) (Model_addAgent ''A'' mo)"

text \<open>
  A model cannot be validated twice, although adding to a validated model resets the flag
  so that it has to be: a model with one agent and one function is accepted, then a message is
  added and it is rejected. Its state graph has been generated a second time into the same
  graph, where the function now occurs twice and seems to lack a condition.
\<close>

theorem second_validation_rejects:
  "\<exists>mo mo' mo''. build_model Model_new = (Inr (), mo) \<and> Model_validate simple_library mo = (Inr (), mo') \<and> mo_validated mo' \<and>
     Model_validate simple_library (Model_addMessage ''m'' mo') =
       (Inl (flame_model_exception ''Model could not be validated''), mo'') \<and> \<not> mo_validated mo''"
proof -
  have "(case build_model Model_new of (Inl _, _) \<Rightarrow> False | (Inr _, mo) \<Rightarrow>
      (case Model_validate simple_library mo of (Inl _, _) \<Rightarrow> False | (Inr _, mo') \<Rightarrow> mo_validated mo' \<and>
        (case Model_validate simple_library (Model_addMessage ''m'' mo') of (Inr _, _) \<Rightarrow> False
         | (Inl e, mo'') \<Rightarrow> e = flame_model_exception ''Model could not be validated'' \<and> \<not> mo_validated mo'')))"
    by code_simp
  then show ?thesis by (fastforce split: prod.splits sum.splits)
qed

end
