(* ===== verification/Simulation_Runs.thy ===== *)
theory Simulation_Runs
  imports Iteration IO_Manager Model_Class
begin

text \<open>
  \<open>src/flame2/sim/simulation.cpp\<close> as a whole: a simulation is made for a validated model and a
  population, registers the model with the managers and runs its iterations one after the other.
  One iteration is a run of the scheduler and its workers as in \<open>Scheduler\<close>.
\<close>

text \<open>
  The second constructor of the class \<open>Model\<close>: a model that is read from a file is validated.
\<close>

definition Model_load ::
    "library \<Rightarrow> nat \<Rightarrow> ('d, 'doc, 'p, 's, 'c) io_library \<Rightarrow> string \<Rightarrow> (exn + 'v model_state) option" where
  "Model_load lib depth io path_to_model =
     (case IOManager_loadModel depth io path_to_model XModel_new of
        None \<Rightarrow> None
      | Some (Inl e, _) \<Rightarrow> Some (Inl e)
      | Some (Inr _, m) \<Rightarrow>
          (case Model_validate lib \<lparr>mo_model = m, mo_validated = False\<rparr> of
             (Inl e, _) \<Rightarrow> Some (Inl e) | (Inr _, mo) \<Rightarrow> Some (Inr mo)))"

text \<open>A model that has been loaded is accepted by the constructor of a simulation.\<close>

lemma loaded_model_validated:
  "Model_load lib depth io path = Some (Inr mo) \<Longrightarrow>
   mo_validated mo \<and> (\<exists>m. IOManager_loadModel depth io path XModel_new = Some (Inr (), m) \<and> XModel_validate lib m = Inr (0, mo_model mo))"
  by (auto simp: Model_load_def Model_validate_def split: option.splits prod.splits sum.splits if_splits)
section \<open>The class Simulation\<close>

definition Simulation_new ::
    "build \<Rightarrow> ('d, 'doc, 'p, 's, 'c) io_library \<Rightarrow> 'v model_state \<Rightarrow> string \<Rightarrow> ('d io_world, 'v xmodel) exec" where
  "Simulation_new b lib model pop_file w =
     (if \<not> mo_validated model
      then (Inl (flame_sim_exception ''Model added to a simulation has not be validated''), w)
      else case XModel_registerWithMemoryManager (mo_model model) (iw_memory w) of
          (Inl e, mm) \<Rightarrow> (Inl e, w\<lparr>iw_memory := mm\<rparr>)
        | (Inr _, mm) \<Rightarrow>
            bindE (IOManager_readPop b lib pop_file (mo_model model) 0) (\<lambda>_. returnE (mo_model model)) (w\<lparr>iw_memory := mm\<rparr>))"

text \<open>
  The loop over the iterations with its counter, an \<open>unsigned int\<close>. An iteration is any complete
  run of the threads without an exception; what each iteration executed is kept in a list.
\<close>

inductive sim_loop ::
    "build \<Rightarrow> 'v io_backend \<Rightarrow> size_t \<Rightarrow> 32 word \<Rightarrow> 'v system \<Rightarrow> nat list list \<Rightarrow> 'v system \<Rightarrow> bool"
  for b io iterations where
  sim_stop: "\<not> ucast ii \<le> iterations \<Longrightarrow> sim_loop b io iterations ii s [] s"
| sim_iterate: "ucast ii \<le> iterations \<Longrightarrow> sys_run b io (RunIteration_begin s) ths s' \<Longrightarrow>
    sys_phase s' = Finished \<Longrightarrow> sys_crashed s' = None \<Longrightarrow> sim_loop b io iterations (ii + 1) s' logs s'' \<Longrightarrow>
    sim_loop b io iterations ii s (sys_log s' # logs) s''"

inductive_cases sim_loopE: "sim_loop b io iterations ii s logs s'"

text \<open>
  \<open>Simulation::start\<close>, when nothing throws; \<open>i\<close> is the iteration number that the IO manager has.
\<close>

definition Simulation_start ::
    "library \<Rightarrow> build \<Rightarrow> 'v io_backend \<Rightarrow> size_t \<Rightarrow> size_t \<Rightarrow> 'v xmodel \<times> 'v managers \<Rightarrow> size_t \<Rightarrow> nat list list \<Rightarrow> 'v system \<Rightarrow> bool" where
  "Simulation_start lib b io iterations num_cores st i logs s \<longleftrightarrow>
     (\<exists>m mg. XModel_registerWithTaskManager lib b st = (Inr (), (m, mg)) \<and>
        fst (Simulation_setup num_cores (Scheduler_new 1) :: _ \<times> 'v scheduler) = Inr () \<and>
        sim_loop b io iterations 1
          (Simulation_system num_cores (mg_tm mg) \<lparr>w_mem = mg_mem mg, w_mb = mg_mb mg, w_iteration = i\<rparr>) logs s)"

section \<open>All iterations\<close>

text \<open>An iteration runs every task once, after the tasks it depends on.\<close>

definition complete_log :: "'v task_manager \<Rightarrow> nat list \<Rightarrow> bool" where
  "complete_log tm xs \<longleftrightarrow> mset xs = mset [0..<length (tm_tasks tm)] \<and>
     (\<forall>j < length xs. set (parents tm ! (xs ! j)) \<subseteq> set (take j xs))"

lemma iteration_complete:
  assumes "sys_ready s" "roots (sys_tm s) \<noteq> []"
    and "sys_run b io (RunIteration_begin s) ths s'" "sys_phase s' = Finished" "sys_crashed s' = None"
  shows "complete_log (sys_tm s) (sys_log s') \<and> sys_ready s' \<and> parents (sys_tm s') = parents (sys_tm s) \<and>
    tm_tasks (sys_tm s') = tm_tasks (sys_tm s)"
proof -
  note ini = begin_inv [OF assms(1,2)]
  note fin = sys_run_Finished [OF assms(3) ini(1) assms(4,5)]
  then show ?thesis using iteration_complete_order [of s'] ini(2,3) by (simp add: complete_log_def)
qed

lemma roots_same:
  assumes "sys_ready s" "sys_ready s'" "parents (sys_tm s') = parents (sys_tm s)" "tm_tasks (sys_tm s') = tm_tasks (sys_tm s)"
  shows "roots (sys_tm s') \<noteq> [] \<longleftrightarrow> roots (sys_tm s) \<noteq> []"
proof -
  have "set (roots (sys_tm t)) = {i. i < length (tm_tasks (sys_tm t)) \<and> parents (sys_tm t) ! i = []}" if "sys_ready t" for t :: "'a system"
    using that by (simp add: sys_ready_def tm_ok_def)
  from this [OF assms(1)] this [OF assms(2)] show ?thesis using assms(3,4) by (metis set_empty)
qed

lemma ucast_counter: "unat (ucast (ii :: 32 word) :: size_t) = unat ii"
proof -
  have "unat ii < 2 ^ 32" using unsigned_less [of ii, where ?'a = nat] by simp
  then show ?thesis by (simp add: unsigned_ucast_eq take_bit_nat_eq_self)
qed

lemma sim_loop_complete:
  assumes "sim_loop b io iterations ii s logs s'" "sys_ready s" "roots (sys_tm s) \<noteq> []"
    and "unat iterations < 4294967295" "unat ii \<le> Suc (unat iterations)"
  shows "length logs = Suc (unat iterations) - unat ii \<and> list_all (complete_log (sys_tm s)) logs \<and> sys_ready s'"
  using assms
proof induction
  case (sim_stop ii s)
  then show ?case by (simp add: word_le_nat_alt ucast_counter)
next
  case (sim_iterate ii s ths s1 logs s'')
  then have le: "unat ii \<le> unat iterations" by (simp add: word_le_nat_alt ucast_counter)
  note it = iteration_complete [OF sim_iterate.prems(1,2) sim_iterate.hyps(2-4)]
  have "unat (ii + 1) = Suc (unat ii)"
    using le sim_iterate.prems(3) by (simp add: unat_word_ariths)
  moreover have "complete_log (sys_tm s1) = complete_log (sys_tm s)"
    using it by (simp add: complete_log_def fun_eq_iff)
  moreover have "roots (sys_tm s1) \<noteq> []" using roots_same it sim_iterate.prems(1,2) by blast
  ultimately show ?case using sim_iterate.IH sim_iterate.prems(3) it le by (simp add: Suc_diff_le)
qed

text \<open>
  C9. A simulation runs all its iterations: when the loop ends without an exception, from a scheduler
  that is ready and a task graph with a task to start with, and for fewer than 2^32 - 1
  iterations, then exactly the requested number of iterations has been run, and each has
  executed every task once, after the tasks it depends on.
\<close>

theorem simulation_runs_every_iteration:
  assumes "sim_loop b io iterations 1 s logs s'" "sys_ready s" "roots (sys_tm s) \<noteq> []"
    and "unat iterations < 4294967295"
  shows "length logs = unat iterations \<and>
    (\<forall>xs \<in> set logs. mset xs = mset [0..<length (tm_tasks (sys_tm s))] \<and>
      (\<forall>j < length xs. set (parents (sys_tm s) ! (xs ! j)) \<subseteq> set (take j xs)))"
  using sim_loop_complete [OF assms] by (simp add: list_all_iff complete_log_def)

theorem simulation_runs_every_iteration_witness:
  "\<exists>logs s'. sim_loop Debug sample_io 1 1 sample_system logs s' \<and> length logs = 1 \<and>
     (\<forall>xs \<in> set logs. mset xs = mset [0, 1, 2])"
proof -
  let ?ths = "one_task @ one_task @ one_task @ [SchedulerThread]"
  have "case run_threads Debug sample_io ?ths (RunIteration_begin sample_system) of None \<Rightarrow> False
    | Some s' \<Rightarrow> sys_phase s' = Finished \<and> sys_crashed s' = None"
    by (simp add: sample_eval sample_system_ok(3) sample_tm_ok(5))
  then obtain s' where run: "run_threads Debug sample_io ?ths (RunIteration_begin sample_system) = Some s'"
    and s': "sys_phase s' = Finished" "sys_crashed s' = None"
    by (auto split: option.splits)
  have "sim_loop Debug sample_io 1 1 sample_system [sys_log s'] s'"
    using sim_iterate [OF _ run_threads_start [OF run] s' sim_stop] by (simp add: word_le_nat_alt ucast_counter)
  from simulation_runs_every_iteration [OF this sample_system_ok(1) sample_roots(1)] this
  show ?thesis by (auto simp: sample_system_ok(3) sample_tm_ok(3) upt_rec)
qed

text \<open>
  C38. The counter is narrower than the number of iterations it is compared with: for 2^32 - 1
  iterations or more it wraps around to 0 and the loop does not end.
\<close>

theorem iteration_counter_wraps:
  assumes "4294967295 \<le> unat iterations"
  shows "\<not> sim_loop b io iterations ii s logs s'"
proof
  assume "sim_loop b io iterations ii s logs s'"
  then show False
  proof induction
    case (sim_stop ii s)
    have "unat ii < 2 ^ 32" using unsigned_less [of ii, where ?'a = nat] by simp
    with sim_stop assms show False by (simp add: word_le_nat_alt ucast_counter)
  qed
qed

theorem iteration_counter_wraps_witness:
  "\<not> (\<exists>logs s'. sim_loop Debug sample_io 4294967295 1 sample_system logs s')"
  using iteration_counter_wraps [of "4294967295 :: size_t" Debug sample_io 1 sample_system] by auto

end
