(* ===== verification/Printer.thy ===== *)
theory Printer
  imports Model_Class
begin

text \<open>
  \<open>src/xparser2/printer.cpp\<close>: the printer through which the code generator writes its files. It
  replaces variables between delimiters by their values and indents the lines. The stream it
  writes to is the text written so far; a C string is the list of its characters before the
  terminating NUL; the \<open>int\<close> positions in a text do not overflow.
\<close>

section \<open>The printer\<close>

abbreviation newline :: char where
  "newline \<equiv> CHR 0x0A"

record printer =
  pr_out :: string
  pr_indent :: string
  pr_delim :: char
  pr_at_start :: bool

definition Printer_new :: "char \<Rightarrow> printer" where
  "Printer_new delimiter = \<lparr>pr_out = [], pr_indent = [], pr_delim = delimiter, pr_at_start = True\<rparr>"

definition Printer_Indent :: "printer \<Rightarrow> printer" where
  "Printer_Indent p = p\<lparr>pr_indent := pr_indent p @ ''  ''\<rparr>"

definition Printer_Outdent :: "(printer, unit) exec" where
  "Printer_Outdent p =
     (if pr_indent p = [] then (Inl (invalid_operation ''Outdent() without matching Indent().''), p)
      else (Inr (), p\<lparr>pr_indent := take (length (pr_indent p) - 2) (pr_indent p)\<rparr>))"

definition Printer_write :: "string \<Rightarrow> printer \<Rightarrow> printer" where
  "Printer_write data p =
     (let p1 = (if pr_at_start p \<and> 0 < length data \<and> hd data \<noteq> newline
                then p\<lparr>pr_at_start := False, pr_out := pr_out p @ pr_indent p\<rparr> else p)
      in p1\<lparr>pr_out := pr_out p1 @ data\<rparr>)"

text \<open>
  The loop over the text: \<open>i\<close> is the position of the character looked at, \<open>pos\<close> the first that has
  not been written yet. A variable map is an ordered map of \<open>Prelude\<close>.
\<close>

function Print_loop :: "string \<Rightarrow> (string \<times> string) list \<Rightarrow> nat \<Rightarrow> nat \<Rightarrow> (printer, unit) exec" where
  "Print_loop text vars i pos p =
     (if i < length text then
        if text ! i = newline then
          Print_loop text vars (Suc i) (Suc i)
            ((Printer_write (take (i - pos + 1) (drop pos text)) p)\<lparr>pr_at_start := True\<rparr>)
        else if text ! i = pr_delim p then
          (let p1 = Printer_write (take (i - pos) (drop pos text)) p in
           case find_index ((=) (pr_delim p)) (drop (Suc i) text) of
             None \<Rightarrow> (Inl (invalid_argument ''Closing delimiter not found''), p1)
           | Some n \<Rightarrow>
               (let varname = take n (drop (Suc i) text); endpos = Suc i + n in
                if varname = [] then
                  Print_loop text vars (Suc endpos) (Suc endpos) (Printer_write [pr_delim p] p1)
                else
                  (case map_of vars varname of
                     None \<Rightarrow> (Inl (invalid_argument (''Unknown var - '' @ varname)), p1)
                   | Some v \<Rightarrow> Print_loop text vars (Suc endpos) (Suc endpos) (Printer_write v p1))))
        else Print_loop text vars (Suc i) pos p
      else (Inr (), Printer_write (drop pos text) p))"
  by pat_completeness auto
termination
  by (relation "measure (\<lambda>(text, _, i, _, _). length text - i)") auto

declare Print_loop.simps [simp del]

definition Printer_Print :: "string \<Rightarrow> (string \<times> string) list \<Rightarrow> (printer, unit) exec" where
  "Printer_Print text vars = Print_loop text vars 0 0"

definition Printer_Print0 :: "string \<Rightarrow> (printer, unit) exec" where
  "Printer_Print0 text = Printer_Print text []"

definition Printer_Print1 :: "string \<Rightarrow> string \<Rightarrow> string \<Rightarrow> (printer, unit) exec" where
  "Printer_Print1 text var value = Printer_Print text (omap_put var value [])"

definition Printer_Print2 :: "string \<Rightarrow> string \<Rightarrow> string \<Rightarrow> string \<Rightarrow> string \<Rightarrow> (printer, unit) exec" where
  "Printer_Print2 text var1 value1 var2 value2 =
     Printer_Print text (omap_put var2 value2 (omap_put var1 value1 []))"

definition Printer_Print3 ::
    "string \<Rightarrow> string \<Rightarrow> string \<Rightarrow> string \<Rightarrow> string \<Rightarrow> string \<Rightarrow> string \<Rightarrow> (printer, unit) exec" where
  "Printer_Print3 text var1 value1 var2 value2 var3 value3 =
     Printer_Print text (omap_put var3 value3 (omap_put var2 value2 (omap_put var1 value1 [])))"

definition Printer_PrintRaw :: "string \<Rightarrow> (printer, unit) exec" where
  "Printer_PrintRaw text p = (Inr (), Printer_write text p)"

text \<open>\<open>read\<close> gives the bytes of a file that can be opened.\<close>

definition get_cstr_from_file :: "(string \<Rightarrow> string option) \<Rightarrow> string \<Rightarrow> exn + string" where
  "get_cstr_from_file read filename =
     (case read filename of
        None \<Rightarrow> Inl (invalid_argument (''Error reading file : '' @ filename))
      | Some bytes \<Rightarrow> Inr (takeWhile (\<lambda>c. c \<noteq> CHR 0x00) bytes))"

definition Printer_PrintFromFile ::
    "(string \<Rightarrow> string option) \<Rightarrow> string \<Rightarrow> (string \<times> string) list \<Rightarrow> (printer, unit) exec" where
  "Printer_PrintFromFile read filename vars p =
     (case get_cstr_from_file read filename of
        Inl e \<Rightarrow> (Inl e, p) | Inr buffer \<Rightarrow> Printer_Print buffer vars p)"

definition Printer_PrintFromFile0 :: "(string \<Rightarrow> string option) \<Rightarrow> string \<Rightarrow> (printer, unit) exec" where
  "Printer_PrintFromFile0 read filename p =
     (case get_cstr_from_file read filename of
        Inl e \<Rightarrow> (Inl e, p) | Inr buffer \<Rightarrow> Printer_Print0 buffer p)"

definition Printer_PrintRawFromFile :: "(string \<Rightarrow> string option) \<Rightarrow> string \<Rightarrow> (printer, unit) exec" where
  "Printer_PrintRawFromFile read filename p =
     (case get_cstr_from_file read filename of
        Inl e \<Rightarrow> (Inl e, p) | Inr buffer \<Rightarrow> Printer_PrintRaw buffer p)"

section \<open>What printing means\<close>

text \<open>Lines with the indent before each one that is not empty; \<open>b\<close> tells whether a line starts.\<close>

fun indented :: "string \<Rightarrow> bool \<Rightarrow> string \<Rightarrow> string" where
  "indented ind b [] = []"
| "indented ind b (c # cs) =
     (if b \<and> c \<noteq> newline then ind else []) @ c # indented ind (c = newline) cs"

definition at_line_start :: "bool \<Rightarrow> string \<Rightarrow> bool" where
  "at_line_start b s = (if s = [] then b else last s = newline)"

definition emit :: "string \<Rightarrow> printer \<Rightarrow> printer" where
  "emit s p = p\<lparr>pr_out := pr_out p @ indented (pr_indent p) (pr_at_start p) s,
     pr_at_start := at_line_start (pr_at_start p) s\<rparr>"

text \<open>The text with its variables replaced, up to the first error.\<close>

function substitute :: "char \<Rightarrow> (string \<times> string) list \<Rightarrow> string \<Rightarrow> (exn + unit) \<times> string" where
  "substitute d vars [] = (Inr (), [])"
| "substitute d vars (c # cs) =
     (if c = newline \<or> c \<noteq> d then apsnd ((#) c) (substitute d vars cs)
      else case find_index ((=) d) cs of
        None \<Rightarrow> (Inl (invalid_argument ''Closing delimiter not found''), [])
      | Some n \<Rightarrow>
          if take n cs = [] then apsnd ((#) d) (substitute d vars (drop (Suc n) cs))
          else (case map_of vars (take n cs) of
                  None \<Rightarrow> (Inl (invalid_argument (''Unknown var - '' @ take n cs)), [])
                | Some v \<Rightarrow> apsnd ((@) v) (substitute d vars (drop (Suc n) cs))))"
  by pat_completeness auto
termination
  by (relation "measure (\<lambda>(_, _, cs). length cs)") auto

lemma indented_append: "indented ind b (s @ t) = indented ind b s @ indented ind (at_line_start b s) t"
  by (induction ind b s rule: indented.induct) (auto simp: at_line_start_def)

lemma at_line_start_append [simp]: "at_line_start b (s @ t) = at_line_start (at_line_start b s) t"
  by (simp add: at_line_start_def)

lemma emit_fields [simp]:
  "pr_indent (emit s p) = pr_indent p" "pr_delim (emit s p) = pr_delim p"
  "pr_at_start (emit s p) = at_line_start (pr_at_start p) s"
  "pr_out (emit s p) = pr_out p @ indented (pr_indent p) (pr_at_start p) s"
  by (simp_all add: emit_def)

lemma emit_Nil [simp]: "emit [] p = p"
  by (simp add: emit_def at_line_start_def)

lemma emit_emit [simp]: "emit t (emit s p) = emit (s @ t) p"
  by (simp add: emit_def indented_append)

lemma indented_inside: "newline \<notin> set s \<Longrightarrow> indented ind b s = (if b \<and> s \<noteq> [] then ind @ s else s)"
  by (induction ind b s rule: indented.induct) auto

lemma at_line_start_inside: "newline \<notin> set s \<Longrightarrow> at_line_start b s = (b \<and> s = [])"
  by (auto simp: at_line_start_def) (metis last_in_set)+

lemma write_emit: "newline \<notin> set s \<Longrightarrow> Printer_write s p = emit s p"
  by (cases p; cases s) (auto simp: Printer_write_def emit_def Let_def indented_inside at_line_start_inside)

lemma write_delim [simp]: "pr_delim (Printer_write s p) = pr_delim p"
  by (simp add: Printer_write_def Let_def)

lemma write_line: "newline \<notin> set s \<Longrightarrow> (Printer_write (s @ [newline]) p)\<lparr>pr_at_start := True\<rparr> = emit (s @ [newline]) p"
  by (cases p; cases s)
    (auto simp: Printer_write_def emit_def Let_def indented_append indented_inside at_line_start_inside,
     simp_all add: at_line_start_def)

text \<open>
  The loop with the text \<open>w\<close> seen but not written yet prints \<open>w\<close> and the rest with its variables
  replaced, line by line.
\<close>

lemma Print_loop_emit:
  assumes "\<forall>v \<in> ran (map_of vars). newline \<notin> set v"
    and "pos \<le> i" "i \<le> length t" "newline \<notin> set (take (i - pos) (drop pos t))"
  shows "Print_loop t vars i pos p =
    apsnd (\<lambda>s. emit (take (i - pos) (drop pos t) @ s) p) (substitute (pr_delim p) vars (drop i t))"
  using assms
proof (induction t vars i pos p rule: Print_loop.induct)
  case (1 t vars i pos p)
  let ?w = "take (i - pos) (drop pos t)"
  show ?case
  proof (cases "i < length t")
    case False
    then show ?thesis using 1(5-8) by (simp add: Print_loop.simps [of t vars "length t"] write_emit)
  next
    case i: True
    then have drop: "drop i t = t ! i # drop (Suc i) t" by (simp add: Cons_nth_drop_Suc)
    have step: "take (Suc i - pos) (drop pos t) = ?w @ [t ! i]"
      using i 1(6) by (simp add: Suc_diff_le take_Suc_conv_app_nth)
    show ?thesis
    proof (cases "t ! i = newline")
      case True
      have "Suc (i - pos) = Suc i - pos" using 1(6) by simp
      then have w: "(Printer_write (take (i - pos + 1) (drop pos t)) p)\<lparr>pr_at_start := True\<rparr> = emit (?w @ [newline]) p"
        using step True write_line [OF 1(8)] by simp
      show ?thesis using 1(1) [OF i True] 1(5) i True w
        by (simp add: Print_loop.simps [of t vars i] drop case_prod_unfold apsnd_def map_prod_def)
    next
      case nl: False
      show ?thesis
      proof (cases "t ! i = pr_delim p")
        case False
        then show ?thesis using 1(4) [OF i nl False] 1(5,6,8) i nl step
          by (simp add: Print_loop.simps [of t vars i] drop case_prod_unfold apsnd_def map_prod_def)
      next
        case d: True
        let ?p1 = "emit ?w p"
        have sub: "substitute (pr_delim p) vars (drop i t) =
          (case find_index ((=) (pr_delim p)) (drop (Suc i) t) of
             None \<Rightarrow> (Inl (invalid_argument ''Closing delimiter not found''), [])
           | Some n \<Rightarrow>
               if take n (drop (Suc i) t) = [] then apsnd ((#) (pr_delim p)) (substitute (pr_delim p) vars (drop (Suc (Suc i + n)) t))
               else (case map_of vars (take n (drop (Suc i) t)) of
                  None \<Rightarrow> (Inl (invalid_argument (''Unknown var - '' @ take n (drop (Suc i) t))), [])
                | Some v \<Rightarrow> apsnd ((@) v) (substitute (pr_delim p) vars (drop (Suc (Suc i + n)) t))))"
          using d nl by (simp add: drop add.commute split: option.split)
        have loop: "Print_loop t vars i pos p =
          (case find_index ((=) (pr_delim p)) (drop (Suc i) t) of
             None \<Rightarrow> (Inl (invalid_argument ''Closing delimiter not found''), ?p1)
           | Some n \<Rightarrow>
               if take n (drop (Suc i) t) = [] then
                 Print_loop t vars (Suc (Suc i + n)) (Suc (Suc i + n)) (emit [pr_delim p] ?p1)
               else (case map_of vars (take n (drop (Suc i) t)) of
                  None \<Rightarrow> (Inl (invalid_argument (''Unknown var - '' @ take n (drop (Suc i) t))), ?p1)
                | Some v \<Rightarrow> Print_loop t vars (Suc (Suc i + n)) (Suc (Suc i + n)) (Printer_write v ?p1)))"
          using i d nl by (simp add: Print_loop.simps [of t vars i] write_emit [OF 1(8)] write_emit [of "[pr_delim p]"]
              Let_def split: option.split)
        show ?thesis
        proof (cases "find_index ((=) (pr_delim p)) (drop (Suc i) t)")
          case None
          then show ?thesis by (simp add: sub loop)
        next
          case (Some n)
          then have n: "Suc (Suc i + n) \<le> length t" using find_index_Some [OF Some, THEN conjunct1] i by simp
          show ?thesis
          proof (cases "take n (drop (Suc i) t) = []")
            case True
            from 1(2) [OF i nl d refl Some refl refl True] 1(5) n
            have "Print_loop t vars (Suc (Suc i + n)) (Suc (Suc i + n)) (emit [pr_delim p] ?p1) =
                apsnd (\<lambda>s. emit s (emit [pr_delim p] ?p1)) (substitute (pr_delim p) vars (drop (Suc (Suc i + n)) t))"
              using d nl by (simp add: write_emit [OF 1(8)] write_emit [of "[pr_delim p]"])
            then show ?thesis using Some True
              by (simp add: sub loop case_prod_unfold apsnd_def map_prod_def )
          next
            case False
            show ?thesis
            proof (cases "map_of vars (take n (drop (Suc i) t))")
              case None
              then show ?thesis using Some False by (simp add: sub loop)
            next
              case v: (Some v)
              then have "newline \<notin> set v" using 1(5) by (auto simp: ran_def)
              with 1(3) [OF i nl d refl Some refl refl False v] 1(5) n
              have "Print_loop t vars (Suc (Suc i + n)) (Suc (Suc i + n)) (Printer_write v ?p1) =
                  apsnd (\<lambda>s. emit s (emit v ?p1)) (substitute (pr_delim p) vars (drop (Suc (Suc i + n)) t))"
                by (simp add: write_emit [OF 1(8)] write_emit [of v])
              then show ?thesis using Some False v
                by (simp add: sub loop case_prod_unfold apsnd_def map_prod_def )
            qed
          qed
        qed
      qed
    qed
  qed
qed

lemma Print_emit:
  assumes "\<forall>v \<in> ran (map_of vars). newline \<notin> set v"
  shows "Printer_Print t vars p = apsnd (\<lambda>s. emit s p) (substitute (pr_delim p) vars t)"
  using Print_loop_emit [OF assms, of 0 0 t p] by (simp add: Printer_Print_def)

text \<open>Text without variables, and the printing of a text that is written as it is.\<close>

lemma substitute_plain [simp]:
  "d \<notin> set w \<Longrightarrow> substitute d vars (w @ s) = apsnd ((@) w) (substitute d vars s)"
  by (induction w) (auto simp: apsnd_def map_prod_def case_prod_unfold)

lemma substitute_none: "d \<notin> set w \<Longrightarrow> substitute d vars w = (Inr (), w)"
  using substitute_plain [of d w vars "[]"] by simp

lemma Print0_emit: "pr_delim p \<notin> set t \<Longrightarrow> Printer_Print0 t p = (Inr (), emit t p)"
  by (simp add: Printer_Print0_def Print_emit substitute_none)

lemma indented_no_indent [simp]: "indented [] b s = s"
  by (induction s arbitrary: b) auto

text \<open>
  C32. Printing is substitution followed by indentation: when the values of the variables are within
  one line, the outcome of Print, an error for a variable that is unknown or not closed included,
  is that of replacing the variables in the text, and what it adds to the stream is the text with
  the variables replaced, up to the error, with the indent before each line that is not empty.
\<close>

theorem print_substitutes_and_indents:
  assumes "\<forall>v \<in> ran (map_of vars). newline \<notin> set v"
  shows "Printer_Print t vars p =
    (fst (substitute (pr_delim p) vars t),
     p\<lparr>pr_out := pr_out p @ indented (pr_indent p) (pr_at_start p) (snd (substitute (pr_delim p) vars t)),
       pr_at_start := at_line_start (pr_at_start p) (snd (substitute (pr_delim p) vars t))\<rparr>)"
  using Print_emit [OF assms, of t p] by (cases "substitute (pr_delim p) vars t") (simp add: emit_def)

theorem print_substitutes_and_indents_witness:
  "pr_out (snd (Printer_Print (''{$A$;'' @ newline # newline # ''$$$A$'') [(''A'', ''x'')]
      (Printer_Indent (Printer_new (CHR ''$''))))) = ''  {x;'' @ newline # newline # ''  $x''"
  using print_substitutes_and_indents [of "[(''A'', ''x'')]" "''{$A$;'' @ newline # newline # ''$$$A$''"
      "Printer_Indent (Printer_new (CHR ''$''))"]
  by (simp add: Printer_Indent_def Printer_new_def)

text \<open>An Outdent takes back an Indent, and nothing else: without one it is an error.\<close>

theorem outdent_reverses_indent:
  "Printer_Outdent (Printer_Indent p) = (Inr (), p) \<and>
   (\<exists>e. Printer_Outdent (Printer_new d) = (Inl (invalid_operation e), Printer_new d))"
  by (simp add: Printer_Outdent_def Printer_Indent_def Printer_new_def)

end
