(* ===== verification/Code_Generators.thy ===== *)
theory Code_Generators
  imports Printer
begin

text \<open>
  The generators of \<open>src/xparser2/codegen\<close>: objects that collect what is to be generated and print
  it. The base class is a record that the classes extend; the generators that are inserted into a
  file are one datatype. \<open>quoted\<close> writes the quotes of the generated code.
\<close>

section \<open>Environment\<close>

text \<open>
  The files outside the program, the operator \<open>/\<close> of \<open>boost::filesystem::path\<close>, the current
  directory, the directory of the installed templates where one is compiled in, and the numbers
  that \<open>rand\<close> returns one after the other.
\<close>

record generator_env =
  ge_read :: "string \<Rightarrow> string option"
  ge_regular :: "string \<Rightarrow> bool"
  ge_directory :: "string \<Rightarrow> bool"
  ge_can_write :: "string \<Rightarrow> bool"
  ge_join :: "string \<Rightarrow> string \<Rightarrow> string"
  ge_cwd :: string
  ge_pkgdatadir :: "string option"
  ge_rand :: "nat \<Rightarrow> nat"

definition locate_template :: "generator_env \<Rightarrow> string \<Rightarrow> string" where
  "locate_template env template_name =
     (let out = ge_join env (ge_join env (ge_cwd env) ''xparser2/templates'') template_name
      in if ge_regular env out then out
         else case ge_pkgdatadir env of
             None \<Rightarrow> []
           | Some dir \<Rightarrow>
               (let out = ge_join env dir template_name in if ge_regular env out then out else []))"

definition random_pool :: string where
  "random_pool = ''0123456789abcdefghijklmnopqrstuvwxyzABCDEFGHIJKLMNOPQRSTUVWXYZ''"

text \<open>\<open>n\<close> is the number of calls of \<open>rand\<close> so far.\<close>

definition gen_random_string :: "generator_env \<Rightarrow> int \<Rightarrow> nat \<Rightarrow> string \<times> nat" where
  "gen_random_string env len n =
     (if len < 1 then ([], n)
      else (map (\<lambda>i. random_pool ! (ge_rand env (n + i) mod length random_pool)) [0..<nat len], n + nat len))"

definition print_template :: "generator_env \<Rightarrow> string \<Rightarrow> exn + string" where
  "print_template env template_name =
     (case Printer_PrintRawFromFile (ge_read env) (locate_template env template_name) (Printer_new (CHR ''$'')) of
        (Inl e, _) \<Rightarrow> Inl e | (Inr _, p) \<Rightarrow> Inr (pr_out p))"

section \<open>The base class\<close>

record code_generator =
  required_headers :: "string list"
  required_sys_headers :: "string list"

definition CodeGenerator_new :: code_generator where
  "CodeGenerator_new = \<lparr>required_headers = [], required_sys_headers = []\<rparr>"

definition RequireHeader :: "string \<Rightarrow> 'a code_generator_scheme \<Rightarrow> 'a code_generator_scheme" where
  "RequireHeader header g = g\<lparr>required_headers := oset_insert header (required_headers g)\<rparr>"

definition RequireHeaders :: "string list \<Rightarrow> 'a code_generator_scheme \<Rightarrow> 'a code_generator_scheme" where
  "RequireHeaders headers g = g\<lparr>required_headers := fold oset_insert headers (required_headers g)\<rparr>"

definition RequireSysHeader :: "string \<Rightarrow> 'a code_generator_scheme \<Rightarrow> 'a code_generator_scheme" where
  "RequireSysHeader header g = g\<lparr>required_sys_headers := oset_insert header (required_sys_headers g)\<rparr>"

definition RequireSysHeaders :: "string list \<Rightarrow> 'a code_generator_scheme \<Rightarrow> 'a code_generator_scheme" where
  "RequireSysHeaders headers g = g\<lparr>required_sys_headers := fold oset_insert headers (required_sys_headers g)\<rparr>"

definition quoted :: "string \<Rightarrow> string" where
  "quoted s = CHR 0x22 # s @ [CHR 0x22]"

section \<open>Agents and transition functions\<close>

record gen_agent = code_generator +
  ga_vars :: "(string \<times> string) list"
  ga_dupe_check :: "string list"
  ga_agent_name :: string

definition GenAgent_new :: "string \<Rightarrow> gen_agent" where
  "GenAgent_new agent_name =
     \<lparr>required_headers = [], required_sys_headers = [], ga_vars = [], ga_dupe_check = [], ga_agent_name = agent_name\<rparr>"

definition GenAgent_AddVar :: "string \<Rightarrow> string \<Rightarrow> (gen_agent, unit) exec" where
  "GenAgent_AddVar var_type var_name g =
     (if var_name \<in> set (ga_dupe_check g) then (Inl (logic_error ''variable already exists''), g)
      else (Inr (), g\<lparr>ga_vars := ga_vars g @ [(var_type, var_name)],
                     ga_dupe_check := oset_insert var_name (ga_dupe_check g)\<rparr>))"

definition GenAgent_print_vars :: "gen_agent \<Rightarrow> (printer, unit) exec" where
  "GenAgent_print_vars g =
     (let variables = omap_put ''AGENT'' (ga_agent_name g) [] in
      forE (\<lambda>(type, name).
        Printer_Print (''model.addAgentVariable('' @ quoted ''$AGENT$'' @ '', '' @ quoted ''$TYPE$'' @ '', '' @
            quoted ''$VAR$'' @ '');'' @ [newline])
          (omap_put ''VAR'' name (omap_put ''TYPE'' type variables))) (ga_vars g))"

definition GenAgent_Generate :: "gen_agent \<Rightarrow> (printer, unit) exec" where
  "GenAgent_Generate g =
     bindE (Printer_Print1 (''model.addAgent('' @ quoted ''$AGENT$'' @ '');'' @ [newline]) ''AGENT'' (ga_agent_name g))
       (\<lambda>_. GenAgent_print_vars g)"

record gen_agent_func = code_generator +
  gaf_agent_name :: string
  gaf_func_name :: string
  gaf_current_state :: string
  gaf_next_state :: string
  gaf_outputs :: "string list"
  gaf_inputs :: "string list"
  gaf_read_write_vars :: "string list"
  gaf_read_only_vars :: "string list"

definition GenAgentFunc_new :: "string \<Rightarrow> string \<Rightarrow> string \<Rightarrow> string \<Rightarrow> gen_agent_func" where
  "GenAgentFunc_new agent_name func_name current_state next_state =
     \<lparr>required_headers = [], required_sys_headers = [], gaf_agent_name = agent_name, gaf_func_name = func_name,
      gaf_current_state = current_state, gaf_next_state = next_state, gaf_outputs = [], gaf_inputs = [],
      gaf_read_write_vars = [], gaf_read_only_vars = []\<rparr>"

definition GenAgentFunc_AddOutput :: "string \<Rightarrow> (gen_agent_func, unit) exec" where
  "GenAgentFunc_AddOutput message_name g =
     (if message_name \<in> set (gaf_outputs g) then (Inl (logic_error ''output already exists''), g)
      else (Inr (), g\<lparr>gaf_outputs := gaf_outputs g @ [message_name]\<rparr>))"

definition GenAgentFunc_AddInput :: "string \<Rightarrow> (gen_agent_func, unit) exec" where
  "GenAgentFunc_AddInput message_name g =
     (if message_name \<in> set (gaf_inputs g) then (Inl (logic_error ''input already exists''), g)
      else (Inr (), g\<lparr>gaf_inputs := gaf_inputs g @ [message_name]\<rparr>))"

definition GenAgentFunc_AddReadWriteVar :: "string \<Rightarrow> (gen_agent_func, unit) exec" where
  "GenAgentFunc_AddReadWriteVar var_name g =
     (if var_name \<in> set (gaf_read_write_vars g) then (Inl (logic_error ''read write var already exists''), g)
      else (Inr (), g\<lparr>gaf_read_write_vars := gaf_read_write_vars g @ [var_name]\<rparr>))"

definition GenAgentFunc_AddReadOnlyVar :: "string \<Rightarrow> (gen_agent_func, unit) exec" where
  "GenAgentFunc_AddReadOnlyVar var_name g =
     (if var_name \<in> set (gaf_read_only_vars g) then (Inl (logic_error ''read only var already exists''), g)
      else (Inr (), g\<lparr>gaf_read_only_vars := gaf_read_only_vars g @ [var_name]\<rparr>))"

text \<open>
  The four operations promise the same: a name that the list does not have is appended, a name
  that it has is an error and changes nothing. Each of the lists is a registry of \<open>Prelude\<close>.
\<close>

locale name_list =
  fixes add :: "string \<Rightarrow> ('g, unit) exec"
    and names :: "'g \<Rightarrow> string list"
    and put :: "string list \<Rightarrow> 'g \<Rightarrow> 'g"
    and msg :: string
  assumes add_eq: "add x g =
      (if x \<in> set (names g) then (Inl (logic_error msg), g) else (Inr (), put (names g @ [x]) g))"
    and names_put: "names (put xs g) = xs"
    and put_put: "put ys (put xs g) = put ys g"
    and put_names: "put (names g) g = g"
begin

text \<open>Adding a list of names succeeds exactly when no name repeats, and then appends the list.\<close>

lemma add_all:
  assumes "distinct (names g)"
  shows "if distinct (names g @ xs) then forE add xs g = (Inr (), put (names g @ xs) g)
    else \<exists>g'. forE add xs g = (Inl (logic_error msg), g')"
  using assms
proof (induction xs arbitrary: g)
  case Nil
  then show ?case by (simp add: returnE_def put_names)
next
  case (Cons x xs)
  show ?case
  proof (cases "x \<in> set (names g)")
    case True
    then show ?thesis by (simp add: bindE_def add_eq)
  next
    case False
    have "forE add (x # xs) g = forE add xs (put (names g @ [x]) g)" using False by (simp add: bindE_def add_eq)
    with Cons.IH [of "put (names g @ [x]) g"] Cons.prems False show ?thesis
      by (simp add: names_put put_put split: if_splits)
  qed
qed

end

sublocale name_list \<subseteq> registry add "\<lambda>g. set (names g)" "\<lambda>_. True"
  by unfold_locales (auto simp: add_eq names_put)

interpretation gen_outputs: name_list GenAgentFunc_AddOutput gaf_outputs "\<lambda>xs g. g\<lparr>gaf_outputs := xs\<rparr>"
  "''output already exists''"
  by unfold_locales (simp_all add: GenAgentFunc_AddOutput_def)

interpretation gen_inputs: name_list GenAgentFunc_AddInput gaf_inputs "\<lambda>xs g. g\<lparr>gaf_inputs := xs\<rparr>"
  "''input already exists''"
  by unfold_locales (simp_all add: GenAgentFunc_AddInput_def)

interpretation gen_read_write: name_list GenAgentFunc_AddReadWriteVar gaf_read_write_vars
  "\<lambda>xs g. g\<lparr>gaf_read_write_vars := xs\<rparr>" "''read write var already exists''"
  by unfold_locales (simp_all add: GenAgentFunc_AddReadWriteVar_def)

interpretation gen_read_only: name_list GenAgentFunc_AddReadOnlyVar gaf_read_only_vars
  "\<lambda>xs g. g\<lparr>gaf_read_only_vars := xs\<rparr>" "''read only var already exists''"
  by unfold_locales (simp_all add: GenAgentFunc_AddReadOnlyVar_def)

text \<open>The four variables that each of the printing functions puts into its map.\<close>

definition function_variables :: "gen_agent_func \<Rightarrow> (string \<times> string) list" where
  "function_variables g =
     omap_put ''NEXT'' (gaf_next_state g) (omap_put ''CURRENT'' (gaf_current_state g)
       (omap_put ''FUNC'' (gaf_func_name g) (omap_put ''AGENT'' (gaf_agent_name g) [])))"

definition function_text :: "string \<Rightarrow> string" where
  "function_text name =
     ''model.'' @ name @ ''('' @ quoted ''$AGENT$'' @ '', '' @ quoted ''$FUNC$'' @ '', '' @
       quoted ''$CURRENT$'' @ '', '' @ quoted ''$NEXT$''"

definition GenAgentFunc_print_outputs :: "gen_agent_func \<Rightarrow> (printer, unit) exec" where
  "GenAgentFunc_print_outputs g =
     forE (\<lambda>s. Printer_Print (function_text ''addAgentFunctionOutput'' @ '', '' @ quoted ''$MESSAGE$'' @ '');'' @ [newline])
       (omap_put ''MESSAGE'' s (function_variables g))) (gaf_outputs g)"

definition GenAgentFunc_print_inputs :: "gen_agent_func \<Rightarrow> (printer, unit) exec" where
  "GenAgentFunc_print_inputs g =
     forE (\<lambda>s. Printer_Print (function_text ''addAgentFunctionInput'' @ '', '' @ quoted ''$MESSAGE$'' @ '');'' @ [newline])
       (omap_put ''MESSAGE'' s (function_variables g))) (gaf_inputs g)"

definition GenAgentFunc_print_read_write_vars :: "gen_agent_func \<Rightarrow> (printer, unit) exec" where
  "GenAgentFunc_print_read_write_vars g =
     forE (\<lambda>v. Printer_Print (function_text ''addAgentFunctionReadWriteVariable'' @ '', '' @ quoted ''$VAR$'' @ '');'' @ [newline])
       (omap_put ''VAR'' v (function_variables g))) (gaf_read_write_vars g)"

definition GenAgentFunc_print_read_only_vars :: "gen_agent_func \<Rightarrow> (printer, unit) exec" where
  "GenAgentFunc_print_read_only_vars g =
     forE (\<lambda>v. Printer_Print (function_text ''addAgentFunctionReadOnlyVariable'' @ '', '' @ quoted ''$VAR$'' @ '');'' @ [newline])
       (omap_put ''VAR'' v (function_variables g))) (gaf_read_only_vars g)"

definition GenAgentFunc_Generate :: "gen_agent_func \<Rightarrow> (printer, unit) exec" where
  "GenAgentFunc_Generate g =
     bindE (Printer_Print (function_text ''addAgentFunction'' @ '');'' @ [newline]) (function_variables g)) (\<lambda>_.
     bindE (GenAgentFunc_print_outputs g) (\<lambda>_.
     bindE (GenAgentFunc_print_inputs g) (\<lambda>_.
     bindE (GenAgentFunc_print_read_write_vars g) (\<lambda>_.
     GenAgentFunc_print_read_only_vars g))))"

section \<open>Messages and their data types\<close>

record gen_data_struct = code_generator +
  gds_vars :: "(string \<times> string) list"
  gds_dupe_check :: "string list"
  gds_struct_name :: string

definition GenDataStruct_new :: "string \<Rightarrow> gen_data_struct" where
  "GenDataStruct_new struct_name =
     RequireSysHeader ''ostream''
       \<lparr>required_headers = [], required_sys_headers = [], gds_vars = [], gds_dupe_check = [], gds_struct_name = struct_name\<rparr>"

definition GenDataStruct_AddVar :: "string \<Rightarrow> string \<Rightarrow> (gen_data_struct, unit) exec" where
  "GenDataStruct_AddVar var_type var_name g =
     (if var_name \<in> set (gds_dupe_check g) then (Inl (logic_error ''variable already exists''), g)
      else (Inr (), g\<lparr>gds_vars := gds_vars g @ [(var_type, var_name)],
                     gds_dupe_check := oset_insert var_name (gds_dupe_check g)\<rparr>))"

definition GenDataStruct_print_vars :: "gen_data_struct \<Rightarrow> (printer, unit) exec" where
  "GenDataStruct_print_vars g =
     forE (\<lambda>(type, name). Printer_Print2 (''$TYPE$ $VAR$;'' @ [newline]) ''TYPE'' type ''VAR'' name) (gds_vars g)"

definition indentE :: "(printer, unit) exec" where
  "indentE p = (Inr (), Printer_Indent p)"

definition GenDataStruct_print_stream_op :: "gen_data_struct \<Rightarrow> (printer, unit) exec" where
  "GenDataStruct_print_stream_op g =
     bindE (Printer_Print1 (''inline std::ostream &operator<<(std::ostream &os, const $SN$& ob) {'' @ [newline])
       ''SN'' (gds_struct_name g)) (\<lambda>_.
     bindE indentE (\<lambda>_.
     bindE (bindE (Printer_Print1 (''os << '' @ quoted ''$SN$ {'' @ '' << std::endl;'' @ [newline]) ''SN'' (gds_struct_name g)) (\<lambda>_.
            bindE (forE (\<lambda>(type, name).
                Printer_Print2 (''os << '' @ quoted ''  $TYPE$ $VAR$ = '' @ '' << ob.$VAR$ << '' @ quoted '';'' @ '' << std::endl;'' @ [newline])
                  ''TYPE'' type ''VAR'' name) (gds_vars g)) (\<lambda>_.
            bindE (Printer_Print0 (''os << '' @ quoted ''}'' @ '' << std::endl;'' @ [newline])) (\<lambda>_.
            Printer_Print0 (''return os;'' @ [newline]))))) (\<lambda>_.
     bindE Printer_Outdent (\<lambda>_.
     Printer_Print0 (''}'' @ [newline])))))"

definition GenDataStruct_Generate :: "gen_data_struct \<Rightarrow> (printer, unit) exec" where
  "GenDataStruct_Generate g =
     bindE (Printer_Print0 (''typedef struct {'' @ [newline])) (\<lambda>_.
     bindE indentE (\<lambda>_.
     bindE (GenDataStruct_print_vars g) (\<lambda>_.
     bindE Printer_Outdent (\<lambda>_.
     bindE (Printer_Print1 (''} $SN$;'' @ [newline, newline]) ''SN'' (gds_struct_name g)) (\<lambda>_.
     GenDataStruct_print_stream_op g)))))"

record gen_message_registration = code_generator +
  gmr_vars :: "(string \<times> string) list"
  gmr_name :: string

definition GenMessageRegistration_new :: "string \<Rightarrow> gen_message_registration" where
  "GenMessageRegistration_new msg_name =
     \<lparr>required_headers = [], required_sys_headers = [], gmr_vars = [], gmr_name = msg_name\<rparr>"

definition GenMessageRegistration_AddVar :: "string \<Rightarrow> string \<Rightarrow> gen_message_registration \<Rightarrow> gen_message_registration" where
  "GenMessageRegistration_AddVar var_type var_name g = g\<lparr>gmr_vars := gmr_vars g @ [(var_type, var_name)]\<rparr>"

definition GenMessageRegistration_Generate :: "gen_message_registration \<Rightarrow> (printer, unit) exec" where
  "GenMessageRegistration_Generate g =
     bindE (Printer_Print1 (''model.addMessage('' @ quoted ''$MSG$'' @ '');'' @ [newline]) ''MSG'' (gmr_name g)) (\<lambda>_.
     bindE (forE (\<lambda>(type, name).
         Printer_Print3 (''model.addMessageVariable('' @ quoted ''$MSG$'' @ '', '' @ quoted ''$VARTYPE$'' @ '', '' @
             quoted ''$VARNAME$'' @ '');'' @ [newline])
           ''MSG'' (gmr_name g) ''VARTYPE'' type ''VARNAME'' name) (gmr_vars g)) (\<lambda>_.
     Printer_Print1 (''model.registerMessageType<$MSG$_message_t>('' @ quoted ''$MSG$'' @ '');'' @ [newline])
       ''MSG'' (gmr_name g)))"

section \<open>The model and the snippets with one variable\<close>

definition GenModel_new :: code_generator where
  "GenModel_new =
     RequireHeader ''agent_function_definitions.hpp'' (RequireHeader ''message_datatypes.hpp''
       (RequireHeader ''flame2/sim/simulation.hpp'' (RequireHeader ''flame2/model/model.hpp'' CodeGenerator_new)))"

definition GenModel_Generate :: "(printer, unit) exec" where
  "GenModel_Generate = Printer_Print0 (''flame::model::Model model;'' @ [newline])"

text \<open>The text of a snippet is what the virtual function \<open>GetSnippetText\<close> of its class returns.\<close>

record single_var_snippet = code_generator +
  sv_snippet :: string
  sv_vars :: "string list"

definition RegisterAgentFuncSnippets_new :: single_var_snippet where
  "RegisterAgentFuncSnippets_new =
     \<lparr>required_headers = [], required_sys_headers = [],
      sv_snippet = ''model.registerAgentFunction('' @ quoted ''$VAR$'' @ '', &$VAR$);'' @ [newline], sv_vars = []\<rparr>"

definition AgentFunctionHeaderSnippets_new :: single_var_snippet where
  "AgentFunctionHeaderSnippets_new =
     RequireHeader ''flame2.hpp''
       \<lparr>required_headers = [], required_sys_headers = [], sv_snippet = ''FLAME_AGENT_FUNCTION($VAR$);'' @ [newline], sv_vars = []\<rparr>"

definition SingleVarSnippet_Add :: "string \<Rightarrow> single_var_snippet \<Rightarrow> single_var_snippet" where
  "SingleVarSnippet_Add var g = g\<lparr>sv_vars := sv_vars g @ [var]\<rparr>"

definition SingleVarSnippet_Generate :: "single_var_snippet \<Rightarrow> (printer, unit) exec" where
  "SingleVarSnippet_Generate g = forE (\<lambda>v. Printer_Print1 (sv_snippet g) ''VAR'' v) (sv_vars g)"

section \<open>Generators of files\<close>

datatype generator =
    Gen_Model code_generator
  | Gen_Agent gen_agent
  | Gen_AgentFunc gen_agent_func
  | Gen_DataStruct gen_data_struct
  | Gen_MessageRegistration gen_message_registration
  | Gen_Snippets single_var_snippet

fun generator_base :: "generator \<Rightarrow> code_generator" where
  "generator_base (Gen_Model g) = g"
| "generator_base (Gen_Agent g) = code_generator.truncate g"
| "generator_base (Gen_AgentFunc g) = code_generator.truncate g"
| "generator_base (Gen_DataStruct g) = code_generator.truncate g"
| "generator_base (Gen_MessageRegistration g) = code_generator.truncate g"
| "generator_base (Gen_Snippets g) = code_generator.truncate g"

fun Generate :: "generator \<Rightarrow> (printer, unit) exec" where
  "Generate (Gen_Model g) = GenModel_Generate"
| "Generate (Gen_Agent g) = GenAgent_Generate g"
| "Generate (Gen_AgentFunc g) = GenAgentFunc_Generate g"
| "Generate (Gen_DataStruct g) = GenDataStruct_Generate g"
| "Generate (Gen_MessageRegistration g) = GenMessageRegistration_Generate g"
| "Generate (Gen_Snippets g) = SingleVarSnippet_Generate g"

record gen_file = code_generator +
  gf_generators :: "generator list"

definition GenFile_new :: gen_file where
  "GenFile_new = \<lparr>required_headers = [], required_sys_headers = [], gf_generators = []\<rparr>"

definition GenFile_Insert :: "generator \<Rightarrow> gen_file \<Rightarrow> gen_file" where
  "GenFile_Insert g f =
     (let f' = RequireSysHeaders (required_sys_headers (generator_base g))
                 (RequireHeaders (required_headers (generator_base g)) f)
      in f'\<lparr>gf_generators := gf_generators f' @ [g]\<rparr>)"

definition GenFile_GenerateInsertedContent :: "gen_file \<Rightarrow> (printer, unit) exec" where
  "GenFile_GenerateInsertedContent f =
     forE (\<lambda>g. bindE (Generate g) (\<lambda>_. Printer_Print0 [newline])) (gf_generators f)"

definition GenFile_GenerateIncludeStatements :: "gen_file \<Rightarrow> (printer, unit) exec" where
  "GenFile_GenerateIncludeStatements f =
     bindE (forE (\<lambda>h. Printer_Print1 (''#include <$HEADER$>'' @ [newline]) ''HEADER'' h) (required_sys_headers f)) (\<lambda>_.
     bindE (forE (\<lambda>h. Printer_Print1 (''#include '' @ quoted ''$HEADER$'' @ [newline]) ''HEADER'' h) (required_headers f)) (\<lambda>_.
     Printer_Print0 [newline]))"

definition GenFile_Generate :: "gen_file \<Rightarrow> (printer, unit) exec" where
  "GenFile_Generate f =
     bindE (GenFile_GenerateIncludeStatements f) (\<lambda>_. GenFile_GenerateInsertedContent f)"

text \<open>A header file draws the name of its guard from \<open>rand\<close>: the second part of the state.\<close>

definition GenHeaderFile_print :: "gen_file \<Rightarrow> string \<Rightarrow> (printer, unit) exec" where
  "GenHeaderFile_print f include_guard =
     bindE (Printer_Print1 (''#ifndef $GUARD$'' @ [newline]) ''GUARD'' include_guard) (\<lambda>_.
     bindE (Printer_Print1 (''#define $GUARD$'' @ [newline]) ''GUARD'' include_guard) (\<lambda>_.
     bindE (GenFile_GenerateIncludeStatements f) (\<lambda>_.
     bindE (GenFile_GenerateInsertedContent f) (\<lambda>_.
     Printer_Print1 (''#endif  // $GUARD$'' @ [newline]) ''GUARD'' include_guard))))"

definition GenHeaderFile_Generate :: "generator_env \<Rightarrow> gen_file \<Rightarrow> (printer \<times> nat, unit) exec" where
  "GenHeaderFile_Generate env f = (\<lambda>(p, n).
     (case gen_random_string env 12 n of
        (s, n') \<Rightarrow>
          (case GenHeaderFile_print f (''__INCLUDE_GUARD_'' @ s) p of (r, p') \<Rightarrow> (r, (p', n')))))"

definition GenHeaderFile_AddRequiredHeader :: "string \<Rightarrow> gen_file \<Rightarrow> gen_file" where
  "GenHeaderFile_AddRequiredHeader header f = RequireHeader header f"

definition GenMainCpp_new :: gen_file where
  "GenMainCpp_new =
     RequireHeader ''flame2/exceptions/io.hpp'' (RequireHeader ''flame2/sim/simulation.hpp''
       (RequireSysHeader ''iostream'' (RequireSysHeader ''string'' (RequireSysHeader ''cstdio''
         (RequireSysHeader ''ctime'' GenFile_new)))))"

definition print_located :: "generator_env \<Rightarrow> string \<Rightarrow> (printer, unit) exec" where
  "print_located env name p =
     (let tmpl = locate_template env name in
      if tmpl = [] then (Inl (file_not_found (''Could not locate template file'' @ name)), p)
      else bindE (Printer_Print0 [newline]) (\<lambda>_. Printer_PrintRawFromFile (ge_read env) tmpl) p)"

definition GenMainCpp_Generate :: "generator_env \<Rightarrow> gen_file \<Rightarrow> (printer, unit) exec" where
  "GenMainCpp_Generate env f =
     bindE (GenFile_GenerateIncludeStatements f) (\<lambda>_.
     bindE (print_located env ''main_header.cpp.tmpl'') (\<lambda>_.
     bindE (Printer_Print0 [newline]) (\<lambda>_.
     bindE indentE (\<lambda>_.
     bindE (GenFile_GenerateInsertedContent f) (\<lambda>_.
     bindE Printer_Outdent (\<lambda>_.
     print_located env ''main_footer.cpp.tmpl''))))))"

record gen_makefile = code_generator +
  gm_headers :: "string list"
  gm_sources :: "string list"

definition GenMakefile_new :: gen_makefile where
  "GenMakefile_new = \<lparr>required_headers = [], required_sys_headers = [], gm_headers = [], gm_sources = []\<rparr>"

definition GenMakefile_AddHeaderFile :: "string \<Rightarrow> gen_makefile \<Rightarrow> gen_makefile" where
  "GenMakefile_AddHeaderFile filename g = g\<lparr>gm_headers := oset_insert filename (gm_headers g)\<rparr>"

definition GenMakefile_AddSourceFile :: "string \<Rightarrow> gen_makefile \<Rightarrow> gen_makefile" where
  "GenMakefile_AddSourceFile filename g = g\<lparr>gm_sources := oset_insert filename (gm_sources g)\<rparr>"

text \<open>\<open>boost::algorithm::join\<close>.\<close>

fun join :: "string \<Rightarrow> string list \<Rightarrow> string" where
  "join sep [] = []"
| "join sep [x] = x"
| "join sep (x # y # xs) = x @ sep @ join sep (y # xs)"

definition GenMakefile_Generate :: "generator_env \<Rightarrow> gen_makefile \<Rightarrow> (printer, unit) exec" where
  "GenMakefile_Generate env g p =
     (let makefile_tmpl = locate_template env ''Makefile.tmpl'' in
      if makefile_tmpl = [] then (Inl (file_not_found (''Could not locate template file'' @ ''Makefile.tmpl'')), p)
      else
        bindE (Printer_Print1 (''SOURCES = $FILES$'' @ [newline]) ''FILES'' (join '' '' (gm_sources g))) (\<lambda>_.
        bindE (Printer_Print1 (''HEADERS = $FILES$'' @ [newline]) ''FILES'' (join '' '' (gm_headers g))) (\<lambda>_.
        bindE (Printer_PrintRaw [newline]) (\<lambda>_.
        Printer_PrintRawFromFile (ge_read env) makefile_tmpl))) p)"

end
