(* ===== verification/Generated_Code.thy ===== *)
theory Generated_Code
  imports Code_Generators
begin

text \<open>
  The text that the generators of \<open>Code_Generators\<close> print. The code for a model is a list of
  statements, calls of the class \<open>Model\<close>; each generator prints the text of its statements.
\<close>

section \<open>Statements of the generated program\<close>

datatype statement =
    AddAgent string
  | AddAgentVariable string string string
  | AddAgentFunction string string string string
  | AddAgentFunctionOutput string string string string string
  | AddAgentFunctionInput string string string string string
  | AddAgentFunctionReadWriteVariable string string string string string
  | AddAgentFunctionReadOnlyVariable string string string string string
  | RegisterAgentFunction string
  | AddMessage string
  | AddMessageVariable string string string
  | RegisterMessageType string

definition call_text :: "string \<Rightarrow> string list \<Rightarrow> string" where
  "call_text name args = ''model.'' @ name @ ''('' @ join '', '' (map quoted args) @ '');'' @ [newline]"

fun statement_text :: "statement \<Rightarrow> string" where
  "statement_text (AddAgent a) = call_text ''addAgent'' [a]"
| "statement_text (AddAgentVariable a t v) = call_text ''addAgentVariable'' [a, t, v]"
| "statement_text (AddAgentFunction a f c n) = call_text ''addAgentFunction'' [a, f, c, n]"
| "statement_text (AddAgentFunctionOutput a f c n m) = call_text ''addAgentFunctionOutput'' [a, f, c, n, m]"
| "statement_text (AddAgentFunctionInput a f c n m) = call_text ''addAgentFunctionInput'' [a, f, c, n, m]"
| "statement_text (AddAgentFunctionReadWriteVariable a f c n v) =
     call_text ''addAgentFunctionReadWriteVariable'' [a, f, c, n, v]"
| "statement_text (AddAgentFunctionReadOnlyVariable a f c n v) =
     call_text ''addAgentFunctionReadOnlyVariable'' [a, f, c, n, v]"
| "statement_text (RegisterAgentFunction f) =
     ''model.registerAgentFunction('' @ quoted f @ '', &'' @ f @ '');'' @ [newline]"
| "statement_text (AddMessage m) = call_text ''addMessage'' [m]"
| "statement_text (AddMessageVariable m t v) = call_text ''addMessageVariable'' [m, t, v]"
| "statement_text (RegisterMessageType m) =
     ''model.registerMessageType<'' @ m @ ''_message_t>('' @ quoted m @ '');'' @ [newline]"

definition statements_text :: "statement list \<Rightarrow> string" where
  "statements_text ss = concat (map statement_text ss)"

lemma statements_text_simps [simp]:
  "statements_text [] = []" "statements_text (s # ss) = statement_text s @ statements_text ss"
  "statements_text (ss @ ts) = statements_text ss @ statements_text ts"
  by (simp_all add: statements_text_def)

section \<open>Printing on any printer\<close>

text \<open>A computation prints a text: it succeeds and emits the text, whatever the indent.\<close>

definition prints :: "(printer, unit) exec \<Rightarrow> string \<Rightarrow> bool" where
  "prints m s \<longleftrightarrow> (\<forall>p. pr_delim p = CHR ''$'' \<longrightarrow> m p = (Inr (), emit s p))"

definition single_line :: "string \<Rightarrow> bool" where
  "single_line s \<longleftrightarrow> newline \<notin> set s"

named_theorems prints_intros \<open>what the operations of a printer print\<close>

lemma printsD: "prints m s \<Longrightarrow> pr_delim p = CHR ''$'' \<Longrightarrow> m p = (Inr (), emit s p)"
  by (simp add: prints_def)

lemma prints_return [prints_intros]: "prints (returnE ()) []"
  by (simp add: prints_def returnE_def)

lemma prints_bind [prints_intros]: "prints m s \<Longrightarrow> prints k t \<Longrightarrow> prints (bindE m (\<lambda>_. k)) (s @ t)"
  by (simp add: prints_def bindE_def)

lemma prints_forE [prints_intros]:
  assumes "\<And>x. x \<in> set xs \<Longrightarrow> prints (f x) (t x)"
  shows "prints (forE f xs) (concat (map t xs))"
  using assms by (induction xs) (auto intro: prints_intros)

lemma prints_Print:
  assumes "\<forall>v \<in> ran (map_of vars). single_line v" "substitute (CHR ''$'') vars t = (Inr (), s)"
  shows "prints (Printer_Print t vars) s"
  using assms by (simp add: prints_def Print_emit single_line_def)

lemma single_line_put:
  assumes "single_line v" "\<forall>w \<in> ran (map_of vars). single_line w"
  shows "\<forall>w \<in> ran (map_of (omap_put k v vars)). single_line w"
  using assms by (auto simp: ran_def)

lemma prints_Print0: "substitute (CHR ''$'') [] t = (Inr (), s) \<Longrightarrow> prints (Printer_Print0 t) s"
  unfolding Printer_Print0_def by (rule prints_Print) simp_all

lemma prints_Print1:
  "single_line v \<Longrightarrow> substitute (CHR ''$'') (omap_put k v []) t = (Inr (), s) \<Longrightarrow> prints (Printer_Print1 t k v) s"
  unfolding Printer_Print1_def by (rule prints_Print [OF single_line_put]) simp_all

lemma prints_Print2:
  "single_line v1 \<Longrightarrow> single_line v2 \<Longrightarrow>
   substitute (CHR ''$'') (omap_put k2 v2 (omap_put k1 v1 [])) t = (Inr (), s) \<Longrightarrow> prints (Printer_Print2 t k1 v1 k2 v2) s"
  unfolding Printer_Print2_def by (rule prints_Print [OF single_line_put [OF _ single_line_put]]) simp_all

lemma prints_Print3:
  "single_line v1 \<Longrightarrow> single_line v2 \<Longrightarrow> single_line v3 \<Longrightarrow>
   substitute (CHR ''$'') (omap_put k3 v3 (omap_put k2 v2 (omap_put k1 v1 []))) t = (Inr (), s) \<Longrightarrow>
   prints (Printer_Print3 t k1 v1 k2 v2 k3 v3) s"
  unfolding Printer_Print3_def
  by (rule prints_Print [OF single_line_put [OF _ single_line_put [OF _ single_line_put]]]) simp_all

text \<open>Printing with one more level of indentation after a line.\<close>

lemma indented_indented: "newline \<notin> set i \<Longrightarrow> indented j b (indented i b s) = indented (j @ i) b s"
proof (induction i b s rule: indented.induct)
  case (2 i b c cs)
  have "indented j b (i @ c # t) = (if b then j else []) @ i @ c # indented j (c = newline) t"
    if "i \<noteq> []" for t
    using 2(2) that by (cases b) (auto simp: indented_append indented_inside at_line_start_inside)
  with 2 show ?case by (cases "i = []") auto
qed simp

lemma at_line_start_indented [simp]: "at_line_start b (indented i b s) = at_line_start b s"
proof (induction i b s rule: indented.induct)
  case (2 i b c cs)
  then show ?case by (cases cs) (auto simp: at_line_start_def)
qed simp

lemma block_emit:
  assumes "prints h t" "t \<noteq> []" "last t = newline" "prints m s" "pr_delim p = CHR ''$''"
  shows "bindE h (\<lambda>_. bindE indentE (\<lambda>_. bindE m (\<lambda>_. bindE Printer_Outdent (\<lambda>_. k)))) p =
    k (emit (t @ indented ''  '' True s) p)"
proof -
  have t: "at_line_start b t" for b using assms(2,3) by (simp add: at_line_start_def)
  let ?q = "Printer_Indent (emit t p)"
  have "Printer_Outdent (emit s ?q) = (Inr (), emit (indented ''  '' True s) (emit t p))"
    by (cases p) (simp add: Printer_Outdent_def Printer_Indent_def emit_def t indented_indented)
  moreover have "m ?q = (Inr (), emit s ?q)"
    by (rule printsD [OF assms(4)]) (simp add: Printer_Indent_def assms(5))
  ultimately show ?thesis
    using printsD [OF assms(1,5)] by (simp add: bindE_def indentE_def)
qed

lemma prints_block:
  assumes "prints h t" "t \<noteq> []" "last t = newline" "prints m s" "prints k u"
  shows "prints (bindE h (\<lambda>_. bindE indentE (\<lambda>_. bindE m (\<lambda>_. bindE Printer_Outdent (\<lambda>_. k)))))
    (t @ indented ''  '' True s @ u)"
  using printsD [OF assms(5)] by (simp add: prints_def block_emit [OF assms(1-4)])

section \<open>What the generators print\<close>

definition agent_statements :: "gen_agent \<Rightarrow> statement list" where
  "agent_statements g =
     AddAgent (ga_agent_name g) # map (\<lambda>(t, v). AddAgentVariable (ga_agent_name g) t v) (ga_vars g)"

definition function_statements :: "gen_agent_func \<Rightarrow> statement list" where
  "function_statements g =
     (let a = gaf_agent_name g; f = gaf_func_name g; c = gaf_current_state g; n = gaf_next_state g in
      AddAgentFunction a f c n #
      map (AddAgentFunctionOutput a f c n) (gaf_outputs g) @
      map (AddAgentFunctionInput a f c n) (gaf_inputs g) @
      map (AddAgentFunctionReadWriteVariable a f c n) (gaf_read_write_vars g) @
      map (AddAgentFunctionReadOnlyVariable a f c n) (gaf_read_only_vars g))"

definition message_statements :: "gen_message_registration \<Rightarrow> statement list" where
  "message_statements g =
     AddMessage (gmr_name g) # map (\<lambda>(t, v). AddMessageVariable (gmr_name g) t v) (gmr_vars g) @
     [RegisterMessageType (gmr_name g)]"

lemmas text_simps = quoted_def call_text_def statements_text_def

lemma concat_map_pair: "concat (map (\<lambda>(t, v). f t v) xs) = concat (map (\<lambda>p. f (fst p) (snd p)) xs)"
  by (simp add: case_prod_unfold)

lemma prints_agent:
  assumes "single_line (ga_agent_name g)" "\<forall>(t, v) \<in> set (ga_vars g). single_line t \<and> single_line v"
  shows "prints (GenAgent_Generate g) (statements_text (agent_statements g))"
proof -
  let ?a = "ga_agent_name g"
  have "prints (Printer_Print1 (''model.addAgent('' @ quoted ''$AGENT$'' @ '');'' @ [newline]) ''AGENT'' ?a)
      (statement_text (AddAgent ?a))"
    using assms(1) by (rule prints_Print1) (simp add: text_simps)
  moreover have "prints (GenAgent_print_vars g) (concat (map (\<lambda>x. statement_text (AddAgentVariable ?a (fst x) (snd x))) (ga_vars g)))"
    unfolding GenAgent_print_vars_def Let_def
  proof (rule prints_forE)
    fix x assume "x \<in> set (ga_vars g)"
    with assms obtain t v where x: "x = (t, v)" "single_line t" "single_line v" by (cases x) auto
    have "prints (Printer_Print (''model.addAgentVariable('' @ quoted ''$AGENT$'' @ '', '' @ quoted ''$TYPE$'' @ '', '' @
            quoted ''$VAR$'' @ '');'' @ [newline])
          (omap_put ''VAR'' v (omap_put ''TYPE'' t (omap_put ''AGENT'' ?a [])))) (statement_text (AddAgentVariable ?a t v))"
      by (rule prints_Print, intro single_line_put x assms(1)) (simp_all add: text_simps)
    then show "prints (case x of (type, name) \<Rightarrow> Printer_Print (''model.addAgentVariable('' @ quoted ''$AGENT$'' @ '', '' @
          quoted ''$TYPE$'' @ '', '' @ quoted ''$VAR$'' @ '');'' @ [newline])
        (omap_put ''VAR'' name (omap_put ''TYPE'' type (omap_put ''AGENT'' ?a []))))
        (statement_text (AddAgentVariable ?a (fst x) (snd x)))"
      by (simp add: x(1))
  qed
  ultimately have "prints (GenAgent_Generate g) (statement_text (AddAgent ?a) @
      concat (map (\<lambda>x. statement_text (AddAgentVariable ?a (fst x) (snd x))) (ga_vars g)))"
    unfolding GenAgent_Generate_def by (rule prints_bind)
  then show ?thesis by (simp add: agent_statements_def statements_text_def case_prod_unfold comp_def)
qed

definition function_lines :: "gen_agent_func \<Rightarrow> bool" where
  "function_lines g \<longleftrightarrow>
     list_all single_line [gaf_agent_name g, gaf_func_name g, gaf_current_state g, gaf_next_state g] \<and>
     list_all single_line (gaf_outputs g @ gaf_inputs g @ gaf_read_write_vars g @ gaf_read_only_vars g)"

lemma single_line_function:
  "function_lines g \<Longrightarrow> \<forall>w \<in> ran (map_of (function_variables g)). single_line w"
  unfolding function_variables_def by (intro single_line_put) (simp_all add: function_lines_def)

lemma prints_function_item:
  assumes "function_lines g" "single_line v"
    and "\<And>a f c n v. substitute (CHR ''$'') (omap_put k v (omap_put ''NEXT'' n (omap_put ''CURRENT'' c
      (omap_put ''FUNC'' f (omap_put ''AGENT'' a []))))) t = (Inr (), statement_text (stmt a f c n v))"
  shows "prints (Printer_Print t (omap_put k v (function_variables g)))
    (statement_text (stmt (gaf_agent_name g) (gaf_func_name g) (gaf_current_state g) (gaf_next_state g) v))"
proof (rule prints_Print)
  show "\<forall>v \<in> ran (map_of (omap_put k v (function_variables g))). single_line v"
    using assms(2) single_line_function [OF assms(1)] by (rule single_line_put)
qed (simp only: function_variables_def assms(3))

lemma substitute_function_text:
  "substitute (CHR ''$'') (omap_put ''MESSAGE'' v (omap_put ''NEXT'' n (omap_put ''CURRENT'' c
      (omap_put ''FUNC'' f (omap_put ''AGENT'' a []))))) (function_text ''addAgentFunctionOutput'' @ '', '' @ quoted ''$MESSAGE$'' @ '');'' @ [newline]) =
     (Inr (), statement_text (AddAgentFunctionOutput a f c n v))"
  "substitute (CHR ''$'') (omap_put ''MESSAGE'' v (omap_put ''NEXT'' n (omap_put ''CURRENT'' c
      (omap_put ''FUNC'' f (omap_put ''AGENT'' a []))))) (function_text ''addAgentFunctionInput'' @ '', '' @ quoted ''$MESSAGE$'' @ '');'' @ [newline]) =
     (Inr (), statement_text (AddAgentFunctionInput a f c n v))"
  "substitute (CHR ''$'') (omap_put ''VAR'' v (omap_put ''NEXT'' n (omap_put ''CURRENT'' c
      (omap_put ''FUNC'' f (omap_put ''AGENT'' a []))))) (function_text ''addAgentFunctionReadWriteVariable'' @ '', '' @ quoted ''$VAR$'' @ '');'' @ [newline]) =
     (Inr (), statement_text (AddAgentFunctionReadWriteVariable a f c n v))"
  "substitute (CHR ''$'') (omap_put ''VAR'' v (omap_put ''NEXT'' n (omap_put ''CURRENT'' c
      (omap_put ''FUNC'' f (omap_put ''AGENT'' a []))))) (function_text ''addAgentFunctionReadOnlyVariable'' @ '', '' @ quoted ''$VAR$'' @ '');'' @ [newline]) =
     (Inr (), statement_text (AddAgentFunctionReadOnlyVariable a f c n v))"
  by (simp_all add: text_simps function_text_def)

lemma prints_function:
  assumes g: "function_lines g"
  shows "prints (GenAgentFunc_Generate g) (statements_text (function_statements g))"
proof -
  let ?a = "gaf_agent_name g" and ?f = "gaf_func_name g" and ?c = "gaf_current_state g" and ?n = "gaf_next_state g"
  have lines: "single_line v" if "v \<in> set (gaf_outputs g) \<union> set (gaf_inputs g) \<union> set (gaf_read_write_vars g) \<union> set (gaf_read_only_vars g)" for v
    using g that by (auto simp: function_lines_def list_all_iff)
  note item = prints_forE [OF prints_function_item [OF g lines]]
  have "prints (Printer_Print (function_text ''addAgentFunction'' @ '');'' @ [newline]) (function_variables g))
      (statement_text (AddAgentFunction ?a ?f ?c ?n))"
    by (rule prints_Print [OF single_line_function [OF g]]) (simp add: text_simps function_text_def function_variables_def)
  moreover have "prints (GenAgentFunc_print_outputs g) (concat (map (\<lambda>v. statement_text (AddAgentFunctionOutput ?a ?f ?c ?n v)) (gaf_outputs g)))"
    unfolding GenAgentFunc_print_outputs_def by (rule item) (simp, rule substitute_function_text)
  moreover have "prints (GenAgentFunc_print_inputs g) (concat (map (\<lambda>v. statement_text (AddAgentFunctionInput ?a ?f ?c ?n v)) (gaf_inputs g)))"
    unfolding GenAgentFunc_print_inputs_def by (rule item) (simp, rule substitute_function_text)
  moreover have "prints (GenAgentFunc_print_read_write_vars g)
      (concat (map (\<lambda>v. statement_text (AddAgentFunctionReadWriteVariable ?a ?f ?c ?n v)) (gaf_read_write_vars g)))"
    unfolding GenAgentFunc_print_read_write_vars_def by (rule item) (simp, rule substitute_function_text)
  moreover have "prints (GenAgentFunc_print_read_only_vars g)
      (concat (map (\<lambda>v. statement_text (AddAgentFunctionReadOnlyVariable ?a ?f ?c ?n v)) (gaf_read_only_vars g)))"
    unfolding GenAgentFunc_print_read_only_vars_def by (rule item) (simp, rule substitute_function_text)
  ultimately have "prints (GenAgentFunc_Generate g) (statement_text (AddAgentFunction ?a ?f ?c ?n) @
      concat (map (\<lambda>v. statement_text (AddAgentFunctionOutput ?a ?f ?c ?n v)) (gaf_outputs g)) @
      concat (map (\<lambda>v. statement_text (AddAgentFunctionInput ?a ?f ?c ?n v)) (gaf_inputs g)) @
      concat (map (\<lambda>v. statement_text (AddAgentFunctionReadWriteVariable ?a ?f ?c ?n v)) (gaf_read_write_vars g)) @
      concat (map (\<lambda>v. statement_text (AddAgentFunctionReadOnlyVariable ?a ?f ?c ?n v)) (gaf_read_only_vars g)))"
    unfolding GenAgentFunc_Generate_def by (intro prints_bind)
  then show ?thesis by (simp add: function_statements_def statements_text_def Let_def comp_def)
qed

lemma prints_pairs:
  assumes "\<forall>(t, v) \<in> set xs. single_line t \<and> single_line v"
    and "\<And>t v. single_line t \<Longrightarrow> single_line v \<Longrightarrow> prints (f (t, v)) (s t v)"
  shows "prints (forE f xs) (concat (map (\<lambda>(t, v). s t v) xs))"
proof (rule prints_forE)
  fix x assume "x \<in> set xs"
  with assms show "prints (f x) (case x of (t, v) \<Rightarrow> s t v)" by (cases x) auto
qed

lemma prints_message:
  assumes "single_line (gmr_name g)" "\<forall>(t, v) \<in> set (gmr_vars g). single_line t \<and> single_line v"
  shows "prints (GenMessageRegistration_Generate g) (statements_text (message_statements g))"
proof -
  let ?m = "gmr_name g"
  have "prints (Printer_Print1 (''model.addMessage('' @ quoted ''$MSG$'' @ '');'' @ [newline]) ''MSG'' ?m)
      (statement_text (AddMessage ?m))"
    using assms(1) by (rule prints_Print1) (simp add: text_simps)
  moreover have "prints (forE (\<lambda>(type, name).
         Printer_Print3 (''model.addMessageVariable('' @ quoted ''$MSG$'' @ '', '' @ quoted ''$VARTYPE$'' @ '', '' @
             quoted ''$VARNAME$'' @ '');'' @ [newline])
           ''MSG'' ?m ''VARTYPE'' type ''VARNAME'' name) (gmr_vars g))
       (concat (map (\<lambda>(t, v). statement_text (AddMessageVariable ?m t v)) (gmr_vars g)))"
    using assms(2)
  proof (rule prints_pairs)
    fix t v assume "single_line t" "single_line v"
    then show "prints (case (t, v) of (type, name) \<Rightarrow>
         Printer_Print3 (''model.addMessageVariable('' @ quoted ''$MSG$'' @ '', '' @ quoted ''$VARTYPE$'' @ '', '' @
             quoted ''$VARNAME$'' @ '');'' @ [newline])
           ''MSG'' ?m ''VARTYPE'' type ''VARNAME'' name) (statement_text (AddMessageVariable ?m t v))"
      unfolding prod.case by (intro prints_Print3 [OF assms(1)]) (simp_all add: text_simps)
  qed
  moreover have "prints (Printer_Print1 (''model.registerMessageType<$MSG$_message_t>('' @ quoted ''$MSG$'' @ '');'' @ [newline])
       ''MSG'' ?m) (statement_text (RegisterMessageType ?m))"
    using assms(1) by (rule prints_Print1) (simp add: text_simps)
  ultimately have "prints (GenMessageRegistration_Generate g) (statement_text (AddMessage ?m) @
      concat (map (\<lambda>(t, v). statement_text (AddMessageVariable ?m t v)) (gmr_vars g)) @ statement_text (RegisterMessageType ?m))"
    unfolding GenMessageRegistration_Generate_def by (intro prints_bind)
  then show ?thesis by (simp add: message_statements_def statements_text_def case_prod_unfold comp_def)
qed

text \<open>The declaration of a message type with the operator that writes its fields.\<close>

definition fields_text :: "(string \<times> string) list \<Rightarrow> string" where
  "fields_text vars = concat (map (\<lambda>(t, v). t @ '' '' @ v @ '';'' @ [newline]) vars)"

definition stream_op_text :: "gen_data_struct \<Rightarrow> string" where
  "stream_op_text g =
     ''inline std::ostream &operator<<(std::ostream &os, const '' @ gds_struct_name g @ ''& ob) {'' @ [newline] @
     indented ''  '' True
       (''os << '' @ quoted (gds_struct_name g @ '' {'') @ '' << std::endl;'' @ [newline] @
        concat (map (\<lambda>(t, v). ''os << '' @ quoted (''  '' @ t @ '' '' @ v @ '' = '') @ '' << ob.'' @ v @ '' << '' @
          quoted '';'' @ '' << std::endl;'' @ [newline]) (gds_vars g)) @
        ''os << '' @ quoted ''}'' @ '' << std::endl;'' @ [newline] @ ''return os;'' @ [newline]) @
     ''}'' @ [newline]"

definition struct_text :: "gen_data_struct \<Rightarrow> string" where
  "struct_text g =
     ''typedef struct {'' @ [newline] @ indented ''  '' True (fields_text (gds_vars g)) @
     ''} '' @ gds_struct_name g @ '';'' @ [newline, newline] @ stream_op_text g"

lemma prints_stream_op:
  assumes "single_line (gds_struct_name g)" "\<forall>(t, v) \<in> set (gds_vars g). single_line t \<and> single_line v"
  shows "prints (GenDataStruct_print_stream_op g) (stream_op_text g)"
proof -
  let ?n = "gds_struct_name g"
  have head: "prints (Printer_Print1 (''inline std::ostream &operator<<(std::ostream &os, const $SN$& ob) {'' @ [newline]) ''SN'' ?n)
      (''inline std::ostream &operator<<(std::ostream &os, const '' @ ?n @ ''& ob) {'' @ [newline])"
    using assms(1) by (rule prints_Print1) simp
  have first: "prints (Printer_Print1 (''os << '' @ quoted ''$SN$ {'' @ '' << std::endl;'' @ [newline]) ''SN'' ?n)
      (''os << '' @ quoted (?n @ '' {'') @ '' << std::endl;'' @ [newline])"
    using assms(1) by (rule prints_Print1) (simp add: quoted_def)
  have vars: "prints (forE (\<lambda>(type, name).
         Printer_Print2 (''os << '' @ quoted ''  $TYPE$ $VAR$ = '' @ '' << ob.$VAR$ << '' @ quoted '';'' @ '' << std::endl;'' @ [newline])
           ''TYPE'' type ''VAR'' name) (gds_vars g))
      (concat (map (\<lambda>(t, v). ''os << '' @ quoted (''  '' @ t @ '' '' @ v @ '' = '') @ '' << ob.'' @ v @ '' << '' @
          quoted '';'' @ '' << std::endl;'' @ [newline]) (gds_vars g)))"
    using assms(2) by (rule prints_pairs) (simp, rule prints_Print2, simp_all add: quoted_def)
  have "prints (Printer_Print0 (''os << '' @ quoted ''}'' @ '' << std::endl;'' @ [newline]))
      (''os << '' @ quoted ''}'' @ '' << std::endl;'' @ [newline])"
    "prints (Printer_Print0 (''return os;'' @ [newline])) (''return os;'' @ [newline])"
    "prints (Printer_Print0 (''}'' @ [newline])) (''}'' @ [newline])"
    by (rule prints_Print0, simp add: quoted_def)+
  from prints_block [OF head _ _ prints_bind [OF first prints_bind [OF vars prints_bind [OF this(1,2)]]] this(3)]
  show ?thesis by (simp add: GenDataStruct_print_stream_op_def stream_op_text_def)
qed

lemma prints_struct:
  assumes "single_line (gds_struct_name g)" "\<forall>(t, v) \<in> set (gds_vars g). single_line t \<and> single_line v"
  shows "prints (GenDataStruct_Generate g) (struct_text g)"
proof -
  have head: "prints (Printer_Print0 (''typedef struct {'' @ [newline])) (''typedef struct {'' @ [newline])"
    by (rule prints_Print0) simp
  have vars: "prints (GenDataStruct_print_vars g) (fields_text (gds_vars g))"
    unfolding GenDataStruct_print_vars_def fields_text_def using assms(2)
    by (rule prints_pairs) (simp, rule prints_Print2, simp_all)
  have "prints (Printer_Print1 (''} $SN$;'' @ [newline, newline]) ''SN'' (gds_struct_name g))
      (''} '' @ gds_struct_name g @ '';'' @ [newline, newline])"
    using assms(1) by (rule prints_Print1) simp
  from prints_block [OF head _ _ vars prints_bind [OF this prints_stream_op [OF assms]]]
  show ?thesis by (simp add: GenDataStruct_Generate_def struct_text_def)
qed

section \<open>Files\<close>

definition snippet_text :: "single_var_snippet \<Rightarrow> string \<Rightarrow> (exn + unit) \<times> string" where
  "snippet_text g v = substitute (CHR ''$'') (omap_put ''VAR'' v []) (sv_snippet g)"

fun generator_ok :: "generator \<Rightarrow> bool" where
  "generator_ok (Gen_Model g) \<longleftrightarrow> True"
| "generator_ok (Gen_Agent g) \<longleftrightarrow>
     single_line (ga_agent_name g) \<and> (\<forall>(t, v) \<in> set (ga_vars g). single_line t \<and> single_line v)"
| "generator_ok (Gen_AgentFunc g) \<longleftrightarrow> function_lines g"
| "generator_ok (Gen_DataStruct g) \<longleftrightarrow>
     single_line (gds_struct_name g) \<and> (\<forall>(t, v) \<in> set (gds_vars g). single_line t \<and> single_line v)"
| "generator_ok (Gen_MessageRegistration g) \<longleftrightarrow>
     single_line (gmr_name g) \<and> (\<forall>(t, v) \<in> set (gmr_vars g). single_line t \<and> single_line v)"
| "generator_ok (Gen_Snippets g) \<longleftrightarrow> (\<forall>v \<in> set (sv_vars g). single_line v \<and> fst (snippet_text g v) = Inr ())"

fun generator_text :: "generator \<Rightarrow> string" where
  "generator_text (Gen_Model g) = ''flame::model::Model model;'' @ [newline]"
| "generator_text (Gen_Agent g) = statements_text (agent_statements g)"
| "generator_text (Gen_AgentFunc g) = statements_text (function_statements g)"
| "generator_text (Gen_DataStruct g) = struct_text g"
| "generator_text (Gen_MessageRegistration g) = statements_text (message_statements g)"
| "generator_text (Gen_Snippets g) = concat (map (\<lambda>v. snd (snippet_text g v)) (sv_vars g))"

lemma prints_generator: "generator_ok g \<Longrightarrow> prints (Generate g) (generator_text g)"
proof (cases g)
  case (Gen_Snippets h)
  moreover assume "generator_ok g"
  ultimately show ?thesis
    by (auto simp: SingleVarSnippet_Generate_def snippet_text_def prod_eq_iff intro!: prints_forE prints_Print1)
qed (auto simp: GenModel_Generate_def intro!: prints_Print0 prints_agent prints_function prints_struct prints_message)

definition content_text :: "gen_file \<Rightarrow> string" where
  "content_text f = concat (map (\<lambda>g. generator_text g @ [newline]) (gf_generators f))"

definition includes_text :: "gen_file \<Rightarrow> string" where
  "includes_text f =
     concat (map (\<lambda>h. ''#include <'' @ h @ ''>'' @ [newline]) (required_sys_headers f)) @
     concat (map (\<lambda>h. ''#include '' @ quoted h @ [newline]) (required_headers f)) @ [newline]"

definition file_ok :: "gen_file \<Rightarrow> bool" where
  "file_ok f \<longleftrightarrow> list_all generator_ok (gf_generators f) \<and>
     list_all single_line (required_headers f) \<and> list_all single_line (required_sys_headers f)"

lemma prints_content: "file_ok f \<Longrightarrow> prints (GenFile_GenerateInsertedContent f) (content_text f)"
  unfolding GenFile_GenerateInsertedContent_def content_text_def
  by (intro prints_forE prints_bind prints_generator prints_Print0) (auto simp: file_ok_def list_all_iff)

lemma prints_includes: "file_ok f \<Longrightarrow> prints (GenFile_GenerateIncludeStatements f) (includes_text f)"
  unfolding GenFile_GenerateIncludeStatements_def includes_text_def
  by (intro prints_forE prints_bind prints_Print1 prints_Print0) (auto simp: file_ok_def list_all_iff quoted_def)

definition header_file_text :: "gen_file \<Rightarrow> string \<Rightarrow> string" where
  "header_file_text f guard =
     ''#ifndef '' @ guard @ [newline] @ ''#define '' @ guard @ [newline] @ includes_text f @ content_text f @
     ''#endif  // '' @ guard @ [newline]"

lemma prints_header_file:
  assumes "file_ok f" "single_line guard"
  shows "prints (GenHeaderFile_print f guard) (header_file_text f guard)"
proof -
  note guard = prints_Print1 [OF assms(2)]
  have "prints (GenHeaderFile_print f guard) ((''#ifndef '' @ guard @ [newline]) @ (''#define '' @ guard @ [newline]) @
      includes_text f @ content_text f @ ''#endif  // '' @ guard @ [newline])"
    unfolding GenHeaderFile_print_def
    by (intro prints_bind guard prints_includes prints_content assms(1)) simp_all
  then show ?thesis by (simp add: header_file_text_def)
qed

text \<open>The text of a template, when it is found and can be read.\<close>

definition template_text :: "generator_env \<Rightarrow> string \<Rightarrow> string option" where
  "template_text env name =
     (let tmpl = locate_template env name in
      if tmpl = [] then None
      else case get_cstr_from_file (ge_read env) tmpl of Inl _ \<Rightarrow> None | Inr text \<Rightarrow> Some text)"

lemma template_textD:
  "template_text env name = Some text \<Longrightarrow>
   locate_template env name \<noteq> [] \<and> get_cstr_from_file (ge_read env) (locate_template env name) = Inr text"
  by (auto simp: template_text_def Let_def split: if_splits sum.splits)

lemma write_raw:
  "pr_indent p = [] \<Longrightarrow>
   pr_out (Printer_write s p) = pr_out p @ s \<and> pr_indent (Printer_write s p) = [] \<and> pr_delim (Printer_write s p) = pr_delim p"
  by (simp add: Printer_write_def Let_def)

lemma newline_emit: "pr_delim p = CHR ''$'' \<Longrightarrow> Printer_Print0 [newline] p = (Inr (), emit [newline] p)"
  by (rule Print0_emit) simp

lemma print_located_eq:
  assumes "template_text env name = Some text" "pr_delim p = CHR ''$''"
  shows "print_located env name p = (Inr (), Printer_write text (emit [newline] p))"
  using template_textD [OF assms(1)] newline_emit [OF assms(2)]
  by (simp add: print_located_def bindE_def Printer_PrintRawFromFile_def Printer_PrintRaw_def Let_def)

definition main_text :: "gen_file \<Rightarrow> string \<Rightarrow> string \<Rightarrow> string" where
  "main_text f header footer =
     includes_text f @ [newline] @ header @ [newline] @ indented ''  '' True (content_text f) @ [newline] @ footer"

lemma main_generated:
  assumes "file_ok f" "template_text env ''main_header.cpp.tmpl'' = Some header"
    and "template_text env ''main_footer.cpp.tmpl'' = Some footer"
  shows "\<exists>p. GenMainCpp_Generate env f (Printer_new (CHR ''$'')) = (Inr (), p) \<and> pr_out p = main_text f header footer"
proof -
  let ?p0 = "Printer_new (CHR ''$'')"
  let ?p1 = "emit (includes_text f) ?p0"
  let ?p2 = "Printer_write header (emit [newline] ?p1)"
  let ?p3 = "emit ([newline] @ indented ''  '' True (content_text f)) ?p2"
  have p0: "pr_delim ?p0 = CHR ''$''" "pr_indent ?p0 = []" "pr_out ?p0 = []" by (simp_all add: Printer_new_def)
  have "GenFile_GenerateIncludeStatements f ?p0 = (Inr (), ?p1)"
    using printsD [OF prints_includes [OF assms(1)] p0(1)] .
  moreover have "print_located env ''main_header.cpp.tmpl'' ?p1 = (Inr (), ?p2)"
    by (rule print_located_eq [OF assms(2)]) (simp add: p0)
  moreover have "bindE (Printer_Print0 [newline]) (\<lambda>_. bindE indentE (\<lambda>_. bindE (GenFile_GenerateInsertedContent f) (\<lambda>_.
      bindE Printer_Outdent (\<lambda>_. print_located env ''main_footer.cpp.tmpl'')))) ?p2 = print_located env ''main_footer.cpp.tmpl'' ?p3"
    by (rule block_emit [OF prints_Print0 _ _ prints_content [OF assms(1)]]) (simp_all add: p0)
  moreover have "print_located env ''main_footer.cpp.tmpl'' ?p3 = (Inr (), Printer_write footer (emit [newline] ?p3))"
    by (rule print_located_eq [OF assms(3)]) (simp add: p0)
  ultimately have "GenMainCpp_Generate env f ?p0 = (Inr (), Printer_write footer (emit [newline] ?p3))"
    by (simp add: GenMainCpp_Generate_def bindE_def)
  moreover have "pr_out (Printer_write footer (emit [newline] ?p3)) = main_text f header footer"
    using write_raw [of "emit [newline] ?p1" header] write_raw [of "emit [newline] ?p3" footer] p0
    by (simp add: main_text_def)
  ultimately show ?thesis by blast
qed

definition makefile_text :: "gen_makefile \<Rightarrow> string \<Rightarrow> string" where
  "makefile_text g template =
     ''SOURCES = '' @ join '' '' (gm_sources g) @ [newline] @ ''HEADERS = '' @ join '' '' (gm_headers g) @ [newline] @
     [newline] @ template"

lemma single_line_join: "single_line sep \<Longrightarrow> list_all single_line xs \<Longrightarrow> single_line (join sep xs)"
  by (induction sep xs rule: join.induct) (auto simp: single_line_def)

lemma makefile_generated:
  assumes "list_all single_line (gm_sources g)" "list_all single_line (gm_headers g)"
    and "template_text env ''Makefile.tmpl'' = Some template"
  shows "\<exists>p. GenMakefile_Generate env g (Printer_new (CHR ''$'')) = (Inr (), p) \<and> pr_out p = makefile_text g template"
proof -
  let ?p0 = "Printer_new (CHR ''$'')"
  let ?s = "''SOURCES = '' @ join '' '' (gm_sources g) @ [newline]"
  let ?h = "''HEADERS = '' @ join '' '' (gm_headers g) @ [newline]"
  have p0: "pr_delim ?p0 = CHR ''$''" "pr_indent ?p0 = []" "pr_out ?p0 = []" by (simp_all add: Printer_new_def)
  have "single_line (join '' '' (gm_sources g))" "single_line (join '' '' (gm_headers g))"
    using assms(1,2) single_line_join [of "'' ''"] by (simp_all add: single_line_def)
  then have "prints (Printer_Print1 (''SOURCES = $FILES$'' @ [newline]) ''FILES'' (join '' '' (gm_sources g))) ?s"
    "prints (Printer_Print1 (''HEADERS = $FILES$'' @ [newline]) ''FILES'' (join '' '' (gm_headers g))) ?h"
    by (auto intro!: prints_Print1)
  then have "Printer_Print1 (''SOURCES = $FILES$'' @ [newline]) ''FILES'' (join '' '' (gm_sources g)) ?p0 = (Inr (), emit ?s ?p0)"
    "Printer_Print1 (''HEADERS = $FILES$'' @ [newline]) ''FILES'' (join '' '' (gm_headers g)) (emit ?s ?p0) = (Inr (), emit ?h (emit ?s ?p0))"
    using p0(1) by (simp_all only: printsD emit_fields)
  then have "GenMakefile_Generate env g ?p0 = (Inr (), Printer_write template (Printer_write [newline] (emit (?s @ ?h) ?p0)))"
    using template_textD [OF assms(3)]
    by (simp add: GenMakefile_Generate_def Let_def bindE_def Printer_PrintRaw_def Printer_PrintRawFromFile_def)
  then show ?thesis
    using write_raw [of "emit (?s @ ?h) ?p0" "[newline]"] write_raw [of "Printer_write [newline] (emit (?s @ ?h) ?p0)" template] p0
    by (simp add: makefile_text_def)
qed

end
