(* ===== verification/Xparser.thy ===== *)
theory Xparser
  imports Generated_Code IO_Manager
begin

text \<open>
  \<open>src/xparser2/file_generator.cpp\<close> and \<open>src/xparser2/xparser2.cpp\<close>: the program that reads a model
  and writes the sources of a simulation. The files written so far are an ordered map from paths
  to contents; what is printed on the console is not modelled.
\<close>

section \<open>Writing files\<close>

record gen_world =
  gw_files :: "(string \<times> string) list"
  gw_rands :: nat

definition FileGenerator_ChangeOutputDirectory :: "generator_env \<Rightarrow> string \<Rightarrow> exn + string" where
  "FileGenerator_ChangeOutputDirectory env output_dir =
     (if ge_directory env output_dir then Inr output_dir else Inl (invalid_argument ''Not a valid directory''))"

definition FileGenerator_new :: "generator_env \<Rightarrow> exn + string" where
  "FileGenerator_new env = FileGenerator_ChangeOutputDirectory env (ge_cwd env)"

text \<open>A file that has been opened keeps what was printed before an exception.\<close>

definition FileGenerator_Output ::
    "generator_env \<Rightarrow> string \<Rightarrow> string \<Rightarrow> (printer \<times> nat, unit) exec \<Rightarrow> (gen_world, unit) exec" where
  "FileGenerator_Output env outdir outfile generate w =
     (let outpath = ge_join env outdir outfile in
      if \<not> ge_can_write env outpath then (Inl (invalid_argument ''Cannot open file for writing''), w)
      else case generate (Printer_new (CHR ''$''), gw_rands w) of
          (r, (p, n)) \<Rightarrow> (r, w\<lparr>gw_files := omap_put outpath (pr_out p) (gw_files w), gw_rands := n\<rparr>))"

definition no_rand :: "(printer, unit) exec \<Rightarrow> (printer \<times> nat, unit) exec" where
  "no_rand m = (\<lambda>(p, n). case m p of (r, p') \<Rightarrow> (r, (p', n)))"

section \<open>The parts of the program\<close>

text \<open>A generator that is filled by its operations; an exception destroys it.\<close>

definition built :: "('g, unit) exec \<Rightarrow> 'g \<Rightarrow> exn + 'g" where
  "built m g = (case m g of (Inl e, _) \<Rightarrow> Inl e | (Inr _, g') \<Rightarrow> Inr g')"

definition agent_func_generator :: "xmachine \<Rightarrow> xfunction \<Rightarrow> exn + gen_agent_func" where
  "agent_func_generator agent f =
     built
       (bindE (forE (\<lambda>i. GenAgentFunc_AddOutput (xi_messageName i)) (xf_outputs f)) (\<lambda>_.
        bindE (forE (\<lambda>i. GenAgentFunc_AddInput (xi_messageName i)) (xf_inputs f)) (\<lambda>_.
        bindE (forE GenAgentFunc_AddReadWriteVar (xf_readWriteVariables f)) (\<lambda>_.
        forE GenAgentFunc_AddReadOnlyVar (xf_readOnlyVariables f)))))
       (GenAgentFunc_new (xa_name agent) (xf_name f) (xf_currentState f) (xf_nextState f))"

text \<open>Insert a generator, unless building it failed.\<close>

definition insert_built :: "('g \<Rightarrow> generator) \<Rightarrow> exn + 'g \<Rightarrow> (gen_file, unit) exec" where
  "insert_built wrap r maincpp =
     (case r of Inl e \<Rightarrow> (Inl e, maincpp) | Inr g \<Rightarrow> (Inr (), GenFile_Insert (wrap g) maincpp))"

definition generate_agent_functions :: "xmachine \<Rightarrow> (gen_file, unit) exec" where
  "generate_agent_functions agent =
     forE (\<lambda>f. insert_built Gen_AgentFunc (agent_func_generator agent f)) (xa_functions agent)"

definition agent_generator :: "xmachine \<Rightarrow> exn + gen_agent" where
  "agent_generator agent =
     built (forE (\<lambda>v. GenAgent_AddVar (xv_type v) (xv_name v)) (xa_variables agent)) (GenAgent_new (xa_name agent))"

definition generate_agents :: "'v xmodel \<Rightarrow> (gen_file, unit) exec" where
  "generate_agents model =
     forE (\<lambda>agent. bindE (insert_built Gen_Agent (agent_generator agent)) (\<lambda>_. generate_agent_functions agent))
       (xo_agents model)"

text \<open>Output a file with the file generator that the function starts with.\<close>

definition with_maincpp :: "(gen_file, unit) exec \<Rightarrow> (gen_file \<times> gen_world, unit) exec" where
  "with_maincpp m = (\<lambda>(f, w). case m f of (r, f') \<Rightarrow> (r, (f', w)))"

definition with_world :: "(gen_world, unit) exec \<Rightarrow> (gen_file \<times> gen_world, unit) exec" where
  "with_world m = (\<lambda>(f, w). case m w of (r, w') \<Rightarrow> (r, (f, w')))"

definition generate_agent_func_def :: "generator_env \<Rightarrow> 'v xmodel \<Rightarrow> string \<Rightarrow> (gen_file \<times> gen_world, unit) exec" where
  "generate_agent_func_def env model file_name s =
     (case FileGenerator_new env of
        Inl e \<Rightarrow> (Inl e, s)
      | Inr outdir \<Rightarrow>
          (let names = concat (map (\<lambda>a. map xf_name (xa_functions a)) (xo_agents model));
               agent_func_headers = fold SingleVarSnippet_Add names AgentFunctionHeaderSnippets_new;
               register_agent_func = fold SingleVarSnippet_Add names RegisterAgentFuncSnippets_new;
               func_def_hpp = GenFile_Insert (Gen_Snippets agent_func_headers) GenFile_new
           in bindE (with_maincpp (\<lambda>f. (Inr (), GenFile_Insert (Gen_Snippets register_agent_func) f)))
                (\<lambda>_. with_world (FileGenerator_Output env outdir file_name (GenHeaderFile_Generate env func_def_hpp))) s))"

definition message_registration :: "xmessage \<Rightarrow> gen_message_registration" where
  "message_registration msg =
     fold (\<lambda>v. GenMessageRegistration_AddVar (xv_type v) (xv_name v)) (xm_variables msg)
       (GenMessageRegistration_new (xm_name msg))"

definition message_struct :: "xmessage \<Rightarrow> exn + gen_data_struct" where
  "message_struct msg =
     built (forE (\<lambda>v. GenDataStruct_AddVar (xv_type v) (xv_name v)) (xm_variables msg))
       (GenDataStruct_new (xm_name msg @ ''_message_t''))"

text \<open>The loop over the messages fills \<open>main.cpp\<close> and the header file.\<close>

fun insert_messages :: "xmessage list \<Rightarrow> (gen_file \<times> gen_file, unit) exec" where
  "insert_messages [] s = (Inr (), s)"
| "insert_messages (msg # msgs) (maincpp, hpp) =
     (case message_struct msg of
        Inl e \<Rightarrow> (Inl e, (maincpp, hpp))
      | Inr msg_datatype \<Rightarrow>
          insert_messages msgs
            (GenFile_Insert (Gen_MessageRegistration (message_registration msg)) maincpp,
             GenFile_Insert (Gen_DataStruct msg_datatype) hpp))"

definition generate_messages :: "generator_env \<Rightarrow> 'v xmodel \<Rightarrow> string \<Rightarrow> (gen_file \<times> gen_world, unit) exec" where
  "generate_messages env model file_name = (\<lambda>(maincpp, w).
     (case FileGenerator_new env of
        Inl e \<Rightarrow> (Inl e, (maincpp, w))
      | Inr outdir \<Rightarrow>
          (case insert_messages (xo_messages model) (maincpp, GenFile_new) of
             (Inl e, (maincpp', _)) \<Rightarrow> (Inl e, (maincpp', w))
           | (Inr _, (maincpp', msg_datatype_h)) \<Rightarrow>
               (case FileGenerator_Output env outdir file_name (GenHeaderFile_Generate env msg_datatype_h) w of
                  (r, w') \<Rightarrow> (r, (maincpp', w'))))))"

text \<open>The Makefile lists the generated headers and sources and the function files of the model.\<close>

definition model_makefile :: "'v xmodel \<Rightarrow> gen_makefile" where
  "model_makefile model =
     fold GenMakefile_AddSourceFile (xo_functionFiles model)
       (GenMakefile_AddSourceFile ''main.cpp''
         (GenMakefile_AddHeaderFile ''flame_api.hpp''
           (GenMakefile_AddHeaderFile ''message_datatypes.hpp''
             (GenMakefile_AddHeaderFile ''agent_function_definitions.hpp'' GenMakefile_new))))"

definition common_header :: gen_file where
  "common_header =
     GenHeaderFile_AddRequiredHeader ''message_datatypes.hpp'' (GenHeaderFile_AddRequiredHeader ''flame2.hpp'' GenFile_new)"

definition build_output :: "generator_env \<Rightarrow> 'v xmodel \<Rightarrow> (gen_world, unit) exec" where
  "build_output env model w =
     (case FileGenerator_new env of
        Inl e \<Rightarrow> (Inl e, w)
      | Inr outdir \<Rightarrow>
          (case bindE (with_maincpp (generate_agents model)) (\<lambda>_.
                bindE (generate_agent_func_def env model ''agent_function_definitions.hpp'') (\<lambda>_.
                generate_messages env model ''message_datatypes.hpp''))
                (GenFile_Insert (Gen_Model GenModel_new) GenMainCpp_new, w) of
             (Inl e, (_, w1)) \<Rightarrow> (Inl e, w1)
           | (Inr _, (maincpp, w1)) \<Rightarrow>
               bindE (FileGenerator_Output env outdir ''flame_api.hpp'' (GenHeaderFile_Generate env common_header)) (\<lambda>_.
               bindE (FileGenerator_Output env outdir ''main.cpp'' (no_rand (GenMainCpp_Generate env maincpp))) (\<lambda>_.
               FileGenerator_Output env outdir ''Makefile'' (no_rand (GenMakefile_Generate env (model_makefile model))))) w1))"

section \<open>The program\<close>

text \<open>
  How a run ends: with an exit code, with an exception that is not caught, or stopped by the
  assertion, which a build with \<open>NDEBUG\<close> does not have.
\<close>

datatype run_end = Exit int | Uncaught exn | Aborted

fun is_io_exception :: "exn \<Rightarrow> bool" where
  "is_io_exception (flame_io_exception _) = True"
| "is_io_exception (inaccessable_file _) = True"
| "is_io_exception (unparseable_file _) = True"
| "is_io_exception (invalid_model_file _) = True"
| "is_io_exception (invalid_pop_file _) = True"
| "is_io_exception _ = False"

fun is_flame_exception :: "exn \<Rightarrow> bool" where
  "is_flame_exception (std_invalid_argument _) = False"
| "is_flame_exception (std_out_of_range _) = False"
| "is_flame_exception (UB _) = False"
| "is_flame_exception _ = True"

definition generate_and_finish :: "generator_env \<Rightarrow> 'v xmodel \<Rightarrow> gen_world \<Rightarrow> run_end \<times> gen_world" where
  "generate_and_finish env model w =
     (case build_output env model w of
        (Inl e, w') \<Rightarrow> (if is_flame_exception e then Exit 2 else Uncaught e, w')
      | (Inr _, w') \<Rightarrow>
          (case print_template env ''xparser_footer.tmpl'' of Inl e \<Rightarrow> Uncaught e | Inr _ \<Rightarrow> Exit 0, w'))"

text \<open>\<open>None\<close>: the depth is not enough for the nested models. \<open>argv\<close> does not include the program.\<close>

definition xparser_main ::
    "build \<Rightarrow> nat \<Rightarrow> library \<Rightarrow> ('d, 'doc, 'p, 's, 'c) io_library \<Rightarrow> generator_env \<Rightarrow> string list \<Rightarrow> gen_world \<Rightarrow>
     (run_end \<times> gen_world) option" where
  "xparser_main b depth lib io env argv w =
     (case argv of
        [file] \<Rightarrow>
          if \<not> ge_regular env file then Some (Exit 2, w)
          else (case print_template env ''xparser_header.tmpl'' of
            Inl e \<Rightarrow> Some (Uncaught e, w)
          | Inr _ \<Rightarrow>
            (case IOManager_loadModel depth io file (XModel_new :: unit xmodel) of
               None \<Rightarrow> None
             | Some (Inl e, _) \<Rightarrow> Some (if is_io_exception e then Exit 2 else Uncaught e, w)
             | Some (Inr _, model) \<Rightarrow>
                 (if b = Production then Some (generate_and_finish env model w)
                  else case XModel_validate lib model of
                      Inl e \<Rightarrow> Some (Uncaught e, w)
                    | Inr (rc, model') \<Rightarrow> if rc = 0 then Some (generate_and_finish env model' w) else Some (Aborted, w))))
      | _ \<Rightarrow> Some (Exit 1, w))"

end
