(* ===== verification/Generated_Program.thy ===== *)
theory Generated_Program
  imports Xparser Model_Documents
begin

text \<open>
  What the code generator is for: the sources it writes for a model, and the model that the
  generated program builds when its statements are run on the class \<open>Model\<close>.
\<close>

section \<open>The statements for a model\<close>

definition variable_pairs :: "xvariable list \<Rightarrow> (string \<times> string) list" where
  "variable_pairs vs = map (\<lambda>v. (xv_type v, xv_name v)) vs"

definition agent_calls :: "xmachine \<Rightarrow> statement list" where
  "agent_calls a = AddAgent (xa_name a) # map (\<lambda>v. AddAgentVariable (xa_name a) (xv_type v) (xv_name v)) (xa_variables a)"

definition function_calls :: "xmachine \<Rightarrow> xfunction \<Rightarrow> statement list" where
  "function_calls agent f =
     (let a = xa_name agent; n = xf_name f; s = xf_currentState f; t = xf_nextState f in
      AddAgentFunction a n s t #
      map (\<lambda>i. AddAgentFunctionOutput a n s t (xi_messageName i)) (xf_outputs f) @
      map (\<lambda>i. AddAgentFunctionInput a n s t (xi_messageName i)) (xf_inputs f) @
      map (AddAgentFunctionReadWriteVariable a n s t) (xf_readWriteVariables f) @
      map (AddAgentFunctionReadOnlyVariable a n s t) (xf_readOnlyVariables f))"

definition message_calls :: "xmessage \<Rightarrow> statement list" where
  "message_calls m =
     AddMessage (xm_name m) # map (\<lambda>v. AddMessageVariable (xm_name m) (xv_type v) (xv_name v)) (xm_variables m) @
     [RegisterMessageType (xm_name m)]"

definition function_names :: "'v xmodel \<Rightarrow> string list" where
  "function_names m = concat (map (\<lambda>a. map xf_name (xa_functions a)) (xo_agents m))"

definition main_groups :: "'v xmodel \<Rightarrow> statement list list" where
  "main_groups m =
     concat (map (\<lambda>a. agent_calls a # map (function_calls a) (xa_functions a)) (xo_agents m)) @
     [map RegisterAgentFunction (function_names m)] @ map message_calls (xo_messages m)"

definition main_statements :: "'v xmodel \<Rightarrow> statement list" where
  "main_statements m = concat (main_groups m)"

section \<open>Models for which sources are generated\<close>

definition function_generable :: "xfunction \<Rightarrow> bool" where
  "function_generable f \<longleftrightarrow> distinct (map xi_messageName (xf_outputs f)) \<and> distinct (map xi_messageName (xf_inputs f)) \<and>
     distinct (xf_readWriteVariables f) \<and> distinct (xf_readOnlyVariables f)"

definition agent_generable :: "xmachine \<Rightarrow> bool" where
  "agent_generable a \<longleftrightarrow> distinct (map xv_name (xa_variables a)) \<and> list_all function_generable (xa_functions a)"

definition message_generable :: "xmessage \<Rightarrow> bool" where
  "message_generable m \<longleftrightarrow> distinct (map xv_name (xm_variables m))"

text \<open>Adding names one after the other to a generator that rejects a name it has.\<close>

lemma forE_add:
  assumes add: "\<And>x g. add x g = (if key x \<in> known g then (Inl (logic_error msg), g) else (Inr (), upd x g))"
    and known: "\<And>x g. known (upd x g) = insert (key x) (known g)"
  shows "fst (forE add xs g) =
      (if distinct (map key xs) \<and> key ` set xs \<inter> known g = {} then Inr () else Inl (logic_error msg)) \<and>
    (distinct (map key xs) \<and> key ` set xs \<inter> known g = {} \<longrightarrow> snd (forE add xs g) = fold upd xs g)"
proof (induction xs arbitrary: g)
  case Nil
  then show ?case by (simp add: returnE_def)
next
  case (Cons x xs)
  show ?case
  proof (cases "key x \<in> known g")
    case True
    then show ?thesis by (simp add: add bindE_def)
  next
    case False
    then have "forE add (x # xs) g = forE add xs (upd x g)" by (simp add: add bindE_def)
    with Cons [of "upd x g"] False show ?thesis by (auto simp: known)
  qed
qed

lemma built_add:
  assumes "\<And>x g. add x g = (if key x \<in> known g then (Inl (logic_error msg), g) else (Inr (), upd x g))"
    and "\<And>x g. known (upd x g) = insert (key x) (known g)" and "known g = {}"
  shows "built (forE add xs) g = (if distinct (map key xs) then Inr (fold upd xs g) else Inl (logic_error msg))"
  using forE_add [where xs = xs and g = g and add = add, OF assms(1,2)] assms(3)
  by (cases "distinct (map key xs)") (auto simp: built_def split: prod.splits sum.splits)

lemma agent_generator_eq:
  "agent_generator a =
    (if distinct (map xv_name (xa_variables a))
     then Inr ((GenAgent_new (xa_name a))\<lparr>ga_vars := variable_pairs (xa_variables a),
                 ga_dupe_check := fold oset_insert (map xv_name (xa_variables a)) []\<rparr>)
     else Inl (logic_error ''variable already exists''))"
proof -
  let ?upd = "\<lambda>v g. g\<lparr>ga_vars := ga_vars g @ [(xv_type v, xv_name v)], ga_dupe_check := oset_insert (xv_name v) (ga_dupe_check g)\<rparr>"
  have "fold ?upd vs g = g\<lparr>ga_vars := ga_vars g @ variable_pairs vs,
      ga_dupe_check := fold oset_insert (map xv_name vs) (ga_dupe_check g)\<rparr>" for vs and g :: gen_agent
    by (induction vs arbitrary: g) (simp_all add: variable_pairs_def)
  then show ?thesis
    unfolding agent_generator_def
    by (subst built_add [where key = xv_name and known = "\<lambda>g. set (ga_dupe_check g)" and upd = ?upd and msg = "''variable already exists''"])
      (simp_all add: GenAgent_AddVar_def GenAgent_new_def)
qed

lemma message_struct_eq:
  "message_struct m =
    (if message_generable m
     then Inr ((GenDataStruct_new (xm_name m @ ''_message_t''))\<lparr>gds_vars := variable_pairs (xm_variables m),
                 gds_dupe_check := fold oset_insert (map xv_name (xm_variables m)) []\<rparr>)
     else Inl (logic_error ''variable already exists''))"
proof -
  let ?upd = "\<lambda>v g. g\<lparr>gds_vars := gds_vars g @ [(xv_type v, xv_name v)], gds_dupe_check := oset_insert (xv_name v) (gds_dupe_check g)\<rparr>"
  have "fold ?upd vs g = g\<lparr>gds_vars := gds_vars g @ variable_pairs vs,
      gds_dupe_check := fold oset_insert (map xv_name vs) (gds_dupe_check g)\<rparr>" for vs and g :: gen_data_struct
    by (induction vs arbitrary: g) (simp_all add: variable_pairs_def)
  then show ?thesis
    unfolding message_struct_def message_generable_def
    by (subst built_add [where key = xv_name and known = "\<lambda>g. set (gds_dupe_check g)" and upd = ?upd and msg = "''variable already exists''"])
      (simp_all add: GenDataStruct_AddVar_def GenDataStruct_new_def RequireSysHeader_def)
qed

lemma message_registration_eq:
  "message_registration m = (GenMessageRegistration_new (xm_name m))\<lparr>gmr_vars := variable_pairs (xm_variables m)\<rparr>"
proof -
  have "fold (\<lambda>v. GenMessageRegistration_AddVar (xv_type v) (xv_name v)) vs g =
      g\<lparr>gmr_vars := gmr_vars g @ variable_pairs vs\<rparr>" for vs and g :: gen_message_registration
    by (induction vs arbitrary: g) (simp_all add: GenMessageRegistration_AddVar_def variable_pairs_def)
  then show ?thesis by (simp add: message_registration_def GenMessageRegistration_new_def)
qed

definition function_generator :: "xmachine \<Rightarrow> xfunction \<Rightarrow> gen_agent_func" where
  "function_generator a f =
     (GenAgentFunc_new (xa_name a) (xf_name f) (xf_currentState f) (xf_nextState f))
       \<lparr>gaf_outputs := map xi_messageName (xf_outputs f), gaf_inputs := map xi_messageName (xf_inputs f),
        gaf_read_write_vars := xf_readWriteVariables f, gaf_read_only_vars := xf_readOnlyVariables f\<rparr>"

lemma agent_func_generator_eq:
  "if function_generable f then agent_func_generator a f = Inr (function_generator a f)
   else \<exists>e. agent_func_generator a f = Inl (logic_error e)"
proof -
  let ?os = "map xi_messageName (xf_outputs f)" and ?is = "map xi_messageName (xf_inputs f)"
  let ?g0 = "GenAgentFunc_new (xa_name a) (xf_name f) (xf_currentState f) (xf_nextState f)"
  let ?g1 = "?g0\<lparr>gaf_outputs := ?os\<rparr>"
  let ?g2 = "?g1\<lparr>gaf_inputs := ?is\<rparr>"
  let ?g3 = "?g2\<lparr>gaf_read_write_vars := xf_readWriteVariables f\<rparr>"
  have loops: "forE (\<lambda>i. GenAgentFunc_AddOutput (xi_messageName i)) (xf_outputs f) = forE GenAgentFunc_AddOutput ?os"
    "forE (\<lambda>i. GenAgentFunc_AddInput (xi_messageName i)) (xf_inputs f) = forE GenAgentFunc_AddInput ?is"
    by (simp_all add: forE_map)
  have 1: "if distinct ?os then forE GenAgentFunc_AddOutput ?os ?g0 = (Inr (), ?g1)
      else \<exists>e g. forE GenAgentFunc_AddOutput ?os ?g0 = (Inl (logic_error e), g)"
    using gen_outputs.add_all [of ?g0 ?os] by (auto simp: GenAgentFunc_new_def)
  have 2: "if distinct ?is then forE GenAgentFunc_AddInput ?is ?g1 = (Inr (), ?g2)
      else \<exists>e g. forE GenAgentFunc_AddInput ?is ?g1 = (Inl (logic_error e), g)"
    using gen_inputs.add_all [of ?g1 ?is] by (auto simp: GenAgentFunc_new_def)
  have 3: "if distinct (xf_readWriteVariables f) then forE GenAgentFunc_AddReadWriteVar (xf_readWriteVariables f) ?g2 = (Inr (), ?g3)
      else \<exists>e g. forE GenAgentFunc_AddReadWriteVar (xf_readWriteVariables f) ?g2 = (Inl (logic_error e), g)"
    using gen_read_write.add_all [of ?g2 "xf_readWriteVariables f"] by (auto simp: GenAgentFunc_new_def)
  have 4: "if distinct (xf_readOnlyVariables f)
      then forE GenAgentFunc_AddReadOnlyVar (xf_readOnlyVariables f) ?g3 = (Inr (), function_generator a f)
      else \<exists>e g. forE GenAgentFunc_AddReadOnlyVar (xf_readOnlyVariables f) ?g3 = (Inl (logic_error e), g)"
    using gen_read_only.add_all [of ?g3 "xf_readOnlyVariables f"] by (auto simp: GenAgentFunc_new_def function_generator_def)
  note step = agent_func_generator_def built_def bindE_def function_generable_def loops
  show ?thesis
  proof (cases "distinct ?os \<and> distinct ?is")
    case False
    then show ?thesis using 1 2 by (cases "distinct ?os") (auto simp: step simp del: distinct_map)
  next
    case True
    then show ?thesis using 1 2 3 4
      by (cases "distinct (xf_readWriteVariables f)"; cases "distinct (xf_readOnlyVariables f)")
        (auto simp: step simp del: distinct_map)
  qed
qed

definition agent_gen :: "xmachine \<Rightarrow> gen_agent" where
  "agent_gen a = (GenAgent_new (xa_name a))\<lparr>ga_vars := variable_pairs (xa_variables a),
     ga_dupe_check := fold oset_insert (map xv_name (xa_variables a)) []\<rparr>"

definition struct_gen :: "xmessage \<Rightarrow> gen_data_struct" where
  "struct_gen m = (GenDataStruct_new (xm_name m @ ''_message_t''))\<lparr>gds_vars := variable_pairs (xm_variables m),
     gds_dupe_check := fold oset_insert (map xv_name (xm_variables m)) []\<rparr>"

definition agent_generators :: "xmachine \<Rightarrow> generator list" where
  "agent_generators a = Gen_Agent (agent_gen a) # map (\<lambda>f. Gen_AgentFunc (function_generator a f)) (xa_functions a)"

definition add_generators :: "generator list \<Rightarrow> gen_file \<Rightarrow> gen_file" where
  "add_generators gs f = f\<lparr>gf_generators := gf_generators f @ gs\<rparr>"

lemma add_generators_simps [simp]:
  "add_generators [] f = f" "add_generators hs (add_generators gs f) = add_generators (gs @ hs) f"
  by (simp_all add: add_generators_def)

lemma insert_plain:
  "required_headers (generator_base g) = [] \<Longrightarrow> required_sys_headers (generator_base g) = [] \<Longrightarrow>
   GenFile_Insert g f = add_generators [g] f"
  by (simp add: GenFile_Insert_def RequireSysHeaders_def RequireHeaders_def add_generators_def)

lemma insert_agent_parts [simp]:
  "GenFile_Insert (Gen_Agent (agent_gen a)) f = add_generators [Gen_Agent (agent_gen a)] f"
  "GenFile_Insert (Gen_AgentFunc (function_generator a g)) f = add_generators [Gen_AgentFunc (function_generator a g)] f"
  "GenFile_Insert (Gen_MessageRegistration (message_registration m)) f =
     add_generators [Gen_MessageRegistration (message_registration m)] f"
  by (rule insert_plain; simp add: agent_gen_def GenAgent_new_def function_generator_def GenAgentFunc_new_def
      message_registration_eq GenMessageRegistration_new_def code_generator.truncate_def)+

text \<open>A loop whose steps succeed for good elements and fail at the first bad one.\<close>

lemma forE_all_or_error:
  assumes "\<And>x f. x \<in> set xs \<Longrightarrow> if good x then step x f = (Inr (), add_generators (gens x) f)
      else \<exists>e f'. step x f = (Inl (logic_error e), f')"
  shows "if list_all good xs then forE step xs f = (Inr (), add_generators (concat (map gens xs)) f)
    else \<exists>e f'. forE step xs f = (Inl (logic_error e), f')"
  using assms
proof (induction xs arbitrary: f)
  case (Cons x xs)
  show ?case
  proof (cases "good x")
    case True
    have IH: "if list_all good xs then forE step xs f = (Inr (), add_generators (concat (map gens xs)) f)
        else \<exists>e f'. forE step xs f = (Inl (logic_error e), f')" for f
      by (rule Cons.IH) (use Cons.prems in auto)
    show ?thesis using Cons.prems [of x f] IH [of "add_generators (gens x) f"] True by (auto simp: bindE_def split: if_splits)
  next
    case False
    then show ?thesis using Cons.prems [of x f] by (auto simp: bindE_def)
  qed
qed (simp add: returnE_def)

lemma generate_functions_eq:
  "if list_all function_generable (xa_functions a)
   then generate_agent_functions a f =
     (Inr (), add_generators (concat (map (\<lambda>g. [Gen_AgentFunc (function_generator a g)]) (xa_functions a))) f)
   else \<exists>e f'. generate_agent_functions a f = (Inl (logic_error e), f')"
  unfolding generate_agent_functions_def
proof (rule forE_all_or_error)
  fix g and f :: gen_file
  show "if function_generable g
      then insert_built Gen_AgentFunc (agent_func_generator a g) f = (Inr (), add_generators [Gen_AgentFunc (function_generator a g)] f)
      else \<exists>e f'. insert_built Gen_AgentFunc (agent_func_generator a g) f = (Inl (logic_error e), f')"
    using agent_func_generator_eq [of g a] by (auto simp: insert_built_def)
qed

lemma generate_agents_eq:
  "if list_all agent_generable (xo_agents m)
   then generate_agents m f = (Inr (), add_generators (concat (map agent_generators (xo_agents m))) f)
   else \<exists>e f'. generate_agents m f = (Inl (logic_error e), f')"
  unfolding generate_agents_def
proof (rule forE_all_or_error)
  fix a and f :: gen_file
  show "if agent_generable a
      then bindE (insert_built Gen_Agent (agent_generator a)) (\<lambda>_. generate_agent_functions a) f =
        (Inr (), add_generators (agent_generators a) f)
      else \<exists>e f'. bindE (insert_built Gen_Agent (agent_generator a)) (\<lambda>_. generate_agent_functions a) f =
        (Inl (logic_error e), f')"
    using generate_functions_eq [of a "add_generators [Gen_Agent (agent_gen a)] f"]
    by (auto simp: agent_generable_def agent_generator_eq insert_built_def bindE_def agent_gen_def [symmetric]
        agent_generators_def concat_map_singleton)
qed

definition message_generators :: "'v xmodel \<Rightarrow> generator list" where
  "message_generators m = map (\<lambda>g. Gen_MessageRegistration (message_registration g)) (xo_messages m)"

definition struct_file :: "xmessage list \<Rightarrow> gen_file" where
  "struct_file msgs =
     \<lparr>required_headers = [], required_sys_headers = (if msgs = [] then [] else [''ostream'']),
      gf_generators = map (\<lambda>g. Gen_DataStruct (struct_gen g)) msgs\<rparr>"

lemma insert_struct: "GenFile_Insert (Gen_DataStruct (struct_gen g)) (struct_file msgs) = struct_file (msgs @ [g])"
  by (simp add: GenFile_Insert_def RequireSysHeaders_def RequireHeaders_def struct_file_def struct_gen_def
      GenDataStruct_new_def RequireSysHeader_def code_generator.truncate_def oset_insert_def)

lemma insert_messages_eq:
  "if list_all message_generable msgs
   then insert_messages msgs (f, struct_file done0) =
     (Inr (), (add_generators (map (\<lambda>g. Gen_MessageRegistration (message_registration g)) msgs) f, struct_file (done0 @ msgs)))
   else \<exists>e s. insert_messages msgs (f, struct_file done0) = (Inl (logic_error e), s)"
proof (induction msgs arbitrary: f done0)
  case (Cons g msgs)
  show ?case
    using Cons [of "add_generators [Gen_MessageRegistration (message_registration g)] f" "done0 @ [g]"]
    by (auto simp: message_struct_eq struct_gen_def [symmetric] insert_struct)
qed simp

section \<open>The files that are written\<close>

text \<open>All names and types of a model are within one line.\<close>

definition variable_lines :: "xvariable list \<Rightarrow> bool" where
  "variable_lines vs \<longleftrightarrow> list_all (\<lambda>v. single_line (xv_type v) \<and> single_line (xv_name v)) vs"

definition xfunction_lines :: "xfunction \<Rightarrow> bool" where
  "xfunction_lines f \<longleftrightarrow> single_line (xf_name f) \<and> single_line (xf_currentState f) \<and> single_line (xf_nextState f) \<and>
     list_all (\<lambda>i. single_line (xi_messageName i)) (xf_outputs f @ xf_inputs f) \<and>
     list_all single_line (xf_readWriteVariables f @ xf_readOnlyVariables f)"

definition model_lines :: "'v xmodel \<Rightarrow> bool" where
  "model_lines m \<longleftrightarrow>
     list_all (\<lambda>a. single_line (xa_name a) \<and> variable_lines (xa_variables a) \<and> list_all xfunction_lines (xa_functions a)) (xo_agents m) \<and>
     list_all (\<lambda>g. single_line (xm_name g) \<and> variable_lines (xm_variables g)) (xo_messages m) \<and>
     list_all single_line (xo_functionFiles m)"

definition register_snippets :: "'v xmodel \<Rightarrow> single_var_snippet" where
  "register_snippets m = RegisterAgentFuncSnippets_new\<lparr>sv_vars := function_names m\<rparr>"

definition declare_snippets :: "'v xmodel \<Rightarrow> single_var_snippet" where
  "declare_snippets m = AgentFunctionHeaderSnippets_new\<lparr>sv_vars := function_names m\<rparr>"

lemma add_snippets: "fold SingleVarSnippet_Add ns g = g\<lparr>sv_vars := sv_vars g @ ns\<rparr>"
  by (induction ns arbitrary: g) (simp_all add: SingleVarSnippet_Add_def)

lemma snippets_text:
  "snippet_text (register_snippets m) v = (Inr (), statement_text (RegisterAgentFunction v))"
  "snippet_text (declare_snippets m) v = (Inr (), ''FLAME_AGENT_FUNCTION('' @ v @ '');'' @ [newline])"
  by (simp_all add: snippet_text_def register_snippets_def declare_snippets_def RegisterAgentFuncSnippets_new_def
      AgentFunctionHeaderSnippets_new_def RequireHeader_def text_simps)

definition main_file :: "'v xmodel \<Rightarrow> gen_file" where
  "main_file m =
     add_generators (concat (map agent_generators (xo_agents m)) @ Gen_Snippets (register_snippets m) # message_generators m)
       (GenFile_Insert (Gen_Model GenModel_new) GenMainCpp_new)"

definition declarations_file :: "'v xmodel \<Rightarrow> gen_file" where
  "declarations_file m = GenFile_Insert (Gen_Snippets (declare_snippets m)) GenFile_new"

definition include_lines :: "string list \<Rightarrow> string list \<Rightarrow> string" where
  "include_lines sys own =
     concat (map (\<lambda>h. ''#include <'' @ h @ ''>'' @ [newline]) sys) @
     concat (map (\<lambda>h. ''#include '' @ quoted h @ [newline]) own) @ [newline]"

definition groups_text :: "statement list list \<Rightarrow> string" where
  "groups_text gs = concat (map (\<lambda>ss. statements_text ss @ [newline]) gs)"

definition main_source :: "'v xmodel \<Rightarrow> string \<Rightarrow> string \<Rightarrow> string" where
  "main_source m header footer =
     include_lines [''cstdio'', ''ctime'', ''iostream'', ''string'']
       [''agent_function_definitions.hpp'', ''flame2/exceptions/io.hpp'', ''flame2/model/model.hpp'',
        ''flame2/sim/simulation.hpp'', ''message_datatypes.hpp''] @
     [newline] @ header @ [newline] @
     indented ''  '' True (''flame::model::Model model;'' @ [newline, newline] @ groups_text (main_groups m)) @
     [newline] @ footer"

definition guarded :: "string \<Rightarrow> string \<Rightarrow> string" where
  "guarded guard body =
     ''#ifndef '' @ guard @ [newline] @ ''#define '' @ guard @ [newline] @ body @ ''#endif  // '' @ guard @ [newline]"

definition declarations_source :: "'v xmodel \<Rightarrow> string" where
  "declarations_source m =
     include_lines [] [''flame2.hpp''] @
     concat (map (\<lambda>n. ''FLAME_AGENT_FUNCTION('' @ n @ '');'' @ [newline]) (function_names m)) @ [newline]"

definition messages_source :: "'v xmodel \<Rightarrow> string" where
  "messages_source m =
     include_lines (if xo_messages m = [] then [] else [''ostream'']) [] @
     concat (map (\<lambda>g. struct_text (struct_gen g) @ [newline]) (xo_messages m))"

lemma agent_statements_group [simp]: "agent_statements (agent_gen a) = agent_calls a"
  by (simp add: agent_statements_def agent_gen_def GenAgent_new_def agent_calls_def variable_pairs_def comp_def)

lemma function_statements_group [simp]: "function_statements (function_generator a f) = function_calls a f"
  by (simp add: function_statements_def function_generator_def GenAgentFunc_new_def function_calls_def Let_def comp_def)

lemma message_statements_group [simp]: "message_statements (message_registration m) = message_calls m"
  by (simp add: message_statements_def message_registration_eq GenMessageRegistration_new_def message_calls_def
      variable_pairs_def comp_def)

lemma main_content:
  "content_text (main_file m) = ''flame::model::Model model;'' @ [newline, newline] @ groups_text (main_groups m)"
proof -
  have "concat (map (\<lambda>g. generator_text g @ [newline]) (concat (map agent_generators as))) =
      groups_text (concat (map (\<lambda>a. agent_calls a # map (function_calls a) (xa_functions a)) as))" for as
    by (induction as) (simp_all add: agent_generators_def groups_text_def comp_def)
  then show ?thesis
    by (simp add: content_text_def main_file_def add_generators_def GenFile_Insert_def RequireSysHeaders_def
        RequireHeaders_def GenMainCpp_new_def RequireHeader_def RequireSysHeader_def GenFile_new_def main_groups_def
        groups_text_def message_generators_def snippets_text comp_def)
      (simp add: statements_text_def register_snippets_def comp_def)
qed

lemma list_all_concat: "list_all P (concat xss) \<longleftrightarrow> list_all (list_all P) xss"
  by (auto simp: list_all_iff)

lemma agent_generators_ok:
  "single_line (xa_name a) \<Longrightarrow> variable_lines (xa_variables a) \<Longrightarrow> list_all xfunction_lines (xa_functions a) \<Longrightarrow>
   list_all generator_ok (agent_generators a)"
  by (auto simp: agent_generators_def agent_gen_def GenAgent_new_def variable_pairs_def variable_lines_def list_all_iff
      function_generator_def GenAgentFunc_new_def function_lines_def xfunction_lines_def)

lemma main_file_headers:
  "required_sys_headers (main_file m) = [''cstdio'', ''ctime'', ''iostream'', ''string'']"
  "required_headers (main_file m) = [''agent_function_definitions.hpp'', ''flame2/exceptions/io.hpp'',
     ''flame2/model/model.hpp'', ''flame2/sim/simulation.hpp'', ''message_datatypes.hpp'']"
  by (simp_all add: main_file_def add_generators_def GenFile_Insert_def RequireSysHeaders_def RequireHeaders_def
      GenMainCpp_new_def RequireHeader_def RequireSysHeader_def GenFile_new_def GenModel_new_def CodeGenerator_new_def)
    (code_simp+)

lemma main_file_ok:
  assumes "model_lines m"
  shows "file_ok (main_file m)"
proof -
  have "list_all (list_all generator_ok) (map agent_generators (xo_agents m))"
    using assms by (auto simp: model_lines_def list_all_iff intro!: agent_generators_ok [unfolded list_all_iff, rule_format])
  moreover have "list_all generator_ok (message_generators m)"
    using assms by (auto simp: model_lines_def message_generators_def message_registration_eq GenMessageRegistration_new_def
        variable_pairs_def variable_lines_def list_all_iff)
  moreover have "\<forall>v \<in> set (function_names m). single_line v"
    using assms by (auto simp: function_names_def model_lines_def xfunction_lines_def list_all_iff)
  then have "generator_ok (Gen_Snippets (register_snippets m))"
    by (simp add: snippets_text) (simp add: register_snippets_def)
  ultimately have "list_all generator_ok (gf_generators (main_file m))"
    by (simp add: main_file_def add_generators_def GenFile_Insert_def RequireSysHeaders_def RequireHeaders_def
        GenMainCpp_new_def RequireHeader_def RequireSysHeader_def GenFile_new_def list_all_concat)
  then show ?thesis by (simp add: file_ok_def main_file_headers single_line_def)
qed

lemma main_file_text: "main_text (main_file m) header footer = main_source m header footer"
  by (simp add: main_text_def main_source_def main_content includes_text_def main_file_headers include_lines_def)

lemma declarations_file_ok:
  assumes "model_lines m"
  shows "file_ok (declarations_file m)"
proof -
  have "\<forall>v \<in> set (function_names m). single_line v"
    using assms by (auto simp: function_names_def model_lines_def xfunction_lines_def list_all_iff)
  then have "generator_ok (Gen_Snippets (declare_snippets m))"
    by (simp add: snippets_text) (simp add: declare_snippets_def)
  then show ?thesis
    by (simp add: file_ok_def declarations_file_def GenFile_Insert_def RequireSysHeaders_def RequireHeaders_def GenFile_new_def
        declare_snippets_def AgentFunctionHeaderSnippets_new_def RequireHeader_def code_generator.truncate_def
        oset_insert_def single_line_def)
qed

lemma declarations_file_text: "header_file_text (declarations_file m) guard = guarded guard (declarations_source m)"
proof -
  have "generator_text (Gen_Snippets (declare_snippets m)) =
      concat (map (\<lambda>n. ''FLAME_AGENT_FUNCTION('' @ n @ '');'' @ [newline]) (function_names m))"
    by (simp add: snippets_text) (simp add: declare_snippets_def)
  then show ?thesis
    by (simp add: header_file_text_def guarded_def declarations_source_def declarations_file_def includes_text_def
        include_lines_def content_text_def GenFile_Insert_def RequireSysHeaders_def RequireHeaders_def GenFile_new_def
        del: generator_text.simps)
      (simp add: declare_snippets_def AgentFunctionHeaderSnippets_new_def RequireHeader_def code_generator.truncate_def
        oset_insert_def)
qed

lemma struct_file_ok:
  assumes "model_lines m"
  shows "file_ok (struct_file (xo_messages m))"
  using assms
  by (auto simp: file_ok_def struct_file_def struct_gen_def GenDataStruct_new_def RequireSysHeader_def variable_pairs_def
      model_lines_def variable_lines_def list_all_iff single_line_def)

lemma struct_file_text: "header_file_text (struct_file (xo_messages m)) guard = guarded guard (messages_source m)"
  by (simp add: header_file_text_def guarded_def messages_source_def struct_file_def includes_text_def include_lines_def
      content_text_def comp_def)

definition guard :: "generator_env \<Rightarrow> nat \<Rightarrow> string" where
  "guard env n = ''__INCLUDE_GUARD_'' @ fst (gen_random_string env 12 n)"

lemma random_char: "random_pool ! (k mod length random_pool) \<noteq> newline"
proof -
  have "k mod length random_pool < length random_pool" by (rule mod_less_divisor) (simp add: random_pool_def)
  then have "random_pool ! (k mod length random_pool) \<in> set random_pool" by (rule nth_mem)
  moreover have "newline \<notin> set random_pool" by (simp add: random_pool_def)
  ultimately show ?thesis by metis
qed

lemma guard_line: "single_line (guard env n)"
  using random_char [symmetric] by (auto simp: guard_def single_line_def gen_random_string_def)

lemma output_header_file:
  assumes "file_ok f" "ge_can_write env (ge_join env outdir name)"
  shows "FileGenerator_Output env outdir name (GenHeaderFile_Generate env f) w =
    (Inr (), w\<lparr>gw_files := omap_put (ge_join env outdir name) (header_file_text f (guard env (gw_rands w))) (gw_files w),
       gw_rands := gw_rands w + 12\<rparr>)"
proof -
  have "GenHeaderFile_print f (guard env (gw_rands w)) (Printer_new (CHR ''$'')) =
      (Inr (), emit (header_file_text f (guard env (gw_rands w))) (Printer_new (CHR ''$'')))"
    by (rule printsD [OF prints_header_file [OF assms(1) guard_line]]) (simp add: Printer_new_def)
  then show ?thesis using assms(2)
    by (simp add: FileGenerator_Output_def GenHeaderFile_Generate_def guard_def gen_random_string_def Printer_new_def)
qed

lemma output_plain_file:
  assumes "m (Printer_new (CHR ''$'')) = (Inr (), p)" "ge_can_write env (ge_join env outdir name)"
  shows "FileGenerator_Output env outdir name (no_rand m) w =
    (Inr (), w\<lparr>gw_files := omap_put (ge_join env outdir name) (pr_out p) (gw_files w)\<rparr>)"
  using assms by (simp add: FileGenerator_Output_def no_rand_def)

definition model_generable :: "'v xmodel \<Rightarrow> bool" where
  "model_generable m \<longleftrightarrow> list_all agent_generable (xo_agents m) \<and> list_all message_generable (xo_messages m)"

text \<open>The files in the order in which they are written; \<open>n\<close> numbers have been drawn before.\<close>

definition output_files ::
    "generator_env \<Rightarrow> 'v xmodel \<Rightarrow> string \<Rightarrow> string \<Rightarrow> string \<Rightarrow> nat \<Rightarrow> (string \<times> string) list" where
  "output_files env m header footer mk n =
     [(''agent_function_definitions.hpp'', guarded (guard env n) (declarations_source m)),
      (''message_datatypes.hpp'', guarded (guard env (n + 12)) (messages_source m)),
      (''flame_api.hpp'', guarded (guard env (n + 24)) (include_lines [] [''flame2.hpp'', ''message_datatypes.hpp''])),
      (''main.cpp'', main_source m header footer),
      (''Makefile'', makefile_text (model_makefile m) mk)]"

definition generator_ready :: "generator_env \<Rightarrow> string \<Rightarrow> string \<Rightarrow> string \<Rightarrow> bool" where
  "generator_ready env header footer mk \<longleftrightarrow> ge_directory env (ge_cwd env) \<and>
     (\<forall>name \<in> {''agent_function_definitions.hpp'', ''message_datatypes.hpp'', ''flame_api.hpp'', ''main.cpp'', ''Makefile''}.
        ge_can_write env (ge_join env (ge_cwd env) name)) \<and>
     template_text env ''main_header.cpp.tmpl'' = Some header \<and> template_text env ''main_footer.cpp.tmpl'' = Some footer \<and>
     template_text env ''Makefile.tmpl'' = Some mk"

lemma common_header_text:
  "file_ok common_header"
  "header_file_text common_header g = guarded g (include_lines [] [''flame2.hpp'', ''message_datatypes.hpp''])"
  by (simp_all add: common_header_def GenHeaderFile_AddRequiredHeader_def RequireHeader_def GenFile_new_def oset_insert_def
      file_ok_def single_line_def header_file_text_def guarded_def includes_text_def include_lines_def content_text_def)

lemma model_makefile_lines:
  assumes "model_lines m"
  shows "list_all single_line (gm_sources (model_makefile m))" "list_all single_line (gm_headers (model_makefile m))"
proof -
  have fold: "gm_headers (fold GenMakefile_AddSourceFile fs g) = gm_headers g \<and>
      set (gm_sources (fold GenMakefile_AddSourceFile fs g)) = set (gm_sources g) \<union> set fs" for fs g
    by (induction fs arbitrary: g) (simp_all add: GenMakefile_AddSourceFile_def)
  show "list_all single_line (gm_sources (model_makefile m))" "list_all single_line (gm_headers (model_makefile m))"
    using assms
    by (auto simp: model_makefile_def list_all_iff fold GenMakefile_AddSourceFile_def GenMakefile_AddHeaderFile_def
        GenMakefile_new_def model_lines_def single_line_def)
qed

lemma generate_agent_func_def_eq:
  assumes "ge_directory env (ge_cwd env)" "ge_can_write env (ge_join env (ge_cwd env) name)" "model_lines m"
  shows "generate_agent_func_def env m name (f, w) =
    (Inr (), (add_generators [Gen_Snippets (register_snippets m)] f,
      w\<lparr>gw_files := omap_put (ge_join env (ge_cwd env) name) (guarded (guard env (gw_rands w)) (declarations_source m)) (gw_files w),
        gw_rands := gw_rands w + 12\<rparr>))"
proof -
  have "fold SingleVarSnippet_Add (function_names m) RegisterAgentFuncSnippets_new = register_snippets m"
    "fold SingleVarSnippet_Add (function_names m) AgentFunctionHeaderSnippets_new = declare_snippets m"
    by (simp_all add: add_snippets register_snippets_def declare_snippets_def RegisterAgentFuncSnippets_new_def
        AgentFunctionHeaderSnippets_new_def RequireHeader_def)
  moreover have "GenFile_Insert (Gen_Snippets (register_snippets m)) f = add_generators [Gen_Snippets (register_snippets m)] f"
    by (rule insert_plain) (simp_all add: register_snippets_def RegisterAgentFuncSnippets_new_def code_generator.truncate_def)
  ultimately show ?thesis
    using output_header_file [OF declarations_file_ok [OF assms(3)] assms(2)] assms(1)
    by (simp add: generate_agent_func_def_def FileGenerator_new_def FileGenerator_ChangeOutputDirectory_def Let_def
        function_names_def [symmetric] declarations_file_def [symmetric] declarations_file_text bindE_def
        with_maincpp_def with_world_def)
qed

lemma generate_messages_eq:
  assumes "ge_directory env (ge_cwd env)" "ge_can_write env (ge_join env (ge_cwd env) name)" "model_lines m"
    and "list_all message_generable (xo_messages m)"
  shows "generate_messages env m name (f, w) =
    (Inr (), (add_generators (message_generators m) f,
      w\<lparr>gw_files := omap_put (ge_join env (ge_cwd env) name) (guarded (guard env (gw_rands w)) (messages_source m)) (gw_files w),
        gw_rands := gw_rands w + 12\<rparr>))"
proof -
  have "GenFile_new = struct_file []" by (simp add: GenFile_new_def struct_file_def)
  then show ?thesis
    using insert_messages_eq [of "xo_messages m" f "[]"] assms(1,4)
      output_header_file [OF struct_file_ok [OF assms(3)] assms(2)]
    by (simp add: generate_messages_def FileGenerator_new_def FileGenerator_ChangeOutputDirectory_def
        struct_file_text message_generators_def)
qed

lemma build_output_eq:
  assumes "generator_ready env header footer mk" "model_lines m" "model_generable m"
  shows "build_output env m w = (Inr (), w\<lparr>
    gw_files := fold (\<lambda>(name, text). omap_put (ge_join env (ge_cwd env) name) text)
      (output_files env m header footer mk (gw_rands w)) (gw_files w), gw_rands := gw_rands w + 36\<rparr>)"
proof -
  have dir: "ge_directory env (ge_cwd env)"
    and wr: "ge_can_write env (ge_join env (ge_cwd env) ''agent_function_definitions.hpp'')"
      "ge_can_write env (ge_join env (ge_cwd env) ''message_datatypes.hpp'')"
      "ge_can_write env (ge_join env (ge_cwd env) ''flame_api.hpp'')"
      "ge_can_write env (ge_join env (ge_cwd env) ''main.cpp'')" "ge_can_write env (ge_join env (ge_cwd env) ''Makefile'')"
    and tm: "template_text env ''main_header.cpp.tmpl'' = Some header" "template_text env ''main_footer.cpp.tmpl'' = Some footer"
      "template_text env ''Makefile.tmpl'' = Some mk"
    using assms(1) by (simp_all add: generator_ready_def)
  have gen: "list_all agent_generable (xo_agents m)" "list_all message_generable (xo_messages m)"
    using assms(3) by (simp_all add: model_generable_def)
  obtain p where p: "GenMainCpp_Generate env (main_file m) (Printer_new (CHR ''$'')) = (Inr (), p)" "pr_out p = main_source m header footer"
    using main_generated [OF main_file_ok [OF assms(2)] tm(1,2)] by (auto simp: main_file_text)
  obtain q where q: "GenMakefile_Generate env (model_makefile m) (Printer_new (CHR ''$'')) = (Inr (), q)"
      "pr_out q = makefile_text (model_makefile m) mk"
    using makefile_generated [OF model_makefile_lines [OF assms(2)] tm(3)] by auto
  let ?f = "GenFile_Insert (Gen_Model GenModel_new) GenMainCpp_new"
  have agents: "generate_agents m ?f = (Inr (), add_generators (concat (map agent_generators (xo_agents m))) ?f)"
    using generate_agents_eq [of m ?f] gen(1) by simp
  have main: "add_generators (message_generators m) (add_generators [Gen_Snippets (register_snippets m)]
      (add_generators (concat (map agent_generators (xo_agents m))) ?f)) = main_file m"
    by (simp add: main_file_def)
  show ?thesis
    using agents dir
    by (simp add: build_output_def FileGenerator_new_def FileGenerator_ChangeOutputDirectory_def with_maincpp_def bindE_def
        generate_agent_func_def_eq [OF dir wr(1) assms(2)] generate_messages_eq [OF dir wr(2) assms(2) gen(2)]
        main [simplified] output_header_file [OF common_header_text(1) wr(3)] common_header_text(2)
        output_plain_file [where m = "GenMainCpp_Generate env (main_file m)", OF p(1) wr(4)] p(2)
        output_plain_file [where m = "GenMakefile_Generate env (model_makefile m)", OF q(1) wr(5)] q(2) output_files_def add.assoc)
qed

lemma build_output_duplicates:
  assumes "ge_directory env (ge_cwd env)" "\<not> list_all agent_generable (xo_agents m)"
  shows "\<exists>e. build_output env m w = (Inl (logic_error e), w)"
  using generate_agents_eq [of m "GenFile_Insert (Gen_Model GenModel_new) GenMainCpp_new"] assms
  by (auto simp: build_output_def FileGenerator_new_def FileGenerator_ChangeOutputDirectory_def with_maincpp_def bindE_def)

end
