(* ===== verification/Rebuilt_Model.thy ===== *)
theory Rebuilt_Model
  imports Generated_Program
begin

text \<open>
  The model that the generated program builds: its statements are run on an object of the class
  \<open>Model\<close>. What a statement about a message type does is outside of that object.
\<close>

section \<open>Running the statements\<close>

text \<open>\<open>funs\<close> are the functions that the names stand for in the generated program.\<close>

fun run_statement :: "(string \<Rightarrow> 'v agent_fun option) \<Rightarrow> statement \<Rightarrow> ('v model_state, unit) exec" where
  "run_statement funs (AddAgent a) = (\<lambda>mo. (Inr (), Model_addAgent a mo))"
| "run_statement funs (AddAgentVariable a t v) = Model_addAgentVariable a t v"
| "run_statement funs (AddAgentFunction a f c n) = Model_addAgentFunction a f c n"
| "run_statement funs (AddAgentFunctionOutput a f c n m) = Model_addAgentFunctionOutput a f c n m"
| "run_statement funs (AddAgentFunctionInput a f c n m) = Model_addAgentFunctionInput a f c n m"
| "run_statement funs (AddAgentFunctionReadWriteVariable a f c n v) = Model_addAgentFunctionReadWriteVariable a f c n v"
| "run_statement funs (AddAgentFunctionReadOnlyVariable a f c n v) = Model_addAgentFunctionReadOnlyVariable a f c n v"
| "run_statement funs (RegisterAgentFunction f) = (\<lambda>mo. (Inr (), Model_registerAgentFunction f (funs f) mo))"
| "run_statement funs (AddMessage m) = (\<lambda>mo. (Inr (), Model_addMessage m mo))"
| "run_statement funs (AddMessageVariable m t v) = Model_addMessageVariable m t v"
| "run_statement funs (RegisterMessageType m) = returnE ()"

definition run_statements :: "(string \<Rightarrow> 'v agent_fun option) \<Rightarrow> statement list \<Rightarrow> ('v model_state, unit) exec" where
  "run_statements funs = forE (run_statement funs)"

section \<open>What is left of a model\<close>

text \<open>
  The parts of a model that have statements. Arrays, the flags and ids set by validation, and
  what reads as the default are not among them, nor are conditions, filters, sorting, data
  types, time units and constants.
\<close>

definition plain_variable :: "xvariable \<Rightarrow> xvariable" where
  "plain_variable v = new_variable (xv_type v) (xv_name v)"

definition plain_io :: "xioput \<Rightarrow> xioput" where
  "plain_io i = XIOput_new\<lparr>xi_messageName := xi_messageName i\<rparr>"

definition plain_function :: "xfunction \<Rightarrow> xfunction" where
  "plain_function f = (XFunction_new [])\<lparr>xf_name := xf_name f, xf_currentState := xf_currentState f,
     xf_nextState := xf_nextState f, xf_inputs := map plain_io (xf_inputs f), xf_outputs := map plain_io (xf_outputs f),
     xf_readOnlyVariables := xf_readOnlyVariables f, xf_readWriteVariables := xf_readWriteVariables f\<rparr>"

definition plain_agent :: "nat \<Rightarrow> xmachine \<Rightarrow> xmachine" where
  "plain_agent i a = (XMachine_setName (xa_name a) XMachine_new)\<lparr>xa_id := int i,
     xa_variables := map plain_variable (xa_variables a), xa_functions := map plain_function (xa_functions a)\<rparr>"

definition plain_message :: "nat \<Rightarrow> xmessage \<Rightarrow> xmessage" where
  "plain_message i g = XMessage_new\<lparr>xm_id := int i, xm_name := xm_name g, xm_variables := map plain_variable (xm_variables g)\<rparr>"

definition plain_model :: "(string \<Rightarrow> 'v agent_fun option) \<Rightarrow> 'w xmodel \<Rightarrow> 'v xmodel" where
  "plain_model funs m = XModel_new\<lparr>
     xo_agents := map (\<lambda>i. plain_agent i (xo_agents m ! i)) [0..<length (xo_agents m)],
     xo_funcMap := fold (\<lambda>n. omap_put n (funs n)) (function_names m) [],
     xo_messages := map (\<lambda>i. plain_message i (xo_messages m ! i)) [0..<length (xo_messages m)]\<rparr>"

definition function_key :: "xfunction \<Rightarrow> string \<times> string \<times> string" where
  "function_key f = (xf_name f, xf_currentState f, xf_nextState f)"

definition names_distinct :: "'v xmodel \<Rightarrow> bool" where
  "names_distinct m \<longleftrightarrow> distinct (map xa_name (xo_agents m)) \<and> distinct (map xm_name (xo_messages m)) \<and>
     list_all (\<lambda>a. distinct (map function_key (xa_functions a))) (xo_agents m)"

section \<open>An agent type under construction\<close>

text \<open>The object while the last agent type of its model is built.\<close>

definition with_last :: "'v xmodel \<Rightarrow> xmachine \<Rightarrow> 'v model_state" where
  "with_last m a = \<lparr>mo_model = m\<lparr>xo_agents := xo_agents m @ [a]\<rparr>, mo_validated = False\<rparr>"

lemma getAgent_last:
  assumes "xa_name a \<notin> xa_name ` set (xo_agents m)"
  shows "Model_getAgent (xa_name a) (with_last m a) = (Inr (length (xo_agents m)), with_last m a)"
proof -
  have "find_index (\<lambda>b. xa_name a = xa_name b) (xo_agents m) = None"
    using assms by (auto simp: find_index_None)
  then show ?thesis by (simp add: Model_getAgent_def XModel_getAgent_def with_last_def find_index_snoc)
qed

lemma update_last: "update_agent (length (xo_agents m)) f (with_last m a) = with_last m (f a)"
  by (simp add: update_agent_def with_last_def)

lemma addAgentVariable_last:
  assumes "xa_name a \<notin> xa_name ` set (xo_agents m)"
  shows "Model_addAgentVariable (xa_name a) t v (with_last m a) = (Inr (), with_last m (XMachine_addVariable t v a))"
  using getAgent_last [OF assms] by (simp add: Model_addAgentVariable_def bindE_def update_last)

lemma addAgentFunction_last:
  assumes "xa_name a \<notin> xa_name ` set (xo_agents m)"
  shows "Model_addAgentFunction (xa_name a) f c n (with_last m a) = (Inr (), with_last m (XMachine_addFunction f c n a))"
  using getAgent_last [OF assms] by (simp add: Model_addAgentFunction_def bindE_def update_last)

lemma with_function_last:
  assumes "xa_name a \<notin> xa_name ` set (xo_agents m)" "xa_functions a = fs @ [f]"
    and "function_key f = (n, c, t)" "(n, c, t) \<notin> function_key ` set fs" "change f = (Inr (), f')"
  shows "with_function (xa_name a) n c t change (with_last m a) = (Inr (), with_last m (a\<lparr>xa_functions := fs @ [f']\<rparr>))"
proof -
  have "find_index (\<lambda>f. xf_name f = n \<and> xf_currentState f = c \<and> xf_nextState f = t) fs = None"
    using assms(4) by (auto simp: find_index_None function_key_def image_iff)
  then have fn: "XMachine_getFunction a n c t = Inr (length fs)"
    using assms(2,3) by (simp add: XMachine_getFunction_def function_key_def find_index_snoc)
  have "xo_agents (mo_model (with_last m a)) ! length (xo_agents m) = a" by (simp add: with_last_def)
  then show ?thesis
    using fn assms(2,5) getAgent_last [OF assms(1)]
    by (simp add: with_function_def bindE_def update_last list_update_append)
qed

definition being_built :: "string \<times> string \<times> string \<Rightarrow> xfunction \<Rightarrow> bool" where
  "being_built k f \<longleftrightarrow> function_key f = k \<and> xf_memoryAccessInfoAvailable f"

lemma run_changes:
  assumes "xa_name a \<notin> xa_name ` set (xo_agents m)" "(n, c, t) \<notin> function_key ` set fs"
    and "\<And>x f. being_built (n, c, t) f \<Longrightarrow> change x f = (Inr (), upd x f) \<and> being_built (n, c, t) (upd x f)"
    and "being_built (n, c, t) f"
  shows "forE (\<lambda>x. with_function (xa_name a) n c t (change x)) xs (with_last m (a\<lparr>xa_functions := fs @ [f]\<rparr>)) =
    (Inr (), with_last m (a\<lparr>xa_functions := fs @ [fold upd xs f]\<rparr>))"
  using assms(4)
proof (induction xs arbitrary: f)
  case Nil
  then show ?case by (simp add: returnE_def)
next
  case (Cons x xs)
  have "with_function (xa_name a) n c t (change x) (with_last m (a\<lparr>xa_functions := fs @ [f]\<rparr>)) =
      (Inr (), with_last m (a\<lparr>xa_functions := fs @ [upd x f]\<rparr>))"
    using with_function_last [of "a\<lparr>xa_functions := fs @ [f]\<rparr>" m fs f n c t "change x" "upd x f"] assms(1-3) Cons.prems
    by (simp add: being_built_def)
  with Cons assms(3) show ?case by (simp add: bindE_def)
qed

lemma fold_changes:
  "fold (\<lambda>i. XFunction_addOutput (xi_messageName i)) os f = f\<lparr>xf_outputs := xf_outputs f @ map plain_io os\<rparr>"
  "fold (\<lambda>i. XFunction_addInput (xi_messageName i)) is f = f\<lparr>xf_inputs := xf_inputs f @ map plain_io is\<rparr>"
  "fold (\<lambda>v f. f\<lparr>xf_readWriteVariables := xf_readWriteVariables f @ [v]\<rparr>) ws f =
     f\<lparr>xf_readWriteVariables := xf_readWriteVariables f @ ws\<rparr>"
  "fold (\<lambda>v f. f\<lparr>xf_readOnlyVariables := xf_readOnlyVariables f @ [v]\<rparr>) rs f =
     f\<lparr>xf_readOnlyVariables := xf_readOnlyVariables f @ rs\<rparr>"
  for f :: xfunction
     apply (induction os arbitrary: f; simp add: XFunction_addOutput_def plain_io_def)
    apply (induction "is" arbitrary: f; simp add: XFunction_addInput_def plain_io_def)
   apply (induction ws arbitrary: f; simp)
  apply (induction rs arbitrary: f; simp)
  done

lemma run_function_group:
  assumes "xa_name a \<notin> xa_name ` set (xo_agents m)" "xa_name b = xa_name a"
    and "function_key f \<notin> function_key ` set (xa_functions a)"
  shows "forE (run_statement funs) (function_calls b f) (with_last m a) =
    (Inr (), with_last m (a\<lparr>xa_functions := xa_functions a @ [plain_function f]\<rparr>))"
proof -
  let ?n = "xf_name f" and ?c = "xf_currentState f" and ?t = "xf_nextState f" and ?fs = "xa_functions a"
  let ?f0 = "(XFunction_new [])\<lparr>xf_name := ?n, xf_currentState := ?c, xf_nextState := ?t\<rparr>"
  let ?f1 = "?f0\<lparr>xf_outputs := map plain_io (xf_outputs f)\<rparr>"
  let ?f2 = "?f1\<lparr>xf_inputs := map plain_io (xf_inputs f)\<rparr>"
  let ?f3 = "?f2\<lparr>xf_readWriteVariables := xf_readWriteVariables f\<rparr>"
  let ?at = "\<lambda>g. with_last m (a\<lparr>xa_functions := ?fs @ [g]\<rparr>)"
  have key: "(?n, ?c, ?t) \<notin> function_key ` set ?fs" using assms(3) by (simp add: function_key_def)
  note run = run_changes [OF assms(1) key]
  have 0: "run_statement funs (AddAgentFunction (xa_name a) ?n ?c ?t) (with_last m a) = (Inr (), ?at ?f0)"
    using addAgentFunction_last [OF assms(1)] by (simp add: XMachine_addFunction_def)
  have 1: "forE (\<lambda>i. run_statement funs (AddAgentFunctionOutput (xa_name a) ?n ?c ?t (xi_messageName i))) (xf_outputs f) (?at ?f0) =
      (Inr (), ?at ?f1)"
    using run [of "\<lambda>i g. (Inr (), XFunction_addOutput (xi_messageName i) g)" "\<lambda>i. XFunction_addOutput (xi_messageName i)" ?f0 "xf_outputs f"]
    by (simp add: Model_addAgentFunctionOutput_def fold_changes being_built_def function_key_def XFunction_new_def XFunction_addOutput_def)
  have 2: "forE (\<lambda>i. run_statement funs (AddAgentFunctionInput (xa_name a) ?n ?c ?t (xi_messageName i))) (xf_inputs f) (?at ?f1) =
      (Inr (), ?at ?f2)"
    using run [of "\<lambda>i g. (Inr (), XFunction_addInput (xi_messageName i) g)" "\<lambda>i. XFunction_addInput (xi_messageName i)" ?f1 "xf_inputs f"]
    by (simp add: Model_addAgentFunctionInput_def fold_changes being_built_def function_key_def XFunction_new_def XFunction_addInput_def)
  have 3: "forE (\<lambda>v. run_statement funs (AddAgentFunctionReadWriteVariable (xa_name a) ?n ?c ?t v)) (xf_readWriteVariables f) (?at ?f2) =
      (Inr (), ?at ?f3)"
    using run [of XFunction_addReadWriteVariable "\<lambda>v f. f\<lparr>xf_readWriteVariables := xf_readWriteVariables f @ [v]\<rparr>" ?f2 "xf_readWriteVariables f"]
    by (simp add: Model_addAgentFunctionReadWriteVariable_def fold_changes being_built_def function_key_def XFunction_new_def
        XFunction_addReadWriteVariable_def)
  have 4: "forE (\<lambda>v. run_statement funs (AddAgentFunctionReadOnlyVariable (xa_name a) ?n ?c ?t v)) (xf_readOnlyVariables f) (?at ?f3) =
      (Inr (), ?at (plain_function f))"
    using run [of XFunction_addReadOnlyVariable "\<lambda>v f. f\<lparr>xf_readOnlyVariables := xf_readOnlyVariables f @ [v]\<rparr>" ?f3 "xf_readOnlyVariables f"]
    by (simp add: Model_addAgentFunctionReadOnlyVariable_def fold_changes being_built_def function_key_def XFunction_new_def
        XFunction_addReadOnlyVariable_def plain_function_def)
  show ?thesis
    using 0 1 2 3 4 assms(2)
    by (simp add: function_calls_def Let_def forE_append forE_map bindE_def comp_def)
qed

lemma run_function_groups:
  assumes "xa_name a \<notin> xa_name ` set (xo_agents m)" "xa_name b = xa_name a"
    and "distinct (map function_key (xa_functions a @ fs))"
  shows "forE (run_statement funs) (concat (map (function_calls b) fs)) (with_last m a) =
    (Inr (), with_last m (a\<lparr>xa_functions := xa_functions a @ map plain_function fs\<rparr>))"
  using assms
proof (induction fs arbitrary: a)
  case Nil
  then show ?case by (simp add: returnE_def)
next
  case (Cons f fs)
  let ?a = "a\<lparr>xa_functions := xa_functions a @ [plain_function f]\<rparr>"
  have "function_key (plain_function f) = function_key f" by (simp add: function_key_def plain_function_def)
  then have "distinct (map function_key (xa_functions ?a @ fs))" using Cons.prems(3) by simp
  with Cons.IH [of ?a] Cons.prems
  have "forE (run_statement funs) (concat (map (function_calls b) fs)) (with_last m ?a) =
      (Inr (), with_last m (?a\<lparr>xa_functions := xa_functions ?a @ map plain_function fs\<rparr>))"
    by (simp del: append_assoc)
  moreover have "forE (run_statement funs) (function_calls b f) (with_last m a) = (Inr (), with_last m ?a)"
    using Cons.prems by (intro run_function_group) auto
  ultimately show ?case by (simp add: forE_append bindE_def)
qed

definition agent_code :: "xmachine \<Rightarrow> statement list" where
  "agent_code a = agent_calls a @ concat (map (function_calls a) (xa_functions a))"

definition unvalidated :: "'v xmodel \<Rightarrow> 'v model_state" where
  "unvalidated m = \<lparr>mo_model = m, mo_validated = False\<rparr>"

lemma run_agent_part:
  assumes "xa_name a \<notin> xa_name ` set (xo_agents m)" "distinct (map function_key (xa_functions a))"
  shows "forE (run_statement funs) (agent_code a) (unvalidated m) =
    (Inr (), unvalidated (m\<lparr>xo_agents := xo_agents m @ [plain_agent (length (xo_agents m)) a]\<rparr>))"
proof -
  let ?n = "length (xo_agents m)"
  let ?a0 = "(XMachine_setName (xa_name a) XMachine_new)\<lparr>xa_id := int ?n\<rparr>"
  let ?a1 = "?a0\<lparr>xa_variables := map plain_variable (xa_variables a)\<rparr>"
  have name: "xa_name ?a0 = xa_name a" by (simp add: XMachine_setName_def)
  have "find_index (\<lambda>b. xa_name a = xa_name b) (xo_agents m) = None" using assms(1) by (auto simp: find_index_None)
  then have 0: "run_statement funs (AddAgent (xa_name a)) (unvalidated m) = (Inr (), with_last m ?a0)"
    by (simp add: Model_addAgent_def XModel_addAgent_def XModel_getAgent_def with_last_def unvalidated_def)
  have 1: "forE (\<lambda>v. run_statement funs (AddAgentVariable (xa_name a) (xv_type v) (xv_name v))) vs (with_last m b) =
      (Inr (), with_last m (b\<lparr>xa_variables := xa_variables b @ map plain_variable vs\<rparr>))" if "xa_name b = xa_name a" for vs b
    using that
  proof (induction vs arbitrary: b)
    case (Cons v vs)
    then show ?case using addAgentVariable_last [of b m] assms(1)
      by (simp add: bindE_def XMachine_addVariable_def plain_variable_def)
  qed (simp add: returnE_def)
  have "xa_functions ?a1 = []" "xa_variables ?a0 = []" by (simp_all add: XMachine_setName_def XMachine_new_def)
  then show ?thesis
    using 0 1 [OF name, of "xa_variables a"] run_function_groups [of ?a1 m a "xa_functions a" funs] assms name
    by (simp add: agent_code_def agent_calls_def forE_append forE_map bindE_def plain_agent_def)
      (simp add: with_last_def unvalidated_def)
qed

lemma run_agent_parts:
  assumes "distinct (map xa_name (xo_agents m @ as))" "list_all (\<lambda>a. distinct (map function_key (xa_functions a))) as"
  shows "forE (run_statement funs) (concat (map agent_code as)) (unvalidated m) =
    (Inr (), unvalidated (m\<lparr>xo_agents := xo_agents m @ map (\<lambda>i. plain_agent (length (xo_agents m) + i) (as ! i)) [0..<length as]\<rparr>))"
  using assms
proof (induction as arbitrary: m)
  case Nil
  then show ?case by (simp add: returnE_def)
next
  case (Cons a as)
  let ?m = "m\<lparr>xo_agents := xo_agents m @ [plain_agent (length (xo_agents m)) a]\<rparr>"
  have "xa_name (plain_agent n a) = xa_name a" for n by (simp add: plain_agent_def XMachine_setName_def)
  then have "distinct (map xa_name (xo_agents ?m @ as))" using Cons.prems(1) by simp
  with Cons.IH [of ?m] Cons.prems(2)
  have "forE (run_statement funs) (concat (map agent_code as)) (unvalidated ?m) = (Inr (), unvalidated (?m\<lparr>xo_agents :=
      xo_agents ?m @ map (\<lambda>i. plain_agent (length (xo_agents ?m) + i) (as ! i)) [0..<length as]\<rparr>))"
    by (simp del: append_assoc)
  moreover have "forE (run_statement funs) (agent_code a) (unvalidated m) = (Inr (), unvalidated ?m)"
    using Cons.prems by (intro run_agent_part) auto
  moreover have "map (\<lambda>i. plain_agent (length (xo_agents m) + i) ((a # as) ! i)) [0..<length (a # as)] =
      plain_agent (length (xo_agents m)) a # map (\<lambda>i. plain_agent (Suc (length (xo_agents m)) + i) (as ! i)) [0..<length as]"
    by (simp add: upt_conv_Cons map_Suc_upt [symmetric] del: upt_Suc)
  ultimately show ?case by (simp add: forE_append bindE_def del: upt_Suc)
qed

lemma run_registrations:
  "forE (run_statement funs) (map RegisterAgentFunction ns) (unvalidated m) =
    (Inr (), unvalidated (m\<lparr>xo_funcMap := fold (\<lambda>n. omap_put n (funs n)) ns (xo_funcMap m)\<rparr>))"
  if "omap_ok (xo_funcMap m)" "\<forall>n f. map_of (xo_funcMap m) n = Some f \<longrightarrow> f = funs n"
  using that
proof (induction ns arbitrary: m)
  case (Cons n ns)
  let ?m = "m\<lparr>xo_funcMap := omap_put n (funs n) (xo_funcMap m)\<rparr>"
  have "XModel_registerAgentFunction n (funs n) m = ?m"
  proof (cases "map_of (xo_funcMap m) n")
    case None
    then show ?thesis by (simp add: XModel_registerAgentFunction_def omap_has_def)
  next
    case (Some f)
    then have "omap_put n (funs n) (xo_funcMap m) = xo_funcMap m" using Cons.prems omap_put_same by metis
    then show ?thesis using Some by (simp add: XModel_registerAgentFunction_def omap_has_def)
  qed
  then have "run_statement funs (RegisterAgentFunction n) (unvalidated m) = (Inr (), unvalidated ?m)"
    by (simp add: Model_registerAgentFunction_def unvalidated_def)
  moreover have "forE (run_statement funs) (map RegisterAgentFunction ns) (unvalidated ?m) =
      (Inr (), unvalidated (?m\<lparr>xo_funcMap := fold (\<lambda>n. omap_put n (funs n)) ns (xo_funcMap ?m)\<rparr>))"
    by (rule Cons.IH) (use Cons.prems in simp_all)
  ultimately show ?case by (simp add: bindE_def)
qed (simp add: returnE_def)

lemma run_message_group:
  assumes "xm_name g \<notin> xm_name ` set (xo_messages m)"
  shows "forE (run_statement funs) (message_calls g) (unvalidated m) =
    (Inr (), unvalidated (m\<lparr>xo_messages := xo_messages m @ [plain_message (length (xo_messages m)) g]\<rparr>))"
proof -
  let ?n = "length (xo_messages m)"
  let ?g0 = "XMessage_new\<lparr>xm_id := int ?n, xm_name := xm_name g\<rparr>"
  let ?at = "\<lambda>h. unvalidated (m\<lparr>xo_messages := xo_messages m @ [h]\<rparr>)"
  have 0: "run_statement funs (AddMessage (xm_name g)) (unvalidated m) = (Inr (), ?at ?g0)"
    by (simp add: Model_addMessage_def XModel_addMessage_def unvalidated_def)
  have none: "find_index (\<lambda>h. xm_name g = xm_name h) (xo_messages m) = None" using assms by (auto simp: find_index_None)
  have 1: "forE (\<lambda>v. run_statement funs (AddMessageVariable (xm_name g) (xv_type v) (xv_name v))) vs (?at h) =
      (Inr (), ?at (h\<lparr>xm_variables := xm_variables h @ map plain_variable vs\<rparr>))" if "xm_name h = xm_name g" for vs h
    using that
  proof (induction vs arbitrary: h)
    case (Cons v vs)
    have "run_statement funs (AddMessageVariable (xm_name g) (xv_type v) (xv_name v)) (?at h) =
        (Inr (), ?at (XMessage_addVariable (xv_type v) (xv_name v) h))"
      using none Cons.prems by (simp add: Model_addMessageVariable_def XModel_getMessage_def unvalidated_def find_index_snoc Let_def)
    with Cons show ?case by (simp add: bindE_def XMessage_addVariable_def plain_variable_def)
  qed (simp add: returnE_def)
  show ?thesis
    using 0 1 [of ?g0 "xm_variables g"]
    by (simp add: message_calls_def forE_append forE_map bindE_def returnE_def plain_message_def XMessage_new_def)
qed

lemma run_message_groups:
  assumes "distinct (map xm_name (xo_messages m @ gs))"
  shows "forE (run_statement funs) (concat (map message_calls gs)) (unvalidated m) =
    (Inr (), unvalidated (m\<lparr>xo_messages := xo_messages m @ map (\<lambda>i. plain_message (length (xo_messages m) + i) (gs ! i)) [0..<length gs]\<rparr>))"
  using assms
proof (induction gs arbitrary: m)
  case Nil
  then show ?case by (simp add: returnE_def)
next
  case (Cons g gs)
  let ?m = "m\<lparr>xo_messages := xo_messages m @ [plain_message (length (xo_messages m)) g]\<rparr>"
  have "distinct (map xm_name (xo_messages ?m @ gs))" using Cons.prems by (simp add: plain_message_def)
  with Cons.IH [of ?m]
  have "forE (run_statement funs) (concat (map message_calls gs)) (unvalidated ?m) = (Inr (), unvalidated (?m\<lparr>xo_messages :=
      xo_messages ?m @ map (\<lambda>i. plain_message (length (xo_messages ?m) + i) (gs ! i)) [0..<length gs]\<rparr>))"
    by (simp del: append_assoc)
  moreover have "forE (run_statement funs) (message_calls g) (unvalidated m) = (Inr (), unvalidated ?m)"
    using Cons.prems by (intro run_message_group) auto
  moreover have "map (\<lambda>i. plain_message (length (xo_messages m) + i) ((g # gs) ! i)) [0..<length (g # gs)] =
      plain_message (length (xo_messages m)) g # map (\<lambda>i. plain_message (Suc (length (xo_messages m)) + i) (gs ! i)) [0..<length gs]"
    by (simp add: upt_conv_Cons map_Suc_upt [symmetric] del: upt_Suc)
  ultimately show ?case by (simp add: forE_append bindE_def del: upt_Suc)
qed

lemma main_statements_parts:
  "main_statements m = concat (map agent_code (xo_agents m)) @ map RegisterAgentFunction (function_names m) @
     concat (map message_calls (xo_messages m))"
proof -
  have "concat (concat (map (\<lambda>a. agent_calls a # map (function_calls a) (xa_functions a)) as)) = concat (map agent_code as)" for as
    by (induction as) (simp_all add: agent_code_def)
  then show ?thesis by (simp add: main_statements_def main_groups_def)
qed

lemma run_plain:
  assumes "names_distinct m"
  shows "run_statements funs (main_statements m) Model_new =
    (Inr (), \<lparr>mo_model = plain_model funs m, mo_validated = False\<rparr>)"
proof -
  let ?m0 = "XModel_new"
  let ?m1 = "?m0\<lparr>xo_agents := map (\<lambda>i. plain_agent i (xo_agents m ! i)) [0..<length (xo_agents m)]\<rparr>"
  let ?m2 = "?m1\<lparr>xo_funcMap := fold (\<lambda>n. omap_put n (funs n)) (function_names m) []\<rparr>"
  have new: "Model_new = unvalidated ?m0" by (simp add: Model_new_def unvalidated_def)
  have empty: "xo_agents ?m0 = []" "xo_messages ?m0 = []" "xo_funcMap ?m0 = []" by (simp_all add: XModel_new_def)
  have 1: "forE (run_statement funs) (concat (map agent_code (xo_agents m))) (unvalidated ?m0) = (Inr (), unvalidated ?m1)"
    using run_agent_parts [of ?m0 "xo_agents m" funs] assms by (simp add: names_distinct_def empty)
  have 2: "forE (run_statement funs) (map RegisterAgentFunction (function_names m)) (unvalidated ?m1) = (Inr (), unvalidated ?m2)"
    using run_registrations [of ?m1 funs "function_names m"] by (simp add: empty)
  have 3: "forE (run_statement funs) (concat (map message_calls (xo_messages m))) (unvalidated ?m2) =
      (Inr (), unvalidated (plain_model funs m))"
    using run_message_groups [of ?m2 "xo_messages m" funs] assms by (simp add: names_distinct_def empty plain_model_def)
  show ?thesis
    using 1 2 3 by (simp add: run_statements_def main_statements_parts forE_append new bindE_def) (simp add: unvalidated_def)
qed

section \<open>Properties\<close>


definition flow_function :: "string \<Rightarrow> string list \<Rightarrow> xcondition option \<Rightarrow> xfunction" where
  "flow_function name msgs c = (XFunction_new [])\<lparr>xf_name := name, xf_currentState := ''0'', xf_nextState := ''1'',
     xf_outputs := map (\<lambda>g. XIOput_new\<lparr>xi_messageName := g\<rparr>) msgs, xf_condition := c, xf_readWriteVariables := [''x'']\<rparr>"

definition flow_model :: "xfunction list \<Rightarrow> unit xmodel" where
  "flow_model fs = XModel_new\<lparr>xo_functionFiles := [''f.cpp''],
     xo_agents := [(XMachine_setName ''A'' XMachine_new)\<lparr>xa_variables := [new_variable ''int'' ''x''], xa_functions := fs\<rparr>],
     xo_messages := [XMessage_new\<lparr>xm_name := ''m'', xm_variables := [new_variable ''int'' ''y'']\<rparr>]\<rparr>"

lemmas flow_simps = flow_function_def flow_model_def XFunction_new_def XIOput_new_def XModel_new_def XMachine_setName_def
  XMachine_new_def XMessage_new_def new_variable_def XVariable_new_def


definition choice :: "string \<Rightarrow> xcondition option" where
  "choice op = Some (XCondition (cond_init\<lparr>xc_lhs := ''a.x'', xc_op := op, xc_rhs := ''a.x'', xc_lhsIsValue := True,
     xc_rhsIsValue := True\<rparr>) None None)"

definition choice_model :: "unit xmodel" where
  "choice_model = flow_model [flow_function ''f'' [] (choice ''EQ''), flow_function ''g'' [] (choice ''NEQ'')]"

lemma choice_model_valid:
  "\<exists>m'. XModel_validate simple_library choice_model = Inr (0, m') \<and> main_statements m' = main_statements choice_model"
proof -
  have "(case XModel_validate simple_library choice_model of Inl _ \<Rightarrow> False
      | Inr (n, m') \<Rightarrow> n = 0 \<and> main_statements m' = main_statements choice_model)" by code_simp
  then show ?thesis by (auto split: sum.splits)
qed

lemma rebuilt_choice_invalid:
  "\<exists>mo'. Model_validate simple_library \<lparr>mo_model = plain_model (\<lambda>_. None) choice_model, mo_validated = False\<rparr> =
     (Inl (flame_model_exception ''Model could not be validated''), mo' :: unit model_state)"
proof -
  have "(case Model_validate simple_library \<lparr>mo_model = plain_model (\<lambda>_. None) choice_model, mo_validated = False\<rparr> of
      (Inr _, _) \<Rightarrow> False | (Inl e, _ :: unit model_state) \<Rightarrow> e = flame_model_exception ''Model could not be validated'')" by code_simp
  then show ?thesis by (auto split: prod.splits sum.splits)
qed


text \<open>
  A model with an agent type that has two variables of one name, or a function that names a
  message or a variable twice in one of its lists, makes the generator stop with an exception
  before it has written a file; validation does not reject all of them.
\<close>

theorem duplicate_names_stop_generation:
  assumes "ge_directory env (ge_cwd env)" "\<not> list_all agent_generable (xo_agents m)"
  shows "\<exists>e. build_output env m w = (Inl (logic_error e), w)"
  using assms by (rule build_output_duplicates)

definition sample_env :: generator_env where
  "sample_env = \<lparr>ge_read = (\<lambda>_. Some ''text''), ge_regular = (\<lambda>_. True), ge_directory = (\<lambda>_. True),
     ge_can_write = (\<lambda>_. True), ge_join = (\<lambda>d n. d @ ''/'' @ n), ge_cwd = ''out'', ge_pkgdatadir = None, ge_rand = id\<rparr>"

definition repeated_variable :: "unit xmodel" where
  "repeated_variable = flow_model [(flow_function ''f'' [] None)\<lparr>xf_readWriteVariables := [''x'', ''x'']\<rparr>]"

theorem duplicate_names_stop_generation_witness:
  "\<exists>m' e. XModel_validate simple_library repeated_variable = Inr (0, m') \<and>
     build_output sample_env m' \<lparr>gw_files = [], gw_rands = 0\<rparr> = (Inl (logic_error e), \<lparr>gw_files = [], gw_rands = 0\<rparr>)"
proof -
  have "(case XModel_validate simple_library repeated_variable of Inl _ \<Rightarrow> False
      | Inr (n, m') \<Rightarrow> n = 0 \<and> map (\<lambda>a. map xf_readWriteVariables (xa_functions a)) (xo_agents m') = [[[''x'', ''x'']]])" by code_simp
  then obtain m' where m': "XModel_validate simple_library repeated_variable = Inr (0, m')"
      "map (\<lambda>a. map xf_readWriteVariables (xa_functions a)) (xo_agents m') = [[[''x'', ''x'']]]"
    by (auto split: sum.splits)
  then have bad: "\<not> list_all agent_generable (xo_agents m')"
    by (auto simp: map_eq_Cons_conv agent_generable_def function_generable_def)
  have "ge_directory sample_env (ge_cwd sample_env)" by (simp add: sample_env_def)
  from duplicate_names_stop_generation [OF this bad] m'(1) show ?thesis by blast
qed


definition tiny_model :: "unit xmodel" where
  "tiny_model = (flow_model [flow_function ''f'' [''m''] None])\<lparr>xo_name := ''flow''\<rparr>"

lemma tiny_model_ok: "described_model tiny_model" "model_lines tiny_model" "model_generable tiny_model"
  by (simp_all add: tiny_model_def flow_simps described_model_def described_agent_def described_variable_def
      described_function_def described_output_def described_timeunits_def model_lines_def xfunction_lines_def variable_lines_def single_line_def
      model_generable_def agent_generable_def function_generable_def message_generable_def)

lemma sample_env_ready:
  "generator_ready sample_env ''text'' ''text'' ''text''"
  "ge_regular sample_env file" "print_template sample_env name = Inr ''text''"
  by (simp_all add: sample_env_def generator_ready_def template_text_def locate_template_def get_cstr_from_file_def
      print_template_def Printer_PrintRawFromFile_def Printer_PrintRaw_def Printer_write_def Printer_new_def Let_def)

definition tiny_io :: "(nat, unit, unit, unit, unit) io_library" where
  "tiny_io = (verdict_library 0)\<lparr>io_models := \<lparr>mf_exists = (\<lambda>_. True), mf_parse = (\<lambda>_. Some (model_tree tiny_model)),
     mf_absolute = id, mf_parent = id\<rparr>\<rparr>"


end
