(* ===== verification/Spec2Isabelle.thy ===== *)
theory Spec2Isabelle
  imports Agent_API Splitting Simulation_Runs Rebuilt_Model
begin

text \<open>
  FLAME II runs agent based models on shared memory. A model describes agent types: their
  variables, their states, and transition functions from state to state that read and write
  variables and exchange messages. The program validates the description, derives from it a
  graph of tasks, and in every iteration runs the tasks on worker threads in an order that the
  graph allows.

  \<^bold>\<open>Memory and messages.\<close> \<open>Vector_Wrapper\<close> and \<open>Agent_Memory\<close> model \<open>src/flame2/mem\<close>: typed
  columns, one entry per agent, registered by name until they are first accessed;
  \<open>Memory_Iterator\<close> models the cursor a task has over a slice of the agents. \<open>Message_Board\<close>
  models a board of \<open>src/flame2/mb\<close> with its writers on an explicit store (a writer is shared
  between the board and a task) and its iterators, and relates it to an abstract board of
  visible and pending messages; \<open>Board_Manager\<close> adds the manager, proxies and clients.
  \<open>Agent_API\<close> models the calls of a transition function (\<open>src/flame2/api\<close>) and the exceptions
  they are turned into.

  \<^bold>\<open>Tasks and their execution.\<close> \<open>Tasks\<close> models the task classes of \<open>src/flame2/exe\<close> and what
  running them does; \<open>Agent_Runs\<close> shows that an agent task calls its function once per agent of
  its slice and leaves other agents and boards alone; \<open>Splitting\<close> shows that the sub-tasks of a
  task partition its slice and do not interfere. \<open>Task_Manager\<close> has the dependency graph and the
  bookkeeping of an iteration, \<open>Task_Queues\<close> the two queues behind one locale \<open>task_queue\<close>,
  \<open>Scheduler\<close> the scheduler and the worker threads as a step relation over all interleavings,
  with an invariant that every step keeps, and \<open>Iteration\<close> the consequences for a whole
  iteration, from the set-up of \<open>src/flame2/sim\<close> on: tasks are run once, after the tasks they
  depend on, and the iteration ends. \<open>Simulation_Runs\<close> models \<open>simulation.cpp\<close> as a whole, with the
  loop over the iterations and its counter of 32 bits.

  \<^bold>\<open>From the model to the task graph.\<close> \<open>Model_Data\<close> has the classes of \<open>src/flame2/model\<close> as records
  with their operations, \<open>Conditions\<close> the processing and validation of conditions and filters,
  \<open>Validation\<close> all checks of \<open>xmodel_validate.cpp\<close>, \<open>Model_Class\<close> the class \<open>Model\<close>. \<open>Model_Graph\<close>
  has the graph of \<open>xgraph.cpp\<close>, its edits and its registration with the task manager,
  \<open>Graph_Derivation\<close> the derivation of the task graph from the transition functions.
  \<open>Graph_Library\<close> states what is relied on of the Boost graph algorithms. \<open>Data_Dependencies\<close>,
  \<open>Graph_Paths\<close>, \<open>State_Graph\<close>, \<open>Dependency_Graph\<close> and \<open>State_Generation\<close> follow the derivation step
  by step: the invariant is that two tasks that access a variable, one of them writing it, are
  connected by dependencies in the order of the states. \<open>Validated_Models\<close> puts validation and
  derivation together.

  \<^bold>\<open>Input and output.\<close> A document is a tree (\<open>xml\<close> of \<open>Xml_Documents\<close>); a writer of libxml2 is the list
  of the calls made on it, a pull reader the list of nodes it reports, and the theories relate
  both to trees. \<open>Data_Schema\<close> models the schema of a model that populations are validated with,
  \<open>Population_Output\<close> the writing of a population (\<open>write_loop\<close> may not end, so it is a
  \<open>partial_function\<close> into \<open>option\<close>), \<open>Population_Input\<close> the reading, \<open>Population_Files\<close> puts them
  together: a population that is written is read back. \<open>Model_Input\<close> models the reading of a model
  description, \<open>Model_Documents\<close> the documents that describe a model and that they are read back,
  \<open>Model_Files\<close> models that include others, with a bound on the depth of nested files: one more
  than the number of absolute paths is enough. \<open>IO_Manager\<close> models \<open>io_manager.cpp\<close>.

  \<^bold>\<open>The code generator.\<close> \<open>Printer\<close> models \<open>src/xparser2/printer.cpp\<close> and shows that printing is
  substitution followed by indentation. \<open>Code_Generators\<close> has the generators of
  \<open>src/xparser2/codegen\<close>, \<open>Generated_Code\<close> the text each prints, \<open>Xparser\<close> the writing of files and
  the program \<open>xparser2.cpp\<close>. \<open>Generated_Program\<close> gives the contents of the five files, and
  \<open>Rebuilt_Model\<close> runs the generated statements on the class \<open>Model\<close> of \<open>Model_Class\<close>: they rebuild
  the agent types, functions and messages of the model, without conditions.

  \<^bold>\<open>Conventions.\<close> Class members are record fields; a computation that may throw returns the
  error and the state it leaves (\<open>exec\<close>), or only the error (\<open>exn + 'a\<close>); \<open>UB\<close> marks undefined
  behaviour such as a null pointer that is followed. A \<open>std::set\<close> or \<open>std::map\<close> is a sorted list
  with the operations \<open>oset\<close> and \<open>omap\<close> of \<open>Prelude\<close>. \<open>size_t\<close> is a word of 64 bits where its
  wrap-around can matter; C++ \<open>double\<close>s are reals that are stored and printed but not computed
  with. \<open>build\<close> selects the code under \<open>DEBUG\<close>. Locales are stated for the interfaces between
  components and interpreted on the code's model: the tables of names (\<open>registry\<close> of \<open>Prelude\<close>), the
  task queues (\<open>Task_Queues\<close>), the maps that the derivation accumulates (\<open>Data_Dependencies\<close>), the
  lists of the code generators (\<open>name_list\<close> of \<open>Code_Generators\<close>). Loops that are not structurally recursive
  have a measure; the step relation of \<open>Scheduler\<close> is shown well-founded.

  \<^bold>\<open>Parameters.\<close> The transition functions of a model are arguments, as is the IO backend of a
  task (\<open>io_backend\<close>). The Boost graph algorithms and \<open>boost::lexical_cast\<close> are the record
  \<open>library\<close>, with \<open>sorts_topologically\<close>, \<open>keeps_paths\<close> and \<open>finds_cycles\<close> as what is documented of
  the former; \<open>simple_library\<close> fulfils them. Of libxml2, the codes its writer returns
  (\<open>writer_codes\<close>), the nodes of its reader, the trees of its parser (\<open>model_files\<close>) and its schema
  validator (\<open>schema_library\<close>) are parameters, put together in \<open>io_library\<close> of \<open>IO_Manager\<close>; what
  \<open>printf\<close> and \<open>boost::lexical_cast\<close> make of numbers is \<open>text_format\<close>. The files, templates and paths
  that the code generator uses and the numbers of \<open>rand\<close> are \<open>generator_env\<close> of \<open>Code_Generators\<close>.

  \<^bold>\<open>Not modelled.\<close> The printing of models, graphs (graphviz) and messages on the console; the code
  under \<open>USE_VARIABLE_VERTICES\<close>, which no build file defines; code that is commented out, such as
  the generation of conditions; \<open>print_element_names\<close> of \<open>io_xml_model.cpp\<close>, which nothing calls; the
  arguments of the generated programs, whose templates are text; thread and lock primitives
  below the atomic operations of the queues; tests, build files and vendored code.
\<close>

end
